(* ===== verification/Prelude.thy ===== *)
theory Prelude
  imports Main "HOL-Library.Multiset" "HOL-Library.Monad_Syntax"
begin

text \<open>
  Shared vocabulary of the development: the error values that stand for thrown exceptions, the
  result type of an \<^verbatim>\<open>async\<close> method, JavaScript's truthiness defaults, decimal
  printing of numbers, the \<^verbatim>\<open>split\<close>, \<^verbatim>\<open>join\<close> and ISO-date
  operations of the standard library that the services use, and the generic lemmas on lists and
  sums that the component theories share. The named collections below are filled by the
  components, so that a proof of one component can cite another component's rules by one name.
\<close>

named_theorems js_defs \<open>definitions of JavaScript helper operations\<close>
named_theorems repo_laws \<open>laws of the repository interface\<close>
named_theorems redis_laws \<open>laws of the Redis interface\<close>

section \<open>Errors and results\<close>

text \<open>
  The exception classes that the backend throws. The string is the exception's message; the
  number of an \<open>HttpExc\<close> is its HTTP status.
\<close>

datatype js_error =
    Error string
  | WorkflowTimeoutError string
  | UnauthorizedException string
  | NotFoundException string
  | BadRequestException string
  | ConflictException string
  | ForbiddenException string
  | HttpException string nat

fun message :: "js_error \<Rightarrow> string" where
  "message (Error m) = m"
| "message (WorkflowTimeoutError m) = m"
| "message (UnauthorizedException m) = m"
| "message (NotFoundException m) = m"
| "message (BadRequestException m) = m"
| "message (ConflictException m) = m"
| "message (ForbiddenException m) = m"
| "message (HttpException m _) = m"

fun is_timeout :: "js_error \<Rightarrow> bool" where
  "is_timeout (WorkflowTimeoutError _) = True"
| "is_timeout _ = False"

text \<open>
  A method that reads and writes a state \<open>'s\<close> and either throws or returns: the state is
  returned in both cases, because what was written before a throw stays written.
\<close>

type_synonym ('s, 'a) action = "'s \<Rightarrow> (js_error + 'a) \<times> 's"

definition ret :: "'a \<Rightarrow> ('s, 'a) action" where
  "ret a s = (Inr a, s)"

definition throw :: "js_error \<Rightarrow> ('s, 'a) action" where
  "throw e s = (Inl e, s)"

definition andThen :: "('s, 'a) action \<Rightarrow> ('a \<Rightarrow> ('s, 'b) action) \<Rightarrow> ('s, 'b) action" where
  "andThen m f s = (case m s of (Inl e, s') \<Rightarrow> (Inl e, s') | (Inr a, s') \<Rightarrow> f a s')"

definition catch :: "('s, 'a) action \<Rightarrow> (js_error \<Rightarrow> ('s, 'a) action) \<Rightarrow> ('s, 'a) action" where
  "catch m h s = (case m s of (Inl e, s') \<Rightarrow> h e s' | (Inr a, s') \<Rightarrow> (Inr a, s'))"

definition modify :: "('s \<Rightarrow> 's) \<Rightarrow> ('s, unit) action" where
  "modify f s = (Inr (), f s)"

definition gets :: "('s \<Rightarrow> 'a) \<Rightarrow> ('s, 'a) action" where
  "gets f s = (Inr (f s), s)"

text \<open>\<^verbatim>\<open>for (const x of xs) await f(x)\<close>: the first throw ends the loop.\<close>

fun forEach :: "('a \<Rightarrow> ('s, unit) action) \<Rightarrow> 'a list \<Rightarrow> ('s, unit) action" where
  "forEach f [] s = (Inr (), s)"
| "forEach f (x # xs) s = (case f x s of (Inl e, s') \<Rightarrow> (Inl e, s') | (Inr _, s') \<Rightarrow> forEach f xs s')"

text \<open>The same loop with a \<^verbatim>\<open>try\<close>/\<^verbatim>\<open>catch\<close> around its body that only logs.\<close>

fun forEachLogged :: "('a \<Rightarrow> ('s, unit) action) \<Rightarrow> 'a list \<Rightarrow> 's \<Rightarrow> 's" where
  "forEachLogged f [] s = s"
| "forEachLogged f (x # xs) s = forEachLogged f xs (snd (f x s))"

lemmas action_defs = ret_def throw_def andThen_def catch_def modify_def gets_def

lemma forEachLogged_inv:
  assumes "I s" and "\<And>x s. x \<in> set xs \<Longrightarrow> I s \<Longrightarrow> I (snd (f x s))"
  shows "I (forEachLogged f xs s)"
  using assms by (induction xs arbitrary: s) auto

lemma forEach_inv:
  assumes "I s" and "\<And>x s. x \<in> set xs \<Longrightarrow> I s \<Longrightarrow> I (snd (f x s))"
  shows "I (snd (forEach f xs s))"
  using assms
proof (induction xs arbitrary: s)
  case (Cons x xs)
  then have step: "I (snd (f x s))" by simp
  obtain r s' where fx: "f x s = (r, s')" by (cases "f x s")
  with step have "I s'" by simp
  with Cons fx show ?case by (cases r) auto
qed simp

section \<open>JavaScript operations\<close>

text \<open>\<^verbatim>\<open>x || d\<close> on an optional number: \<^verbatim>\<open>undefined\<close> and 0 are falsy.\<close>

definition numOr :: "nat option \<Rightarrow> nat \<Rightarrow> nat" where
  [js_defs]: "numOr x d = (case x of None \<Rightarrow> d | Some n \<Rightarrow> (if n = 0 then d else n))"

text \<open>\<^verbatim>\<open>x || d\<close> on an optional string: \<^verbatim>\<open>undefined\<close> and the empty string are falsy.\<close>

definition strOr :: "string option \<Rightarrow> string \<Rightarrow> string" where
  [js_defs]: "strOr x d = (case x of None \<Rightarrow> d | Some s \<Rightarrow> (if s = [] then d else s))"

definition strTruthy :: "string option \<Rightarrow> bool" where
  [js_defs]: "strTruthy x = (case x of None \<Rightarrow> False | Some s \<Rightarrow> s \<noteq> [])"

lemma numOr_pos: "0 < d \<Longrightarrow> 0 < numOr x d"
  by (auto simp: numOr_def split: option.splits)

text \<open>Decimal digits of a number, as template literals print it.\<close>

definition digitChar :: "nat \<Rightarrow> char" where
  "digitChar d = char_of (48 + d)"

fun showNat :: "nat \<Rightarrow> string" where
  "showNat n = (if n < 10 then [digitChar n] else showNat (n div 10) @ [digitChar (n mod 10)])"

declare showNat.simps [simp del]

definition showInt :: "int \<Rightarrow> string" where
  "showInt i = (if i < 0 then ''-'' @ showNat (nat (- i)) else showNat (nat i))"

text \<open>\<^verbatim>\<open>s.padStart(k, '0')\<close>, used by the ISO date format.\<close>

definition pad0 :: "nat \<Rightarrow> string \<Rightarrow> string" where
  "pad0 k s = replicate (k - length s) (CHR ''0'') @ s"

text \<open>\<^verbatim>\<open>s.split(c)\<close> for a one-character separator, and its inverse \<^verbatim>\<open>join\<close>.\<close>

fun splitOn :: "char \<Rightarrow> string \<Rightarrow> string list" where
  "splitOn c [] = [[]]"
| "splitOn c (x # xs) =
     (if x = c then [] # splitOn c xs
      else (case splitOn c xs of [] \<Rightarrow> [[x]] | p # ps \<Rightarrow> (x # p) # ps))"

fun joinWith :: "char \<Rightarrow> string list \<Rightarrow> string" where
  "joinWith c [] = []"
| "joinWith c [p] = p"
| "joinWith c (p # q # ps) = p @ c # joinWith c (q # ps)"

lemma splitOn_neq_Nil [simp]: "splitOn c s \<noteq> []"
  by (induction s) (auto split: list.splits)

lemma splitOn_no_sep: "c \<notin> set s \<Longrightarrow> splitOn c s = [s]"
  by (induction s) auto

lemma splitOn_append_sep:
  "c \<notin> set p \<Longrightarrow> splitOn c (p @ c # s) = p # splitOn c s"
proof (induction p)
  case (Cons x p)
  then show ?case by auto
qed simp

lemma joinWith_splitOn [simp]: "joinWith c (splitOn c s) = s"
proof (induction s)
  case (Cons x xs)
  then show ?case
    by (cases "splitOn c xs") (auto, (metis joinWith.simps(2,3) neq_Nil_conv append_Cons)+)
qed simp

text \<open>\<^verbatim>\<open>s.includes(sub)\<close> and \<^verbatim>\<open>s.startsWith(pre)\<close>.\<close>

fun strIncludes :: "string \<Rightarrow> string \<Rightarrow> bool" where
  "strIncludes sub [] = (sub = [])"
| "strIncludes sub (c # cs) = (take (length sub) (c # cs) = sub \<or> strIncludes sub cs)"

definition startsWith :: "string \<Rightarrow> string \<Rightarrow> bool" where
  "startsWith pre s = (take (length pre) s = pre)"

text \<open>The bytes of a text in UTF-8.\<close>

definition utf8 :: "string \<Rightarrow> nat list" where
  "utf8 s = concat (map (\<lambda>c. let n = of_char c in if n < 128 then [n] else [192 + n div 64, 128 + n mod 64]) s)"

text \<open>
  \<^verbatim>\<open>s.trim()\<close>, \<^verbatim>\<open>s.toLowerCase()\<close> and \<^verbatim>\<open>s.toUpperCase()\<close> on the characters up to 255. The three letters among them whose
  upper case is not one of these characters (181, 223, 255) are left alone.
\<close>

definition isSpace :: "char \<Rightarrow> bool" where
  "isSpace c \<longleftrightarrow> (let n = (of_char c :: nat) in (9 \<le> n \<and> n \<le> 13) \<or> n = 32 \<or> n = 160)"

definition trim :: "string \<Rightarrow> string" where
  "trim s = rev (dropWhile isSpace (rev (dropWhile isSpace s)))"

definition lowerChar :: "char \<Rightarrow> char" where
  "lowerChar c = (let n = (of_char c :: nat) in
     if (65 \<le> n \<and> n \<le> 90) \<or> (192 \<le> n \<and> n \<le> 222 \<and> n \<noteq> 215) then char_of (n + 32) else c)"

definition toLowerCase :: "string \<Rightarrow> string" where
  "toLowerCase s = map lowerChar s"

definition upperChar :: "char \<Rightarrow> char" where
  "upperChar c = (let n = (of_char c :: nat) in
     if (97 \<le> n \<and> n \<le> 122) \<or> (224 \<le> n \<and> n \<le> 254 \<and> n \<noteq> 247) then char_of (n - 32) else c)"

definition toUpperCase :: "string \<Rightarrow> string" where
  "toUpperCase s = map upperChar s"

section \<open>Dates\<close>

text \<open>
  A \<^verbatim>\<open>Date\<close> is its number of milliseconds since the epoch. \<open>civilFromDays\<close> is the
  proleptic Gregorian calendar of ECMAScript; \<open>toISOString\<close> prints a date of the years 0 to 9999.
\<close>

type_synonym date = int

definition civilFromDays :: "int \<Rightarrow> int \<times> int \<times> int" where
  "civilFromDays z0 =
     (let z = z0 + 719468;
          era = z div 146097;
          doe = z mod 146097;
          yoe = (doe - doe div 1460 + doe div 36524 - doe div 146096) div 365;
          doy = doe - (365 * yoe + yoe div 4 - yoe div 100);
          mp = (5 * doy + 2) div 153;
          d = doy - (153 * mp + 2) div 5 + 1;
          m = (if mp < 10 then mp + 3 else mp - 9);
          y = yoe + era * 400 + (if m \<le> 2 then 1 else 0)
      in (y, m, d))"

definition isoDay :: "date \<Rightarrow> string" where
  "isoDay t =
     (case civilFromDays (t div 86400000) of (y, m, d) \<Rightarrow>
        pad0 4 (showInt y) @ ''-'' @ pad0 2 (showInt m) @ ''-'' @ pad0 2 (showInt d))"

definition isoTime :: "date \<Rightarrow> string" where
  "isoTime t =
     (let ms = t mod 86400000
      in pad0 2 (showInt (ms div 3600000)) @ '':'' @
         pad0 2 (showInt (ms div 60000 mod 60)) @ '':'' @
         pad0 2 (showInt (ms div 1000 mod 60)) @ ''.'' @
         pad0 3 (showInt (ms mod 1000)) @ ''Z'')"

definition toISOString :: "date \<Rightarrow> string" where
  "toISOString t = isoDay t @ ''T'' @ isoTime t"

section \<open>Lists and options\<close>

lemma sum_case_map: "(case x of Inl e \<Rightarrow> f e | Inr a \<Rightarrow> f' a) = case_sum f f' x"
  by simp

text \<open>Stable insertion sort by a comparison, as \<^verbatim>\<open>Array.prototype.sort\<close> guarantees.\<close>

fun insortBy :: "('a \<Rightarrow> 'a \<Rightarrow> bool) \<Rightarrow> 'a \<Rightarrow> 'a list \<Rightarrow> 'a list" where
  "insortBy le x [] = [x]"
| "insortBy le x (y # ys) = (if le x y then x # y # ys else y # insortBy le x ys)"

fun sortBy :: "('a \<Rightarrow> 'a \<Rightarrow> bool) \<Rightarrow> 'a list \<Rightarrow> 'a list" where
  "sortBy le [] = []"
| "sortBy le (x # xs) = insortBy le x (sortBy le xs)"

lemma mset_insortBy [simp]: "mset (insortBy le x xs) = add_mset x (mset xs)"
  by (induction xs) auto

lemma mset_sortBy [simp]: "mset (sortBy le xs) = mset xs"
  by (induction xs) auto

lemma set_sortBy [simp]: "set (sortBy le xs) = set xs"
  by (metis mset_sortBy set_mset_mset)

lemma length_sortBy [simp]: "length (sortBy le xs) = length xs"
  by (metis mset_sortBy size_mset)

lemma distinct_map_sortBy [simp]: "distinct (map f (sortBy le xs)) = distinct (map f xs)"
  by (metis mset_map mset_sortBy mset_eq_imp_distinct_iff)

lemma set_insortBy [simp]: "set (insortBy le x xs) = insert x (set xs)"
  by (metis mset_insortBy set_mset_add_mset_insert set_mset_mset)

text \<open>A comparison that is total and transitive, as a database or an array sort needs it.\<close>

definition total_preorder :: "('a \<Rightarrow> 'a \<Rightarrow> bool) \<Rightarrow> bool" where
  "total_preorder le \<longleftrightarrow> (\<forall>x y. le x y \<or> le y x) \<and> (\<forall>x y z. le x y \<longrightarrow> le y z \<longrightarrow> le x z)"

lemma total_preorder_key [intro, simp]: "total_preorder (\<lambda>x y. (k x :: 'b :: linorder) \<le> k y)"
  by (auto simp: total_preorder_def)

lemma total_preorder_key_desc [intro, simp]: "total_preorder (\<lambda>x y. (k y :: 'b :: linorder) \<le> k x)"
  by (auto simp: total_preorder_def)

lemma sorted_wrt_insortBy:
  assumes "total_preorder le" and "sorted_wrt le xs"
  shows "sorted_wrt le (insortBy le x xs)"
  using assms(2)
proof (induction xs)
  case (Cons y ys)
  have "le x y \<Longrightarrow> z \<in> set ys \<Longrightarrow> le x z" for z
    using assms(1) Cons.prems unfolding total_preorder_def by (metis sorted_wrt.simps(2))
  moreover have "\<not> le x y \<Longrightarrow> le y x" using assms(1) unfolding total_preorder_def by blast
  ultimately show ?case using Cons by auto
qed simp

lemma sorted_wrt_sortBy:
  "total_preorder le \<Longrightarrow> sorted_wrt le (sortBy le xs)"
  by (induction xs) (auto intro: sorted_wrt_insortBy)

lemma insortBy_cong:
  "(\<And>y. y \<in> set ys \<Longrightarrow> le x y = le' x y) \<Longrightarrow> insortBy le x ys = insortBy le' x ys"
  by (induction ys) auto

lemma insortBy_insort_key: "insortBy (\<lambda>x y. k x \<le> k y) x ys = insort_key k x ys"
  by (induction ys) auto

text \<open>Comparisons that agree on elements with different keys sort alike when all keys differ.\<close>

lemma sortBy_distinct_key:
  fixes k :: "'a \<Rightarrow> 'b :: linorder"
  assumes "distinct (map k xs)" and "\<And>x y. x \<in> set xs \<Longrightarrow> y \<in> set xs \<Longrightarrow> k x \<noteq> k y \<Longrightarrow> le x y \<longleftrightarrow> k x \<le> k y"
  shows "sortBy le xs = sort_key k xs"
  using assms
proof (induction xs)
  case (Cons x xs)
  have "le x y \<longleftrightarrow> k x \<le> k y" if "y \<in> set (sort_key k xs)" for y
    using that Cons.prems by (auto simp: rev_image_eqI)
  then have "insortBy le x (sort_key k xs) = insort_key k x (sort_key k xs)"
    by (simp only: insortBy_cong [where le' = "\<lambda>x y. k x \<le> k y"] insortBy_insort_key)
  with Cons show ?case by simp
qed simp

end
