(* ===== verification/Workflow_StateMachine.thy ===== *)
theory Workflow_StateMachine
  imports Prelude
begin

text \<open>
  The workflow and step state machines of
  \<^verbatim>\<open>workflow/services/workflow-state-machine.service.ts\<close>: the two transition tables, the checked
  transitions, the state predicates, the retry decision and the backoff time. The step relations
  \<open>wf_step\<close> and \<open>st_step\<close> are the transitions that the tables allow; facts about whole runs are
  proved over their reflexive-transitive closures.
\<close>

section \<open>States\<close>

datatype WorkflowState =
  PENDING | RUNNING | COMPLETED | FAILED | CANCELLED | COMPENSATING | COMPENSATED

datatype StepState =
  SPENDING | SRUNNING | SCOMPLETED | SFAILED | SSKIPPED | SCOMPENSATING | SCOMPENSATED

fun wfStateName :: "WorkflowState \<Rightarrow> string" where
  "wfStateName PENDING = ''pending''"
| "wfStateName RUNNING = ''running''"
| "wfStateName COMPLETED = ''completed''"
| "wfStateName FAILED = ''failed''"
| "wfStateName CANCELLED = ''cancelled''"
| "wfStateName COMPENSATING = ''compensating''"
| "wfStateName COMPENSATED = ''compensated''"

fun stepStateName :: "StepState \<Rightarrow> string" where
  "stepStateName SPENDING = ''pending''"
| "stepStateName SRUNNING = ''running''"
| "stepStateName SCOMPLETED = ''completed''"
| "stepStateName SFAILED = ''failed''"
| "stepStateName SSKIPPED = ''skipped''"
| "stepStateName SCOMPENSATING = ''compensating''"
| "stepStateName SCOMPENSATED = ''compensated''"

section \<open>Transition tables\<close>

fun workflowTransitions :: "WorkflowState \<Rightarrow> WorkflowState list" where
  "workflowTransitions PENDING = [RUNNING, CANCELLED]"
| "workflowTransitions RUNNING = [COMPLETED, FAILED, CANCELLED, COMPENSATING]"
| "workflowTransitions COMPLETED = [COMPENSATING]"
| "workflowTransitions FAILED = [RUNNING, CANCELLED, COMPENSATING]"
| "workflowTransitions CANCELLED = [COMPENSATING]"
| "workflowTransitions COMPENSATING = [COMPENSATED, FAILED]"
| "workflowTransitions COMPENSATED = []"

fun stepTransitions :: "StepState \<Rightarrow> StepState list" where
  "stepTransitions SPENDING = [SRUNNING, SSKIPPED]"
| "stepTransitions SRUNNING = [SCOMPLETED, SFAILED, SSKIPPED]"
| "stepTransitions SCOMPLETED = [SCOMPENSATING]"
| "stepTransitions SFAILED = [SRUNNING, SSKIPPED, SCOMPENSATING]"
| "stepTransitions SSKIPPED = [SCOMPENSATING]"
| "stepTransitions SCOMPENSATING = [SCOMPENSATED, SFAILED]"
| "stepTransitions SCOMPENSATED = []"

definition canTransitionWorkflow :: "WorkflowState \<Rightarrow> WorkflowState \<Rightarrow> bool" where
  "canTransitionWorkflow from to = (to \<in> set (workflowTransitions from))"

definition canTransitionStep :: "StepState \<Rightarrow> StepState \<Rightarrow> bool" where
  "canTransitionStep from to = (to \<in> set (stepTransitions from))"

text \<open>\<^verbatim>\<open>{ success, error? }\<close>: \<open>None\<close> is success, \<open>Some e\<close> carries the error text.\<close>

definition transitionWorkflow :: "WorkflowState \<Rightarrow> WorkflowState \<Rightarrow> string option" where
  "transitionWorkflow currentState newState =
     (if \<not> canTransitionWorkflow currentState newState
      then Some (''Invalid workflow state transition from '' @ wfStateName currentState @
                 '' to '' @ wfStateName newState)
      else None)"

definition transitionStep :: "StepState \<Rightarrow> StepState \<Rightarrow> string option" where
  "transitionStep currentState newState =
     (if \<not> canTransitionStep currentState newState
      then Some (''Invalid step state transition from '' @ stepStateName currentState @
                 '' to '' @ stepStateName newState)
      else None)"

definition getValidWorkflowTransitions :: "WorkflowState \<Rightarrow> WorkflowState list" where
  "getValidWorkflowTransitions currentState = workflowTransitions currentState"

definition getValidStepTransitions :: "StepState \<Rightarrow> StepState list" where
  "getValidStepTransitions currentState = stepTransitions currentState"

section \<open>State predicates\<close>

definition isWorkflowTerminal :: "WorkflowState \<Rightarrow> bool" where
  "isWorkflowTerminal state = (state = COMPLETED \<or> state = CANCELLED \<or> state = COMPENSATED)"

definition isStepTerminal :: "StepState \<Rightarrow> bool" where
  "isStepTerminal state = (state = SCOMPLETED \<or> state = SSKIPPED \<or> state = SCOMPENSATED)"

definition isWorkflowRecoverable :: "WorkflowState \<Rightarrow> bool" where
  "isWorkflowRecoverable state = (state = FAILED)"

definition isStepRecoverable :: "StepState \<Rightarrow> bool" where
  "isStepRecoverable state = (state = SFAILED)"

definition canWorkflowCompensate :: "WorkflowState \<Rightarrow> bool" where
  "canWorkflowCompensate state = (state \<in> set [COMPLETED, FAILED, CANCELLED])"

definition canStepCompensate :: "StepState \<Rightarrow> bool" where
  "canStepCompensate state = (state \<in> set [SCOMPLETED, SFAILED, SSKIPPED])"

text \<open>
  \<^verbatim>\<open>shouldRetry(state, retryCount, maxRetries)\<close> takes a workflow or a step state; both enums
  write the failed state as the same string, so the argument is the sum of the two.
\<close>

definition shouldRetry :: "WorkflowState + StepState \<Rightarrow> nat \<Rightarrow> nat \<Rightarrow> bool" where
  "shouldRetry state retryCount maxRetries =
     (if state = Inl FAILED \<or> state = Inr SFAILED then retryCount < maxRetries else False)"

text \<open>
  Exponential backoff with jitter. \<^verbatim>\<open>Math.random()\<close> is \<open>rnd / 2^53\<close> with
  \<open>rnd < 2^53\<close>; \<^verbatim>\<open>new Date(x)\<close> truncates to whole milliseconds.
\<close>

definition randScale :: int where
  "randScale = 2 ^ 53"

definition calculateNextRetryTime :: "date \<Rightarrow> int \<Rightarrow> nat \<Rightarrow> int \<Rightarrow> date" where
  "calculateNextRetryTime now rnd retryCount baseDelay =
     (let exponentialDelay = baseDelay * 2 ^ retryCount
      in now + exponentialDelay + (exponentialDelay * rnd) div (10 * randScale))"

lemmas sm_defs = canTransitionWorkflow_def canTransitionStep_def transitionWorkflow_def
  transitionStep_def isWorkflowTerminal_def isStepTerminal_def isWorkflowRecoverable_def
  isStepRecoverable_def canWorkflowCompensate_def canStepCompensate_def shouldRetry_def

section \<open>Runs of the two machines\<close>

inductive wf_step :: "WorkflowState \<Rightarrow> WorkflowState \<Rightarrow> bool" where
  "transitionWorkflow s t = None \<Longrightarrow> wf_step s t"

inductive st_step :: "StepState \<Rightarrow> StepState \<Rightarrow> bool" where
  "transitionStep s t = None \<Longrightarrow> st_step s t"

inductive_simps wf_step_iff: "wf_step s t"
inductive_simps st_step_iff: "st_step s t"

lemma wf_step_table: "wf_step s t \<longleftrightarrow> t \<in> set (workflowTransitions s)"
  by (simp add: wf_step_iff sm_defs)

lemma st_step_table: "st_step s t \<longleftrightarrow> t \<in> set (stepTransitions s)"
  by (simp add: st_step_iff sm_defs)

lemma wf_steps_not_pending: "wf_step\<^sup>*\<^sup>* s t \<Longrightarrow> s \<noteq> PENDING \<Longrightarrow> t \<noteq> PENDING"
proof (induction rule: rtranclp_induct)
  case (step t u)
  then show ?case by (cases t) (auto simp: wf_step_table)
qed simp

lemma wf_steps_from_compensated: "wf_step\<^sup>*\<^sup>* COMPENSATED t \<Longrightarrow> t = COMPENSATED"
proof (induction rule: rtranclp_induct)
  case (step t u)
  then show ?case by (simp add: wf_step_table)
qed simp

text \<open>The last step before \<open>COMPENSATED\<close> starts in \<open>COMPENSATING\<close>.\<close>

lemma into_compensated: "wf_step s COMPENSATED \<Longrightarrow> s = COMPENSATING"
  by (cases s) (auto simp: wf_step_table)

lemma into_completed: "wf_step s COMPLETED \<Longrightarrow> s = RUNNING"
  by (cases s) (auto simp: wf_step_table)

lemma rtranclp_last_step:
  "R\<^sup>*\<^sup>* x y \<Longrightarrow> x \<noteq> y \<Longrightarrow> \<exists>z. R\<^sup>*\<^sup>* x z \<and> R z y"
  by (metis rtranclp.cases)

text \<open>Every state but \<open>COMPENSATED\<close> can still reach it.\<close>

lemma wf_reaches_compensated: "wf_step\<^sup>*\<^sup>* s COMPENSATED"
proof -
  have c: "wf_step\<^sup>*\<^sup>* COMPENSATING COMPENSATED"
    by (rule r_into_rtranclp) (simp add: wf_step_table)
  have direct: "COMPENSATING \<in> set (workflowTransitions s) \<Longrightarrow> wf_step\<^sup>*\<^sup>* s COMPENSATED" for s
    using c by (meson converse_rtranclp_into_rtranclp wf_step_table)
  show ?thesis
  proof (cases s)
    case PENDING
    have "wf_step PENDING RUNNING" by (simp add: wf_step_table)
    moreover have "wf_step\<^sup>*\<^sup>* RUNNING COMPENSATED" by (rule direct) simp
    ultimately show ?thesis using PENDING by (simp add: converse_rtranclp_into_rtranclp)
  qed (use c direct in auto)
qed



text \<open>
  The state predicates against the table: a compensatable state may enter \<open>COMPENSATING\<close> and a
  recoverable one \<open>RUNNING\<close>; the only state that may enter \<open>COMPENSATING\<close> by the table without
  being compensatable is \<open>RUNNING\<close>.
\<close>

lemma compensatable_table:
  "canTransitionWorkflow s COMPENSATING \<longleftrightarrow> canWorkflowCompensate s \<or> s = RUNNING"
  by (cases s) (simp_all add: sm_defs)

lemma step_compensatable_table: "canTransitionStep s SCOMPENSATING \<longleftrightarrow> canStepCompensate s"
  by (cases s) (simp_all add: sm_defs)

lemma recoverable_table: "isWorkflowRecoverable s \<Longrightarrow> canTransitionWorkflow s RUNNING"
  by (simp add: sm_defs)

lemma no_rerun: "transitionWorkflow RUNNING RUNNING = Some ''Invalid workflow state transition from running to running''"
  by (simp add: sm_defs)

text \<open>
  The backoff of retry \<open>n\<close>: for any value of the random source the next attempt lies between
  \<open>base * 2^n\<close> milliseconds from now and 10 percent more, so with the default base the wait at
  least doubles from one retry to the next up to that jitter.
\<close>

theorem calculateNextRetryTime_bounds:
  assumes "0 \<le> rnd" and "rnd < randScale" and "0 \<le> baseDelay"
  shows "now + baseDelay * 2 ^ n \<le> calculateNextRetryTime now rnd n baseDelay \<and>
         10 * (calculateNextRetryTime now rnd n baseDelay - now) \<le> 11 * (baseDelay * 2 ^ n)"
proof -
  let ?e = "baseDelay * 2 ^ n" and ?m = "10 * randScale"
  have m: "0 < randScale" by (simp add: randScale_def)
  have e: "0 \<le> ?e" using assms(3) by simp
  let ?j = "(?e * rnd) div ?m"
  have j0: "0 \<le> ?j" using assms(1) e m by (simp add: pos_imp_zdiv_nonneg_iff)
  have "?j * ?m \<le> ?e * rnd"
    using pos_mod_sign [of ?m "?e * rnd"] m by (simp add: minus_mod_eq_div_mult [symmetric])
  also have "\<dots> \<le> ?e * randScale" using e assms(2) by (intro mult_left_mono) auto
  finally have "(10 * ?j) * randScale \<le> ?e * randScale" by (simp add: algebra_simps)
  then have "10 * ?j \<le> ?e" using m by (simp add: mult_le_cancel_right)
  with j0 show ?thesis by (simp add: calculateNextRetryTime_def Let_def algebra_simps)
qed

theorem calculateNextRetryTime_bounds_witness:
  "(0::int) \<le> 7 \<and> 7 < randScale \<and>
   calculateNextRetryTime 5 7 3 1000 \<ge> 5 + 8000 \<and>
   10 * (calculateNextRetryTime 5 7 3 1000 - 5) \<le> 88000"
proof -
  have "7 < randScale" by (simp add: randScale_def)
  then show ?thesis using calculateNextRetryTime_bounds [of 7 1000 5 3] by simp
qed

end
