(* ===== verification/Json.thy ===== *)
theory Json
  imports Prelude "HOL-Library.List_Lexorder" "HOL-Library.Char_ord"
begin

text \<open>
  JSON values and \<^verbatim>\<open>JSON.stringify\<close>, with and without a property list as its second
  argument. A property list filters and orders the properties of \<^emph>\<open>every\<close> object in the value, at
  any depth, as the ECMAScript definition of \<^verbatim>\<open>SerializeJSONObject\<close> says; \<open>prune\<close> is that
  filter on its own and \<open>stringify_prune\<close> shows that the two agree. Numbers are integers. An
  \<^verbatim>\<open>undefined\<close> property is an absent one.
\<close>

datatype json =
    JNull
  | JBool bool
  | JNum int
  | JStr string
  | JArr "json list"
  | JObj "(string \<times> json) list"

fun truthy :: "json \<Rightarrow> bool" where
  "truthy JNull = False"
| "truthy (JBool b) = b"
| "truthy (JNum n) = (n \<noteq> 0)"
| "truthy (JStr s) = (s \<noteq> [])"
| "truthy (JArr _) = True"
| "truthy (JObj _) = True"

text \<open>\<^verbatim>\<open>Object.keys\<close>, with the indices of an array or a string.\<close>

fun objKeys :: "json \<Rightarrow> string list" where
  "objKeys (JObj kvs) = map fst kvs"
| "objKeys (JArr xs) = map showNat [0..<length xs]"
| "objKeys (JStr s) = map showNat [0..<length s]"
| "objKeys _ = []"

text \<open>\<^verbatim>\<open>obj[k] = v\<close> on a list of properties: replaced in place or added at the end.\<close>

fun objSet :: "string \<Rightarrow> 'v \<Rightarrow> (string \<times> 'v) list \<Rightarrow> (string \<times> 'v) list" where
  "objSet k v [] = [(k, v)]"
| "objSet k v ((k', v') # kvs) = (if k' = k then (k, v) # kvs else (k', v') # objSet k v kvs)"

lemma map_of_objSet [simp]: "map_of (objSet k v kvs) = (map_of kvs)(k \<mapsto> v)"
  by (induction kvs) auto

lemma keys_objSet: "fst ` set (objSet k v kvs) = insert k (fst ` set kvs)"
  by (metis dom_fun_upd dom_map_of_conv_image_fst map_of_objSet option.distinct(1))

lemma distinct_objSet: "distinct (map fst kvs) \<Longrightarrow> distinct (map fst (objSet k v kvs))"
proof (induction kvs)
  case (Cons kv kvs)
  then show ?case using keys_objSet [of k v kvs] by (cases kv) auto
qed simp

section \<open>Printing\<close>

definition hexDigit :: "nat \<Rightarrow> char" where
  "hexDigit d = (if d < 10 then char_of (48 + d) else char_of (87 + d))"

fun jsonEscape :: "char \<Rightarrow> string" where
  "jsonEscape c =
     (if c = CHR 0x22 then [CHR 0x5C, CHR 0x22]
      else if c = CHR 0x5C then [CHR 0x5C, CHR 0x5C]
      else if c = CHR 0x08 then [CHR 0x5C, CHR ''b'']
      else if c = CHR 0x09 then [CHR 0x5C, CHR ''t'']
      else if c = CHR 0x0A then [CHR 0x5C, CHR ''n'']
      else if c = CHR 0x0C then [CHR 0x5C, CHR ''f'']
      else if c = CHR 0x0D then [CHR 0x5C, CHR ''r'']
      else if (of_char c :: nat) < 32
        then [CHR 0x5C, CHR ''u'', CHR ''0'', CHR ''0'',
              hexDigit ((of_char c :: nat) div 16), hexDigit ((of_char c :: nat) mod 16)]
      else [c])"

definition jsonQuote :: "string \<Rightarrow> string" where
  "jsonQuote s = CHR 0x22 # concat (map jsonEscape s) @ [CHR 0x22]"

fun selectProps :: "string list option \<Rightarrow> (string \<times> 'v) list \<Rightarrow> (string \<times> 'v) list" where
  "selectProps None kvs = kvs"
| "selectProps (Some ks) kvs =
     concat (map (\<lambda>k. case map_of kvs k of None \<Rightarrow> [] | Some v \<Rightarrow> [(k, v)]) ks)"

fun stringify :: "string list option \<Rightarrow> json \<Rightarrow> string" where
  "stringify K JNull = ''null''"
| "stringify K (JBool b) = (if b then ''true'' else ''false'')"
| "stringify K (JNum n) = showInt n"
| "stringify K (JStr s) = jsonQuote s"
| "stringify K (JArr xs) = ''['' @ joinWith (CHR '','') (map (stringify K) xs) @ '']''"
| "stringify K (JObj kvs) =
     ''{'' @ joinWith (CHR '','')
       (map (\<lambda>(k, s). jsonQuote k @ '':'' @ s) (selectProps K (map (\<lambda>(k, v). (k, stringify K v)) kvs))) @ ''}''"

fun prune :: "string list \<Rightarrow> json \<Rightarrow> json" where
  "prune K JNull = JNull"
| "prune K (JBool b) = JBool b"
| "prune K (JNum n) = JNum n"
| "prune K (JStr s) = JStr s"
| "prune K (JArr xs) = JArr (map (prune K) xs)"
| "prune K (JObj kvs) = JObj (selectProps (Some K) (map (\<lambda>(k, v). (k, prune K v)) kvs))"

abbreviation mapVals :: "('v \<Rightarrow> 'w) \<Rightarrow> (string \<times> 'v) list \<Rightarrow> (string \<times> 'w) list" where
  "mapVals f \<equiv> map (\<lambda>(k, v). (k, f v))"

lemma map_of_mapVals: "map_of (mapVals f kvs) k = map_option f (map_of kvs k)"
  by (induction kvs) auto

lemma keys_mapVals [simp]: "map fst (mapVals f kvs) = map fst kvs"
  by (induction kvs) auto

lemma selectProps_map: "selectProps (Some ks) (mapVals f kvs) = mapVals f (selectProps (Some ks) kvs)"
  by (induction ks) (auto simp: map_of_mapVals split: option.splits)

lemma selectProps_in: "kv \<in> set (selectProps (Some ks) kvs) \<Longrightarrow> kv \<in> set kvs"
  by (auto split: option.splits dest: map_of_SomeD simp: eq_commute [of "Some _"])

text \<open>Printing with a property list is pruning with it and then printing plainly.\<close>

lemma stringify_prune: "stringify (Some K) j = stringify None (prune K j)"
proof (induction j)
  case (JArr xs)
  then have "map (stringify (Some K)) xs = map (stringify None \<circ> prune K) xs"
    by (auto simp: o_def)
  then show ?case by (simp del: map_eq_conv)
next
  case (JObj kvs)
  have "(k, v) \<in> set (selectProps (Some K) kvs) \<Longrightarrow>
      stringify (Some K) v = stringify None (prune K v)" for k v
    using JObj [of "(k, v)" v] selectProps_in [of "(k, v)" K kvs] by auto
  then have "mapVals (stringify (Some K)) (selectProps (Some K) kvs) =
      mapVals (stringify None) (mapVals (prune K) (selectProps (Some K) kvs))"
    by auto
  then show ?case by (simp only: stringify.simps prune.simps selectProps.simps(1) selectProps_map)
qed simp_all

text \<open>The order of the properties of the outermost object does not matter under a property list.\<close>

lemma selectProps_perm:
  assumes "mset kvs = mset kvs'" and "distinct (map fst kvs)"
  shows "selectProps (Some K) kvs = selectProps (Some K) kvs'"
proof -
  have "distinct (map fst kvs')" using assms by (metis mset_map mset_eq_imp_distinct_iff)
  then have "map_of kvs = map_of kvs'" using assms
    by (metis map_of_inject_set set_mset_mset)
  then show ?thesis by simp
qed

end
