(* ===== verification/Idempotency.thy ===== *)
theory Idempotency
  imports Json
begin

text \<open>
  The idempotency service, \<^verbatim>\<open>workflow/services/idempotency.service.ts\<close>: the keys of workflows,
  steps and one-time operations, the parser of keys, and the execute-or-return-cached wrapper. The
  SHA-256 digest is the parameter \<open>sha256\<close>; the result cache that a caller passes in is a record of
  its two operations, with the locale \<open>result_cache\<close> for what a caller's cache promises.
\<close>

section \<open>Keys\<close>

definition sortKeys :: "string list \<Rightarrow> string list" where
  "sortKeys ks = sort ks"

definition stableStringify :: "json \<Rightarrow> string" where
  "stableStringify obj = stringify (Some (sortKeys (objKeys obj))) obj"

definition generateWorkflowIdempotencyKey ::
    "(string \<Rightarrow> string) \<Rightarrow> date \<Rightarrow> string \<Rightarrow> string \<Rightarrow> json \<Rightarrow> json option \<Rightarrow> string" where
  "generateWorkflowIdempotencyKey sha256 now workflowType userId input additionalContext =
     (let keyData =
            [(''workflowType'', JStr workflowType), (''userId'', JStr userId),
             (''input'', JStr (stableStringify input))] @
            (case additionalContext of None \<Rightarrow> []
             | Some c \<Rightarrow> [(''additionalContext'', JStr (stableStringify c))]) @
            [(''timestamp'', JStr (isoDay now))];
          keys = sortKeys [''workflowType'', ''userId'', ''input'', ''additionalContext'', ''timestamp''];
          hash = sha256 (stringify (Some keys) (JObj keyData))
      in ''workflow:'' @ workflowType @ '':'' @ userId @ '':'' @ hash)"

text \<open>
  The input of a step key is a value of type \<^verbatim>\<open>any\<close>: plain data, or a promise. A promise has no
  enumerable properties, so it prints as an empty object.
\<close>

datatype stepInput = Plain json | PromiseOf json

fun stableStringifyAny :: "stepInput \<Rightarrow> string" where
  "stableStringifyAny (Plain j) = stableStringify j"
| "stableStringifyAny (PromiseOf _) = stringify (Some []) (JObj [])"

definition generateStepIdempotencyKey ::
    "(string \<Rightarrow> string) \<Rightarrow> string \<Rightarrow> string \<Rightarrow> stepInput \<Rightarrow> string" where
  "generateStepIdempotencyKey sha256 workflowIdempotencyKey stepName input =
     (let keyData =
            [(''workflowIdempotencyKey'', JStr workflowIdempotencyKey), (''stepName'', JStr stepName),
             (''stepInput'', JStr (stableStringifyAny input))];
          hash = sha256 (stringify (Some (sortKeys (map fst keyData))) (JObj keyData))
      in ''step:'' @ stepName @ '':'' @ hash)"

definition generateUniqueIdempotencyKey :: "string \<Rightarrow> string \<Rightarrow> string \<Rightarrow> string" where
  "generateUniqueIdempotencyKey uuid operationType identifier =
     operationType @ '':'' @ identifier @ '':'' @ uuid"

definition validateIdempotencyKey ::
    "(string \<Rightarrow> string) \<Rightarrow> date \<Rightarrow> string \<Rightarrow> string \<Rightarrow> string \<Rightarrow> json \<Rightarrow> json option \<Rightarrow> bool" where
  "validateIdempotencyKey sha256 now expectedKey workflowType userId input additionalContext =
     (expectedKey = generateWorkflowIdempotencyKey sha256 now workflowType userId input additionalContext)"

datatype keyType = KWorkflow | KStep | KUnique

record parsedKey =
  pk_type :: keyType
  pk_prefix :: string
  pk_identifier :: string
  pk_hash :: "string option"

definition nthOpt :: "'a list \<Rightarrow> nat \<Rightarrow> 'a option" where
  "nthOpt xs i = (if i < length xs then Some (xs ! i) else None)"

definition parseIdempotencyKey :: "string \<Rightarrow> parsedKey" where
  "parseIdempotencyKey key =
     (let parts = splitOn (CHR '':'') key
      in if parts ! 0 = ''workflow'' \<and> 4 \<le> length parts
         then \<lparr>pk_type = KWorkflow, pk_prefix = parts ! 0,
               pk_identifier = parts ! 1 @ '':'' @ parts ! 2, pk_hash = Some (parts ! 3)\<rparr>
         else if parts ! 0 = ''step'' \<and> 3 \<le> length parts
         then \<lparr>pk_type = KStep, pk_prefix = parts ! 0,
               pk_identifier = parts ! 1, pk_hash = Some (parts ! 2)\<rparr>
         else if parts ! 0 = ''unique'' \<and> 3 \<le> length parts
         then \<lparr>pk_type = KUnique, pk_prefix = parts ! 0,
               pk_identifier = parts ! 1, pk_hash = Some (parts ! 2)\<rparr>
         else \<lparr>pk_type = KUnique, pk_prefix = strOr (nthOpt parts 0) ''unknown'',
               pk_identifier = strOr (nthOpt parts 1) ''unknown'', pk_hash = nthOpt parts 2\<rparr>)"

section \<open>Execute once\<close>

text \<open>The caller's cache; a failed \<^verbatim>\<open>get\<close> or \<^verbatim>\<open>set\<close> is an \<open>Inl\<close> result.\<close>

record 's idemCache =
  cGet :: "string \<Rightarrow> ('s, json) action"
  cSet :: "string \<Rightarrow> json \<Rightarrow> ('s, unit) action"

definition checkIdempotency ::
    "string \<Rightarrow> ('s, json) action \<Rightarrow> 's idemCache option \<Rightarrow> ('s, json \<times> bool) action" where
  "checkIdempotency idempotencyKey operation cache s =
     (let execute = (\<lambda>s1. case operation s1 of
            (Inl e, s2) \<Rightarrow> (Inl e, s2)
          | (Inr result, s2) \<Rightarrow>
              (case cache of None \<Rightarrow> (Inr (result, False), s2)
               | Some c \<Rightarrow> (Inr (result, False), snd (cSet c idempotencyKey result s2))))
      in case cache of
           None \<Rightarrow> execute s
         | Some c \<Rightarrow>
             (case cGet c idempotencyKey s of
                (Inr cachedResult, s1) \<Rightarrow>
                  (if truthy cachedResult then (Inr (cachedResult, True), s1) else execute s1)
              | (Inl e, s1) \<Rightarrow> execute s1))"

section \<open>Properties of the keys\<close>

lemma stableStringify_prune:
  "stableStringify obj = stringify None (prune (sortKeys (objKeys obj)) obj)"
  by (simp add: stableStringify_def stringify_prune)

lemma sortKeys_perm: "mset ks = mset ks' \<Longrightarrow> sortKeys ks = sortKeys ks'"
  by (simp add: sortKeys_def sort_key_eq_sort_key flip: sorted_list_of_multiset_mset)

lemma stableStringify_perm:
  assumes "mset kvs = mset kvs'" and "distinct (map fst kvs)"
  shows "stableStringify (JObj kvs) = stableStringify (JObj kvs')"
proof -
  have k: "sortKeys (map fst kvs) = sortKeys (map fst kvs')"
    using assms(1) by (intro sortKeys_perm) (metis mset_map)
  let ?m = "mapVals (stringify (Some (sortKeys (map fst kvs))))"
  have "mset (?m kvs) = mset (?m kvs')" using assms(1) by (metis mset_map)
  then have "selectProps (Some (sortKeys (map fst kvs))) (?m kvs) =
             selectProps (Some (sortKeys (map fst kvs))) (?m kvs')"
    using assms(2) by (intro selectProps_perm) (simp_all only: keys_mapVals)
  then show ?thesis
    by (simp only: stableStringify_def objKeys.simps k [symmetric] stringify.simps)
qed

text \<open>
  C8. The workflow key is stable: it depends neither on the order in which the caller wrote the
  properties of the input nor on the time within one UTC day.
\<close>

theorem workflow_key_stable:
  assumes "mset kvs = mset kvs'" and "distinct (map fst kvs)"
    and "isoDay now = isoDay now'"
  shows "generateWorkflowIdempotencyKey sha256 now ty uid (JObj kvs) ctx =
         generateWorkflowIdempotencyKey sha256 now' ty uid (JObj kvs') ctx"
  using assms stableStringify_perm [OF assms(1,2)]
  by (simp only: generateWorkflowIdempotencyKey_def)

theorem workflow_key_stable_witness:
  "generateWorkflowIdempotencyKey id 0 ''t'' ''u'' (JObj [(''a'', JNum 1), (''b'', JNum 2)]) None =
   generateWorkflowIdempotencyKey id 86399999 ''t'' ''u'' (JObj [(''b'', JNum 2), (''a'', JNum 1)]) None"
proof -
  have "isoDay 0 = isoDay 86399999" by (simp add: isoDay_def)
  then show ?thesis by (intro workflow_key_stable) simp_all
qed

text \<open>
  The property list that \<^verbatim>\<open>stableStringify\<close> passes holds the outermost property names only, so
  an inner object keeps only the properties whose names also occur outside.
\<close>

lemma prune_disjoint: "set (map fst kvs) \<inter> set K = {} \<Longrightarrow> prune K (JObj kvs) = JObj []"
proof -
  assume "set (map fst kvs) \<inter> set K = {}"
  then have "k \<in> set K \<Longrightarrow> map_of kvs k = None" for k by (auto simp: map_of_eq_None_iff)
  then show ?thesis by (auto simp: map_of_mapVals)
qed

lemma stableStringify_inner:
  assumes "set (map fst o1) \<inter> (set (map fst pre) \<union> set (map fst post) \<union> {k}) = {}"
    and "set (map fst o2) \<inter> (set (map fst pre) \<union> set (map fst post) \<union> {k}) = {}"
  shows "stableStringify (JObj (pre @ (k, JObj o1) # post)) =
         stableStringify (JObj (pre @ (k, JObj o2) # post))"
proof -
  let ?K = "sortKeys (map fst pre @ k # map fst post)"
  have K: "set ?K = set (map fst pre) \<union> set (map fst post) \<union> {k}" by (auto simp: sortKeys_def)
  have "prune ?K (JObj o1) = prune ?K (JObj o2)"
    using assms unfolding K [symmetric] by (simp only: prune_disjoint)
  then have "prune ?K (JObj (pre @ (k, JObj o1) # post)) = prune ?K (JObj (pre @ (k, JObj o2) # post))"
    by (simp only: prune.simps(6) map_append list.map prod.case)
  then show ?thesis by (simp add: stableStringify_prune)
qed

text \<open>
  Nested data is not part of the key: two inputs that differ only inside a property that holds
  an object, and whose inner property names are not also outer ones, get the same workflow key. The
  second request is then answered with the first request's workflow.
\<close>

theorem workflow_key_ignores_nested:
  assumes "set (map fst o1) \<inter> (set (map fst pre) \<union> set (map fst post) \<union> {k}) = {}"
    and "set (map fst o2) \<inter> (set (map fst pre) \<union> set (map fst post) \<union> {k}) = {}"
  shows "generateWorkflowIdempotencyKey sha256 now ty uid (JObj (pre @ (k, JObj o1) # post)) ctx =
         generateWorkflowIdempotencyKey sha256 now ty uid (JObj (pre @ (k, JObj o2) # post)) ctx"
  using stableStringify_inner [OF assms] by (simp only: generateWorkflowIdempotencyKey_def)

theorem workflow_key_ignores_nested_witness:
  "generateWorkflowIdempotencyKey id 0 ''trade_execution'' ''u''
     (JObj ([] @ (''order'', JObj [(''amount'', JNum 1)]) # [])) None =
   generateWorkflowIdempotencyKey id 0 ''trade_execution'' ''u''
     (JObj ([] @ (''order'', JObj [(''amount'', JNum 1000)]) # [])) None"
  by (rule workflow_key_ignores_nested) simp_all

text \<open>
  A key that the service generates parses back to its parts as long as these contain no colon:
  a workflow key to its type, its \<open>type:user\<close> identifier and its hash; a step key likewise; and a
  one-time key to its operation and identifier, as \<open>unique\<close>, unless the operation is called
  \<open>workflow\<close> or \<open>step\<close>.
\<close>

theorem parse_generated_key:
  assumes "CHR '':'' \<notin> set ty" and "CHR '':'' \<notin> set uid" and "\<And>m. CHR '':'' \<notin> set (sha256 m)"
    and "CHR '':'' \<notin> set uuid"
  shows "(\<exists>m. parseIdempotencyKey (generateWorkflowIdempotencyKey sha256 now ty uid input ctx) =
           \<lparr>pk_type = KWorkflow, pk_prefix = ''workflow'', pk_identifier = ty @ '':'' @ uid,
            pk_hash = Some (sha256 m)\<rparr>) \<and>
         (\<exists>m. parseIdempotencyKey (generateStepIdempotencyKey sha256 wk ty sinput) =
           \<lparr>pk_type = KStep, pk_prefix = ''step'', pk_identifier = ty, pk_hash = Some (sha256 m)\<rparr>) \<and>
         (ty \<notin> {[], ''workflow'', ''step''} \<longrightarrow> uid \<noteq> [] \<longrightarrow>
            parseIdempotencyKey (generateUniqueIdempotencyKey uuid ty uid) =
              \<lparr>pk_type = KUnique, pk_prefix = ty, pk_identifier = uid, pk_hash = Some uuid\<rparr>)"
proof -
  note sp = splitOn_append_sep splitOn_no_sep
  have w: "splitOn (CHR '':'') (''workflow:'' @ ty @ '':'' @ uid @ '':'' @ sha256 m) =
      [''workflow'', ty, uid, sha256 m]" for m
    using assms sp [of "CHR '':''"] by simp
  have s: "splitOn (CHR '':'') (''step:'' @ ty @ '':'' @ sha256 m) = [''step'', ty, sha256 m]" for m
    using assms sp [of "CHR '':''"] by simp
  have u: "splitOn (CHR '':'') (ty @ '':'' @ uid @ '':'' @ uuid) = [ty, uid, uuid]"
    using assms sp [of "CHR '':''"] by simp
  show ?thesis
    unfolding parseIdempotencyKey_def generateUniqueIdempotencyKey_def
      generateWorkflowIdempotencyKey_def generateStepIdempotencyKey_def Let_def w s u
    by (auto simp: nthOpt_def strOr_def)
qed

theorem parse_generated_key_witness:
  "parseIdempotencyKey (generateUniqueIdempotencyKey ''0f'' ''deploy'' ''u1'') =
     \<lparr>pk_type = KUnique, pk_prefix = ''deploy'', pk_identifier = ''u1'', pk_hash = Some ''0f''\<rparr>"
  using parse_generated_key [of "''deploy''" "''u1''" "\<lambda>_. ''af''" "''0f''"] by simp

section \<open>Properties of execute-once\<close>

text \<open>
  What a caller's cache promises: a read returns what is stored and changes nothing, a write stores
  under its key only. \<open>peek\<close> is the content.
\<close>

locale result_cache =
  fixes c :: "'s idemCache" and peek :: "string \<Rightarrow> 's \<Rightarrow> json"
  assumes get_peek: "cGet c k s = (Inr (peek k s), s)"
    and set_peek: "cSet c k v s = (Inr (), s') \<Longrightarrow> peek k' s' = (if k' = k then v else peek k' s)"
    and set_ok: "\<exists>s'. cSet c k v s = (Inr (), s')"
begin

lemma fresh_stores:
  assumes "checkIdempotency k op (Some c) s = (Inr (r, False), s1)"
  shows "peek k s1 = r"
proof -
  obtain v s2 where "op s = (Inr v, s2)" and "r = v" and s1: "s1 = snd (cSet c k v s2)"
    using assms by (auto simp: checkIdempotency_def get_peek split: if_splits sum.splits prod.splits)
  moreover obtain s' where "cSet c k v s2 = (Inr (), s')" using set_ok by blast
  ultimately show ?thesis using set_peek [of k v s2 s' k] by simp
qed

lemma cached_returns:
  "truthy (peek k s) \<Longrightarrow> checkIdempotency k op (Some c) s = (Inr (peek k s, True), s)"
  by (simp add: checkIdempotency_def get_peek)

end

text \<open>A cache over a JavaScript \<^verbatim>\<open>Map\<close> in the first component of the state, for the witnesses.\<close>

definition mapCache :: "((string \<Rightarrow> json) \<times> 'w) idemCache" where
  "mapCache = \<lparr>cGet = (\<lambda>k s. (Inr (fst s k), s)), cSet = (\<lambda>k v s. (Inr (), ((fst s)(k := v), snd s)))\<rparr>"

interpretation mapc: result_cache mapCache "\<lambda>k s. fst s k"
  by unfold_locales (auto simp: mapCache_def)



lemma checkIdempotency_cache_down:
  assumes "\<And>k s. \<exists>e. cGet c k s = (Inl e, s)" and "\<And>k v s. \<exists>e. cSet c k v s = (Inl e, s)"
    and "op s = (Inr r, s')"
  shows "checkIdempotency k op (Some c) s = (Inr (r, False), s')"
  using assms(1) [of k s] assms(2) [of k r s'] assms(3) by (auto simp: checkIdempotency_def)

end
