(* ===== verification/Repository.thy ===== *)
theory Repository
  imports Prelude
begin

text \<open>
  The TypeORM \<^verbatim>\<open>Repository\<close> interface. TypeORM and the database behind it are not part of
  the repository, so a service takes the operations it calls as an argument: a record \<open>repo\<close> of
  functions over an unspecified table type \<open>'t\<close>. The locale \<open>repository\<close> states what TypeORM
  documents of them: \<^verbatim>\<open>find\<close> returns the rows that satisfy the condition, each once;
  \<^verbatim>\<open>findOne\<close> one of them; \<^verbatim>\<open>save\<close> inserts or replaces by primary key;
  \<^verbatim>\<open>update\<close> and \<^verbatim>\<open>delete\<close> change and remove the rows that satisfy the condition;
  an \<^verbatim>\<open>order\<close> clause sorts. The in-memory table \<open>memRepo\<close> satisfies the laws; the
  witnesses run the services on it.
\<close>

record ('t, 'row) repo =
  rFind :: "('row \<Rightarrow> bool) \<Rightarrow> 't \<Rightarrow> 'row list"
  rFindOrd :: "('row \<Rightarrow> bool) \<Rightarrow> ('row \<Rightarrow> 'row \<Rightarrow> bool) \<Rightarrow> 't \<Rightarrow> 'row list"
  rFindOne :: "('row \<Rightarrow> bool) \<Rightarrow> 't \<Rightarrow> 'row option"
  rCount :: "('row \<Rightarrow> bool) \<Rightarrow> 't \<Rightarrow> nat"
  rSave :: "'row \<Rightarrow> 't \<Rightarrow> 't"
  rUpdate :: "('row \<Rightarrow> bool) \<Rightarrow> ('row \<Rightarrow> 'row) \<Rightarrow> 't \<Rightarrow> 't"
  rDelete :: "('row \<Rightarrow> bool) \<Rightarrow> 't \<Rightarrow> 't"

text \<open>The row with a given primary key.\<close>

definition rGet :: "('t, 'row) repo \<Rightarrow> ('row \<Rightarrow> 'k) \<Rightarrow> 'k \<Rightarrow> 't \<Rightarrow> 'row option" where
  "rGet R key k t = rFindOne R (\<lambda>r. key r = k) t"

text \<open>
  The rows that \<^verbatim>\<open>skip\<close> and \<^verbatim>\<open>take\<close> select of a query's result: the database rejects a negative
  offset, and a \<^verbatim>\<open>take\<close> of zero is no limit.
\<close>

definition pageOf :: "int \<Rightarrow> nat \<Rightarrow> 'row list \<Rightarrow> js_error + 'row list" where
  "pageOf page limit rows =
     (let skip = (page - 1) * int limit; rest = drop (nat skip) rows
      in if skip < 0 then Inl (Error ''OFFSET must not be negative'')
         else Inr (if limit = 0 then rest else take limit rest))"

locale repository =
  fixes R :: "('t, 'row) repo" and key :: "'row \<Rightarrow> 'k"
  assumes find_iff: "r \<in> set (rFind R P t) \<longleftrightarrow> rGet R key (key r) t = Some r \<and> P r"
    and find_distinct: "distinct (map key (rFind R P t))"
    and findOne_None: "rFindOne R P t = None \<longleftrightarrow> rFind R P t = []"
    and findOne_Some: "rFindOne R P t = Some r \<Longrightarrow> r \<in> set (rFind R P t)"
    and findOrd_mset: "mset (rFindOrd R P le t) = mset (rFind R P t)"
    and findOrd_sorted: "total_preorder le \<Longrightarrow> sorted_wrt le (rFindOrd R P le t)"
    and count_find: "rCount R P t = length (rFind R P t)"
    and get_save: "rGet R key k (rSave R r t) = (if k = key r then Some r else rGet R key k t)"
    and get_update: "(\<And>r. key (f r) = key r) \<Longrightarrow>
          rGet R key k (rUpdate R P f t) = map_option (\<lambda>r. if P r then f r else r) (rGet R key k t)"
    and get_delete: "rGet R key k (rDelete R P t) =
          (case rGet R key k t of None \<Rightarrow> None | Some r \<Rightarrow> if P r then None else Some r)"
begin

lemma get_key: "rGet R key k t = Some r \<Longrightarrow> key r = k"
  using findOne_Some find_iff unfolding rGet_def by fastforce

lemma find_get: "r \<in> set (rFind R P t) \<Longrightarrow> rGet R key (key r) t = Some r \<and> P r"
  by (simp add: find_iff)

lemma findOrd_set: "set (rFindOrd R P le t) = set (rFind R P t)"
  using findOrd_mset by (metis set_mset_mset)

lemma findOrd_distinct: "distinct (map key (rFindOrd R P le t))"
  using findOrd_mset find_distinct by (metis mset_map mset_eq_imp_distinct_iff)

lemma findOne_get: "rFindOne R P t = Some r \<Longrightarrow> rGet R key (key r) t = Some r \<and> P r"
  using findOne_Some find_iff by blast

lemma findOne_NoneD: "rFindOne R P t = None \<Longrightarrow> rGet R key k t = Some r \<Longrightarrow> \<not> P r"
  using findOne_None find_iff get_key by (metis empty_iff list.set(1))

lemma count_card: "rCount R P t = card {r. rGet R key (key r) t = Some r \<and> P r}"
proof -
  have "set (rFind R P t) = {r. rGet R key (key r) t = Some r \<and> P r}"
    by (rule set_eqI) (simp only: find_iff mem_Collect_eq)
  moreover have "distinct (rFind R P t)" using find_distinct [of P t] by (simp only: distinct_map)
  ultimately show ?thesis unfolding count_find by (simp add: distinct_card [symmetric])
qed

lemma findOne_exists:
  assumes "rGet R key k t = Some r" and "P r"
  obtains v where "rFindOne R P t = Some v" and "P v"
proof -
  from assms obtain v where v: "rFindOne R P t = Some v" using findOne_NoneD by blast
  then have "P v" using findOne_Some find_get by blast
  with v show ?thesis by (rule that)
qed

lemma find_mset: "mset (rFind R P t) = mset_set {r. rGet R key (key r) t = Some r \<and> P r}"
proof -
  have "set (rFind R P t) = {r. rGet R key (key r) t = Some r \<and> P r}"
    by (rule set_eqI) (simp only: find_iff mem_Collect_eq)
  moreover have "distinct (rFind R P t)" using find_distinct [of P t] by (simp only: distinct_map)
  ultimately show ?thesis by (metis mset_set_set)
qed

lemma finite_rows: "finite {r. rGet R key (key r) t = Some r \<and> P r}"
proof -
  have "{r. rGet R key (key r) t = Some r \<and> P r} = set (rFind R P t)"
    by (rule set_eqI) (simp only: find_iff mem_Collect_eq)
  then show ?thesis by simp
qed

lemma find_save_mset:
  assumes "rGet R key (key r) t = None" and "P r"
  shows "mset (rFind R P (rSave R r t)) = add_mset r (mset (rFind R P t))"
proof -
  let ?S = "\<lambda>t. {r. rGet R key (key r) t = Some r \<and> P r}"
  have "?S (rSave R r t) = insert r (?S t)" using assms by (auto simp: get_save)
  moreover have "r \<notin> ?S t" using assms by simp
  ultimately show ?thesis using finite_rows [of t P] by (simp only: find_mset mset_set.insert not_False_eq_True)
qed

lemma get_fold_save:
  "k \<notin> key ` set rs \<Longrightarrow> rGet R key k (fold (rSave R) rs t) = rGet R key k t"
  by (induction rs arbitrary: t) (auto simp: get_save)

lemma find_fold_save_mset:
  assumes "distinct (map key rs)" and "\<And>r. r \<in> set rs \<Longrightarrow> rGet R key (key r) t = None \<and> P r"
  shows "mset (rFind R P (fold (rSave R) rs t)) = mset rs + mset (rFind R P t)"
  using assms
proof (induction rs arbitrary: t)
  case (Cons r rs)
  have "rGet R key (key r') (rSave R r t) = None \<and> P r'" if "r' \<in> set rs" for r'
    using Cons.prems that by (auto simp: get_save rev_image_eqI)
  with Cons have "mset (rFind R P (fold (rSave R) rs (rSave R r t))) =
      mset rs + mset (rFind R P (rSave R r t))" by simp
  with Cons.prems show ?case by (simp add: find_save_mset)
qed simp

lemma find_delete_mset:
  "mset (rFind R P (rDelete R Q t)) = mset (filter (\<lambda>r. \<not> Q r) (rFind R P t))"
proof -
  have "{r. rGet R key (key r) (rDelete R Q t) = Some r \<and> P r} =
      {r \<in> {r. rGet R key (key r) t = Some r \<and> P r}. \<not> Q r}"
    by (auto simp: get_delete split: option.splits if_splits)
  then show ?thesis using finite_rows [of t P] by (simp only: find_mset mset_filter filter_mset_mset_set)
qed

lemma find_filter_mset: "mset (rFind R (\<lambda>r. P r \<and> Q r) t) = mset (filter Q (rFind R P t))"
proof -
  have "{r. rGet R key (key r) t = Some r \<and> P r \<and> Q r} =
      {r \<in> {r. rGet R key (key r) t = Some r \<and> P r}. Q r}" by blast
  then show ?thesis using finite_rows [of t P] by (simp only: find_mset mset_filter filter_mset_mset_set)
qed

lemma find_save_other:
  "r' \<in> set (rFind R P (rSave R r t)) \<longleftrightarrow>
     (if key r' = key r then r' = r \<and> P r else r' \<in> set (rFind R P t))"
  by (auto simp: find_iff get_save)

end

section \<open>The in-memory table\<close>

text \<open>
  Rows in the order they were saved, newest first; of two rows with one key the newer counts.
\<close>

fun memRows :: "('row \<Rightarrow> 'k) \<Rightarrow> 'row list \<Rightarrow> 'row list" where
  "memRows key [] = []"
| "memRows key (r # rs) = r # filter (\<lambda>r'. key r' \<noteq> key r) (memRows key rs)"

definition memFind :: "('row \<Rightarrow> 'k) \<Rightarrow> ('row \<Rightarrow> bool) \<Rightarrow> 'row list \<Rightarrow> 'row list" where
  "memFind key P t = filter P (memRows key t)"

definition memFindOne :: "('row \<Rightarrow> 'k) \<Rightarrow> ('row \<Rightarrow> bool) \<Rightarrow> 'row list \<Rightarrow> 'row option" where
  "memFindOne key P t = (case memFind key P t of [] \<Rightarrow> None | r # _ \<Rightarrow> Some r)"

definition memRepo :: "('row \<Rightarrow> 'k) \<Rightarrow> ('row list, 'row) repo" where
  "memRepo key =
     \<lparr>rFind = memFind key,
      rFindOrd = (\<lambda>P le t. sortBy le (memFind key P t)),
      rFindOne = memFindOne key,
      rCount = (\<lambda>P t. length (memFind key P t)),
      rSave = (#),
      rUpdate = (\<lambda>P f t. map (\<lambda>r. if P r then f r else r) (memRows key t)),
      rDelete = (\<lambda>P t. filter (\<lambda>r. \<not> P r) (memRows key t))\<rparr>"

lemma memRepo_simps [simp]:
  "rFind (memRepo key) = memFind key"
  "rFindOrd (memRepo key) P le t = sortBy le (memFind key P t)"
  "rFindOne (memRepo key) = memFindOne key"
  "rCount (memRepo key) P t = length (memFind key P t)"
  "rSave (memRepo key) = (#)"
  "rUpdate (memRepo key) P f t = map (\<lambda>r. if P r then f r else r) (memRows key t)"
  "rDelete (memRepo key) P t = filter (\<lambda>r. \<not> P r) (memRows key t)"
  by (simp_all add: memRepo_def)

lemma memRows_distinct: "distinct (map key (memRows key t))"
proof (induction t)
  case (Cons r rs)
  then show ?case by (auto simp: distinct_map inj_on_def)
qed simp

lemma memRows_idem: "distinct (map key t) \<Longrightarrow> memRows key t = t"
proof (induction t)
  case (Cons r rs)
  then have "filter (\<lambda>r'. key r' \<noteq> key r) rs = rs"
    by (auto simp: filter_id_conv rev_image_eqI)
  with Cons show ?case by simp
qed simp

definition memGet :: "('row \<Rightarrow> 'k) \<Rightarrow> 'k \<Rightarrow> 'row list \<Rightarrow> 'row option" where
  "memGet key k t = rGet (memRepo key) key k t"

lemma filter_key_distinct:
  "distinct (map key xs) \<Longrightarrow> filter (\<lambda>r. key r = k) xs = (case find (\<lambda>r. key r = k) xs of None \<Rightarrow> [] | Some r \<Rightarrow> [r])"
proof (induction xs)
  case (Cons x xs)
  then have "filter (\<lambda>r. key r = key x) xs = []" by (auto simp: filter_empty_conv rev_image_eqI)
  with Cons show ?case by auto
qed simp

lemma memGet_find: "memGet key k t = find (\<lambda>r. key r = k) (memRows key t)"
  by (simp add: memGet_def rGet_def memFindOne_def memFind_def memRows_distinct filter_key_distinct
      split: option.splits)

lemma find_key_iff:
  "distinct (map key xs) \<Longrightarrow> find (\<lambda>r. key r = k) xs = Some r \<longleftrightarrow> r \<in> set xs \<and> key r = k"
  by (induction xs) (auto simp: rev_image_eqI)

lemma memGet_iff: "memGet key k t = Some r \<longleftrightarrow> r \<in> set (memRows key t) \<and> key r = k"
  by (simp add: memGet_find find_key_iff memRows_distinct)

lemma find_filter: "find P (filter Q xs) = find (\<lambda>x. Q x \<and> P x) xs"
  by (induction xs) auto

lemma find_map_key:
  "(\<And>r. key (g r) = key r) \<Longrightarrow> find (\<lambda>r. key r = k) (map g xs) = map_option g (find (\<lambda>r. key r = k) xs)"
  by (induction xs) auto

lemma memGet_save: "memGet key k (r # t) = (if k = key r then Some r else memGet key k t)"
proof -
  have "find (\<lambda>x. key x \<noteq> key r \<and> key x = k) xs = find (\<lambda>x. key x = k) xs" if "k \<noteq> key r" for xs
    using that by (induction xs) auto
  then show ?thesis by (simp add: memGet_find find_filter)
qed

lemma memGet_update:
  assumes "\<And>r. key (f r) = key r"
  shows "memGet key k (map (\<lambda>r. if P r then f r else r) (memRows key t)) =
         map_option (\<lambda>r. if P r then f r else r) (memGet key k t)"
proof -
  let ?g = "\<lambda>r. if P r then f r else r"
  have g: "key (?g r) = key r" for r using assms by simp
  have "map key (map ?g (memRows key t)) = map key (memRows key t)" using g by simp
  then have "distinct (map key (map ?g (memRows key t)))" using memRows_distinct by metis
  then show ?thesis
    using g by (simp only: memGet_find memRows_idem find_map_key)
qed

lemma memGet_delete:
  "memGet key k (filter (\<lambda>r. \<not> P r) (memRows key t)) =
     (case memGet key k t of None \<Rightarrow> None | Some r \<Rightarrow> if P r then None else Some r)"
proof -
  let ?t = "filter (\<lambda>r. \<not> P r) (memRows key t)"
  have d: "distinct (map key ?t)" by (rule distinct_map_filter) (rule memRows_distinct)
  have i: "memGet key k ?t = Some r \<longleftrightarrow> memGet key k t = Some r \<and> \<not> P r" for r
    by (auto simp: memGet_iff memRows_idem [OF d])
  show ?thesis
  proof (cases "memGet key k t")
    case None
    with i show ?thesis by (metis not_None_eq option.simps(3,4))
  next
    case (Some r)
    have "P r \<Longrightarrow> memGet key k ?t = None"
      using i Some by (metis not_None_eq option.inject)
    moreover have "\<not> P r \<Longrightarrow> memGet key k ?t = Some r" using i Some by simp
    ultimately show ?thesis using Some by simp
  qed
qed

interpretation mem: repository "memRepo key" key for key :: "'row \<Rightarrow> 'k"
proof (unfold_locales, goal_cases)
  case (1 r P t)
  then show ?case by (simp add: memGet_def [symmetric] memGet_iff memFind_def)
next
  case (2 P t)
  then show ?case by (simp add: memFind_def memRows_distinct distinct_map_filter)
next
  case (3 P t)
  then show ?case by (simp add: memFindOne_def split: list.splits)
next
  case (4 P t r)
  then show ?case by (auto simp: memFindOne_def split: list.splits)
next
  case (5 P le t)
  then show ?case by simp
next
  case (6 le P t)
  then show ?case by (simp add: sorted_wrt_sortBy)
next
  case (7 P t)
  then show ?case by simp
next
  case (8 k r t)
  then show ?case using memGet_save [of key k r t] by (simp add: memGet_def)
next
  case (9 f k P t)
  then show ?case using memGet_update [of key f k P t] by (simp add: memGet_def)
next
  case (10 k P t)
  then show ?case using memGet_delete [of key k P t] by (simp add: memGet_def)
qed

lemmas mem_repository = mem.repository_axioms

end
