(* ===== verification/Redis.thy ===== *)
theory Redis
  imports Prelude
begin

text \<open>
  The Redis client interface that the services use for locks, counters, bans, quotas and sessions.
  Redis is a service outside the repository: the operations are a parameter, the record \<open>redis\<close>, and
  the locale \<open>redis_kv\<close> states what the Redis documentation says of them. \<open>look\<close> is the content of
  the store: the value of a key and the seconds it has left, if it expires. \<open>adv\<close> is the passage of
  time, which no method calls. The map store \<open>memRedis\<close> satisfies the laws.
\<close>

section \<open>Decimal numbers as stored values\<close>

definition digitVal :: "char \<Rightarrow> nat" where
  "digitVal c = of_char c - 48"

definition isDigit :: "char \<Rightarrow> bool" where
  "isDigit c = (48 \<le> (of_char c :: nat) \<and> (of_char c :: nat) < 58)"

text \<open>\<^verbatim>\<open>parseInt(s, 10)\<close> on a string that starts with a digit; longer strings are cut at the first
  character that is no digit.\<close>

definition parseInt10 :: "string \<Rightarrow> nat" where
  "parseInt10 s = foldl (\<lambda>a c. 10 * a + digitVal c) 0 (takeWhile isDigit s)"

text \<open>\<^verbatim>\<open>parseInt(s, 10)\<close>: \<open>None\<close> stands for \<^verbatim>\<open>NaN\<close>.\<close>

definition parseIntJs :: "string \<Rightarrow> int option" where
  "parseIntJs s =
     (let t = dropWhile isSpace s; neg = take 1 t = ''-'';
          u = (if neg \<or> take 1 t = ''+'' then drop 1 t else t)
      in if takeWhile isDigit u = [] then None
         else Some (if neg then - int (parseInt10 u) else int (parseInt10 u)))"

lemma isDigit_digitChar: "d < 10 \<Longrightarrow> isDigit (digitChar d)"
  by (simp add: isDigit_def digitChar_def)

lemma digitVal_digitChar: "d < 10 \<Longrightarrow> digitVal (digitChar d) = d"
  by (simp add: digitVal_def digitChar_def)

lemma showNat_digits: "\<forall>c \<in> set (showNat n). isDigit c"
proof (induction n rule: showNat.induct)
  case (1 n)
  then show ?case by (cases "n < 10") (auto simp: showNat.simps [of n] isDigit_digitChar)
qed

lemma parseInt10_showNat [simp]: "parseInt10 (showNat n) = n"
proof -
  have "foldl (\<lambda>a c. 10 * a + digitVal c) 0 (showNat n) = n"
  proof (induction n rule: showNat.induct)
    case (1 n)
    then show ?case by (cases "n < 10") (auto simp: showNat.simps [of n] digitVal_digitChar)
  qed
  moreover have "takeWhile isDigit (showNat n) = showNat n"
    using showNat_digits by (simp add: takeWhile_eq_all_conv)
  ultimately show ?thesis by (simp only: parseInt10_def)
qed

lemma showNat_inj: "showNat m = showNat n \<longleftrightarrow> m = n"
  by (metis parseInt10_showNat)

lemma showNat_nonempty [simp]: "showNat n \<noteq> []"
  by (subst showNat.simps) simp

section \<open>The interface\<close>

record 'r redis =
  rdGet :: "string \<Rightarrow> 'r \<Rightarrow> string option"
  rdSetEx :: "string \<Rightarrow> nat \<Rightarrow> string \<Rightarrow> 'r \<Rightarrow> 'r"
  rdSetNX :: "string \<Rightarrow> string \<Rightarrow> nat \<Rightarrow> 'r \<Rightarrow> bool \<times> 'r"
  rdDel :: "string \<Rightarrow> 'r \<Rightarrow> 'r"
  rdIncr :: "string \<Rightarrow> 'r \<Rightarrow> nat \<times> 'r"
  rdExpire :: "string \<Rightarrow> nat \<Rightarrow> 'r \<Rightarrow> 'r"
  rdTtl :: "string \<Rightarrow> 'r \<Rightarrow> int"

type_synonym kvstate = "string \<rightharpoonup> string \<times> nat option"

definition numAt :: "kvstate \<Rightarrow> string \<Rightarrow> nat" where
  "numAt m k = (case m k of None \<Rightarrow> 0 | Some (v, _) \<Rightarrow> parseInt10 v)"

definition expiryAt :: "kvstate \<Rightarrow> string \<Rightarrow> nat option" where
  "expiryAt m k = (case m k of None \<Rightarrow> None | Some (_, e) \<Rightarrow> e)"

definition advKey :: "nat \<Rightarrow> (string \<times> nat option) option \<Rightarrow> (string \<times> nat option) option" where
  "advKey d e = (case e of Some (v, Some n) \<Rightarrow> (if d < n then Some (v, Some (n - d)) else None) | x \<Rightarrow> x)"

locale redis_kv =
  fixes D :: "'r redis" and look :: "'r \<Rightarrow> kvstate" and adv :: "nat \<Rightarrow> 'r \<Rightarrow> 'r"
  assumes get_look: "rdGet D k r = map_option fst (look r k)"
    and setEx_look: "look (rdSetEx D k n v r) = (look r)(k \<mapsto> (v, Some n))"
    and setNX_taken: "look r k \<noteq> None \<Longrightarrow> rdSetNX D k v n r = (False, r)"
    and setNX_free: "look r k = None \<Longrightarrow>
          fst (rdSetNX D k v n r) \<and> look (snd (rdSetNX D k v n r)) = (look r)(k \<mapsto> (v, Some n))"
    and del_look: "look (rdDel D k r) = (look r)(k := None)"
    and incr_val: "fst (rdIncr D k r) = Suc (numAt (look r) k)"
    and incr_look: "look (snd (rdIncr D k r)) =
          (look r)(k \<mapsto> (showNat (Suc (numAt (look r) k)), expiryAt (look r) k))"
    and expire_look: "look (rdExpire D k n r) =
          (case look r k of None \<Rightarrow> look r | Some (v, _) \<Rightarrow> (look r)(k \<mapsto> (v, Some n)))"
    and ttl_look: "rdTtl D k r =
          (case look r k of None \<Rightarrow> -2 | Some (_, None) \<Rightarrow> -1 | Some (_, Some n) \<Rightarrow> int n)"
    and adv_look: "look (adv d r) k = advKey d (look r k)"
begin

lemmas look_simps = get_look setEx_look del_look incr_val incr_look expire_look adv_look

lemma numAt_incr: "numAt (look (snd (rdIncr D k r))) k' = (if k' = k then Suc (numAt (look r) k) else numAt (look r) k')"
  by (simp add: numAt_def incr_look)

end

section \<open>The map store\<close>

definition memRedis :: "kvstate redis" where
  "memRedis =
     \<lparr>rdGet = (\<lambda>k r. map_option fst (r k)),
      rdSetEx = (\<lambda>k n v r. r(k \<mapsto> (v, Some n))),
      rdSetNX = (\<lambda>k v n r. if r k = None then (True, r(k \<mapsto> (v, Some n))) else (False, r)),
      rdDel = (\<lambda>k r. r(k := None)),
      rdIncr = (\<lambda>k r. (Suc (numAt r k), r(k \<mapsto> (showNat (Suc (numAt r k)), expiryAt r k)))),
      rdExpire = (\<lambda>k n r. case r k of None \<Rightarrow> r | Some (v, _) \<Rightarrow> r(k \<mapsto> (v, Some n))),
      rdTtl = (\<lambda>k r. case r k of None \<Rightarrow> -2 | Some (_, None) \<Rightarrow> -1 | Some (_, Some n) \<Rightarrow> int n)\<rparr>"

definition memAdv :: "nat \<Rightarrow> kvstate \<Rightarrow> kvstate" where
  "memAdv d r = (\<lambda>k. advKey d (r k))"

interpretation mkv: redis_kv memRedis "\<lambda>r. r" memAdv
  by unfold_locales (auto simp: memRedis_def memAdv_def split: option.splits)

end
