(* ===== verification/Workflow_Entities.thy ===== *)
theory Workflow_Entities
  imports Workflow_StateMachine Idempotency Repository Redis
begin

text \<open>
  The rows of the workflow engine (\<^verbatim>\<open>workflow/entities\<close>), its definitions
  (\<^verbatim>\<open>workflow/types\<close>) and the world its services run in: the two tables, the Redis store that
  holds the start locks, and counters of the readings of the clock, of the random source and of the
  step operations made so far. A service takes the record \<open>wfenv\<close> as an argument: the repositories,
  the Redis client, the SHA-256 function, and the successive answers of the clock and of
  \<^verbatim>\<open>Math.random\<close>. Database and Redis calls of the engine are taken to succeed.
\<close>

datatype WorkflowType =
  CONTRACT_DEPLOYMENT | TRADE_EXECUTION | AI_JOB_CHAIN | INDEXING_VERIFICATION | PORTFOLIO_UPDATE
  | REWARD_GRANT

fun wfTypeName :: "WorkflowType \<Rightarrow> string" where
  "wfTypeName CONTRACT_DEPLOYMENT = ''contract_deployment''"
| "wfTypeName TRADE_EXECUTION = ''trade_execution''"
| "wfTypeName AI_JOB_CHAIN = ''ai_job_chain''"
| "wfTypeName INDEXING_VERIFICATION = ''indexing_verification''"
| "wfTypeName PORTFOLIO_UPDATE = ''portfolio_update''"
| "wfTypeName REWARD_GRANT = ''reward_grant''"

section \<open>Entities\<close>

record WorkflowStep =
  s_id :: string
  s_workflowId :: string
  s_stepName :: string
  s_stepIndex :: nat
  s_state :: StepState
  s_input :: "json option"
  s_output :: "json option"
  s_config :: "json option"
  s_retryCount :: nat
  s_maxRetries :: nat
  s_startedAt :: "date option"
  s_completedAt :: "date option"
  s_failedAt :: "date option"
  s_failureReason :: "string option"
  s_nextRetryAt :: "date option"
  s_requiresCompensation :: bool
  s_isCompensated :: bool
  s_compensatedAt :: "date option"
  s_compensationStepName :: "string option"
  s_compensationConfig :: "json option"
  s_isIdempotent :: bool
  s_idempotencyKey :: "string option"
  s_createdAt :: date
  s_updatedAt :: date

record Workflow =
  w_id :: string
  w_idempotencyKey :: string
  w_type :: string
  w_state :: WorkflowState
  w_userId :: "string option"
  w_walletAddress :: "string option"
  w_input :: "(string \<times> json) list"
  w_output :: "json option"
  w_context :: "json option"
  w_currentStepIndex :: nat
  w_totalSteps :: nat
  w_startedAt :: "date option"
  w_completedAt :: "date option"
  w_failedAt :: "date option"
  w_failureReason :: "string option"
  w_retryCount :: nat
  w_maxRetries :: nat
  w_nextRetryAt :: "date option"
  w_requiresCompensation :: bool
  w_isCompensated :: bool
  w_createdAt :: date
  w_updatedAt :: date

section \<open>Definitions\<close>

record WorkflowContext =
  x_workflowId :: string
  x_idempotencyKey :: string
  x_userId :: "string option"
  x_walletAddress :: "string option"
  x_type :: string
  x_retryCount :: nat
  x_stepIndex :: nat
  x_metadata :: "json option"

text \<open>
  A step operation is an asynchronous function of the caller: its \<open>n\<close>-th invocation settles after a
  number of milliseconds, with a value or an exception.
\<close>

datatype settled = Settled nat "js_error + json"

record StepDefinition =
  sd_name :: string
  sd_execute :: "stepInput \<Rightarrow> WorkflowContext \<Rightarrow> nat \<Rightarrow> settled"
  sd_hasCompensate :: bool
  sd_isIdempotent :: bool
  sd_maxRetries :: "nat option"
  sd_timeout :: "nat option"
  sd_config :: "json option"

record WorkflowDefinition =
  d_type :: string
  d_name :: string
  d_description :: string
  d_steps :: "StepDefinition list"
  d_maxRetries :: "nat option"
  d_timeout :: "nat option"
  d_requiresCompensation :: "bool option"
  d_metadata :: "json option"

section \<open>The world of the engine\<close>

record ('wt, 'st, 'r) wfenv =
  wfRepo :: "('wt, Workflow) repo"
  stRepo :: "('st, WorkflowStep) repo"
  redisOf :: "'r redis"
  sha256Of :: "string \<Rightarrow> string"
  clockOf :: "nat \<Rightarrow> date"
  randomOf :: "nat \<Rightarrow> int"
  workflowDefinitions :: "string \<Rightarrow> WorkflowDefinition option"

record ('wt, 'st, 'r) world =
  wfTab :: 'wt
  stTab :: 'st
  rstore :: 'r
  ticks :: nat
  draws :: nat
  calls :: nat

definition nowOf :: "('wt, 'st, 'r) wfenv \<Rightarrow> ('wt, 'st, 'r) world \<Rightarrow> date" where
  "nowOf env s = clockOf env (ticks s)"

definition tick :: "('wt, 'st, 'r) world \<Rightarrow> ('wt, 'st, 'r) world" where
  "tick s = s\<lparr>ticks := Suc (ticks s)\<rparr>"

text \<open>
  \<^verbatim>\<open>save\<close> of an entity with an \<^verbatim>\<open>@UpdateDateColumn\<close>: the column gets the time of the write.
\<close>

definition saveWorkflow ::
    "('wt, 'st, 'r) wfenv \<Rightarrow> Workflow \<Rightarrow> ('wt, 'st, 'r) world \<Rightarrow> ('wt, 'st, 'r) world" where
  "saveWorkflow env w s =
     tick (s\<lparr>wfTab := rSave (wfRepo env) (w\<lparr>w_updatedAt := nowOf env s\<rparr>) (wfTab s)\<rparr>)"

definition saveStep ::
    "('wt, 'st, 'r) wfenv \<Rightarrow> WorkflowStep \<Rightarrow> ('wt, 'st, 'r) world \<Rightarrow> ('wt, 'st, 'r) world" where
  "saveStep env p s =
     tick (s\<lparr>stTab := rSave (stRepo env) (p\<lparr>s_updatedAt := nowOf env s\<rparr>) (stTab s)\<rparr>)"

abbreviation getWf :: "('wt, 'st, 'r) wfenv \<Rightarrow> ('wt, 'st, 'r) world \<Rightarrow> string \<Rightarrow> Workflow option" where
  "getWf env s i \<equiv> rGet (wfRepo env) w_id i (wfTab s)"

abbreviation getSt :: "('wt, 'st, 'r) wfenv \<Rightarrow> ('wt, 'st, 'r) world \<Rightarrow> string \<Rightarrow> WorkflowStep option" where
  "getSt env s i \<equiv> rGet (stRepo env) s_id i (stTab s)"

text \<open>\<^verbatim>\<open>relations: { steps: true }\<close>: the steps of a workflow, in no particular order.\<close>

definition stepsOf :: "('wt, 'st, 'r) wfenv \<Rightarrow> string \<Rightarrow> ('wt, 'st, 'r) world \<Rightarrow> WorkflowStep list" where
  "stepsOf env wid s = rFind (stRepo env) (\<lambda>p. s_workflowId p = wid) (stTab s)"

locale wf_tables =
  W: repository "wfRepo env" w_id + S: repository "stRepo env" s_id
  for env :: "('wt, 'st, 'r) wfenv"
begin

lemma getWf_saveWorkflow: "getWf env (saveWorkflow env w s) i =
    (if i = w_id w then Some (w\<lparr>w_updatedAt := nowOf env s\<rparr>) else getWf env s i)"
  by (simp add: saveWorkflow_def tick_def W.get_save)

lemma getSt_saveWorkflow: "getSt env (saveWorkflow env w s) i = getSt env s i"
  by (simp add: saveWorkflow_def tick_def)

lemma getSt_saveStep: "getSt env (saveStep env p s) i =
    (if i = s_id p then Some (p\<lparr>s_updatedAt := nowOf env s\<rparr>) else getSt env s i)"
  by (simp add: saveStep_def tick_def S.get_save)

lemma getWf_saveStep: "getWf env (saveStep env p s) i = getWf env s i"
  by (simp add: saveStep_def tick_def)

lemma stepsOf_iff: "p \<in> set (stepsOf env wid s) \<longleftrightarrow> getSt env s (s_id p) = Some p \<and> s_workflowId p = wid"
  by (simp add: stepsOf_def S.find_iff)

lemma getSt_id: "getSt env s i = Some p \<Longrightarrow> s_id p = i"
  by (rule S.get_key)

lemma getWf_id: "getWf env s i = Some w \<Longrightarrow> w_id w = i"
  by (rule W.get_key)

end

lemma getWf_tick [simp]: "getWf env (tick s) i = getWf env s i"
  and getSt_tick [simp]: "getSt env (tick s) i = getSt env s i"
  by (simp_all add: tick_def)

lemma world_frame [simp]:
  "rstore (saveWorkflow env w s) = rstore s" "calls (saveWorkflow env w s) = calls s"
  "draws (saveWorkflow env w s) = draws s" "ticks (saveWorkflow env w s) = Suc (ticks s)"
  "rstore (saveStep env p s) = rstore s" "calls (saveStep env p s) = calls s"
  "draws (saveStep env p s) = draws s" "ticks (saveStep env p s) = Suc (ticks s)"
  "rstore (tick s) = rstore s" "calls (tick s) = calls s" "draws (tick s) = draws s"
  "ticks (tick s) = Suc (ticks s)" "wfTab (tick s) = wfTab s" "stTab (tick s) = stTab s"
  "wfTab (saveStep env p s) = wfTab s" "stTab (saveWorkflow env w s) = stTab s"
  by (simp_all add: saveWorkflow_def saveStep_def tick_def)

text \<open>The in-memory engine: both tables in memory and the map store, as the witnesses use it.\<close>

definition memEnv ::
    "(nat \<Rightarrow> date) \<Rightarrow> (string \<Rightarrow> WorkflowDefinition option) \<Rightarrow> (Workflow list, WorkflowStep list, kvstate) wfenv" where
  "memEnv clk defs =
     \<lparr>wfRepo = memRepo w_id, stRepo = memRepo s_id, redisOf = memRedis, sha256Of = id,
      clockOf = clk, randomOf = (\<lambda>_. 0), workflowDefinitions = defs\<rparr>"

definition memWorld :: "Workflow list \<Rightarrow> WorkflowStep list \<Rightarrow> (Workflow list, WorkflowStep list, kvstate) world" where
  "memWorld ws ps = \<lparr>wfTab = ws, stTab = ps, rstore = Map.empty, ticks = 0, draws = 0, calls = 0\<rparr>"

interpretation memt: wf_tables "memEnv clk defs" for clk defs
  unfolding wf_tables_def memEnv_def by (simp add: mem.repository_axioms)

end
