(* ===== verification/Compensation.thy ===== *)
theory Compensation
  imports Workflow_Entities
begin

text \<open>
  The compensation service, \<^verbatim>\<open>workflow/services/compensation.service.ts\<close>: rolling a finished or
  failed workflow back step by step. A compensation is simulated by a timer in the source, so only
  the rows change. The \<^verbatim>\<open>catch\<close> of \<^verbatim>\<open>compensateStep\<close> is reached by a failing database only,
  and saving a workflow with its loaded steps writes the steps as they already are; neither is
  modelled separately.
\<close>

section \<open>Operations\<close>

definition compensateStep ::
    "('wt, 'st, 'r) wfenv \<Rightarrow> WorkflowStep \<Rightarrow> (('wt, 'st, 'r) world, unit) action" where
  "compensateStep env step s =
     (case transitionStep (s_state step) SCOMPENSATING of
        Some err \<Rightarrow> (Inl (Error (''Cannot start step compensation: '' @ err)), s)
      | None \<Rightarrow>
          let step1 = step\<lparr>s_state := SCOMPENSATING, s_compensatedAt := Some (nowOf env s)\<rparr>;
              s1 = saveStep env step1 (tick s);
              step2 = step1\<lparr>s_state := SCOMPENSATED, s_isCompensated := True\<rparr>
          in (Inr (), saveStep env step2 s1))"

text \<open>The steps to roll back: completed ones that need it, last step first.\<close>

definition compensableSteps :: "WorkflowStep list \<Rightarrow> WorkflowStep list" where
  "compensableSteps steps =
     sortBy (\<lambda>a b. s_stepIndex b \<le> s_stepIndex a)
       (filter (\<lambda>p. s_state p = SCOMPLETED \<and> s_requiresCompensation p) steps)"

definition compensateWorkflow ::
    "('wt, 'st, 'r) wfenv \<Rightarrow> string \<Rightarrow> (('wt, 'st, 'r) world, unit) action" where
  "compensateWorkflow env workflowId s =
     (case rFindOne (wfRepo env) (\<lambda>w. w_id w = workflowId) (wfTab s) of
        None \<Rightarrow> (Inl (Error (''Workflow not found: '' @ workflowId)), s)
      | Some workflow \<Rightarrow>
          if \<not> canWorkflowCompensate (w_state workflow)
          then (Inl (Error (''Workflow '' @ workflowId @ '' cannot be compensated in state: '' @
                  wfStateName (w_state workflow))), s)
          else (case transitionWorkflow (w_state workflow) COMPENSATING of
              Some err \<Rightarrow> (Inl (Error (''Cannot start compensation: '' @ err)), s)
            | None \<Rightarrow>
                let steps = stepsOf env workflowId s;
                    workflow1 = workflow\<lparr>w_state := COMPENSATING, w_requiresCompensation := True\<rparr>;
                    s1 = saveWorkflow env workflow1 s
                in case forEach (compensateStep env) (compensableSteps steps) s1 of
                     (Inr _, s2) \<Rightarrow>
                       let workflow2 = workflow1\<lparr>w_state := COMPENSATED, w_isCompensated := True,
                                                w_completedAt := Some (nowOf env s2)\<rparr>
                       in (Inr (), saveWorkflow env workflow2 (tick s2))
                   | (Inl err, s2) \<Rightarrow>
                       let workflow2 = workflow1\<lparr>w_state := FAILED,
                              w_failureReason := Some (''Compensation failed: '' @ message err)\<rparr>
                       in (Inl err, saveWorkflow env workflow2 s2)))"

definition getCompensatableWorkflows :: "('wt, 'st, 'r) wfenv \<Rightarrow> ('wt, 'st, 'r) world \<Rightarrow> Workflow list" where
  "getCompensatableWorkflows env s =
     rFindOrd (wfRepo env)
       (\<lambda>w. (w_state w = FAILED \<and> w_requiresCompensation w \<and> \<not> w_isCompensated w) \<or>
            (w_state w = CANCELLED \<and> w_requiresCompensation w \<and> \<not> w_isCompensated w))
       (\<lambda>a b. w_createdAt b \<le> w_createdAt a) (wfTab s)"

definition requiresCompensation ::
    "('wt, 'st, 'r) wfenv \<Rightarrow> string \<Rightarrow> (('wt, 'st, 'r) world, bool) action" where
  "requiresCompensation env workflowId s =
     (case rFindOne (wfRepo env) (\<lambda>w. w_id w = workflowId) (wfTab s) of
        None \<Rightarrow> (Inl (Error (''Workflow not found: '' @ workflowId)), s)
      | Some workflow \<Rightarrow> (Inr (w_requiresCompensation workflow \<and> \<not> w_isCompensated workflow), s))"

definition forceCompensateStep ::
    "('wt, 'st, 'r) wfenv \<Rightarrow> WorkflowStep \<Rightarrow> (('wt, 'st, 'r) world, unit) action" where
  "forceCompensateStep env step s =
     (let step1 = step\<lparr>s_state := SCOMPENSATING, s_compensatedAt := Some (nowOf env s)\<rparr>;
          s1 = saveStep env step1 (tick s);
          step2 = step1\<lparr>s_state := SCOMPENSATED, s_isCompensated := True\<rparr>
      in (Inr (), saveStep env step2 s1))"

definition forceCompensateWorkflow ::
    "('wt, 'st, 'r) wfenv \<Rightarrow> string \<Rightarrow> (('wt, 'st, 'r) world, unit) action" where
  "forceCompensateWorkflow env workflowId s =
     (case rFindOne (wfRepo env) (\<lambda>w. w_id w = workflowId) (wfTab s) of
        None \<Rightarrow> (Inl (Error (''Workflow not found: '' @ workflowId)), s)
      | Some workflow \<Rightarrow>
          let steps = stepsOf env workflowId s;
              workflow1 = workflow\<lparr>w_state := COMPENSATING, w_requiresCompensation := True\<rparr>;
              s1 = saveWorkflow env workflow1 s
          in case forEach (forceCompensateStep env) (compensableSteps steps) s1 of
               (Inr _, s2) \<Rightarrow>
                 (Inr (), saveWorkflow env (workflow1\<lparr>w_state := COMPENSATED, w_isCompensated := True\<rparr>) s2)
             | (Inl err, s2) \<Rightarrow> (Inl err, s2))"

section \<open>The roll-back loop\<close>

text \<open>On a completed step the checked and the forced roll-back agree.\<close>

lemma compensateStep_force:
  "s_state p = SCOMPLETED \<Longrightarrow> compensateStep env p s = forceCompensateStep env p s"
  by (simp add: compensateStep_def forceCompensateStep_def sm_defs)

lemma forEach_compensateStep:
  "(\<And>p. p \<in> set ps \<Longrightarrow> s_state p = SCOMPLETED) \<Longrightarrow>
     forEach (compensateStep env) ps s = forEach (forceCompensateStep env) ps s"
  by (induction ps arbitrary: s) (auto simp: compensateStep_force split: prod.splits sum.splits)

definition rollRow :: "WorkflowStep \<Rightarrow> date \<Rightarrow> date \<Rightarrow> WorkflowStep" where
  "rollRow p t u = p\<lparr>s_state := SCOMPENSATED, s_isCompensated := True, s_compensatedAt := Some t,
                      s_updatedAt := u\<rparr>"

definition rolledBack :: "WorkflowStep \<Rightarrow> WorkflowStep \<Rightarrow> bool" where
  "rolledBack p q \<longleftrightarrow> (\<exists>t u. q = rollRow p t u)"

abbreviation rollAll ::
    "('wt, 'st, 'r) wfenv \<Rightarrow> WorkflowStep list \<Rightarrow> ('wt, 'st, 'r) world \<Rightarrow> ('wt, 'st, 'r) world" where
  "rollAll env \<equiv> fold (\<lambda>p s. snd (forceCompensateStep env p s))"

lemma fcs_frame [simp]:
  "fst (forceCompensateStep env p s) = Inr ()"
  "wfTab (snd (forceCompensateStep env p s)) = wfTab s"
  "calls (snd (forceCompensateStep env p s)) = calls s"
  "rstore (snd (forceCompensateStep env p s)) = rstore s"
  "ticks (snd (forceCompensateStep env p s)) = ticks s + 3"
  by (simp_all add: forceCompensateStep_def Let_def)

lemma forEach_rollAll: "forEach (forceCompensateStep env) ps s = (Inr (), rollAll env ps s)"
  by (induction ps arbitrary: s) (simp_all add: split_beta)

lemma rollAll_frame [simp]:
  "wfTab (rollAll env ps s) = wfTab s" "calls (rollAll env ps s) = calls s"
  "rstore (rollAll env ps s) = rstore s"
  by (induction ps arbitrary: s) simp_all

lemma rollAll_ticks: "ticks s \<le> ticks (rollAll env ps s)"
proof (induction ps arbitrary: s)
  case (Cons p ps)
  from Cons [of "snd (forceCompensateStep env p s)"] show ?case by simp
qed simp

context wf_tables
begin

lemma fcs_get: "getSt env (snd (forceCompensateStep env p s)) i =
    (if i = s_id p then Some (rollRow p (clockOf env (ticks s)) (clockOf env (Suc (Suc (ticks s)))))
     else getSt env s i)"
  by (simp add: forceCompensateStep_def Let_def getSt_saveStep nowOf_def rollRow_def)

lemma rollAll_out: "i \<notin> s_id ` set ps \<Longrightarrow> getSt env (rollAll env ps s) i = getSt env s i"
  by (induction ps arbitrary: s) (simp_all add: fcs_get)

text \<open>The \<open>n\<close>-th step of the loop is rolled back at the \<open>3n\<close>-th reading of the clock.\<close>

lemma rollAll_nth:
  assumes "distinct (map s_id ps)" and "n < length ps"
  shows "getSt env (rollAll env ps s) (s_id (ps ! n)) =
     Some (rollRow (ps ! n) (clockOf env (ticks s + 3 * n)) (clockOf env (ticks s + 3 * n + 2)))"
  using assms
proof (induction ps arbitrary: s n)
  case (Cons q ps)
  show ?case
  proof (cases n)
    case 0
    have "s_id q \<notin> s_id ` set ps" using Cons.prems(1) by simp
    then show ?thesis using 0 by (simp add: rollAll_out fcs_get)
  next
    case (Suc m)
    then show ?thesis using Cons.IH [of m "snd (forceCompensateStep env q s)"] Cons.prems
      by (simp add: algebra_simps)
  qed
qed simp

lemma rollAll_in:
  assumes "distinct (map s_id ps)" and "p \<in> set ps"
  shows "\<exists>q. getSt env (rollAll env ps s) (s_id p) = Some q \<and> rolledBack p q"
  using rollAll_nth [OF assms(1)] assms(2) unfolding in_set_conv_nth rolledBack_def by blast

lemma compensableSteps_props:
  "p \<in> set (compensableSteps (stepsOf env wid s)) \<longleftrightarrow>
     getSt env s (s_id p) = Some p \<and> s_workflowId p = wid \<and> s_state p = SCOMPLETED \<and> s_requiresCompensation p"
  "distinct (map s_id (compensableSteps (stepsOf env wid s)))"
  using S.find_distinct
  by (auto simp: compensableSteps_def stepsOf_iff, simp add: stepsOf_def distinct_map_filter)

lemma compensateWorkflow_eq:
  assumes wf: "getWf env s i = Some w" and can: "canWorkflowCompensate (w_state w)"
  defines "w1 \<equiv> w\<lparr>w_state := COMPENSATING, w_requiresCompensation := True\<rparr>"
  defines "s2 \<equiv> rollAll env (compensableSteps (stepsOf env i s)) (saveWorkflow env w1 s)"
  shows "compensateWorkflow env i s = (Inr (), saveWorkflow env
     (w1\<lparr>w_state := COMPENSATED, w_isCompensated := True, w_completedAt := Some (nowOf env s2)\<rparr>) (tick s2))"
proof -
  have "transitionWorkflow (w_state w) COMPENSATING = None"
    using can compensatable_table by (simp add: transitionWorkflow_def)
  moreover have "forEach (compensateStep env) (compensableSteps (stepsOf env i s)) (saveWorkflow env w1 s) = (Inr (), s2)"
    using forEach_compensateStep [of "compensableSteps (stepsOf env i s)" env "saveWorkflow env w1 s"]
    by (simp add: compensableSteps_props forEach_rollAll s2_def)
  ultimately show ?thesis
    using wf can by (simp add: compensateWorkflow_def rGet_def Let_def w1_def [symmetric] s2_def [symmetric])
qed

lemma compensateWorkflow_run:
  assumes wf: "getWf env s i = Some w" and can: "canWorkflowCompensate (w_state w)"
  shows "\<exists>s'. compensateWorkflow env i s = (Inr (), s') \<and> calls s' = calls s \<and>
     (\<exists>w'. getWf env s' i = Some w' \<and> w_state w' = COMPENSATED \<and> w_isCompensated w' \<and>
           w_requiresCompensation w' \<and> w_completedAt w' \<noteq> None) \<and>
     (\<forall>j. j \<noteq> i \<longrightarrow> getWf env s' j = getWf env s j) \<and>
     (\<forall>j p. getSt env s j = Some p \<longrightarrow>
        (\<exists>q. getSt env s' j = Some q \<and>
           (if s_workflowId p = i \<and> s_state p = SCOMPLETED \<and> s_requiresCompensation p
            then rolledBack p q else q = p)))"
proof -
  let ?ps = "compensableSteps (stepsOf env i s)"
  let ?w1 = "w\<lparr>w_state := COMPENSATING, w_requiresCompensation := True\<rparr>"
  let ?s1 = "saveWorkflow env ?w1 s"
  have id: "w_id w = i" using wf by (rule getWf_id)
  let ?s2 = "rollAll env ?ps ?s1"
  let ?w2 = "?w1\<lparr>w_state := COMPENSATED, w_isCompensated := True, w_completedAt := Some (nowOf env ?s2)\<rparr>"
  let ?s' = "saveWorkflow env ?w2 (tick ?s2)"
  have eq: "compensateWorkflow env i s = (Inr (), ?s')" by (rule compensateWorkflow_eq [OF wf can])
  have st: "getSt env ?s' j = getSt env ?s2 j" for j by (simp add: getSt_saveWorkflow)
  have steps: "\<exists>q. getSt env ?s' j = Some q \<and>
      (if s_workflowId p = i \<and> s_state p = SCOMPLETED \<and> s_requiresCompensation p
       then rolledBack p q else q = p)" if p: "getSt env s j = Some p" for j p
  proof (cases "p \<in> set ?ps")
    case True
    from rollAll_in [OF compensableSteps_props(2) True, of ?s1]
    have "\<exists>q. getSt env ?s' j = Some q \<and> rolledBack p q"
      unfolding st using getSt_id [OF p] by simp
    with True show ?thesis unfolding compensableSteps_props by auto
  next
    case False
    then have "j \<notin> s_id ` set ?ps" using p getSt_id unfolding compensableSteps_props
      by (metis compensableSteps_props(1) imageE option.inject)
    then have "getSt env ?s' j = Some p" using p by (simp add: st rollAll_out)
    with False p getSt_id [OF p] show ?thesis unfolding compensableSteps_props by auto
  qed
  have "getWf env ?s' i = Some (?w2\<lparr>w_updatedAt := nowOf env (tick ?s2)\<rparr>)"
    by (simp add: getWf_saveWorkflow id)
  moreover have "getWf env ?s' j = getWf env s j" if "j \<noteq> i" for j
    using that id by (simp add: saveWorkflow_def tick_def W.get_save)
  moreover have "calls ?s' = calls s" by simp
  ultimately show ?thesis using eq steps by (intro exI [of _ ?s']) simp
qed

lemma compensable_order:
  assumes "p \<in> set (compensableSteps ps)" and "q \<in> set (compensableSteps ps)"
    and "s_stepIndex p < s_stepIndex q"
  shows "\<exists>m n. m < n \<and> n < length (compensableSteps ps) \<and>
           compensableSteps ps ! m = q \<and> compensableSteps ps ! n = p"
proof -
  obtain m n where mn: "m < length (compensableSteps ps)" "compensableSteps ps ! m = q"
      "n < length (compensableSteps ps)" "compensableSteps ps ! n = p"
    using assms(1,2) by (metis in_set_conv_nth)
  have "sorted_wrt (\<lambda>a b. s_stepIndex b \<le> s_stepIndex a) (compensableSteps ps)"
    unfolding compensableSteps_def by (intro sorted_wrt_sortBy total_preorder_key_desc)
  then have "m < n" using mn assms(3)
    by (metis linorder_neqE_nat not_less order_less_irrefl sorted_wrt_nth_less)
  with mn show ?thesis by blast
qed

lemma compensation_order_run:
  assumes clk: "strict_mono (clockOf env)"
    and wf: "getWf env s i = Some w" "canWorkflowCompensate (w_state w)"
    and run: "compensateWorkflow env i s = (r, s')"
    and p: "p \<in> set (compensableSteps (stepsOf env i s))"
    and q: "q \<in> set (compensableSteps (stepsOf env i s))" and lt: "s_stepIndex p < s_stepIndex q"
  shows "\<exists>p' q' tp tq. getSt env s' (s_id p) = Some p' \<and> s_compensatedAt p' = Some tp \<and>
           getSt env s' (s_id q) = Some q' \<and> s_compensatedAt q' = Some tq \<and> tq < tp"
proof -
  let ?ps = "compensableSteps (stepsOf env i s)"
  obtain m n where mn: "m < n" "n < length ?ps" and q': "?ps ! m = q" and p': "?ps ! n = p"
    using compensable_order [OF p q lt] by blast
  let ?w1 = "w\<lparr>w_state := COMPENSATING, w_requiresCompensation := True\<rparr>"
  let ?s1 = "saveWorkflow env ?w1 s"
  have g: "getSt env s' j = getSt env (rollAll env ?ps ?s1) j" for j
    using run compensateWorkflow_eq [OF wf] by (auto simp: getSt_saveWorkflow)
  let ?t = "\<lambda>k. clockOf env (ticks ?s1 + 3 * k)"
  have nth: "k < length ?ps \<Longrightarrow> getSt env s' (s_id (?ps ! k)) =
      Some (rollRow (?ps ! k) (?t k) (clockOf env (ticks ?s1 + 3 * k + 2)))" for k
    unfolding g by (rule rollAll_nth [OF compensableSteps_props(2)])
  have "?t m < ?t n" using clk mn(1) by (simp add: strict_mono_less)
  then show ?thesis
    using nth [of m] nth [of n] mn unfolding q' p' by (auto simp: rollRow_def)
qed

lemma compensateWorkflow_refused:
  assumes "getWf env s i = Some w" and "\<not> canWorkflowCompensate (w_state w)"
  shows "compensateWorkflow env i s =
    (Inl (Error (''Workflow '' @ i @ '' cannot be compensated in state: '' @ wfStateName (w_state w))), s)"
  using assms by (simp add: compensateWorkflow_def rGet_def)

end

definition sampleStep :: "string \<Rightarrow> nat \<Rightarrow> StepState \<Rightarrow> WorkflowStep" where
  "sampleStep i n st =
     \<lparr>s_id = i, s_workflowId = ''w1'', s_stepName = ''step'' @ i, s_stepIndex = n, s_state = st,
      s_input = None, s_output = None, s_config = None, s_retryCount = 0, s_maxRetries = 3,
      s_startedAt = None, s_completedAt = None, s_failedAt = None, s_failureReason = None,
      s_nextRetryAt = None, s_requiresCompensation = True, s_isCompensated = False,
      s_compensatedAt = None, s_compensationStepName = None, s_compensationConfig = None,
      s_isIdempotent = False, s_idempotencyKey = None, s_createdAt = 0, s_updatedAt = 0\<rparr>"

definition sampleWorkflow :: "WorkflowState \<Rightarrow> Workflow" where
  "sampleWorkflow st =
     \<lparr>w_id = ''w1'', w_idempotencyKey = ''k1'', w_type = ''trade_execution'', w_state = st,
      w_userId = Some ''u1'', w_walletAddress = None, w_input = [(''a'', JNum 1)], w_output = None,
      w_context = None, w_currentStepIndex = 0, w_totalSteps = 2, w_startedAt = None,
      w_completedAt = None, w_failedAt = None, w_failureReason = None, w_retryCount = 0,
      w_maxRetries = 3, w_nextRetryAt = None, w_requiresCompensation = False,
      w_isCompensated = False, w_createdAt = 0, w_updatedAt = 0\<rparr>"

text \<open>
  C3. Compensating a workflow that is completed, failed or cancelled always succeeds: the workflow
  ends \<open>COMPENSATED\<close> and flagged, every completed step of it that needs compensation is rolled back
  (state, flag and time), and every other row of both tables, the steps of other workflows included,
  is left as it was.
\<close>

theorem compensateWorkflow_correct:
  assumes "wf_tables env" and "getWf env s i = Some w" and "canWorkflowCompensate (w_state w)"
  shows "\<exists>s'. compensateWorkflow env i s = (Inr (), s') \<and>
     (\<exists>w'. getWf env s' i = Some w' \<and> w_state w' = COMPENSATED \<and> w_isCompensated w') \<and>
     (\<forall>j. j \<noteq> i \<longrightarrow> getWf env s' j = getWf env s j) \<and>
     (\<forall>j p. getSt env s j = Some p \<longrightarrow>
        (\<exists>q. getSt env s' j = Some q \<and>
           (if s_workflowId p = i \<and> s_state p = SCOMPLETED \<and> s_requiresCompensation p
            then rolledBack p q else q = p)))"
  using wf_tables.compensateWorkflow_run [OF assms] by blast

theorem compensateWorkflow_correct_witness:
  "let env = memEnv int (\<lambda>_. None);
       s = memWorld [sampleWorkflow FAILED] [sampleStep ''a'' 0 SCOMPLETED, sampleStep ''b'' 1 SFAILED]
   in \<exists>s'. compensateWorkflow env ''w1'' s = (Inr (), s') \<and>
        (\<exists>w'. getWf env s' ''w1'' = Some w' \<and> w_state w' = COMPENSATED) \<and>
        (\<exists>q. getSt env s' ''a'' = Some q \<and> s_state q = SCOMPENSATED) \<and>
        getSt env s' ''b'' = Some (sampleStep ''b'' 1 SFAILED)"
proof -
  let ?env = "memEnv int (\<lambda>_. None)"
  let ?s = "memWorld [sampleWorkflow FAILED] [sampleStep ''a'' 0 SCOMPLETED, sampleStep ''b'' 1 SFAILED]"
  note ev = memEnv_def memWorld_def rGet_def memFindOne_def memFind_def sampleWorkflow_def sampleStep_def
  have w: "getWf ?env ?s ''w1'' = Some (sampleWorkflow FAILED)" by (simp add: ev)
  have a: "getSt ?env ?s ''a'' = Some (sampleStep ''a'' 0 SCOMPLETED)"
    and b: "getSt ?env ?s ''b'' = Some (sampleStep ''b'' 1 SFAILED)" by (simp_all add: ev)
  have c: "canWorkflowCompensate (w_state (sampleWorkflow FAILED))"
    by (simp add: sampleWorkflow_def sm_defs)
  obtain s' where r: "compensateWorkflow ?env ''w1'' ?s = (Inr (), s')"
      "\<exists>w'. getWf ?env s' ''w1'' = Some w' \<and> w_state w' = COMPENSATED"
      and st: "\<And>j p. getSt ?env ?s j = Some p \<Longrightarrow>
        \<exists>q. getSt ?env s' j = Some q \<and>
           (if s_workflowId p = ''w1'' \<and> s_state p = SCOMPLETED \<and> s_requiresCompensation p
            then rolledBack p q else q = p)"
    using compensateWorkflow_correct [OF memt.wf_tables_axioms w c] by blast
  have "\<exists>q. getSt ?env s' ''a'' = Some q \<and> s_state q = SCOMPENSATED"
    using st [OF a] by (auto simp: sampleStep_def rolledBack_def rollRow_def)
  moreover have "getSt ?env s' ''b'' = Some (sampleStep ''b'' 1 SFAILED)"
    using st [OF b] by (auto simp: sampleStep_def)
  ultimately show ?thesis using r unfolding Let_def by blast
qed

text \<open>
  C4. Compensation runs in reverse: with a clock that moves forward, of two steps that are rolled
  back the one that comes later in the workflow is rolled back strictly earlier.
\<close>

theorem compensation_reverse_order:
  assumes "wf_tables env" and "strict_mono (clockOf env)"
    and "getWf env s i = Some w" and "canWorkflowCompensate (w_state w)"
    and "compensateWorkflow env i s = (r, s')"
    and "p \<in> set (compensableSteps (stepsOf env i s))"
    and "q \<in> set (compensableSteps (stepsOf env i s))" and "s_stepIndex p < s_stepIndex q"
  shows "\<exists>p' q' tp tq. getSt env s' (s_id p) = Some p' \<and> s_compensatedAt p' = Some tp \<and>
           getSt env s' (s_id q) = Some q' \<and> s_compensatedAt q' = Some tq \<and> tq < tp"
  using wf_tables.compensation_order_run [OF assms] .

theorem compensation_reverse_order_witness:
  "let env = memEnv int (\<lambda>_. None);
       s = memWorld [sampleWorkflow COMPLETED] [sampleStep ''a'' 0 SCOMPLETED, sampleStep ''b'' 1 SCOMPLETED];
       s' = snd (compensateWorkflow env ''w1'' s)
   in \<exists>p' q' tp tq. getSt env s' ''a'' = Some p' \<and> s_compensatedAt p' = Some tp \<and>
           getSt env s' ''b'' = Some q' \<and> s_compensatedAt q' = Some tq \<and> tq < tp"
proof -
  let ?env = "memEnv int (\<lambda>_. None)"
  let ?a = "sampleStep ''a'' 0 SCOMPLETED" and ?b = "sampleStep ''b'' 1 SCOMPLETED"
  let ?s = "memWorld [sampleWorkflow COMPLETED] [?a, ?b]"
  note ev = memEnv_def memWorld_def rGet_def memFindOne_def memFind_def sampleWorkflow_def sampleStep_def
  have w: "getWf ?env ?s ''w1'' = Some (sampleWorkflow COMPLETED)" by (simp add: ev)
  have c: "canWorkflowCompensate (w_state (sampleWorkflow COMPLETED))"
    by (simp add: sampleWorkflow_def sm_defs)
  have m: "?a \<in> set (compensableSteps (stepsOf ?env ''w1'' ?s))"
    "?b \<in> set (compensableSteps (stepsOf ?env ''w1'' ?s))"
    by (simp_all add: compensableSteps_def stepsOf_def ev)
  have clk: "strict_mono (clockOf ?env)" by (simp add: memEnv_def strict_mono_def)
  have lt: "s_stepIndex ?a < s_stepIndex ?b" by (simp add: sampleStep_def)
  have ids: "s_id ?a = ''a''" "s_id ?b = ''b''" by (simp_all add: sampleStep_def)
  show ?thesis
    using compensation_reverse_order [OF memt.wf_tables_axioms clk w c prod.collapse [symmetric] m lt]
    unfolding ids Let_def .
qed

end
