(* ===== verification/Execution.thy ===== *)
theory Execution
  imports Compensation
begin

text \<open>
  The workflow execution service, \<^verbatim>\<open>workflow/services/workflow-execution.service.ts\<close>: starting a
  workflow once per idempotency key under a Redis lock, running its steps with retries and timeouts,
  retrying and cancelling. Two awaits that the source leaves out are kept as they are: the prepared
  step input is handed on as a promise, and a retried attempt gets no workflow timeout.
\<close>

section \<open>Running one operation\<close>

definition prepareStepInput ::
    "('wt, 'st, 'r) wfenv \<Rightarrow> Workflow \<Rightarrow> WorkflowStep \<Rightarrow> ('wt, 'st, 'r) world \<Rightarrow> json" where
  "prepareStepInput env workflow step s =
     (let previousSteps =
            (if 0 < s_stepIndex step
             then rFindOrd (stRepo env)
                    (\<lambda>p. s_workflowId p = w_id workflow \<and> s_stepIndex p < s_stepIndex step)
                    (\<lambda>a b. s_stepIndex a \<le> s_stepIndex b) (stTab s)
             else [])
      in JObj (fold (\<lambda>prev input. case s_output prev of
                        None \<Rightarrow> input
                      | Some out \<Rightarrow> (if truthy out then objSet (s_stepName prev) out input else input))
                previousSteps (w_input workflow)))"

definition executeWithIdempotency ::
    "StepDefinition \<Rightarrow> stepInput \<Rightarrow> WorkflowContext \<Rightarrow> string option \<Rightarrow> nat \<Rightarrow> settled" where
  "executeWithIdempotency stepDefinition input context idempotencyKey n =
     (if \<not> sd_isIdempotent stepDefinition \<or> \<not> strTruthy idempotencyKey
      then sd_execute stepDefinition input context n
      else sd_execute stepDefinition input context n)"

text \<open>An operation that settles before its timer wins; the timer, set first, wins a tie.\<close>

definition executeStepWithTimeout :: "settled \<Rightarrow> nat option \<Rightarrow> string \<Rightarrow> js_error + json" where
  "executeStepWithTimeout operation timeoutMs stepName =
     (case operation of Settled duration outcome \<Rightarrow>
        (case timeoutMs of
           None \<Rightarrow> outcome
         | Some t \<Rightarrow>
             if t = 0 then outcome
             else if duration < t then outcome
             else Inl (WorkflowTimeoutError (''Step '' @ stepName @ '' exceeded timeout of '' @ showNat t @ ''ms''))))"

definition stepContext :: "Workflow \<Rightarrow> WorkflowStep \<Rightarrow> WorkflowContext" where
  "stepContext workflow step =
     \<lparr>x_workflowId = w_id workflow, x_idempotencyKey = w_idempotencyKey workflow,
      x_userId = w_userId workflow, x_walletAddress = w_walletAddress workflow,
      x_type = w_type workflow, x_retryCount = s_retryCount step, x_stepIndex = s_stepIndex step,
      x_metadata = w_context workflow\<rparr>"

definition withKey :: "WorkflowStep \<Rightarrow> string \<Rightarrow> WorkflowStep" where
  "withKey step key = (if s_isIdempotent step then step\<lparr>s_idempotencyKey := Some key\<rparr> else step)"

text \<open>
  The \<^verbatim>\<open>try\<close> block of \<^verbatim>\<open>executeStep\<close> up to the outcome of the operation: the step with its
  idempotency key, the outcome, and the world after the call. A missing step definition makes the
  read of its timeout throw.
\<close>

definition attempt ::
    "('wt, 'st, 'r) wfenv \<Rightarrow> Workflow \<Rightarrow> WorkflowStep \<Rightarrow> StepDefinition option \<Rightarrow> nat option \<Rightarrow>
     ('wt, 'st, 'r) world \<Rightarrow> WorkflowStep \<times> (js_error + json) \<times> ('wt, 'st, 'r) world" where
  "attempt env workflow step stepDefinition workflowTimeout s =
     (let context = stepContext workflow step;
          input = PromiseOf (prepareStepInput env workflow step s);
          key = generateStepIdempotencyKey (sha256Of env) (w_idempotencyKey workflow) (s_stepName step) input;
          step1 = withKey step key;
          s1 = (if s_isIdempotent step then saveStep env step1 s else s)
      in case stepDefinition of
           None \<Rightarrow> (step1, Inl (Error ''Cannot read properties of undefined''), s1)
         | Some sd \<Rightarrow>
             let timeoutMs = (case sd_timeout sd of Some t \<Rightarrow> Some t | None \<Rightarrow> workflowTimeout);
                 stepKey = (if s_isIdempotent step then Some key else None);
                 operation = executeWithIdempotency sd input context stepKey (calls s1)
             in (step1, executeStepWithTimeout operation timeoutMs (s_stepName step),
                 s1\<lparr>calls := Suc (calls s1)\<rparr>))"

definition failStep :: "('wt, 'st, 'r) wfenv \<Rightarrow> WorkflowStep \<Rightarrow> js_error \<Rightarrow> ('wt, 'st, 'r) world \<Rightarrow> WorkflowStep" where
  "failStep env step err s =
     step\<lparr>s_state := SFAILED, s_failedAt := Some (nowOf env s), s_failureReason := Some (message err),
          s_retryCount := Suc (s_retryCount step)\<rparr>"

lemma withKey_simps [simp]:
  "s_id (withKey p k) = s_id p" "s_workflowId (withKey p k) = s_workflowId p"
  "s_stepName (withKey p k) = s_stepName p" "s_stepIndex (withKey p k) = s_stepIndex p"
  "s_state (withKey p k) = s_state p" "s_retryCount (withKey p k) = s_retryCount p"
  "s_maxRetries (withKey p k) = s_maxRetries p" "s_isCompensated (withKey p k) = s_isCompensated p"
  by (simp_all add: withKey_def)

lemma attempt_fst: "\<exists>k. fst (attempt env w p sd t s) = withKey p k"
  by (cases sd) (auto simp: attempt_def Let_def)

lemma attempt_step: "attempt env w p sd t s = (p', out, s') \<Longrightarrow> \<exists>k. p' = withKey p k"
  by (metis attempt_fst fst_conv)

lemma attempt_counts:
  "(p', out, s') = attempt env w p sd t s \<Longrightarrow>
     s_retryCount p' = s_retryCount p \<and> s_maxRetries p' = s_maxRetries p"
  by (metis attempt_step withKey_simps(6,7))

section \<open>Steps\<close>

function executeStep ::
    "('wt, 'st, 'r) wfenv \<Rightarrow> Workflow \<Rightarrow> WorkflowStep \<Rightarrow> StepDefinition option \<Rightarrow> nat option \<Rightarrow>
     (('wt, 'st, 'r) world, unit) action" where
  "executeStep env workflow step stepDefinition workflowTimeout s =
     (case transitionStep (s_state step) SRUNNING of
        Some err \<Rightarrow> (Inl (Error (''Cannot execute step: '' @ err)), s)
      | None \<Rightarrow>
          let running = step\<lparr>s_state := SRUNNING, s_startedAt := Some (nowOf env s)\<rparr>;
              s0 = saveStep env running (tick s)
          in case attempt env workflow running stepDefinition workflowTimeout s0 of
               (step1, Inr output, s1) \<Rightarrow>
                 (Inr (), saveStep env (step1\<lparr>s_state := SCOMPLETED, s_output := Some output,
                            s_completedAt := Some (nowOf env s1)\<rparr>) (tick s1))
             | (step1, Inl err, s1) \<Rightarrow>
                 let failed = failStep env step1 err s1; s2 = tick s1
                 in if is_timeout err
                    then (case compensateWorkflow env (w_id workflow) (saveStep env failed s2) of
                            (Inl err', s3) \<Rightarrow> (Inl err', s3)
                          | (Inr _, s3) \<Rightarrow> (Inl err, s3))
                    else if shouldRetry (Inr SFAILED) (s_retryCount failed) (s_maxRetries failed)
                    then (let retryAt = calculateNextRetryTime (nowOf env s2) (randomOf env (draws s2))
                                       (s_retryCount failed) 1000;
                              again = failed\<lparr>s_nextRetryAt := Some retryAt\<rparr>;
                              s3 = saveStep env again (tick (s2\<lparr>draws := Suc (draws s2)\<rparr>))
                          in executeStep env workflow again stepDefinition None (tick s3))
                    else (Inl (Error (''Step '' @ s_stepName failed @ '' failed after '' @
                            showNat (s_retryCount failed) @ '' retries: '' @ message err)),
                          saveStep env failed s2))"
  by pat_completeness auto
termination
  apply (relation "measure (\<lambda>(env, w, p, sd, t, s). s_maxRetries p - s_retryCount p)")
  subgoal by simp
  subgoal by (auto simp: failStep_def shouldRetry_def dest!: attempt_counts)
  done

declare executeStep.simps [simp del]

text \<open>The loop over the steps; the workflow object is returned because the loop writes to it.\<close>

fun executeStepsLoop ::
    "('wt, 'st, 'r) wfenv \<Rightarrow> WorkflowDefinition \<Rightarrow> WorkflowStep list \<Rightarrow> Workflow \<Rightarrow> ('wt, 'st, 'r) world \<Rightarrow>
     (js_error + unit) \<times> Workflow \<times> ('wt, 'st, 'r) world" where
  "executeStepsLoop env def [] workflow s = (Inr (), workflow, s)"
| "executeStepsLoop env def (step # steps) workflow s =
     (let workflow1 = workflow\<lparr>w_currentStepIndex := s_stepIndex step\<rparr>;
          s1 = saveWorkflow env workflow1 s
      in case executeStep env workflow1 step (nthOpt (d_steps def) (s_stepIndex step)) (d_timeout def) s1 of
           (Inl err, s2) \<Rightarrow> (Inl err, workflow1, s2)
         | (Inr _, s2) \<Rightarrow> executeStepsLoop env def steps workflow1 s2)"

definition executeSteps ::
    "('wt, 'st, 'r) wfenv \<Rightarrow> Workflow \<Rightarrow> WorkflowDefinition \<Rightarrow> ('wt, 'st, 'r) world \<Rightarrow>
     (js_error + unit) \<times> Workflow \<times> ('wt, 'st, 'r) world" where
  "executeSteps env workflow def s =
     executeStepsLoop env def
       (rFindOrd (stRepo env) (\<lambda>p. s_workflowId p = w_id workflow)
          (\<lambda>a b. s_stepIndex a \<le> s_stepIndex b) (stTab s))
       workflow s"

definition executeWorkflow ::
    "('wt, 'st, 'r) wfenv \<Rightarrow> Workflow \<Rightarrow> (('wt, 'st, 'r) world, unit) action" where
  "executeWorkflow env workflow s =
     (case workflowDefinitions env (w_type workflow) of
        None \<Rightarrow> (Inl (Error (''Workflow definition not found for type: '' @ w_type workflow)), s)
      | Some def \<Rightarrow>
          (case transitionWorkflow (w_state workflow) RUNNING of
             Some err \<Rightarrow> (Inl (Error (''Cannot start workflow: '' @ err)), s)
           | None \<Rightarrow>
               let workflow1 = workflow\<lparr>w_state := RUNNING, w_startedAt := Some (nowOf env s)\<rparr>;
                   s1 = saveWorkflow env workflow1 (tick s)
               in case executeSteps env workflow1 def s1 of
                    (Inr _, workflow2, s2) \<Rightarrow>
                      (Inr (), saveWorkflow env (workflow2\<lparr>w_state := COMPLETED,
                          w_completedAt := Some (nowOf env s2)\<rparr>) (tick s2))
                  | (Inl err, workflow2, s2) \<Rightarrow>
                      if is_timeout err then (Inr (), s2)
                      else (Inl err, saveWorkflow env (workflow2\<lparr>w_state := FAILED,
                              w_failedAt := Some (nowOf env s2),
                              w_failureReason := Some (message err)\<rparr>) (tick s2))))"

section \<open>Retry, cancel\<close>

text \<open>
  The source sets \<^verbatim>\<open>failedAt\<close> and \<^verbatim>\<open>failureReason\<close> to \<^verbatim>\<open>undefined\<close> before it saves; \<^verbatim>\<open>save\<close> skips undefined
  properties, so the columns keep their values.
\<close>

definition retryWorkflow ::
    "('wt, 'st, 'r) wfenv \<Rightarrow> string \<Rightarrow> (('wt, 'st, 'r) world, unit) action" where
  "retryWorkflow env workflowId s =
     (case rFindOne (wfRepo env) (\<lambda>w. w_id w = workflowId) (wfTab s) of
        None \<Rightarrow> (Inl (Error (''Workflow not found: '' @ workflowId)), s)
      | Some workflow \<Rightarrow>
          if \<not> isWorkflowRecoverable (w_state workflow)
          then (Inl (Error (''Workflow '' @ workflowId @ '' is not in a recoverable state'')), s)
          else
            let steps = stepsOf env workflowId s;
                workflow1 = workflow\<lparr>w_state := RUNNING, w_retryCount := Suc (w_retryCount workflow),
                    w_startedAt := Some (nowOf env s)\<rparr>;
                s1 = saveWorkflow env workflow1 (tick s);
                s2 = (case find (\<lambda>p. s_state p = SFAILED) steps of
                        None \<Rightarrow> s1
                      | Some failedStep \<Rightarrow> saveStep env (failedStep\<lparr>s_state := SPENDING\<rparr>) s1)
            in executeWorkflow env workflow1 s2)"

definition cancelWorkflow ::
    "('wt, 'st, 'r) wfenv \<Rightarrow> string \<Rightarrow> (('wt, 'st, 'r) world, unit) action" where
  "cancelWorkflow env workflowId s =
     (case rFindOne (wfRepo env) (\<lambda>w. w_id w = workflowId) (wfTab s) of
        None \<Rightarrow> (Inl (Error (''Workflow not found: '' @ workflowId)), s)
      | Some workflow \<Rightarrow>
          (case transitionWorkflow (w_state workflow) CANCELLED of
             Some err \<Rightarrow> (Inl (Error (''Cannot cancel workflow: '' @ err)), s)
           | None \<Rightarrow>
               (Inr (), saveWorkflow env (workflow\<lparr>w_state := CANCELLED,
                   w_completedAt := Some (nowOf env s)\<rparr>) (tick s))))"

text \<open>The method of the same name on the execution service only points to the other service.\<close>

definition executionCompensateWorkflow :: "string \<Rightarrow> ('s, unit) action" where
  "executionCompensateWorkflow workflowId s =
     (Inl (Error ''Use CompensationService.compensateWorkflow() instead''), s)"

section \<open>Starting a workflow\<close>

definition getWorkflowLockKey :: "string \<Rightarrow> string" where
  "getWorkflowLockKey idempotencyKey = ''workflow:lock:'' @ idempotencyKey"

definition acquireWorkflowLock ::
    "('wt, 'st, 'r) wfenv \<Rightarrow> string \<Rightarrow> string \<Rightarrow> nat \<Rightarrow> ('wt, 'st, 'r) world \<Rightarrow> bool \<times> ('wt, 'st, 'r) world" where
  "acquireWorkflowLock env lockKey token ttlSeconds s =
     (case rdSetNX (redisOf env) lockKey token ttlSeconds (rstore s) of
        (ok, r') \<Rightarrow> (ok, s\<lparr>rstore := r'\<rparr>))"

definition releaseWorkflowLock ::
    "('wt, 'st, 'r) wfenv \<Rightarrow> string \<Rightarrow> string \<Rightarrow> ('wt, 'st, 'r) world \<Rightarrow> ('wt, 'st, 'r) world" where
  "releaseWorkflowLock env lockKey token s =
     (if rdGet (redisOf env) lockKey (rstore s) = Some token
      then s\<lparr>rstore := rdDel (redisOf env) lockKey (rstore s)\<rparr> else s)"

text \<open>
  The polling loop. Its \<open>k\<close>-th iteration reads the clock and the workflow table, which other workers
  write meanwhile: \<open>obs k\<close> is what it sees. \<open>None\<close> means that the loop does not end.
\<close>

partial_function (option) waitForWorkflow ::
    "('wt, Workflow) repo \<Rightarrow> string \<Rightarrow> date \<Rightarrow> int \<Rightarrow> (nat \<Rightarrow> date \<times> 'wt) \<Rightarrow> nat \<Rightarrow> Workflow option option" where
  "waitForWorkflow R idempotencyKey startedAt timeoutMs obs k =
     (if fst (obs k) - startedAt < timeoutMs
      then (case rFindOne R (\<lambda>w. w_idempotencyKey w = idempotencyKey) (snd (obs k)) of
              Some workflow \<Rightarrow> Some (Some workflow)
            | None \<Rightarrow> waitForWorkflow R idempotencyKey startedAt timeoutMs obs (Suc k))
      else Some None)"

definition newWorkflow ::
    "WorkflowDefinition \<Rightarrow> string \<Rightarrow> string \<Rightarrow> string \<Rightarrow> (string \<times> json) list \<Rightarrow> string option \<Rightarrow>
     string option \<Rightarrow> json option \<Rightarrow> date \<Rightarrow> Workflow" where
  "newWorkflow def newId idempotencyKey ty input userId walletAddress context created =
     \<lparr>w_id = newId, w_idempotencyKey = idempotencyKey, w_type = ty, w_state = PENDING,
      w_userId = userId, w_walletAddress = walletAddress, w_input = input, w_output = None,
      w_context = context, w_currentStepIndex = 0, w_totalSteps = length (d_steps def),
      w_startedAt = None, w_completedAt = None, w_failedAt = None, w_failureReason = None,
      w_retryCount = 0, w_maxRetries = numOr (d_maxRetries def) 3, w_nextRetryAt = None,
      w_requiresCompensation = (d_requiresCompensation def = Some True), w_isCompensated = False,
      w_createdAt = created, w_updatedAt = created\<rparr>"

definition newStep :: "string \<Rightarrow> string \<Rightarrow> nat \<Rightarrow> StepDefinition \<Rightarrow> date \<Rightarrow> WorkflowStep" where
  "newStep workflowId newId index stepDef created =
     \<lparr>s_id = newId, s_workflowId = workflowId, s_stepName = sd_name stepDef, s_stepIndex = index,
      s_state = SPENDING, s_input = None, s_output = None, s_config = sd_config stepDef,
      s_retryCount = 0, s_maxRetries = numOr (sd_maxRetries stepDef) 3, s_startedAt = None,
      s_completedAt = None, s_failedAt = None, s_failureReason = None, s_nextRetryAt = None,
      s_requiresCompensation = sd_hasCompensate stepDef, s_isCompensated = False,
      s_compensatedAt = None, s_compensationStepName = None, s_compensationConfig = None,
      s_isIdempotent = sd_isIdempotent stepDef, s_idempotencyKey = None,
      s_createdAt = created, s_updatedAt = created\<rparr>"

text \<open>
  \<open>newId\<close> and \<open>stepIds\<close> are the identifiers the database draws for the new rows, \<open>token\<close> the random
  lock token, \<open>obs\<close> what the polling loop observes. \<open>None\<close> means that the call does not return.
\<close>

definition startWorkflow ::
    "('wt, 'st, 'r) wfenv \<Rightarrow> string \<Rightarrow> (nat \<Rightarrow> string) \<Rightarrow> string \<Rightarrow> (nat \<Rightarrow> date \<times> 'wt) \<Rightarrow>
     string \<Rightarrow> (string \<times> json) list \<Rightarrow> string option \<Rightarrow> string option \<Rightarrow> json option \<Rightarrow>
     ('wt, 'st, 'r) world \<Rightarrow> ((js_error + Workflow) \<times> ('wt, 'st, 'r) world) option" where
  "startWorkflow env newId stepIds token obs ty input userId walletAddress context s =
     (case workflowDefinitions env ty of
        None \<Rightarrow> Some (Inl (Error (''Workflow definition not found for type: '' @ ty)), s)
      | Some def \<Rightarrow>
          let key = generateWorkflowIdempotencyKey (sha256Of env) (nowOf env s) ty
                      (strOr userId ''anonymous'') (JObj input) context;
              s0 = tick s
          in case rFindOne (wfRepo env) (\<lambda>w. w_idempotencyKey w = key) (wfTab s0) of
               Some existingWorkflow \<Rightarrow> Some (Inr existingWorkflow, s0)
             | None \<Rightarrow>
                 let lockKey = getWorkflowLockKey key
                 in case acquireWorkflowLock env lockKey token 3600 s0 of
                      (False, s1) \<Rightarrow>
                        (case waitForWorkflow (wfRepo env) key (nowOf env s1) 5000 obs 0 of
                           None \<Rightarrow> None
                         | Some (Some lockedWorkflow) \<Rightarrow> Some (Inr lockedWorkflow, s1)
                         | Some None \<Rightarrow>
                             Some (Inl (Error (''Workflow already being processed for idempotency key: '' @ key)), s1))
                    | (True, s1) \<Rightarrow>
                        let workflow = newWorkflow def newId key ty input userId walletAddress context (nowOf env s1);
                            s2 = saveWorkflow env workflow s1;
                            steps = map (\<lambda>(i, sd). newStep newId (stepIds i) i sd (nowOf env s2))
                                      (enumerate 0 (d_steps def));
                            s3 = fold (saveStep env) steps s2
                        in case executeWorkflow env workflow s3 of
                             (Inl err, s4) \<Rightarrow> Some (Inl err, releaseWorkflowLock env lockKey token s4)
                           | (Inr _, s4) \<Rightarrow>
                               Some (Inr (case rFindOne (wfRepo env) (\<lambda>w. w_id w = newId) (wfTab s4) of
                                            Some w \<Rightarrow> w | None \<Rightarrow> workflow),
                                     releaseWorkflowLock env lockKey token s4))"

end
