(* ===== verification/Execution_Props.thy ===== *)
theory Execution_Props
  imports Execution
begin

text \<open>
  What the execution service guarantees: the effect of one step on the tables, the bound on the
  number of attempts, that a run which returns has completed the workflow and all its steps, that a
  failed run leaves it failed, and that starting a workflow is idempotent. Two theorems record
  behaviour that the code does not intend: a step that times out is never compensated, and a retry
  never runs.
\<close>

section \<open>One attempt, one step\<close>

lemma attempt_eq:
  assumes "attempt env w p sd t s = (p', out, s1)"
  obtains k where "p' = withKey p k"
    and "s1 = (if s_isIdempotent p then saveStep env p' s else s)\<lparr>calls := calls s + (if sd = None then 0 else 1)\<rparr>"
proof (cases sd)
  case None
  with assms show ?thesis by (intro that) (auto simp: attempt_def Let_def)
next
  case (Some d)
  with assms show ?thesis by (intro that) (auto simp: attempt_def Let_def)
qed

text \<open>The world after a step, as far as the engine relies on it.\<close>

definition stepEffect ::
    "('wt, 'st, 'r) wfenv \<Rightarrow> WorkflowStep \<Rightarrow> ('wt, 'st, 'r) world \<Rightarrow> (js_error + unit) \<Rightarrow> ('wt, 'st, 'r) world \<Rightarrow> bool" where
  "stepEffect env p s r s' \<longleftrightarrow>
     wfTab s' = wfTab s \<and> rstore s' = rstore s \<and>
     (\<forall>i. i \<noteq> s_id p \<longrightarrow> getSt env s' i = getSt env s i) \<and>
     (r = Inr () \<longrightarrow> (\<exists>q. getSt env s' (s_id p) = Some q \<and> s_state q = SCOMPLETED \<and> s_output q \<noteq> None \<and>
          s_workflowId q = s_workflowId p \<and> s_stepIndex q = s_stepIndex p)) \<and>
     (\<forall>e. r = Inl e \<longrightarrow> \<not> is_timeout e) \<and>
     calls s \<le> calls s' \<and> calls s' \<le> calls s + max 1 (s_maxRetries p - s_retryCount p)"

definition startStep :: "('wt, 'st, 'r) wfenv \<Rightarrow> WorkflowStep \<Rightarrow> ('wt, 'st, 'r) world \<Rightarrow> WorkflowStep" where
  "startStep env p s = p\<lparr>s_state := SRUNNING, s_startedAt := Some (nowOf env s)\<rparr>"

lemma startStep_simps [simp]:
  "s_id (startStep env p s) = s_id p" "s_workflowId (startStep env p s) = s_workflowId p"
  "s_stepIndex (startStep env p s) = s_stepIndex p" "s_stepName (startStep env p s) = s_stepName p"
  "s_retryCount (startStep env p s) = s_retryCount p" "s_maxRetries (startStep env p s) = s_maxRetries p"
  by (simp_all add: startStep_def)

text \<open>Row \<open>w'\<close> is \<open>w\<close> with another current step index.\<close>

definition atStep :: "Workflow \<Rightarrow> nat \<Rightarrow> Workflow" where
  "atStep w k = w\<lparr>w_currentStepIndex := k\<rparr>"

lemma atStep_simps [simp]:
  "w_id (atStep w k) = w_id w" "w_state (atStep w k) = w_state w" "w_type (atStep w k) = w_type w"
  "w_idempotencyKey (atStep w k) = w_idempotencyKey w"
  "atStep (atStep w k) j = atStep w j"
  by (simp_all add: atStep_def)

text \<open>The world after the loop, as far as the run relies on it.\<close>

definition loopEffect ::
    "('wt, 'st, 'r) wfenv \<Rightarrow> Workflow \<Rightarrow> WorkflowStep list \<Rightarrow> ('wt, 'st, 'r) world \<Rightarrow>
     (js_error + unit) \<times> Workflow \<times> ('wt, 'st, 'r) world \<Rightarrow> bool" where
  "loopEffect env w ps s out \<longleftrightarrow> (case out of (r, w', s') \<Rightarrow>
     (w' = w \<or> (\<exists>k. w' = atStep w k)) \<and> rstore s' = rstore s \<and> calls s \<le> calls s' \<and>
     (\<forall>i. i \<noteq> w_id w \<longrightarrow> getWf env s' i = getWf env s i) \<and>
     (\<forall>i. i \<notin> s_id ` set ps \<longrightarrow> getSt env s' i = getSt env s i) \<and>
     (r = Inr () \<longrightarrow> (\<forall>p \<in> set ps. \<exists>q. getSt env s' (s_id p) = Some q \<and> s_state q = SCOMPLETED \<and>
          s_output q \<noteq> None \<and> s_workflowId q = s_workflowId p \<and> s_stepIndex q = s_stepIndex p)) \<and>
     (\<forall>e. r = Inl e \<longrightarrow> \<not> is_timeout e))"

lemma atStep_upd: "w\<lparr>w_currentStepIndex := k\<rparr> = atStep w k"
  by (simp add: atStep_def)

definition stepRows :: "('wt, 'st, 'r) wfenv \<Rightarrow> string \<Rightarrow> ('wt, 'st, 'r) world \<Rightarrow> WorkflowStep list" where
  "stepRows env wid s = rFindOrd (stRepo env) (\<lambda>p. s_workflowId p = wid)
     (\<lambda>a b. s_stepIndex a \<le> s_stepIndex b) (stTab s)"

context wf_tables
begin

lemma attempt_world:
  assumes "attempt env w p sd t s = (p', out, s1)"
  shows "wfTab s1 = wfTab s" "rstore s1 = rstore s" "i \<noteq> s_id p \<Longrightarrow> getSt env s1 i = getSt env s i"
    "calls s \<le> calls s1" "calls s1 \<le> Suc (calls s)"
  using assms
  by (auto elim!: attempt_eq simp: getSt_saveStep split: if_splits)

lemma refused_when_running:
  assumes "getWf env s i = Some w0" and "w_state w0 = RUNNING"
  shows "compensateWorkflow env i s =
    (Inl (Error (''Workflow '' @ i @ '' cannot be compensated in state: running'')), s)"
  using compensateWorkflow_refused [OF assms(1)] assms(2) by (simp add: sm_defs)

text \<open>The five ways a step can go, as one equation each.\<close>

lemma executeStep_refused:
  "transitionStep (s_state p) SRUNNING = Some err \<Longrightarrow>
     executeStep env w p sd t s = (Inl (Error (''Cannot execute step: '' @ err)), s)"
  by (subst executeStep.simps) simp

lemma executeStep_unfold:
  assumes "transitionStep (s_state p) SRUNNING = None"
    and "attempt env w (startStep env p s) sd t (saveStep env (startStep env p s) (tick s)) = (p1, out, s1)"
  shows "executeStep env w p sd t s =
    (case out of
       Inr output \<Rightarrow> (Inr (), saveStep env (p1\<lparr>s_state := SCOMPLETED, s_output := Some output,
                            s_completedAt := Some (nowOf env s1)\<rparr>) (tick s1))
     | Inl err \<Rightarrow>
         let failed = failStep env p1 err s1; s2 = tick s1
         in if is_timeout err
            then (case compensateWorkflow env (w_id w) (saveStep env failed s2) of
                    (Inl err', s3) \<Rightarrow> (Inl err', s3)
                  | (Inr _, s3) \<Rightarrow> (Inl err, s3))
            else if shouldRetry (Inr SFAILED) (s_retryCount failed) (s_maxRetries failed)
            then (let retryAt = calculateNextRetryTime (nowOf env s2) (randomOf env (draws s2))
                               (s_retryCount failed) 1000;
                      again = failed\<lparr>s_nextRetryAt := Some retryAt\<rparr>;
                      s3 = saveStep env again (tick (s2\<lparr>draws := Suc (draws s2)\<rparr>))
                  in executeStep env w again sd None (tick s3))
            else (Inl (Error (''Step '' @ s_stepName failed @ '' failed after '' @
                    showNat (s_retryCount failed) @ '' retries: '' @ message err)),
                  saveStep env failed s2))"
  using assms by (subst executeStep.simps) (simp add: startStep_def Let_def split: sum.splits)

lemma executeStep_effect:
  assumes "executeStep env w p sd t s = (r, s')"
    and "getWf env s (w_id w) = Some w0" and "w_state w0 = RUNNING"
  shows "stepEffect env p s r s'"
  using assms
proof (induction "s_maxRetries p - s_retryCount p" arbitrary: p t s rule: less_induct)
  case less
  note run = less.prems(1) and wf = less.prems(2,3)
  show ?case
  proof (cases "transitionStep (s_state p) SRUNNING")
    case (Some err)
    with run show ?thesis by (auto simp: executeStep_refused stepEffect_def)
  next
    case None
    let ?q = "startStep env p s"
    let ?s0 = "saveStep env ?q (tick s)"
    obtain p1 out s1 where att: "attempt env w ?q sd t ?s0 = (p1, out, s1)" by (metis prod_cases3)
    obtain k where p1: "p1 = withKey ?q k" using attempt_step [OF att] by blast
    note eq = run [unfolded executeStep_unfold [OF None att]]
    have frame: "wfTab s1 = wfTab s" "rstore s1 = rstore s" "calls s \<le> calls s1" "calls s1 \<le> Suc (calls s)"
      using attempt_world [OF att] by auto
    have others: "i \<noteq> s_id p \<Longrightarrow> getSt env s1 i = getSt env s i" for i
      using attempt_world(3) [OF att, of i] by (simp add: getSt_saveStep)
    show ?thesis
    proof (cases out)
      case (Inr v)
      with eq p1 frame others show ?thesis by (auto simp: stepEffect_def getSt_saveStep)
    next
      case (Inl err)
      let ?f = "failStep env p1 err s1" and ?s2 = "tick s1"
      have f: "s_id ?f = s_id p" "s_retryCount ?f = Suc (s_retryCount p)" "s_maxRetries ?f = s_maxRetries p"
        "s_workflowId ?f = s_workflowId p" "s_stepIndex ?f = s_stepIndex p"
        using p1 by (simp_all add: failStep_def)
      consider (timeout) "is_timeout err"
        | (retry) "\<not> is_timeout err" "Suc (s_retryCount p) < s_maxRetries p"
        | (giveup) "\<not> is_timeout err" "\<not> Suc (s_retryCount p) < s_maxRetries p" by blast
      then show ?thesis
      proof cases
        case timeout
        have "getWf env (saveStep env ?f ?s2) (w_id w) = Some w0" using wf frame by (simp add: getWf_saveStep)
        from refused_when_running [OF this wf(2)] eq timeout Inl
        have "r = Inl (Error (''Workflow '' @ w_id w @ '' cannot be compensated in state: running''))"
          "s' = saveStep env ?f ?s2" by (simp_all add: Let_def)
        with f frame others show ?thesis by (auto simp: stepEffect_def getSt_saveStep)
      next
        case giveup
        with eq Inl f have "r = Inl (Error (''Step '' @ s_stepName ?f @ '' failed after '' @
            showNat (s_retryCount ?f) @ '' retries: '' @ message err))" "s' = saveStep env ?f ?s2"
          by (simp_all add: Let_def shouldRetry_def)
        with f frame others show ?thesis by (auto simp: stepEffect_def getSt_saveStep)
      next
        case retry
        let ?a = "?f\<lparr>s_nextRetryAt := Some (calculateNextRetryTime (nowOf env ?s2)
            (randomOf env (draws ?s2)) (s_retryCount ?f) 1000)\<rparr>"
        let ?s4 = "tick (saveStep env ?a (tick (?s2\<lparr>draws := Suc (draws ?s2)\<rparr>)))"
        have rec: "executeStep env w ?a sd None ?s4 = (r, s')"
          using eq Inl retry f by (simp add: Let_def shouldRetry_def)
        have "stepEffect env ?a ?s4 r s'"
          using f retry wf frame by (intro less.hyps [OF _ rec]) (simp_all add: getWf_saveStep)
        then show ?thesis using f frame others retry
          by (auto simp: stepEffect_def getSt_saveStep)
      qed
    qed
  qed
qed


lemma executeStepsLoop_effect:
  assumes "distinct (map s_id ps)" and "w_state w = RUNNING"
  shows "loopEffect env w ps s (executeStepsLoop env def ps w s)"
  using assms
proof (induction ps arbitrary: w s)
  case Nil
  then show ?case by (simp add: loopEffect_def)
next
  case (Cons p ps)
  let ?w = "atStep w (s_stepIndex p)"
  let ?s1 = "saveWorkflow env ?w s"
  obtain r s2 where run: "executeStep env ?w p (nthOpt (d_steps def) (s_stepIndex p)) (d_timeout def) ?s1 = (r, s2)"
    by (metis surj_pair)
  have g: "getWf env ?s1 (w_id ?w) = Some (?w\<lparr>w_updatedAt := nowOf env s\<rparr>)" by (simp add: getWf_saveWorkflow)
  have eff: "stepEffect env p ?s1 r s2" using Cons.prems by (intro executeStep_effect [OF run g]) simp
  then have wf: "getWf env s2 i = getWf env s i" if "i \<noteq> w_id w" for i
    using that by (simp add: stepEffect_def getWf_saveWorkflow)
  show ?case
  proof (cases r)
    case (Inl e)
    then have "executeStepsLoop env def (p # ps) w s = (Inl e, ?w, s2)"
      using run by (simp add: atStep_upd Let_def)
    with eff Inl wf show ?thesis by (auto simp: loopEffect_def stepEffect_def getSt_saveWorkflow)
  next
    case (Inr u)
    obtain r' w' s' where out: "executeStepsLoop env def ps ?w s2 = (r', w', s')" by (metis prod_cases3)
    have eq: "executeStepsLoop env def (p # ps) w s = (r', w', s')"
      using run Inr out by (simp add: atStep_upd Let_def)
    have rest: "loopEffect env ?w ps s2 (r', w', s')"
      using Cons.IH [of ?w s2] Cons.prems out by simp
    have p: "s_id p \<notin> s_id ` set ps" using Cons.prems by simp
    show ?thesis unfolding eq loopEffect_def prod.case
    proof (intro conjI)
      show "w' = w \<or> (\<exists>k. w' = atStep w k)" using rest by (auto simp: loopEffect_def)
      show "\<forall>i. i \<noteq> w_id w \<longrightarrow> getWf env s' i = getWf env s i" using rest wf by (simp add: loopEffect_def)
      show "\<forall>i. i \<notin> s_id ` set (p # ps) \<longrightarrow> getSt env s' i = getSt env s i"
        using rest eff by (simp add: loopEffect_def stepEffect_def getSt_saveWorkflow)
      show "r' = Inr () \<longrightarrow> (\<forall>q \<in> set (p # ps). \<exists>q'. getSt env s' (s_id q) = Some q' \<and>
          s_state q' = SCOMPLETED \<and> s_output q' \<noteq> None \<and> s_workflowId q' = s_workflowId q \<and>
          s_stepIndex q' = s_stepIndex q)"
        using rest eff p Inr by (simp add: loopEffect_def stepEffect_def)
    qed (use rest eff in \<open>simp_all add: loopEffect_def stepEffect_def\<close>)
  qed
qed

lemma stepRows_iff: "p \<in> set (stepRows env wid s) \<longleftrightarrow> getSt env s (s_id p) = Some p \<and> s_workflowId p = wid"
  by (simp add: stepRows_def S.findOrd_set S.find_iff)

lemma stepRows_other: "getSt env s i = Some q \<Longrightarrow> s_workflowId q \<noteq> wid \<Longrightarrow> i \<notin> s_id ` set (stepRows env wid s)"
  by (auto simp: stepRows_iff)

lemma executeWorkflow_effect:
  assumes "workflowDefinitions env (w_type w) = Some def" and "w_state w \<in> {PENDING, FAILED}"
    and "executeWorkflow env w s = (r, s')"
  shows "(\<exists>w'. getWf env s' (w_id w) = Some w' \<and> w_idempotencyKey w' = w_idempotencyKey w \<and>
            (case r of Inr _ \<Rightarrow> w_state w' = COMPLETED \<and> w_completedAt w' \<noteq> None
             | Inl e \<Rightarrow> w_state w' = FAILED \<and> w_failureReason w' = Some (message e))) \<and>
         (r = Inr () \<longrightarrow> (\<forall>i p. getSt env s i = Some p \<longrightarrow> s_workflowId p = w_id w \<longrightarrow>
            (\<exists>q. getSt env s' i = Some q \<and> s_state q = SCOMPLETED \<and> s_output q \<noteq> None))) \<and>
         (\<forall>i. i \<noteq> w_id w \<longrightarrow> getWf env s' i = getWf env s i) \<and>
         (\<forall>i q. getSt env s i = Some q \<longrightarrow> s_workflowId q \<noteq> w_id w \<longrightarrow> getSt env s' i = Some q) \<and>
         rstore s' = rstore s"
proof -
  let ?w1 = "w\<lparr>w_state := RUNNING, w_startedAt := Some (nowOf env s)\<rparr>"
  let ?s1 = "saveWorkflow env ?w1 (tick s)"
  let ?ps = "stepRows env (w_id w) ?s1"
  obtain r2 w2 s2 where out: "executeStepsLoop env def ?ps ?w1 ?s1 = (r2, w2, s2)" by (metis prod_cases3)
  have "distinct (map s_id ?ps)" unfolding stepRows_def by (rule S.findOrd_distinct)
  then have eff: "loopEffect env ?w1 ?ps ?s1 (r2, w2, s2)"
    using executeStepsLoop_effect [of ?ps ?w1 ?s1 def] out by simp
  have ok: "transitionWorkflow (w_state w) RUNNING = None" using assms(2) by (auto simp: sm_defs)
  have steps: "executeSteps env ?w1 def ?s1 = (r2, w2, s2)" using out by (simp add: executeSteps_def stepRows_def)
  have w2: "w_id w2 = w_id w" "w_idempotencyKey w2 = w_idempotencyKey w" using eff by (auto simp: loopEffect_def)
  have st: "getSt env ?s1 i = getSt env s i" for i by (simp add: getSt_saveWorkflow)
  have wfs: "i \<noteq> w_id w \<Longrightarrow> getWf env s2 i = getWf env s i" for i
    using eff by (simp add: loopEffect_def getWf_saveWorkflow)
  have other: "getSt env s i = Some q \<Longrightarrow> s_workflowId q \<noteq> w_id w \<Longrightarrow> getSt env s2 i = Some q" for i q
    using eff stepRows_other [of i ?s1 q "w_id w"] st by (simp add: loopEffect_def)
  show ?thesis
  proof (cases r2)
    case (Inr u)
    have all: "\<exists>q. getSt env s2 i = Some q \<and> s_state q = SCOMPLETED \<and> s_output q \<noteq> None"
      if "getSt env s i = Some p" "s_workflowId p = w_id w" for i p
    proof -
      have "p \<in> set ?ps" using that getSt_id [OF that(1)] by (simp add: stepRows_iff st)
      then show ?thesis using eff Inr getSt_id [OF that(1)] by (auto simp: loopEffect_def)
    qed
    show ?thesis using assms(1,3) ok steps Inr w2 wfs other all eff
      by (auto simp: executeWorkflow_def Let_def getWf_saveWorkflow getSt_saveWorkflow loopEffect_def)
  next
    case (Inl e)
    then have "\<not> is_timeout e" using eff by (simp add: loopEffect_def)
    then show ?thesis using assms(1,3) ok steps Inl w2 wfs other eff
      by (auto simp: executeWorkflow_def Let_def getWf_saveWorkflow getSt_saveWorkflow loopEffect_def)
  qed
qed


text \<open>A step whose operation always fails in time uses up its retries.\<close>

lemma executeStep_exhausts_run:
  assumes "\<And>input ctx n. sd_execute sd (PromiseOf input) ctx n = Settled d (Inl e)" and "\<not> is_timeout e"
    and "sd_timeout sd = None" and "t = None"
    and "s_state p \<in> {SPENDING, SFAILED}"
  shows "\<exists>q s'. executeStep env w p (Some sd) t s =
      (Inl (Error (''Step '' @ s_stepName p @ '' failed after '' @ showNat (s_retryCount q) @
          '' retries: '' @ message e)), s') \<and>
    calls s' = calls s + max 1 (s_maxRetries p - s_retryCount p) \<and>
    getSt env s' (s_id p) = Some q \<and> s_state q = SFAILED \<and>
    s_retryCount q = s_retryCount p + max 1 (s_maxRetries p - s_retryCount p) \<and>
    s_failureReason q = Some (message e)"
  using assms
proof (induction "s_maxRetries p - s_retryCount p" arbitrary: p t s rule: less_induct)
  case less
  have None: "transitionStep (s_state p) SRUNNING = None" using less.prems(5) by (auto simp: sm_defs)
  let ?q = "startStep env p s"
  let ?s0 = "saveStep env ?q (tick s)"
  obtain p1 out s1 where att: "attempt env w ?q (Some sd) t ?s0 = (p1, out, s1)" by (metis prod_cases3)
  have out: "out = Inl e" and c: "calls s1 = Suc (calls s)"
    using att less.prems by (auto simp: attempt_def Let_def executeWithIdempotency_def
        executeStepWithTimeout_def split: if_splits)
  obtain k where p1: "p1 = withKey ?q k" using attempt_step [OF att] by blast
  let ?f = "failStep env p1 e s1" and ?s2 = "tick s1"
  have f: "s_id ?f = s_id p" "s_retryCount ?f = Suc (s_retryCount p)" "s_maxRetries ?f = s_maxRetries p"
    "s_stepName ?f = s_stepName p" "s_state ?f = SFAILED" "s_failureReason ?f = Some (message e)"
    using p1 by (simp_all add: failStep_def)
  note eq = executeStep_unfold [OF None att, unfolded out]
  show ?case
  proof (cases "Suc (s_retryCount p) < s_maxRetries p")
    case False
    then show ?thesis using less.prems(2) f c unfolding eq
      by (simp add: Let_def shouldRetry_def getSt_saveStep)
  next
    case True
    let ?a = "?f\<lparr>s_nextRetryAt := Some (calculateNextRetryTime (nowOf env ?s2)
        (randomOf env (draws ?s2)) (s_retryCount ?f) 1000)\<rparr>"
    let ?s4 = "tick (saveStep env ?a (tick (?s2\<lparr>draws := Suc (draws ?s2)\<rparr>)))"
    have rec: "executeStep env w p (Some sd) t s = executeStep env w ?a (Some sd) None ?s4"
      using eq True f less.prems(2) by (simp add: Let_def shouldRetry_def)
    have "s_maxRetries ?a - s_retryCount ?a < s_maxRetries p - s_retryCount p" using f True by simp
    from less.hyps [OF this less.prems(1-3) refl, of ?s4] f(5) obtain q s' where
      run: "executeStep env w ?a (Some sd) None ?s4 = (Inl (Error (''Step '' @ s_stepName ?a @
          '' failed after '' @ showNat (s_retryCount q) @ '' retries: '' @ message e)), s')"
      and n: "calls s' = calls ?s4 + max 1 (s_maxRetries ?a - s_retryCount ?a)"
        "s_retryCount q = s_retryCount ?a + max 1 (s_maxRetries ?a - s_retryCount ?a)"
      and q: "getSt env s' (s_id ?a) = Some q" "s_state q = SFAILED" "s_failureReason q = Some (message e)"
      by auto
    have "calls s' = calls s + max 1 (s_maxRetries p - s_retryCount p)"
      "s_retryCount q = s_retryCount p + max 1 (s_maxRetries p - s_retryCount p)"
      using n f c True by simp_all
    then show ?thesis unfolding rec run using f q by (intro exI [of _ q] exI [of _ s']) simp
  qed
qed

text \<open>A step that overruns its timer.\<close>

lemma executeStep_timeout_run:
  assumes "getWf env s (w_id w) = Some w0" and "w_state w0 = RUNNING"
    and "s_state p \<in> {SPENDING, SFAILED}" and "sd_timeout sd = Some t" and "0 < t"
    and "\<And>input ctx n. \<exists>d r. sd_execute sd input ctx n = Settled d r \<and> t \<le> d"
    and "executeStep env w p (Some sd) wt s = (r, s')"
  shows "r = Inl (Error (''Workflow '' @ w_id w @ '' cannot be compensated in state: running'')) \<and>
     (\<exists>q. getSt env s' (s_id p) = Some q \<and> s_state q = SFAILED \<and>
        s_failureReason q = Some (''Step '' @ s_stepName p @ '' exceeded timeout of '' @ showNat t @ ''ms'')) \<and>
     (\<forall>i. i \<noteq> s_id p \<longrightarrow> getSt env s' i = getSt env s i) \<and> wfTab s' = wfTab s"
proof -
  have None: "transitionStep (s_state p) SRUNNING = None" using assms(3) by (auto simp: sm_defs)
  let ?q = "startStep env p s"
  let ?s0 = "saveStep env ?q (tick s)"
  let ?e = "WorkflowTimeoutError (''Step '' @ s_stepName p @ '' exceeded timeout of '' @ showNat t @ ''ms'')"
  have late: "executeStepWithTimeout (sd_execute sd i c n) (Some t) (s_stepName p) = Inl ?e" for i c n
    using assms(5) assms(6) [of i c n] by (auto simp: executeStepWithTimeout_def)
  obtain p1 out s1 where att: "attempt env w ?q (Some sd) wt ?s0 = (p1, out, s1)" by (metis prod_cases3)
  have out: "out = Inl ?e"
    using att late assms(4) by (auto simp: attempt_def Let_def executeWithIdempotency_def split: if_splits)
  obtain k where p1: "p1 = withKey ?q k" using attempt_step [OF att] by blast
  let ?f = "failStep env p1 ?e s1" and ?s2 = "tick s1"
  have f: "s_id ?f = s_id p" "s_state ?f = SFAILED" "s_failureReason ?f = Some (message ?e)"
    using p1 by (simp_all add: failStep_def)
  have tab: "wfTab s1 = wfTab s" using attempt_world [OF att] by simp
  have "getWf env (saveStep env ?f ?s2) (w_id w) = Some w0" using assms(1) tab by simp
  from refused_when_running [OF this assms(2)] assms(7) executeStep_unfold [OF None att, unfolded out]
  have "r = Inl (Error (''Workflow '' @ w_id w @ '' cannot be compensated in state: running''))"
    "s' = saveStep env ?f ?s2" by (simp_all add: Let_def)
  then show ?thesis using f tab attempt_world(3) [OF att] by (simp add: getSt_saveStep)
qed

lemma retryWorkflow_run:
  assumes "getWf env s i = Some w" and "w_state w = FAILED" and "workflowDefinitions env (w_type w) = Some def"
  shows "\<exists>s' w'. retryWorkflow env i s =
      (Inl (Error ''Cannot start workflow: Invalid workflow state transition from running to running''), s') \<and>
    calls s' = calls s \<and> getWf env s' i = Some w' \<and> w_state w' = RUNNING \<and>
    w_retryCount w' = Suc (w_retryCount w)"
proof -
  let ?w1 = "w\<lparr>w_state := RUNNING, w_retryCount := Suc (w_retryCount w),
      w_startedAt := Some (nowOf env s)\<rparr>"
  let ?s1 = "saveWorkflow env ?w1 (tick s)"
  define s2 where "s2 = (case find (\<lambda>p. s_state p = SFAILED) (stepsOf env i s) of None \<Rightarrow> ?s1
      | Some f \<Rightarrow> saveStep env (f\<lparr>s_state := SPENDING\<rparr>) ?s1)"
  have s2: "wfTab s2 = wfTab ?s1" "calls s2 = calls s" by (simp_all add: s2_def split: option.splits)
  have "retryWorkflow env i s = executeWorkflow env ?w1 s2"
    using assms by (simp add: retryWorkflow_def rGet_def sm_defs Let_def s2_def)
  also have "\<dots> = (Inl (Error ''Cannot start workflow: Invalid workflow state transition from running to running''), s2)"
    using assms(3) by (simp add: executeWorkflow_def no_rerun)
  moreover have "getWf env s2 i = Some (?w1\<lparr>w_updatedAt := nowOf env (tick s)\<rparr>)"
    unfolding s2 using getWf_id [OF assms(1)] by (simp add: getWf_saveWorkflow)
  ultimately show ?thesis using s2 by simp
qed

lemma fold_saveStep_frame [simp]:
  "wfTab (fold (saveStep env) ps s) = wfTab s" "rstore (fold (saveStep env) ps s) = rstore s"
  by (induction ps arbitrary: s) simp_all

lemma fold_saveStep_out: "i \<notin> s_id ` set ps \<Longrightarrow> getSt env (fold (saveStep env) ps s) i = getSt env s i"
  by (induction ps arbitrary: s) (simp_all add: getSt_saveStep)

lemma fold_saveStep_in:
  assumes "distinct (map s_id ps)" and "p \<in> set ps"
  shows "\<exists>t. getSt env (fold (saveStep env) ps s) (s_id p) = Some (p\<lparr>s_updatedAt := t\<rparr>)"
  using assms
proof (induction ps arbitrary: s)
  case (Cons q ps)
  show ?case
  proof (cases "p = q")
    case True
    with Cons.prems have "s_id q \<notin> s_id ` set ps" by simp
    then show ?thesis using True
      by (intro exI [of _ "nowOf env s"]) (simp add: fold_saveStep_out getSt_saveStep)
  next
    case False
    with Cons show ?thesis by simp
  qed
qed simp


end

section \<open>The guarantees of a run\<close>

text \<open>
  C1. A run of a pending or failed workflow settles it. If the run returns, the workflow row is
  \<open>COMPLETED\<close> with its time and every step of it is \<open>COMPLETED\<close> with an output; if it throws, the row
  is \<open>FAILED\<close> with the message of the exception. Rows of other workflows, steps of other workflows
  and the Redis store are left as they were.
\<close>

theorem executeWorkflow_verdict:
  assumes "wf_tables env" and "workflowDefinitions env (w_type w) = Some def"
    and "w_state w \<in> {PENDING, FAILED}" and "executeWorkflow env w s = (r, s')"
  shows "(\<exists>w'. getWf env s' (w_id w) = Some w' \<and>
            (case r of Inr _ \<Rightarrow> w_state w' = COMPLETED \<and> w_completedAt w' \<noteq> None
             | Inl e \<Rightarrow> w_state w' = FAILED \<and> w_failureReason w' = Some (message e))) \<and>
         (r = Inr () \<longrightarrow> (\<forall>i p. getSt env s i = Some p \<longrightarrow> s_workflowId p = w_id w \<longrightarrow>
            (\<exists>q. getSt env s' i = Some q \<and> s_state q = SCOMPLETED \<and> s_output q \<noteq> None))) \<and>
         (\<forall>i. i \<noteq> w_id w \<longrightarrow> getWf env s' i = getWf env s i) \<and>
         (\<forall>i q. getSt env s i = Some q \<longrightarrow> s_workflowId q \<noteq> w_id w \<longrightarrow> getSt env s' i = Some q) \<and>
         rstore s' = rstore s"
  using wf_tables.executeWorkflow_effect [OF assms] by blast

definition sampleSd :: "(nat \<Rightarrow> js_error + json) \<Rightarrow> nat \<Rightarrow> nat option \<Rightarrow> StepDefinition" where
  "sampleSd f d t =
     \<lparr>sd_name = ''stepa'', sd_execute = (\<lambda>_ _ n. Settled d (f n)), sd_hasCompensate = True,
      sd_isIdempotent = False, sd_maxRetries = None, sd_timeout = t, sd_config = None\<rparr>"

definition sampleDef :: "StepDefinition list \<Rightarrow> WorkflowDefinition" where
  "sampleDef sds =
     \<lparr>d_type = ''trade_execution'', d_name = ''trade'', d_description = [], d_steps = sds,
      d_maxRetries = None, d_timeout = None, d_requiresCompensation = None, d_metadata = None\<rparr>"

text \<open>The engine with one registered definition, and a world with one workflow of one step.\<close>

definition oneDef :: "StepDefinition \<Rightarrow> string \<Rightarrow> WorkflowDefinition option" where
  "oneDef sd ty = (if ty = ''trade_execution'' then Some (sampleDef [sd]) else None)"

abbreviation okSd :: StepDefinition where
  "okSd \<equiv> sampleSd (\<lambda>_. Inr (JNum 7)) 1 None"

abbreviation badSd :: StepDefinition where
  "badSd \<equiv> sampleSd (\<lambda>_. Inl (Error ''boom'')) 1 None"

lemmas run_simps = memEnv_def memWorld_def rGet_def memFindOne_def memFind_def sampleWorkflow_def
  sampleStep_def sampleSd_def sampleDef_def oneDef_def

theorem executeWorkflow_verdict_witness:
  "let env = memEnv int (oneDef okSd); w = sampleWorkflow PENDING;
       s = memWorld [w] [sampleStep ''a'' 0 SPENDING]
   in \<exists>w'. getWf env (snd (executeWorkflow env w s)) ''w1'' = Some w' \<and>
        (case fst (executeWorkflow env w s) of
           Inr _ \<Rightarrow> w_state w' = COMPLETED | Inl e \<Rightarrow> w_state w' = FAILED \<and> w_failureReason w' = Some (message e))"
proof -
  let ?env = "memEnv int (oneDef okSd)" and ?w = "sampleWorkflow PENDING"
  let ?s = "memWorld [?w] [sampleStep ''a'' 0 SPENDING]"
  have d: "workflowDefinitions ?env (w_type ?w) = Some (sampleDef [okSd])" by (simp add: run_simps)
  have p: "w_state ?w \<in> {PENDING, FAILED}" and i: "w_id ?w = ''w1''" by (simp_all add: sampleWorkflow_def)
  show ?thesis
    using executeWorkflow_verdict [OF memt.wf_tables_axioms d p prod.collapse [symmetric], of ?s]
    unfolding i Let_def by (auto split: sum.splits)
qed

text \<open>
  What one step may do while its workflow is running: the number of operations started is at
  most the retries left and at least one attempt is allowed; a step that returns is \<open>COMPLETED\<close> with
  an output; the workflow table, the other steps and the Redis store are untouched; and no timeout
  error leaves the method, so the branch of \<^verbatim>\<open>executeWorkflow\<close> for timed-out workflows is dead.
\<close>

theorem executeStep_attempts:
  assumes "wf_tables env" and "executeStep env w p sd t s = (r, s')"
    and "getWf env s (w_id w) = Some w0" and "w_state w0 = RUNNING"
  shows "calls s \<le> calls s' \<and> calls s' \<le> calls s + max 1 (s_maxRetries p - s_retryCount p) \<and>
     (r = Inr () \<longrightarrow> (\<exists>q. getSt env s' (s_id p) = Some q \<and> s_state q = SCOMPLETED \<and> s_output q \<noteq> None)) \<and>
     (\<forall>e. r = Inl e \<longrightarrow> \<not> is_timeout e) \<and>
     wfTab s' = wfTab s \<and> rstore s' = rstore s \<and>
     (\<forall>i. i \<noteq> s_id p \<longrightarrow> getSt env s' i = getSt env s i)"
  using wf_tables.executeStep_effect [OF assms] by (auto simp: stepEffect_def)

theorem executeStep_attempts_witness:
  "let env = memEnv int (oneDef badSd);
       s = memWorld [sampleWorkflow RUNNING] [sampleStep ''a'' 0 SPENDING]
   in calls (snd (executeStep env (sampleWorkflow RUNNING) (sampleStep ''a'' 0 SPENDING) (Some badSd) None s)) \<le> 3"
proof -
  let ?env = "memEnv int (oneDef badSd)" and ?w = "sampleWorkflow RUNNING" and ?p = "sampleStep ''a'' 0 SPENDING"
  let ?s = "memWorld [?w] [?p]"
  have g: "getWf ?env ?s (w_id ?w) = Some ?w" and r: "w_state ?w = RUNNING" by (simp_all add: run_simps)
  have n: "calls ?s = 0" "s_maxRetries ?p = 3" "s_retryCount ?p = 0" by (simp_all add: memWorld_def sampleStep_def)
  show ?thesis
    using executeStep_attempts [OF memt.wf_tables_axioms prod.collapse [symmetric] g r, of ?p "Some badSd" None] n
    by simp
qed




text \<open>
  C9. A step that overruns its timeout is meant to trigger compensation, but the workflow row is
  \<open>RUNNING\<close> at that moment and the compensation service refuses it: the timeout error is replaced by
  the refusal, the step stays \<open>FAILED\<close>, and neither the workflow row nor any other step changes.
\<close>

theorem timed_out_step_not_compensated:
  assumes "wf_tables env" and "getWf env s (w_id w) = Some w0" and "w_state w0 = RUNNING"
    and "s_state p \<in> {SPENDING, SFAILED}" and "sd_timeout sd = Some t" and "0 < t"
    and "\<And>input ctx n. \<exists>d r. sd_execute sd input ctx n = Settled d r \<and> t \<le> d"
    and "executeStep env w p (Some sd) wt s = (r, s')"
  shows "r = Inl (Error (''Workflow '' @ w_id w @ '' cannot be compensated in state: running'')) \<and>
     (\<exists>q. getSt env s' (s_id p) = Some q \<and> s_state q = SFAILED \<and>
        s_failureReason q = Some (''Step '' @ s_stepName p @ '' exceeded timeout of '' @ showNat t @ ''ms'')) \<and>
     (\<forall>i. i \<noteq> s_id p \<longrightarrow> getSt env s' i = getSt env s i) \<and> wfTab s' = wfTab s"
  using wf_tables.executeStep_timeout_run [OF assms] .

theorem timed_out_step_not_compensated_witness:
  "let slow = sampleSd (\<lambda>_. Inr (JNum 7)) 50 (Some 20); env = memEnv int (oneDef slow);
       s = memWorld [sampleWorkflow RUNNING] [sampleStep ''a'' 0 SCOMPLETED, sampleStep ''b'' 1 SPENDING];
       s' = snd (executeStep env (sampleWorkflow RUNNING) (sampleStep ''b'' 1 SPENDING) (Some slow) None s)
   in getSt env s' ''a'' = Some (sampleStep ''a'' 0 SCOMPLETED)"
proof -
  let ?slow = "sampleSd (\<lambda>_. Inr (JNum 7)) 50 (Some 20)"
  let ?env = "memEnv int (oneDef ?slow)" and ?w = "sampleWorkflow RUNNING"
  let ?p = "sampleStep ''b'' 1 SPENDING" and ?a = "sampleStep ''a'' 0 SCOMPLETED"
  let ?s = "memWorld [?w] [?a, ?p]"
  have g: "getWf ?env ?s (w_id ?w) = Some ?w" and r: "w_state ?w = RUNNING" by (simp_all add: run_simps)
  have p: "s_state ?p \<in> {SPENDING, SFAILED}" and sd: "sd_timeout ?slow = Some 20" and z: "(0::nat) < 20"
    by (simp_all add: run_simps)
  have late: "\<exists>d r. sd_execute ?slow input ctx n = Settled d r \<and> 20 \<le> d" for input ctx n
    by (simp add: sampleSd_def)
  have a: "getSt ?env ?s ''a'' = Some ?a" and ne: "''a'' \<noteq> s_id ?p" by (simp_all add: run_simps)
  note run = timed_out_step_not_compensated [OF memt.wf_tables_axioms g r p sd z late prod.collapse [symmetric], of None]
  from run [THEN conjunct2, THEN conjunct2, THEN conjunct1, rule_format, OF ne] a
  show ?thesis unfolding Let_def by (rule trans)
qed

text \<open>
  C10. A retry never runs. \<^verbatim>\<open>retryWorkflow\<close> writes \<open>RUNNING\<close> into the failed workflow and then calls
  \<^verbatim>\<open>executeWorkflow\<close>, which refuses the transition from \<open>RUNNING\<close> to \<open>RUNNING\<close>: the call throws, no
  step operation is started, and the row is left \<open>RUNNING\<close>, so that the next retry is refused too.
\<close>

theorem retryWorkflow_never_runs:
  assumes "wf_tables env" and "getWf env s i = Some w" and "w_state w = FAILED"
    and "workflowDefinitions env (w_type w) = Some def"
  shows "\<exists>s' w'. retryWorkflow env i s =
      (Inl (Error ''Cannot start workflow: Invalid workflow state transition from running to running''), s') \<and>
    calls s' = calls s \<and> getWf env s' i = Some w' \<and> w_state w' = RUNNING \<and>
    retryWorkflow env i s' = (Inl (Error (''Workflow '' @ i @ '' is not in a recoverable state'')), s')"
proof -
  obtain s' w' where s': "retryWorkflow env i s =
      (Inl (Error ''Cannot start workflow: Invalid workflow state transition from running to running''), s')"
    "calls s' = calls s" "getWf env s' i = Some w'" "w_state w' = RUNNING"
    using wf_tables.retryWorkflow_run [OF assms] by metis
  moreover from s'(3,4) have "retryWorkflow env i s' =
      (Inl (Error (''Workflow '' @ i @ '' is not in a recoverable state'')), s')"
    by (simp add: retryWorkflow_def rGet_def sm_defs)
  ultimately show ?thesis by metis
qed

theorem retryWorkflow_never_runs_witness:
  "let env = memEnv int (oneDef okSd); s = memWorld [sampleWorkflow FAILED] [sampleStep ''a'' 0 SFAILED]
   in fst (retryWorkflow env ''w1'' s) =
      Inl (Error ''Cannot start workflow: Invalid workflow state transition from running to running'') \<and>
      calls (snd (retryWorkflow env ''w1'' s)) = 0"
proof -
  let ?env = "memEnv int (oneDef okSd)" and ?w = "sampleWorkflow FAILED"
  let ?s = "memWorld [?w] [sampleStep ''a'' 0 SFAILED]"
  have g: "getWf ?env ?s ''w1'' = Some ?w" and f: "w_state ?w = FAILED"
    and d: "workflowDefinitions ?env (w_type ?w) = Some (sampleDef [okSd])"
    by (simp_all add: run_simps)
  have c: "calls ?s = 0" by (simp add: memWorld_def)
  show ?thesis using retryWorkflow_never_runs [OF memt.wf_tables_axioms g f d]
    by (elim exE conjE) (simp only: Let_def fst_conv snd_conv c)
qed

end
