(* ===== verification/Execution_Start.thy ===== *)
theory Execution_Start
  imports Execution_Props
begin

text \<open>
  Starting a workflow: the polling loop ends, the first start runs the workflow under the Redis lock
  and gives the lock back, a later start with the same key returns the stored row and runs nothing.
\<close>

section \<open>The polling loop\<close>

abbreviation keyRow :: "('wt, Workflow) repo \<Rightarrow> string \<Rightarrow> (nat \<Rightarrow> date \<times> 'wt) \<Rightarrow> nat \<Rightarrow> Workflow option" where
  "keyRow R key obs j \<equiv> rFindOne R (\<lambda>w. w_idempotencyKey w = key) (snd (obs j))"

text \<open>What a poll from iteration \<open>k\<close> on may answer.\<close>

definition pollResult ::
    "('wt, Workflow) repo \<Rightarrow> string \<Rightarrow> date \<Rightarrow> int \<Rightarrow> (nat \<Rightarrow> date \<times> 'wt) \<Rightarrow> nat \<Rightarrow> Workflow option \<Rightarrow> bool" where
  "pollResult R key t0 timeoutMs obs k r \<longleftrightarrow>
     (case r of
        Some w \<Rightarrow> \<exists>j\<ge>k. keyRow R key obs j = Some w
      | None \<Rightarrow> \<forall>j\<ge>k. fst (obs j) - t0 < timeoutMs \<longrightarrow> keyRow R key obs j = None)"

lemma waitForWorkflow_late:
  fixes obs :: "nat \<Rightarrow> date \<times> 'wt"
  assumes "\<And>k. fst (obs k) \<le> fst (obs (Suc k))" and "\<not> fst (obs k) - t0 < timeoutMs"
  shows "waitForWorkflow R key t0 timeoutMs obs k = Some None \<and> pollResult R key t0 timeoutMs obs k None"
proof -
  have "fst (obs k) \<le> fst (obs j)" if "k \<le> j" for j
    using that by (rule lift_Suc_mono_le [of "\<lambda>j. fst (obs j)", OF assms(1)])
  then have "\<not> fst (obs j) - t0 < timeoutMs" if "k \<le> j" for j using that assms(2) by fastforce
  then show ?thesis using assms(2) by (subst waitForWorkflow.simps) (simp add: pollResult_def)
qed

lemma waitForWorkflow_steps:
  assumes slow: "\<And>k. fst (obs k) + 100 \<le> fst (obs (Suc k))"
    and "t0 + timeoutMs \<le> fst (obs k) + 100 * int n"
  shows "\<exists>r. waitForWorkflow R key t0 timeoutMs obs k = Some r \<and> pollResult R key t0 timeoutMs obs k r"
  using assms(2)
proof (induction n arbitrary: k)
  have mono: "fst (obs k) \<le> fst (obs (Suc k))" for k using slow [of k] by simp
  {
    case 0
    then have "\<not> fst (obs k) - t0 < timeoutMs" by simp
    with waitForWorkflow_late [OF mono this] show ?case by blast
  next
    case (Suc n)
    have next_poll: "t0 + timeoutMs \<le> fst (obs (Suc k)) + 100 * int n" using Suc.prems slow [of k] by simp
    consider (late) "\<not> fst (obs k) - t0 < timeoutMs"
      | (found) w where "fst (obs k) - t0 < timeoutMs" "keyRow R key obs k = Some w"
      | (again) "fst (obs k) - t0 < timeoutMs" "keyRow R key obs k = None" by blast
    then show ?case
    proof cases
      case late
      with waitForWorkflow_late [OF mono this] show ?thesis by blast
    next
      case found
      then have "waitForWorkflow R key t0 timeoutMs obs k = Some (Some w)"
        by (subst waitForWorkflow.simps) simp
      with found show ?thesis by (auto simp: pollResult_def)
    next
      case again
      from Suc.IH [OF next_poll] obtain r where
        r: "waitForWorkflow R key t0 timeoutMs obs (Suc k) = Some r" "pollResult R key t0 timeoutMs obs (Suc k) r"
        by blast
      have split_le: "k \<le> j \<longleftrightarrow> j = k \<or> Suc k \<le> j" for j by auto
      have "waitForWorkflow R key t0 timeoutMs obs k = Some r"
        using again r(1) by (subst waitForWorkflow.simps) simp
      moreover have "pollResult R key t0 timeoutMs obs k r"
        using r(2) again(2) split_le by (cases r) (auto simp: pollResult_def)
      ultimately show ?thesis by blast
    qed
  }
qed

text \<open>
  The wait for another worker ends: if the clock moves by the polling interval of 100 ms between
  two polls, the loop returns after finitely many of them; it returns a workflow only if a poll found
  it under the key, and nothing only if no poll within the time limit found one.
\<close>

theorem waitForWorkflow_returns:
  assumes "\<And>k. fst (obs k) + 100 \<le> fst (obs (Suc k))" and "t0 \<le> fst (obs 0)"
  shows "\<exists>r. waitForWorkflow R key t0 5000 obs 0 = Some r \<and> pollResult R key t0 5000 obs 0 r"
  by (rule waitForWorkflow_steps [of obs, OF assms(1), where n = 50]) (use assms(2) in simp)

theorem waitForWorkflow_returns_witness:
  "let obs = (\<lambda>k. (100 * int k, if k < 3 then [] else [sampleWorkflow RUNNING]))
   in \<exists>r. waitForWorkflow (memRepo w_id) ''k1'' 0 5000 obs 0 = Some r \<and>
          pollResult (memRepo w_id) ''k1'' 0 5000 obs 0 r"
proof -
  let ?obs = "\<lambda>k. (100 * int k, if k < 3 then [] else [sampleWorkflow RUNNING])"
  have "fst (?obs k) + 100 \<le> fst (?obs (Suc k))" for k by simp
  from waitForWorkflow_returns [of ?obs, OF this] show ?thesis by simp
qed


section \<open>The first start\<close>

locale wf_engine = wf_tables env + redis_kv "redisOf env" look adv
  for env :: "('wt, 'st, 'r) wfenv" and look :: "'r \<Rightarrow> kvstate" and adv :: "nat \<Rightarrow> 'r \<Rightarrow> 'r"
begin

lemma lock_free:
  assumes "look (rstore s) k = None"
  obtains r' where "acquireWorkflowLock env k token n s = (True, s\<lparr>rstore := r'\<rparr>)"
    and "look r' = (look (rstore s))(k \<mapsto> (token, Some n))"
proof
  let ?r = "snd (rdSetNX (redisOf env) k token n (rstore s))"
  show "acquireWorkflowLock env k token n s = (True, s\<lparr>rstore := ?r\<rparr>)"
    using setNX_free [OF assms, of token n] by (simp add: acquireWorkflowLock_def split_beta)
  show "look ?r = (look (rstore s))(k \<mapsto> (token, Some n))" using setNX_free [OF assms] by simp
qed

lemma release_own:
  assumes "look (rstore s) = m(k \<mapsto> (token, e))" and "m k = None"
  shows "look (rstore (releaseWorkflowLock env k token s)) = m"
    "wfTab (releaseWorkflowLock env k token s) = wfTab s" "stTab (releaseWorkflowLock env k token s) = stTab s"
    "calls (releaseWorkflowLock env k token s) = calls s"
  using assms by (auto simp: releaseWorkflowLock_def get_look del_look)

lemma release_other:
  assumes "map_option fst (look (rstore s) k) \<noteq> Some token"
  shows "releaseWorkflowLock env k token s = s"
  using assms by (simp add: releaseWorkflowLock_def get_look)

end

interpretation meme: wf_engine "memEnv clk defs" "\<lambda>r. r" memAdv for clk defs
  unfolding wf_engine_def using memt.wf_tables_axioms mkv.redis_kv_axioms by (simp add: memEnv_def)

text \<open>The key that a start computes.\<close>

definition startKey ::
    "('wt, 'st, 'r) wfenv \<Rightarrow> string \<Rightarrow> (string \<times> json) list \<Rightarrow> string option \<Rightarrow> json option \<Rightarrow> ('wt, 'st, 'r) world \<Rightarrow> string" where
  "startKey env ty input userId context s =
     generateWorkflowIdempotencyKey (sha256Of env) (nowOf env s) ty (strOr userId ''anonymous'') (JObj input) context"

lemma startWorkflow_existing:
  assumes "workflowDefinitions env ty = Some def"
    and "rFindOne (wfRepo env) (\<lambda>w. w_idempotencyKey w = startKey env ty input userId context s) (wfTab s) = Some w"
  shows "startWorkflow env newId stepIds token obs ty input userId walletAddress context s = Some (Inr w, tick s)"
  using assms by (simp add: startWorkflow_def startKey_def Let_def)

definition newSteps :: "WorkflowDefinition \<Rightarrow> string \<Rightarrow> (nat \<Rightarrow> string) \<Rightarrow> date \<Rightarrow> WorkflowStep list" where
  "newSteps def newId stepIds t =
     map (\<lambda>(i, sd). newStep newId (stepIds i) i sd t) (enumerate 0 (d_steps def))"

lemma newSteps_ids: "map s_id (newSteps def newId stepIds t) = map stepIds [0..<length (d_steps def)]"
proof -
  have "s_id \<circ> (\<lambda>(i, sd). newStep newId (stepIds i) i sd t) = stepIds \<circ> fst"
    by (auto simp: newStep_def)
  then have "map s_id (newSteps def newId stepIds t) = map stepIds (map fst (enumerate 0 (d_steps def)))"
    by (simp only: newSteps_def map_map)
  then show ?thesis by simp
qed

lemma newSteps_wf: "p \<in> set (newSteps def newId stepIds t) \<Longrightarrow> s_workflowId p = newId"
  by (auto simp: newSteps_def newStep_def)

context wf_engine
begin

lemma startWorkflow_first_run:
  fixes s :: "('wt, 'st, 'r) world"
  assumes def: "workflowDefinitions env ty = Some def"
    and none: "rFindOne (wfRepo env) (\<lambda>w. w_idempotencyKey w = startKey env ty input userId context s) (wfTab s) = None"
    and free: "look (rstore s) (getWorkflowLockKey (startKey env ty input userId context s)) = None"
    and ids: "inj stepIds"
  shows "\<exists>r s' w. startWorkflow env newId stepIds token obs ty input userId walletAddress context s = Some (r, s') \<and>
     look (rstore s') = look (rstore s) \<and>
     getWf env s' newId = Some w \<and> w_idempotencyKey w = startKey env ty input userId context s \<and>
     (case r of Inl e \<Rightarrow> w_state w = FAILED \<and> w_failureReason w = Some (message e)
      | Inr v \<Rightarrow> v = w \<and> w_state w = COMPLETED \<and>
          (\<forall>i < length (d_steps def). \<exists>q. getSt env s' (stepIds i) = Some q \<and> s_state q = SCOMPLETED))"
proof -
  let ?key = "startKey env ty input userId context s"
  let ?lk = "getWorkflowLockKey ?key"
  have free': "look (rstore (tick s)) ?lk = None" using free by simp
  obtain r1 where acq: "acquireWorkflowLock env ?lk token 3600 (tick s) = (True, (tick s)\<lparr>rstore := r1\<rparr>)"
    and held: "look r1 = (look (rstore (tick s)))(?lk \<mapsto> (token, Some 3600))"
    using lock_free [OF free'] by blast
  define s1 where "s1 = (tick s)\<lparr>rstore := r1\<rparr>"
  define wn where "wn = newWorkflow def newId ?key ty input userId walletAddress context (nowOf env s1)"
  define s2 where "s2 = saveWorkflow env wn s1"
  define ps where "ps = newSteps def newId stepIds (nowOf env s2)"
  define s3 where "s3 = fold (saveStep env) ps s2"
  obtain r4 s4 where run: "executeWorkflow env wn s3 = (r4, s4)" by (metis surj_pair)
  have wn: "w_id wn = newId" "w_type wn = ty" "w_idempotencyKey wn = ?key" "w_state wn = PENDING"
    by (simp_all add: wn_def newWorkflow_def)
  have d: "workflowDefinitions env (w_type wn) = Some def" and st: "w_state wn \<in> {PENDING, FAILED}"
    using def wn by simp_all
  note eff = executeWorkflow_effect [OF d st run]
  then obtain w where w: "getWf env s4 newId = Some w" "w_idempotencyKey w = ?key"
    "case r4 of Inr _ \<Rightarrow> w_state w = COMPLETED \<and> w_completedAt w \<noteq> None
     | Inl e \<Rightarrow> w_state w = FAILED \<and> w_failureReason w = Some (message e)"
    unfolding wn by blast
  have r: "rstore s4 = rstore s3" using eff by blast
  have store: "look (rstore s4) = (look (rstore s))(?lk \<mapsto> (token, Some 3600))"
    unfolding r using held by (simp add: s3_def s2_def s1_def)
  note rel = release_own [OF store free]
  let ?s5 = "releaseWorkflowLock env ?lk token s4"
  have eq: "startWorkflow env newId stepIds token obs ty input userId walletAddress context s =
      Some (case r4 of Inl e \<Rightarrow> (Inl e, ?s5) | Inr _ \<Rightarrow> (Inr w, ?s5))"
    using def none acq run w(1)
    by (simp add: startWorkflow_def startKey_def [symmetric] Let_def s1_def [symmetric] wn_def [symmetric]
        s2_def [symmetric] newSteps_def [symmetric] ps_def [symmetric] s3_def [symmetric] rGet_def split: sum.splits)
  have fin: "\<exists>q. getSt env ?s5 (stepIds i) = Some q \<and> s_state q = SCOMPLETED"
    if "r4 = Inr ()" "i < length (d_steps def)" for i
  proof -
    have dist: "distinct (map s_id ps)"
      unfolding ps_def newSteps_ids using ids by (simp add: distinct_map inj_on_def inj_def)
    have "stepIds i \<in> set (map s_id ps)" unfolding ps_def newSteps_ids using that(2) by simp
    then obtain p where p: "p \<in> set ps" "s_id p = stepIds i" by auto
    have "s_workflowId p = w_id wn" using p(1) newSteps_wf wn unfolding ps_def by blast
    moreover obtain t where "getSt env s3 (stepIds i) = Some (p\<lparr>s_updatedAt := t\<rparr>)"
      using fold_saveStep_in [OF dist p(1), of s2] p(2) unfolding s3_def by auto
    ultimately have "\<exists>q. getSt env s4 (stepIds i) = Some q \<and> s_state q = SCOMPLETED"
      using eff that(1) by fastforce
    then show ?thesis unfolding rel .
  qed
  show ?thesis
  proof (cases r4)
    case (Inl e)
    then show ?thesis using eq rel w by (intro exI [of _ "Inl e"] exI [of _ ?s5] exI [of _ w]) simp
  next
    case (Inr u)
    then show ?thesis using eq rel w fin by (intro exI [of _ "Inr w"] exI [of _ ?s5] exI [of _ w]) simp
  qed
qed

end




end
