(* ===== verification/Recovery.thy ===== *)
theory Recovery
  imports Execution_Props
begin

text \<open>
  The recovery service, \<^verbatim>\<open>workflow/services/recovery.service.ts\<close>: at start-up, every five minutes
  and on request it looks for workflows and steps that a crash left running. The service's own state
  is the flag \<open>isRecovering\<close>. The theorems say exactly which rows a recovery changes; in particular no
  orphaned workflow is ever resumed.
\<close>

section \<open>Operations\<close>

definition lastCompletedStep :: "WorkflowStep list \<Rightarrow> WorkflowStep option" where
  "lastCompletedStep steps =
     foldl (\<lambda>latest step. case latest of
               None \<Rightarrow> Some step
             | Some l \<Rightarrow> (if s_stepIndex l < s_stepIndex step then Some step else Some l))
       None (filter (\<lambda>p. s_state p = SCOMPLETED) steps)"

text \<open>\<open>steps\<close> is the relation \<^verbatim>\<open>workflow.steps\<close> as it was loaded with the workflow.\<close>

definition recoverWorkflow ::
    "('wt, 'st, 'r) wfenv \<Rightarrow> Workflow \<times> WorkflowStep list \<Rightarrow> (('wt, 'st, 'r) world, unit) action" where
  "recoverWorkflow env loaded s =
     (case loaded of (workflow, steps) \<Rightarrow>
        let now = nowOf env s; s1 = tick s
        in if now - w_updatedAt workflow < 5 * 60 * 1000 then (Inr (), s1)
           else if filter (\<lambda>p. s_state p = SFAILED) steps \<noteq> []
           then (Inr (), saveWorkflow env
                   (workflow\<lparr>w_state := FAILED,
                             w_failureReason := Some ''Workflow failed during service interruption'',
                             w_failedAt := Some (nowOf env s1)\<rparr>) (tick s1))
           else
             let workflow1 = (case lastCompletedStep steps of
                    Some lastStep \<Rightarrow> workflow\<lparr>w_currentStepIndex := s_stepIndex lastStep + 1\<rparr>
                  | None \<Rightarrow> workflow\<lparr>w_currentStepIndex := 0\<rparr>)
             in executeWorkflow env workflow1 s1)"

definition recoverOrphanedWorkflows ::
    "('wt, 'st, 'r) wfenv \<Rightarrow> ('wt, 'st, 'r) world \<Rightarrow> ('wt, 'st, 'r) world" where
  "recoverOrphanedWorkflows env s =
     forEachLogged (recoverWorkflow env)
       (map (\<lambda>w. (w, stepsOf env (w_id w) s)) (rFind (wfRepo env) (\<lambda>w. w_state w = RUNNING) (wfTab s))) s"

text \<open>
  A stuck step comes with its workflow row as loaded. A step whose workflow is gone makes the read of
  its state throw.
\<close>

definition recoverStuckStep ::
    "('wt, 'st, 'r) wfenv \<Rightarrow> WorkflowStep \<times> Workflow option \<Rightarrow> (('wt, 'st, 'r) world, unit) action" where
  "recoverStuckStep env loaded s =
     (case loaded of
        (step, None) \<Rightarrow> (Inl (Error ''Cannot read properties of null''), s)
      | (step, Some workflow) \<Rightarrow>
          if w_state workflow \<noteq> RUNNING then (Inr (), s)
          else
            let step1 = step\<lparr>s_state := SFAILED, s_failedAt := Some (nowOf env s),
                    s_failureReason := Some ''Step timed out during service interruption'',
                    s_retryCount := Suc (s_retryCount step)\<rparr>;
                s1 = tick s
            in if shouldRetry (Inr SFAILED) (s_retryCount step1) (s_maxRetries step1)
               then (Inr (), saveStep env (step1\<lparr>s_nextRetryAt :=
                        Some (calculateNextRetryTime (nowOf env s1) (randomOf env (draws s1)) (s_retryCount step1) 1000)\<rparr>)
                      (tick (s1\<lparr>draws := Suc (draws s1)\<rparr>)))
               else (Inr (), saveStep env step1 (saveWorkflow env
                       (workflow\<lparr>w_state := FAILED, w_failedAt := Some (nowOf env s1),
                                 w_failureReason := Some (''Step '' @ s_stepName step @ '' failed after max retries'')\<rparr>)
                       (tick s1))))"

definition recoverStuckSteps ::
    "('wt, 'st, 'r) wfenv \<Rightarrow> ('wt, 'st, 'r) world \<Rightarrow> ('wt, 'st, 'r) world" where
  "recoverStuckSteps env s =
     (let cutoffTime = nowOf env s - 10 * 60 * 1000; s1 = tick s;
          stuckSteps = rFind (stRepo env) (\<lambda>p. s_state p = SRUNNING \<and> s_updatedAt p < cutoffTime) (stTab s1)
      in forEachLogged (recoverStuckStep env)
           (map (\<lambda>p. (p, rFindOne (wfRepo env) (\<lambda>w. w_id w = s_workflowId p) (wfTab s1))) stuckSteps) s1)"

text \<open>The clean-up only logs what it finds; days are taken as 24 hours.\<close>

definition cleanupExpiredWorkflows ::
    "('wt, 'st, 'r) wfenv \<Rightarrow> ('wt, 'st, 'r) world \<Rightarrow> Workflow list \<times> ('wt, 'st, 'r) world" where
  "cleanupExpiredWorkflows env s =
     (let cutoffDate = nowOf env s - 30 * 86400000
      in (rFind (wfRepo env) (\<lambda>w. w_createdAt w < cutoffDate \<and> w_state w = COMPLETED) (wfTab s), tick s))"

type_synonym ('wt, 'st, 'r) recovery = "bool \<times> ('wt, 'st, 'r) world"

definition performStartupRecovery ::
    "('wt, 'st, 'r) wfenv \<Rightarrow> ('wt, 'st, 'r) recovery \<Rightarrow> ('wt, 'st, 'r) recovery" where
  "performStartupRecovery env st =
     (case st of (isRecovering, s) \<Rightarrow>
        if isRecovering then st
        else (False, snd (cleanupExpiredWorkflows env (recoverStuckSteps env (recoverOrphanedWorkflows env s)))))"

definition onModuleInit ::
    "('wt, 'st, 'r) wfenv \<Rightarrow> ('wt, 'st, 'r) recovery \<Rightarrow> ('wt, 'st, 'r) recovery" where
  "onModuleInit env st = performStartupRecovery env st"

definition scheduledRecovery ::
    "('wt, 'st, 'r) wfenv \<Rightarrow> ('wt, 'st, 'r) recovery \<Rightarrow> ('wt, 'st, 'r) recovery" where
  "scheduledRecovery env st =
     (case st of (isRecovering, s) \<Rightarrow>
        if isRecovering then st
        else (False, recoverStuckSteps env (recoverOrphanedWorkflows env s)))"

record recoveryResults =
  rr_orphanedWorkflows :: nat
  rr_stuckSteps :: nat
  rr_expiredWorkflows :: nat

definition triggerManualRecovery ::
    "('wt, 'st, 'r) wfenv \<Rightarrow> ('wt, 'st, 'r) world \<Rightarrow> recoveryResults \<times> ('wt, 'st, 'r) world" where
  "triggerManualRecovery env s =
     (let s1 = recoverOrphanedWorkflows env s;
          orphaned = rCount (wfRepo env) (\<lambda>w. w_state w = RUNNING) (wfTab s1);
          s2 = recoverStuckSteps env s1;
          stuck = length (rFind (stRepo env) (\<lambda>p. s_state p = SRUNNING) (stTab s2));
          s3 = snd (cleanupExpiredWorkflows env s2)
      in (\<lparr>rr_orphanedWorkflows = orphaned, rr_stuckSteps = stuck, rr_expiredWorkflows = 0\<rparr>, s3))"

record recoveryStats =
  rs_totalWorkflows :: nat
  rs_runningWorkflows :: nat
  rs_stuckSteps :: nat
  rs_failedWorkflows :: nat
  rs_lastRecoveryRun :: "date option"

definition getRecoveryStats :: "('wt, 'st, 'r) wfenv \<Rightarrow> ('wt, 'st, 'r) world \<Rightarrow> recoveryStats" where
  "getRecoveryStats env s =
     \<lparr>rs_totalWorkflows = rCount (wfRepo env) (\<lambda>_. True) (wfTab s),
      rs_runningWorkflows = rCount (wfRepo env) (\<lambda>w. w_state w = RUNNING) (wfTab s),
      rs_stuckSteps = rCount (stRepo env) (\<lambda>p. s_state p = SRUNNING) (stTab s),
      rs_failedWorkflows = rCount (wfRepo env) (\<lambda>w. w_state w = FAILED) (wfTab s),
      rs_lastRecoveryRun = None\<rparr>"

section \<open>What a recovery changes\<close>

text \<open>The row of an orphaned workflow with a failed step, after recovery at time \<open>t\<close>.\<close>

definition interrupted :: "Workflow \<Rightarrow> Workflow \<Rightarrow> bool" where
  "interrupted w w' \<longleftrightarrow> w_id w' = w_id w \<and> w_state w' = FAILED \<and> w_failedAt w' \<noteq> None \<and>
     w_failureReason w' = Some ''Workflow failed during service interruption''"

lemma executeWorkflow_running:
  assumes "w_state w = RUNNING"
  shows "\<exists>e. executeWorkflow env w s = (Inl e, s)"
  using assms by (cases "workflowDefinitions env (w_type w)") (simp_all add: executeWorkflow_def no_rerun)

definition staleAt :: "('wt, 'st, 'r) wfenv \<Rightarrow> Workflow \<Rightarrow> ('wt, 'st, 'r) world \<Rightarrow> bool" where
  "staleAt env w s \<longleftrightarrow> 5 * 60 * 1000 \<le> nowOf env s - w_updatedAt w"

definition hasFailed :: "WorkflowStep list \<Rightarrow> bool" where
  "hasFailed steps \<longleftrightarrow> (\<exists>p \<in> set steps. s_state p = SFAILED)"

lemma recoverWorkflow_cases:
  assumes "w_state w = RUNNING"
  shows "snd (recoverWorkflow env (w, ps) s) =
     (if staleAt env w s \<and> hasFailed ps
      then saveWorkflow env (w\<lparr>w_state := FAILED,
             w_failureReason := Some ''Workflow failed during service interruption'',
             w_failedAt := Some (nowOf env (tick s))\<rparr>) (tick (tick s))
      else tick s)"
proof -
  have f: "filter (\<lambda>p. s_state p = SFAILED) ps \<noteq> [] \<longleftrightarrow> hasFailed ps"
    by (simp add: filter_empty_conv hasFailed_def)
  let ?w1 = "case lastCompletedStep ps of Some lastStep \<Rightarrow> w\<lparr>w_currentStepIndex := s_stepIndex lastStep + 1\<rparr>
      | None \<Rightarrow> w\<lparr>w_currentStepIndex := 0\<rparr>"
  have "w_state ?w1 = RUNNING" using assms by (simp split: option.splits)
  then obtain e where "executeWorkflow env ?w1 (tick s) = (Inl e, tick s)"
    using executeWorkflow_running by blast
  then show ?thesis using f by (auto simp: recoverWorkflow_def Let_def staleAt_def)
qed


context wf_tables
begin

lemma recover_loop:
  fixes s :: "('wt, 'st, 'r) world"
  assumes "mono (clockOf env)" and "\<forall>(w, ps) \<in> set l. w_state w = RUNNING"
    and "distinct (map (w_id \<circ> fst) l)"
  defines "s' \<equiv> forEachLogged (recoverWorkflow env) l s"
  shows "stTab s' = stTab s \<and> calls s' = calls s \<and> rstore s' = rstore s \<and> ticks s \<le> ticks s' \<and>
     (\<forall>i. i \<notin> w_id ` fst ` set l \<longrightarrow> getWf env s' i = getWf env s i) \<and>
     (\<forall>(w, ps) \<in> set l.
        (\<not> hasFailed ps \<longrightarrow> getWf env s' (w_id w) = getWf env s (w_id w)) \<and>
        (hasFailed ps \<longrightarrow> staleAt env w s \<longrightarrow> (\<exists>w'. getWf env s' (w_id w) = Some w' \<and> interrupted w w')))"
  unfolding s'_def using assms(2,3)
proof (induction l arbitrary: s)
  case (Cons x l)
  obtain w ps where x: "x = (w, ps)" by (cases x)
  let ?s1 = "snd (recoverWorkflow env x s)"
  let ?s' = "forEachLogged (recoverWorkflow env) l ?s1"
  have run: "w_state w = RUNNING" using Cons.prems(1) x by simp
  note one = recoverWorkflow_cases [OF run, of env ps s, folded x]
  have frame: "stTab ?s1 = stTab s" "calls ?s1 = calls s" "rstore ?s1 = rstore s" "ticks s \<le> ticks ?s1"
    unfolding one by simp_all
  have other: "i \<noteq> w_id w \<Longrightarrow> getWf env ?s1 i = getWf env s i" for i
    unfolding one by (simp add: getWf_saveWorkflow)
  have keep: "\<not> hasFailed ps \<Longrightarrow> getWf env ?s1 (w_id w) = getWf env s (w_id w)" unfolding one by simp
  have int: "\<exists>w'. getWf env ?s1 (w_id w) = Some w' \<and> interrupted w w'" if "hasFailed ps" "staleAt env w s"
    unfolding one using that by (simp add: getWf_saveWorkflow interrupted_def)
  have later: "staleAt env v s \<Longrightarrow> staleAt env v ?s1" for v
    using monoD [OF assms(1) frame(4)] by (simp add: staleAt_def nowOf_def)
  have notin: "w_id w \<notin> w_id ` fst ` set l" using Cons.prems(2) x by (simp add: image_comp)
  note IH = Cons.IH [of ?s1]
  have IH: "stTab ?s' = stTab ?s1 \<and> calls ?s' = calls ?s1 \<and> rstore ?s' = rstore ?s1 \<and> ticks ?s1 \<le> ticks ?s' \<and>
     (\<forall>i. i \<notin> w_id ` fst ` set l \<longrightarrow> getWf env ?s' i = getWf env ?s1 i) \<and>
     (\<forall>(w, ps) \<in> set l.
        (\<not> hasFailed ps \<longrightarrow> getWf env ?s' (w_id w) = getWf env ?s1 (w_id w)) \<and>
        (hasFailed ps \<longrightarrow> staleAt env w ?s1 \<longrightarrow> (\<exists>w'. getWf env ?s' (w_id w) = Some w' \<and> interrupted w w')))"
    using Cons.prems by (intro IH) simp_all
  have here: "getWf env ?s' (w_id w) = getWf env ?s1 (w_id w)" using IH notin by blast
  have ne: "w_id v \<noteq> w_id w" if "(v, qs) \<in> set l" for v qs
    using notin that by (metis fst_conv imageI)
  have rest: "(\<not> hasFailed qs \<longrightarrow> getWf env ?s' (w_id v) = getWf env s (w_id v)) \<and>
      (hasFailed qs \<longrightarrow> staleAt env v s \<longrightarrow> (\<exists>w'. getWf env ?s' (w_id v) = Some w' \<and> interrupted v w'))"
    if "(v, qs) \<in> set l" for v qs
    using IH that later [of v] other [OF ne [OF that]] by fastforce
  show ?case
    using IH frame here keep int rest other x by (auto 0 3)
qed simp

lemma recoverOrphaned_run:
  fixes s :: "('wt, 'st, 'r) world"
  assumes "mono (clockOf env)"
  defines "s' \<equiv> recoverOrphanedWorkflows env s"
  shows "stTab s' = stTab s \<and> calls s' = calls s \<and> rstore s' = rstore s \<and>
     (\<forall>i w. getWf env s i = Some w \<longrightarrow>
        (w_state w = RUNNING \<and> hasFailed (stepsOf env i s) \<and> staleAt env w s \<longrightarrow>
           (\<exists>w'. getWf env s' i = Some w' \<and> interrupted w w')) \<and>
        (\<not> (w_state w = RUNNING \<and> hasFailed (stepsOf env i s)) \<longrightarrow> getWf env s' i = Some w))"
proof -
  let ?ws = "rFind (wfRepo env) (\<lambda>w. w_state w = RUNNING) (wfTab s)"
  let ?l = "map (\<lambda>w. (w, stepsOf env (w_id w) s)) ?ws"
  have run: "\<forall>(w, ps) \<in> set ?l. w_state w = RUNNING" using W.find_iff by auto
  have "map (w_id \<circ> fst) ?l = map w_id ?ws" by (simp add: comp_def)
  then have dist: "distinct (map (w_id \<circ> fst) ?l)" using W.find_distinct by metis
  note loop = recover_loop [OF assms(1) run dist, of s, folded recoverOrphanedWorkflows_def, folded s'_def]
  have ids: "w_id ` fst ` set ?l = w_id ` set ?ws" by (simp add: image_image)
  have "(w_state w = RUNNING \<and> hasFailed (stepsOf env i s) \<and> staleAt env w s \<longrightarrow>
           (\<exists>w'. getWf env s' i = Some w' \<and> interrupted w w')) \<and>
        (\<not> (w_state w = RUNNING \<and> hasFailed (stepsOf env i s)) \<longrightarrow> getWf env s' i = Some w)"
    if g: "getWf env s i = Some w" for i w
  proof (cases "w_state w = RUNNING")
    case True
    have i: "w_id w = i" using g by (rule getWf_id)
    then have "w \<in> set ?ws" using g True by (simp add: W.find_iff)
    then have mem: "(w, stepsOf env i s) \<in> set ?l" using i by auto
    note all = loop [THEN conjunct2, THEN conjunct2, THEN conjunct2, THEN conjunct2, THEN conjunct2]
    from bspec [OF all mem] g i True show ?thesis by simp
  next
    case False
    have "i \<notin> w_id ` set ?ws" using g False by (auto simp: W.find_iff)
    with loop g False show ?thesis unfolding ids by simp
  qed
  with loop show ?thesis by blast
qed

end

text \<open>
  Recovering orphaned workflows only ever fails them. A workflow that is running, has been silent for
  five minutes and has a failed step is marked \<open>FAILED\<close> with the reason; a workflow that is not running
  or has no failed step is left exactly as it was. No step operation is started, no step row and no
  lock changes: an orphaned workflow is never resumed, because \<^verbatim>\<open>executeWorkflow\<close> refuses a row that is
  already \<open>RUNNING\<close>.
\<close>

theorem orphaned_workflows_never_resume:
  assumes "wf_tables env" and "mono (clockOf env)"
  shows "stTab (recoverOrphanedWorkflows env s) = stTab s \<and> calls (recoverOrphanedWorkflows env s) = calls s \<and>
     rstore (recoverOrphanedWorkflows env s) = rstore s \<and>
     (\<forall>i w. getWf env s i = Some w \<longrightarrow>
        (w_state w = RUNNING \<and> hasFailed (stepsOf env i s) \<and> staleAt env w s \<longrightarrow>
           (\<exists>w'. getWf env (recoverOrphanedWorkflows env s) i = Some w' \<and> interrupted w w')) \<and>
        (\<not> (w_state w = RUNNING \<and> hasFailed (stepsOf env i s)) \<longrightarrow>
           getWf env (recoverOrphanedWorkflows env s) i = Some w))"
  by (rule wf_tables.recoverOrphaned_run [OF assms])

theorem orphaned_workflows_never_resume_witness:
  "let env = memEnv (\<lambda>n. 1000000 + int n) (oneDef okSd);
       s = memWorld [sampleWorkflow RUNNING] [sampleStep ''a'' 0 SCOMPLETED]
   in getWf env (recoverOrphanedWorkflows env s) ''w1'' = Some (sampleWorkflow RUNNING) \<and>
      calls (recoverOrphanedWorkflows env s) = 0"
proof -
  let ?env = "memEnv (\<lambda>n. 1000000 + int n) (oneDef okSd)"
  let ?s = "memWorld [sampleWorkflow RUNNING] [sampleStep ''a'' 0 SCOMPLETED]"
  have m: "mono (clockOf ?env)" by (simp add: memEnv_def mono_def)
  have g: "getWf ?env ?s ''w1'' = Some (sampleWorkflow RUNNING)" by (simp add: run_simps)
  have n: "\<not> hasFailed (stepsOf ?env ''w1'' ?s)" and c: "calls ?s = 0"
    by (simp_all add: hasFailed_def stepsOf_def run_simps)
  note r = orphaned_workflows_never_resume [OF memt.wf_tables_axioms m, of ?s]
  have "calls (recoverOrphanedWorkflows ?env ?s) = 0" using r c by simp
  moreover have "getWf ?env (recoverOrphanedWorkflows ?env ?s) ''w1'' = Some (sampleWorkflow RUNNING)"
    using r g n by blast
  ultimately show ?thesis unfolding Let_def by blast
qed


section \<open>Stuck steps\<close>

text \<open>A loaded pair of a step and its workflow: is the step failed by the recovery, and does it take its
  workflow \<open>i\<close> with it?\<close>

fun overdue :: "WorkflowStep \<times> Workflow option \<Rightarrow> bool" where
  "overdue (p, None) = False"
| "overdue (p, Some w) = (w_state w = RUNNING)"

fun dooms :: "WorkflowStep \<times> Workflow option \<Rightarrow> string \<Rightarrow> bool" where
  "dooms (p, None) i = False"
| "dooms (p, Some w) i = (w_state w = RUNNING \<and> w_id w = i \<and> s_maxRetries p \<le> Suc (s_retryCount p))"

definition stuck :: "('wt, 'st, 'r) wfenv \<Rightarrow> WorkflowStep \<Rightarrow> ('wt, 'st, 'r) world \<Rightarrow> bool" where
  "stuck env p s \<longleftrightarrow> s_state p = SRUNNING \<and> s_updatedAt p < nowOf env s - 600000 \<and>
     (\<exists>w. getWf env s (s_workflowId p) = Some w \<and> w_state w = RUNNING)"

definition failedFrom :: "WorkflowStep \<Rightarrow> WorkflowStep \<Rightarrow> bool" where
  "failedFrom p q \<longleftrightarrow> s_state q = SFAILED \<and> s_retryCount q = Suc (s_retryCount p) \<and>
     s_workflowId q = s_workflowId p \<and> s_failureReason q = Some ''Step timed out during service interruption''"

context wf_tables
begin

lemma stuck_one:
  fixes s :: "('wt, 'st, 'r) world" and x :: "WorkflowStep \<times> Workflow option"
  defines "s1 \<equiv> snd (recoverStuckStep env x s)"
  shows "calls s1 = calls s" "rstore s1 = rstore s"
    "i \<noteq> s_id (fst x) \<Longrightarrow> getSt env s1 i = getSt env s i"
    "overdue x \<Longrightarrow> \<exists>q. getSt env s1 (s_id (fst x)) = Some q \<and> failedFrom (fst x) q"
    "\<not> overdue x \<Longrightarrow> getSt env s1 i = getSt env s i"
    "dooms x i \<Longrightarrow> \<exists>w. getWf env s1 i = Some w \<and> w_state w = FAILED"
    "\<not> dooms x i \<Longrightarrow> getWf env s1 i = getWf env s i"
proof -
  obtain p wo where x: "x = (p, wo)" by (cases x)
  have "calls s1 = calls s \<and> rstore s1 = rstore s \<and> (i \<noteq> s_id p \<longrightarrow> getSt env s1 i = getSt env s i) \<and>
      (overdue x \<longrightarrow> (\<exists>q. getSt env s1 (s_id p) = Some q \<and> failedFrom p q)) \<and>
      (\<not> overdue x \<longrightarrow> getSt env s1 i = getSt env s i) \<and>
      (dooms x i \<longrightarrow> (\<exists>w. getWf env s1 i = Some w \<and> w_state w = FAILED)) \<and>
      (\<not> dooms x i \<longrightarrow> getWf env s1 i = getWf env s i)"
  proof (cases wo)
    case None
    then show ?thesis by (simp add: s1_def x recoverStuckStep_def)
  next
    case (Some w)
    show ?thesis
    proof (cases "w_state w = RUNNING")
      case False
      then show ?thesis using Some by (simp add: s1_def x recoverStuckStep_def)
    next
      case True
      show ?thesis
        using Some True unfolding s1_def x recoverStuckStep_def
        by (cases "Suc (s_retryCount p) < s_maxRetries p")
          (simp_all add: Let_def shouldRetry_def getSt_saveStep getWf_saveStep getSt_saveWorkflow
            getWf_saveWorkflow failedFrom_def tick_def)
    qed
  qed
  then show "calls s1 = calls s" "rstore s1 = rstore s"
    "i \<noteq> s_id (fst x) \<Longrightarrow> getSt env s1 i = getSt env s i"
    "overdue x \<Longrightarrow> \<exists>q. getSt env s1 (s_id (fst x)) = Some q \<and> failedFrom (fst x) q"
    "\<not> overdue x \<Longrightarrow> getSt env s1 i = getSt env s i"
    "dooms x i \<Longrightarrow> \<exists>w. getWf env s1 i = Some w \<and> w_state w = FAILED"
    "\<not> dooms x i \<Longrightarrow> getWf env s1 i = getWf env s i"
    by (simp_all add: x)
qed

abbreviation stuckLoop ::
    "(WorkflowStep \<times> Workflow option) list \<Rightarrow> ('wt, 'st, 'r) world \<Rightarrow> ('wt, 'st, 'r) world" where
  "stuckLoop l s \<equiv> forEachLogged (recoverStuckStep env) l s"

lemma stuck_loop_frame: "calls (stuckLoop l s) = calls s \<and> rstore (stuckLoop l s) = rstore s"
  by (induction l arbitrary: s) (simp_all add: stuck_one)

lemma stuck_loop_out: "i \<notin> s_id ` fst ` set l \<Longrightarrow> getSt env (stuckLoop l s) i = getSt env s i"
  by (induction l arbitrary: s) (simp_all add: stuck_one(3))

lemma stuck_loop_steps:
  assumes "distinct (map (s_id \<circ> fst) l)" and "x \<in> set l"
  shows "if overdue x then \<exists>q. getSt env (stuckLoop l s) (s_id (fst x)) = Some q \<and> failedFrom (fst x) q
         else getSt env (stuckLoop l s) (s_id (fst x)) = getSt env s (s_id (fst x))"
  using assms
proof (induction l arbitrary: s)
  case (Cons y l)
  show ?case
  proof (cases "x = y")
    case True
    have "s_id (fst y) \<notin> s_id ` fst ` set l" using Cons.prems(1) by (simp add: image_comp)
    then have eq: "getSt env (stuckLoop (y # l) s) (s_id (fst y)) = getSt env (snd (recoverStuckStep env y s)) (s_id (fst y))"
      by (simp add: stuck_loop_out)
    show ?thesis unfolding True eq using stuck_one(4) [of y s] stuck_one(5) [of y "s_id (fst y)" s] by simp
  next
    case False
    then have mem: "x \<in> set l" using Cons.prems(2) by simp
    then have "s_id (fst x) \<noteq> s_id (fst y)" using Cons.prems(1) by (auto simp: image_iff)
    then show ?thesis using Cons.IH [OF _ mem, of "snd (recoverStuckStep env y s)"] Cons.prems(1)
      by (simp add: stuck_one(3))
  qed
qed simp

lemma stuck_loop_keep: "\<forall>x \<in> set l. \<not> dooms x i \<Longrightarrow> getWf env (stuckLoop l s) i = getWf env s i"
  by (induction l arbitrary: s) (simp_all add: stuck_one(7))

lemma stuck_loop_doomed:
  "(\<exists>x \<in> set l. dooms x i) \<or> (\<exists>w. getWf env s i = Some w \<and> w_state w = FAILED) \<Longrightarrow>
     \<exists>w. getWf env (stuckLoop l s) i = Some w \<and> w_state w = FAILED"
proof (induction l arbitrary: s)
  case (Cons y l)
  let ?s1 = "snd (recoverStuckStep env y s)"
  have "(\<exists>x \<in> set l. dooms x i) \<or> (\<exists>w. getWf env ?s1 i = Some w \<and> w_state w = FAILED)"
    using Cons.prems stuck_one(6) [of y i s] stuck_one(7) [of y i s] by (cases "dooms y i") auto
  from Cons.IH [OF this] show ?case by simp
qed simp


text \<open>The steps that a recovery looks at, each with its workflow.\<close>

lemma ex_row: "(\<exists>j p. getSt env s j = Some p \<and> R p) \<longleftrightarrow> (\<exists>p. getSt env s (s_id p) = Some p \<and> R p)"
proof
  assume "\<exists>j p. getSt env s j = Some p \<and> R p"
  then obtain j p where "getSt env s j = Some p" "R p" by blast
  moreover from this(1) have "s_id p = j" by (rule getSt_id)
  ultimately show "\<exists>p. getSt env s (s_id p) = Some p \<and> R p" by blast
qed blast

lemma stuck_pairs:
  fixes s :: "('wt, 'st, 'r) world" and Q :: "WorkflowStep \<Rightarrow> bool"
  defines "l \<equiv> map (\<lambda>p. (p, rFindOne (wfRepo env) (\<lambda>w. w_id w = s_workflowId p) (wfTab s)))
      (rFind (stRepo env) Q (stTab s))"
  shows "distinct (map (s_id \<circ> fst) l)"
    "(p, wo) \<in> set l \<longleftrightarrow> getSt env s (s_id p) = Some p \<and> Q p \<and> wo = getWf env s (s_workflowId p)"
proof -
  have "map (s_id \<circ> fst) l = map s_id (rFind (stRepo env) Q (stTab s))" by (simp add: l_def comp_def)
  then show "distinct (map (s_id \<circ> fst) l)" using S.find_distinct by metis
  show "(p, wo) \<in> set l \<longleftrightarrow> getSt env s (s_id p) = Some p \<and> Q p \<and> wo = getWf env s (s_workflowId p)"
    by (auto simp: l_def S.find_iff rGet_def)
qed

lemma recoverStuckSteps_run:
  fixes s :: "('wt, 'st, 'r) world"
  defines "s' \<equiv> recoverStuckSteps env s"
  shows "calls s' = calls s \<and> rstore s' = rstore s \<and>
     (\<forall>i p. getSt env s i = Some p \<longrightarrow>
        (if stuck env p s then \<exists>q. getSt env s' i = Some q \<and> failedFrom p q else getSt env s' i = Some p)) \<and>
     (\<forall>i. if \<exists>j p. getSt env s j = Some p \<and> stuck env p s \<and> s_workflowId p = i \<and> s_maxRetries p \<le> Suc (s_retryCount p)
          then \<exists>w. getWf env s' i = Some w \<and> w_state w = FAILED else getWf env s' i = getWf env s i)"
proof -
  let ?Q = "\<lambda>p. s_state p = SRUNNING \<and> s_updatedAt p < nowOf env s - 10 * 60 * 1000"
  let ?l = "map (\<lambda>p. (p, rFindOne (wfRepo env) (\<lambda>w. w_id w = s_workflowId p) (wfTab (tick s))))
      (rFind (stRepo env) ?Q (stTab (tick s)))"
  have s': "s' = stuckLoop ?l (tick s)" by (simp add: s'_def recoverStuckSteps_def Let_def)
  note pairs = stuck_pairs [where s = "tick s" and Q = ?Q]
  have over: "overdue (p, getWf env s (s_workflowId p)) \<and> ?Q p \<longleftrightarrow> stuck env p s" for p
    by (cases "getWf env s (s_workflowId p)") (auto simp: stuck_def)
  have doom: "(\<exists>x \<in> set ?l. dooms x i) \<longleftrightarrow>
      (\<exists>j p. getSt env s j = Some p \<and> stuck env p s \<and> s_workflowId p = i \<and> s_maxRetries p \<le> Suc (s_retryCount p))" for i
  proof -
    have "(\<exists>x \<in> set ?l. dooms x i) \<longleftrightarrow>
        (\<exists>p wo. (p, wo) \<in> set ?l \<and> dooms (p, wo) i)" by auto
    also have "\<dots> \<longleftrightarrow> (\<exists>p. getSt env s (s_id p) = Some p \<and> ?Q p \<and> dooms (p, getWf env s (s_workflowId p)) i)"
      unfolding pairs(2) by simp
    also have "\<dots> \<longleftrightarrow> (\<exists>p. getSt env s (s_id p) = Some p \<and> stuck env p s \<and> s_workflowId p = i \<and> s_maxRetries p \<le> Suc (s_retryCount p))"
    proof -
      have "?Q p \<and> dooms (p, getWf env s (s_workflowId p)) i \<longleftrightarrow>
          stuck env p s \<and> s_workflowId p = i \<and> s_maxRetries p \<le> Suc (s_retryCount p)" for p
        using getWf_id [of "s_workflowId p" s]
        by (cases "getWf env s (s_workflowId p)") (auto simp: stuck_def)
      then show ?thesis by metis
    qed
    finally show ?thesis unfolding ex_row .
  qed
  have steps: "if stuck env p s then \<exists>q. getSt env s' i = Some q \<and> failedFrom p q else getSt env s' i = Some p"
    if g: "getSt env s i = Some p" for i p
  proof -
    have i: "s_id p = i" using g by (rule getSt_id)
    show ?thesis
    proof (cases "?Q p")
      case True
      then have "(p, getWf env s (s_workflowId p)) \<in> set ?l" using g i unfolding pairs(2) by simp
      from stuck_loop_steps [OF pairs(1) this, of "tick s"] show ?thesis
        using over [of p] True g i by (auto simp: s' split: if_splits)
    next
      case False
      then have "\<not> stuck env p s" using over [of p] by blast
      moreover have out: "i \<notin> s_id ` fst ` set ?l"
      proof
        assume "i \<in> s_id ` fst ` set ?l"
        then obtain x where x: "x \<in> set ?l" "s_id (fst x) = i" by blast
        from x(1) have "(fst x, snd x) \<in> set ?l" by (simp only: prod.collapse)
        then show False using g False x(2) unfolding pairs(2) by simp
      qed
      moreover have "getSt env s' i = Some p" unfolding s' stuck_loop_out [OF out] using g by simp
      ultimately show ?thesis by simp
    qed
  qed
  show ?thesis
  proof (intro conjI allI)
    show "calls s' = calls s" "rstore s' = rstore s" using stuck_loop_frame [of ?l "tick s"] by (simp_all add: s')
    show "getSt env s i = Some p \<longrightarrow>
        (if stuck env p s then \<exists>q. getSt env s' i = Some q \<and> failedFrom p q else getSt env s' i = Some p)" for i p
      using steps by blast
    show "if \<exists>j p. getSt env s j = Some p \<and> stuck env p s \<and> s_workflowId p = i \<and> s_maxRetries p \<le> Suc (s_retryCount p)
          then \<exists>w. getWf env s' i = Some w \<and> w_state w = FAILED else getWf env s' i = getWf env s i" for i
      unfolding doom [symmetric]
      using stuck_loop_doomed [of ?l i "tick s"] stuck_loop_keep [of ?l i "tick s"] by (auto simp: s')
  qed
qed

end




end
