(* ===== verification/Workflow_Service.thy ===== *)
theory Workflow_Service
  imports Execution_Start Recovery
begin

text \<open>
  The facade of the workflow engine, \<^verbatim>\<open>workflow/services/workflow.service.ts\<close>: queries, paging, the
  clean-up of old rows and the retry queue. The step relation \<open>engine_step\<close> is every call that changes
  the engine's state; the invariant of all its runs relates a workflow row's state to its dates,
  reason and flags.
\<close>

section \<open>Queries\<close>

definition getWorkflow ::
    "('wt, 'st, 'r) wfenv \<Rightarrow> string \<Rightarrow> ('wt, 'st, 'r) world \<Rightarrow> (Workflow \<times> WorkflowStep list) option" where
  "getWorkflow env i s =
     (case rFindOne (wfRepo env) (\<lambda>w. w_id w = i) (wfTab s) of
        None \<Rightarrow> None | Some w \<Rightarrow> Some (w, stepsOf env i s))"

text \<open>
  \<^verbatim>\<open>findAndCount\<close> with \<^verbatim>\<open>skip\<close> and \<^verbatim>\<open>take\<close>, newest first. The database rejects a negative offset;
  a \<^verbatim>\<open>take\<close> of zero is no limit.
\<close>

definition findPage ::
    "('wt, 'st, 'r) wfenv \<Rightarrow> (Workflow \<Rightarrow> bool) \<Rightarrow> int \<Rightarrow> nat \<Rightarrow> ('wt, 'st, 'r) world \<Rightarrow> js_error + Workflow list \<times> nat" where
  "findPage env P page limit s =
     (let skip = (page - 1) * int limit;
          rows = rFindOrd (wfRepo env) P (\<lambda>a b. w_createdAt b \<le> w_createdAt a) (wfTab s);
          rest = drop (nat skip) rows
      in if skip < 0 then Inl (Error ''OFFSET must not be negative'')
         else Inr (if limit = 0 then rest else take limit rest, rCount (wfRepo env) P (wfTab s)))"

definition getUserWorkflows ::
    "('wt, 'st, 'r) wfenv \<Rightarrow> string \<Rightarrow> int \<Rightarrow> nat \<Rightarrow> ('wt, 'st, 'r) world \<Rightarrow> js_error + Workflow list \<times> nat" where
  "getUserWorkflows env userId page limit s = findPage env (\<lambda>w. w_userId w = Some userId) page limit s"

definition getWalletWorkflows ::
    "('wt, 'st, 'r) wfenv \<Rightarrow> string \<Rightarrow> int \<Rightarrow> nat \<Rightarrow> ('wt, 'st, 'r) world \<Rightarrow> js_error + Workflow list \<times> nat" where
  "getWalletWorkflows env walletAddress page limit s =
     findPage env (\<lambda>w. w_walletAddress w = Some walletAddress) page limit s"

definition getWorkflowsByState ::
    "('wt, 'st, 'r) wfenv \<Rightarrow> WorkflowState \<Rightarrow> int \<Rightarrow> nat \<Rightarrow> ('wt, 'st, 'r) world \<Rightarrow> js_error + Workflow list \<times> nat" where
  "getWorkflowsByState env state page limit s = findPage env (\<lambda>w. w_state w = state) page limit s"

text \<open>A date column in an \<^verbatim>\<open>ORDER BY\<close>: missing dates sort as the largest.\<close>

definition dateLe :: "date option \<Rightarrow> date option \<Rightarrow> bool" where
  "dateLe a b = (case (a, b) of (_, None) \<Rightarrow> True | (None, Some _) \<Rightarrow> False | (Some x, Some y) \<Rightarrow> x \<le> y)"

definition dateBefore :: "date option \<Rightarrow> date \<Rightarrow> bool" where
  "dateBefore a t = (case a of None \<Rightarrow> False | Some x \<Rightarrow> x < t)"

definition getRetryableWorkflows :: "('wt, 'st, 'r) wfenv \<Rightarrow> ('wt, 'st, 'r) world \<Rightarrow> Workflow list" where
  "getRetryableWorkflows env s =
     rFindOrd (wfRepo env) (\<lambda>w. w_state w = FAILED \<and> w_retryCount w = 0)
       (\<lambda>a b. dateLe (w_failedAt b) (w_failedAt a)) (wfTab s)"

definition getCompensableWorkflows :: "('wt, 'st, 'r) wfenv \<Rightarrow> ('wt, 'st, 'r) world \<Rightarrow> Workflow list" where
  "getCompensableWorkflows env s =
     rFindOrd (wfRepo env)
       (\<lambda>w. w_requiresCompensation w \<and> \<not> w_isCompensated w \<and> w_state w \<in> {COMPLETED, FAILED, CANCELLED})
       (\<lambda>a b. w_createdAt b \<le> w_createdAt a) (wfTab s)"

section \<open>Clean-up and retry queue\<close>

definition cleanupOldWorkflows ::
    "('wt, 'st, 'r) wfenv \<Rightarrow> int \<Rightarrow> ('wt, 'st, 'r) world \<Rightarrow> nat \<times> ('wt, 'st, 'r) world" where
  "cleanupOldWorkflows env daysOld s =
     (let cutoffDate = nowOf env s - daysOld * 86400000; s1 = tick s;
          old = (\<lambda>w. w_state w \<in> {COMPLETED, COMPENSATED} \<and> dateBefore (w_completedAt w) cutoffDate)
      in (rCount (wfRepo env) old (wfTab s1), s1\<lparr>wfTab := rDelete (wfRepo env) old (wfTab s1)\<rparr>))"

definition getWorkflowsNeedingRetry ::
    "('wt, 'st, 'r) wfenv \<Rightarrow> ('wt, 'st, 'r) world \<Rightarrow> Workflow list \<times> ('wt, 'st, 'r) world" where
  "getWorkflowsNeedingRetry env s =
     (rFindOrd (wfRepo env)
        (\<lambda>w. w_state w = FAILED \<and> w_retryCount w = 0 \<and> dateBefore (w_nextRetryAt w) (nowOf env s))
        (\<lambda>a b. dateLe (w_nextRetryAt a) (w_nextRetryAt b)) (wfTab s), tick s)"

definition processRetryQueue ::
    "('wt, 'st, 'r) wfenv \<Rightarrow> ('wt, 'st, 'r) world \<Rightarrow> nat \<times> ('wt, 'st, 'r) world" where
  "processRetryQueue env s =
     (case getWorkflowsNeedingRetry env s of (workflowsToRetry, s1) \<Rightarrow>
        (length workflowsToRetry,
         forEachLogged (\<lambda>w. retryWorkflow env (w_id w)) workflowsToRetry s1))"

section \<open>Paging\<close>

lemma pages_concat:
  "concat (map (\<lambda>k. take n (drop (k * n) xs)) [0..<m]) = take (m * n) xs"
proof (induction m)
  case (Suc m)
  have "take (m * n + n) xs = take (m * n) xs @ take n (drop (m * n) xs)" by (rule take_add)
  with Suc show ?case by (simp add: add.commute)
qed simp

text \<open>
  Paging loses and repeats nothing: the first \<open>m\<close> pages of a positive size, one after the other, are
  the first \<open>m\<close> times \<open>limit\<close> rows of the query, newest first; every page reports the total; and once
  the pages cover the total they are all rows of the query, each once.
\<close>

theorem pages_cover:
  assumes "wf_tables env" and "0 < limit"
  shows "\<exists>pages. (\<forall>k < m. findPage env P (int k + 1) limit s = Inr (pages k, rCount (wfRepo env) P (wfTab s))) \<and>
     concat (map pages [0..<m]) =
       take (m * limit) (rFindOrd (wfRepo env) P (\<lambda>a b. w_createdAt b \<le> w_createdAt a) (wfTab s)) \<and>
     sorted_wrt (\<lambda>a b. w_createdAt b \<le> w_createdAt a) (concat (map pages [0..<m])) \<and>
     (rCount (wfRepo env) P (wfTab s) \<le> m * limit \<longrightarrow>
        set (concat (map pages [0..<m])) = {w. getWf env s (w_id w) = Some w \<and> P w} \<and>
        distinct (map w_id (concat (map pages [0..<m]))))"
proof -
  have W: "repository (wfRepo env) w_id" using assms(1) by (simp add: wf_tables_def)
  let ?le = "\<lambda>a b. w_createdAt b \<le> w_createdAt a"
  let ?rows = "rFindOrd (wfRepo env) P ?le (wfTab s)"
  let ?p = "\<lambda>k. take limit (drop (k * limit) ?rows)"
  have page: "findPage env P (int k + 1) limit s = Inr (?p k, rCount (wfRepo env) P (wfTab s))" for k
  proof -
    have "\<not> int k * int limit < 0" by (simp add: not_less)
    then show ?thesis using assms(2) by (simp add: findPage_def Let_def nat_mult_distrib)
  qed
  have cat: "concat (map ?p [0..<m]) = take (m * limit) ?rows" by (rule pages_concat)
  have sorted: "sorted_wrt ?le (take (m * limit) ?rows)"
    by (intro sorted_wrt_take repository.findOrd_sorted [OF W] total_preorder_key_desc)
  have "rCount (wfRepo env) P (wfTab s) = length ?rows"
    using repository.count_find [OF W] repository.findOrd_mset [OF W] by (metis size_mset)
  then have all: "rCount (wfRepo env) P (wfTab s) \<le> m * limit \<Longrightarrow> take (m * limit) ?rows = ?rows" by simp
  have rows: "set ?rows = {w. getWf env s (w_id w) = Some w \<and> P w}" "distinct (map w_id ?rows)"
    using repository.findOrd_set [OF W] repository.find_iff [OF W] repository.findOrd_distinct [OF W] by auto
  show ?thesis
  proof (intro exI [of _ ?p] conjI allI impI)
    show "sorted_wrt ?le (concat (map ?p [0..<m]))" unfolding cat by (rule sorted)
    assume "rCount (wfRepo env) P (wfTab s) \<le> m * limit"
    then show "set (concat (map ?p [0..<m])) = {w. getWf env s (w_id w) = Some w \<and> P w}"
      "distinct (map w_id (concat (map ?p [0..<m])))"
      unfolding cat using all rows by simp_all
  qed (rule page, rule cat)
qed

theorem pages_cover_witness:
  "\<exists>pages. (\<forall>k < 2. findPage (memEnv int (\<lambda>_. None)) (\<lambda>_. True) (int k + 1) 1 (memWorld [sampleWorkflow RUNNING] []) =
      Inr (pages k, 1))"
proof -
  let ?env = "memEnv int (\<lambda>_. None)" and ?s = "memWorld [sampleWorkflow RUNNING] []"
  have "rCount (wfRepo ?env) (\<lambda>_. True) (wfTab ?s) = 1" by (simp add: run_simps)
  then show ?thesis
    using pages_cover [OF memt.wf_tables_axioms, of 1 2 int "\<lambda>_. None" "\<lambda>_. True" ?s] by (simp only:) auto
qed


section \<open>The engine as a transition system\<close>

text \<open>
  Every call that changes the engine's tables, and changes of the Redis store by other clients and by
  the passage of time. Calls are taken one after the other.
\<close>

inductive engine_step ::
    "('wt, 'st, 'r) wfenv \<Rightarrow> ('wt, 'st, 'r) world \<Rightarrow> ('wt, 'st, 'r) world \<Rightarrow> bool" for env where
  start: "startWorkflow env newId stepIds token obs ty input userId wallet ctx s = Some (r, s') \<Longrightarrow> engine_step env s s'"
| retry: "engine_step env s (snd (retryWorkflow env i s))"
| cancel: "engine_step env s (snd (cancelWorkflow env i s))"
| compensate: "engine_step env s (snd (compensateWorkflow env i s))"
| forceCompensate: "engine_step env s (snd (forceCompensateWorkflow env i s))"
| orphans: "engine_step env s (recoverOrphanedWorkflows env s)"
| stuckSteps: "engine_step env s (recoverStuckSteps env s)"
| cleanup: "engine_step env s (snd (cleanupOldWorkflows env daysOld s))"
| retryQueue: "engine_step env s (snd (processRetryQueue env s))"
| redis: "engine_step env s (s\<lparr>rstore := r'\<rparr>)"

text \<open>What the state of a workflow row says about its other columns.\<close>

definition rowOk :: "Workflow \<Rightarrow> bool" where
  "rowOk w \<longleftrightarrow>
     (w_state w \<in> {RUNNING, COMPLETED} \<longrightarrow> w_startedAt w \<noteq> None) \<and>
     (w_state w \<in> {COMPLETED, CANCELLED} \<longrightarrow> w_completedAt w \<noteq> None) \<and>
     (w_state w = FAILED \<longrightarrow> w_failureReason w \<noteq> None) \<and>
     (w_state w \<in> {COMPENSATING, COMPENSATED} \<longrightarrow> w_requiresCompensation w) \<and>
     (w_state w = COMPENSATED \<longrightarrow> w_isCompensated w) \<and>
     w_nextRetryAt w = None"

definition rowsOk :: "('wt, 'st, 'r) wfenv \<Rightarrow> ('wt, 'st, 'r) world \<Rightarrow> bool" where
  "rowsOk env s \<longleftrightarrow> (\<forall>i w. getWf env s i = Some w \<longrightarrow> rowOk w)"

lemma rowOk_updatedAt [simp]: "rowOk (w\<lparr>w_updatedAt := t\<rparr>) = rowOk w"
  and rowOk_atStep [simp]: "rowOk (atStep w k) = rowOk w"
  by (simp_all add: rowOk_def atStep_def)

lemma rowsOk_frame: "wfTab s' = wfTab s \<Longrightarrow> rowsOk env s' = rowsOk env s"
  by (simp add: rowsOk_def)

lemma rowsOk_tick [simp]: "rowsOk env (tick s) = rowsOk env s"
  by (rule rowsOk_frame) simp

lemma acquire_wfTab: "wfTab (snd (acquireWorkflowLock env k t n s)) = wfTab s"
  by (simp add: acquireWorkflowLock_def split: prod.splits)

lemma release_wfTab: "wfTab (releaseWorkflowLock env k t s) = wfTab s"
  by (simp add: releaseWorkflowLock_def)

context wf_tables
begin

lemma rowsOk_save: "rowsOk env s \<Longrightarrow> rowOk w \<Longrightarrow> rowsOk env (saveWorkflow env w s)"
  by (simp add: rowsOk_def getWf_saveWorkflow)

lemma rowsOk_get: "rowsOk env s \<Longrightarrow> rFindOne (wfRepo env) (\<lambda>w. w_id w = i) (wfTab s) = Some w \<Longrightarrow> rowOk w"
  unfolding rowsOk_def by (metis rGet_def)

lemma rowsOk_loop:
  assumes "rowsOk env s" and "rowOk w" and "w_state w = RUNNING"
    and "executeStepsLoop env def ps w s = (r, w', s')"
  shows "rowsOk env s' \<and> rowOk w'"
  using assms
proof (induction ps arbitrary: w s)
  case (Cons p ps)
  let ?w = "atStep w (s_stepIndex p)"
  let ?s1 = "saveWorkflow env ?w s"
  obtain r1 s2 where run: "executeStep env ?w p (nthOpt (d_steps def) (s_stepIndex p)) (d_timeout def) ?s1 = (r1, s2)"
    by (metis surj_pair)
  have g: "getWf env ?s1 (w_id ?w) = Some (?w\<lparr>w_updatedAt := nowOf env s\<rparr>)" by (simp add: getWf_saveWorkflow)
  have "stepEffect env p ?s1 r1 s2" using Cons.prems by (intro executeStep_effect [OF run g]) simp
  then have "wfTab s2 = wfTab ?s1" by (simp add: stepEffect_def)
  then have ok: "rowsOk env s2" using Cons.prems rowsOk_save [of s ?w] rowsOk_frame by (metis rowOk_atStep)
  show ?case
  proof (cases r1)
    case (Inl e)
    then show ?thesis using Cons.prems run ok by (auto simp: atStep_upd Let_def)
  next
    case (Inr u)
    then have "executeStepsLoop env def ps ?w s2 = (r, w', s')"
      using Cons.prems(4) run by (simp add: atStep_upd Let_def)
    from Cons.IH [OF ok _ _ this] Cons.prems show ?thesis by simp
  qed
qed simp

lemma rowsOk_execute:
  assumes "rowsOk env s" and "w_nextRetryAt w = None"
  shows "rowsOk env (snd (executeWorkflow env w s))"
proof (cases "workflowDefinitions env (w_type w)")
  case None
  then show ?thesis using assms by (simp add: executeWorkflow_def)
next
  case (Some def)
  show ?thesis
  proof (cases "transitionWorkflow (w_state w) RUNNING")
    case (Some err)
    then show ?thesis using assms \<open>workflowDefinitions env (w_type w) = Some def\<close>
      by (simp add: executeWorkflow_def)
  next
    case None
    let ?w1 = "w\<lparr>w_state := RUNNING, w_startedAt := Some (nowOf env s)\<rparr>"
    let ?s1 = "saveWorkflow env ?w1 (tick s)"
    obtain r w2 s2 where run: "executeSteps env ?w1 def ?s1 = (r, w2, s2)" by (metis prod_cases3)
    have w1: "rowOk ?w1" using assms(2) by (simp add: rowOk_def)
    have "rowsOk env ?s1" using assms(1) w1 by (intro rowsOk_save) simp_all
    from rowsOk_loop [OF this w1 _ run [unfolded executeSteps_def]]
    have s2: "rowsOk env s2" and w2: "rowOk w2" by simp_all
    have loop: "w_startedAt w2 \<noteq> None \<and> w_nextRetryAt w2 = None"
    proof -
      have "loopEffect env ?w1 (stepRows env (w_id ?w1) ?s1) ?s1 (r, w2, s2)"
        using executeStepsLoop_effect [of "stepRows env (w_id ?w1) ?s1" ?w1 ?s1 def] S.findOrd_distinct run
        by (simp add: executeSteps_def stepRows_def)
      then show ?thesis using assms(2) by (auto simp: loopEffect_def atStep_def)
    qed
    have done1: "rowsOk env (saveWorkflow env (w2\<lparr>w_state := COMPLETED, w_completedAt := Some (nowOf env s2)\<rparr>) (tick s2))"
      using s2 w2 loop by (intro rowsOk_save) (simp_all add: rowOk_def)
    have fail1: "rowsOk env (saveWorkflow env (w2\<lparr>w_state := FAILED, w_failedAt := Some (nowOf env s2),
        w_failureReason := Some m\<rparr>) (tick s2))" for m
      using s2 w2 loop by (intro rowsOk_save) (simp_all add: rowOk_def)
    show ?thesis using Some None run s2 done1 fail1
      by (auto simp: executeWorkflow_def Let_def split: sum.splits)
  qed
qed


lemma rowsOk_saveStep [simp]: "rowsOk env (saveStep env p s) = rowsOk env s"
  by (rule rowsOk_frame) simp

lemma rowsOk_retry:
  assumes "rowsOk env s"
  shows "rowsOk env (snd (retryWorkflow env i s))"
proof (cases "rFindOne (wfRepo env) (\<lambda>w. w_id w = i) (wfTab s)")
  case None
  then show ?thesis using assms by (simp add: retryWorkflow_def)
next
  case (Some w)
  have w: "rowOk w" using rowsOk_get [OF assms Some] .
  let ?w1 = "w\<lparr>w_state := RUNNING, w_retryCount := Suc (w_retryCount w),
      w_startedAt := Some (nowOf env s)\<rparr>"
  let ?s1 = "saveWorkflow env ?w1 (tick s)"
  have s1: "rowsOk env ?s1" using assms w by (intro rowsOk_save) (simp_all add: rowOk_def)
  have n: "w_nextRetryAt ?w1 = None" using w by (simp add: rowOk_def)
  have "rowsOk env (snd (executeWorkflow env ?w1 (case find (\<lambda>p. s_state p = SFAILED) ps of
      None \<Rightarrow> ?s1 | Some f \<Rightarrow> saveStep env (f\<lparr>s_state := SPENDING\<rparr>) ?s1)))" for ps
    by (rule rowsOk_execute [OF _ n]) (use s1 in \<open>simp split: option.splits\<close>)
  then show ?thesis using Some assms by (simp add: retryWorkflow_def Let_def)
qed

lemma rowsOk_cancel:
  assumes "rowsOk env s"
  shows "rowsOk env (snd (cancelWorkflow env i s))"
proof (cases "rFindOne (wfRepo env) (\<lambda>w. w_id w = i) (wfTab s)")
  case None
  then show ?thesis using assms by (simp add: cancelWorkflow_def)
next
  case (Some w)
  have "rowOk w" using rowsOk_get [OF assms Some] .
  then have "rowsOk env (saveWorkflow env (w\<lparr>w_state := CANCELLED, w_completedAt := Some (nowOf env s)\<rparr>) (tick s))"
    using assms by (intro rowsOk_save) (simp_all add: rowOk_def)
  then show ?thesis using Some assms by (simp add: cancelWorkflow_def split: option.splits)
qed

lemma rowsOk_rollAll [simp]: "rowsOk env (rollAll env ps s) = rowsOk env s"
  by (rule rowsOk_frame) simp

lemma rowsOk_compensate:
  assumes "rowsOk env s"
  shows "rowsOk env (snd (compensateWorkflow env i s))"
proof (cases "getWf env s i")
  case None
  then show ?thesis using assms by (simp add: compensateWorkflow_def rGet_def)
next
  case (Some w)
  have w: "rowOk w" using assms Some by (simp add: rowsOk_def)
  show ?thesis
  proof (cases "canWorkflowCompensate (w_state w)")
    case False
    then show ?thesis using compensateWorkflow_refused [OF Some] assms by simp
  next
    case True
    let ?w1 = "w\<lparr>w_state := COMPENSATING, w_requiresCompensation := True\<rparr>"
    have "rowsOk env (saveWorkflow env ?w1 s)" using assms w by (intro rowsOk_save) (simp_all add: rowOk_def)
    then show ?thesis unfolding compensateWorkflow_eq [OF Some True] snd_conv using w
      by (intro rowsOk_save) (simp_all add: rowOk_def)
  qed
qed

lemma rowsOk_force:
  assumes "rowsOk env s"
  shows "rowsOk env (snd (forceCompensateWorkflow env i s))"
proof (cases "rFindOne (wfRepo env) (\<lambda>w. w_id w = i) (wfTab s)")
  case None
  then show ?thesis using assms by (simp add: forceCompensateWorkflow_def)
next
  case (Some w)
  have w: "rowOk w" using rowsOk_get [OF assms Some] .
  let ?w1 = "w\<lparr>w_state := COMPENSATING, w_requiresCompensation := True\<rparr>"
  let ?s2 = "rollAll env (compensableSteps (stepsOf env i s)) (saveWorkflow env ?w1 s)"
  have s2: "rowsOk env ?s2" using assms w by (simp add: rowsOk_save rowOk_def)
  have "rowsOk env (saveWorkflow env (?w1\<lparr>w_state := COMPENSATED, w_isCompensated := True\<rparr>) ?s2)"
    by (rule rowsOk_save [OF s2]) (use w in \<open>simp add: rowOk_def\<close>)
  then show ?thesis using Some by (simp add: forceCompensateWorkflow_def Let_def forEach_rollAll)
qed

lemma rowsOk_orphans:
  assumes "rowsOk env s"
  shows "rowsOk env (recoverOrphanedWorkflows env s)"
  unfolding recoverOrphanedWorkflows_def
proof (rule forEachLogged_inv [where I = "rowsOk env", OF assms])
  fix x s'
  assume x: "x \<in> set (map (\<lambda>w. (w, stepsOf env (w_id w) s)) (rFind (wfRepo env) (\<lambda>w. w_state w = RUNNING) (wfTab s)))"
    and s': "rowsOk env s'"
  obtain w ps where wp: "x = (w, ps)" by (cases x)
  have run: "w_state w = RUNNING" and "getWf env s (w_id w) = Some w" using x wp W.find_iff by auto
  then have "rowOk w" using assms by (simp add: rowsOk_def)
  then show "rowsOk env (snd (recoverWorkflow env x s'))"
    unfolding wp recoverWorkflow_cases [OF run] using s' by (simp add: rowsOk_save rowOk_def)
qed

lemma rowsOk_stuck_one:
  assumes "rowsOk env s" and "\<And>w. snd x = Some w \<Longrightarrow> rowOk w"
  shows "rowsOk env (snd (recoverStuckStep env x s))"
proof -
  obtain p wo where x: "x = (p, wo)" by (cases x)
  show ?thesis
  proof (cases wo)
    case None
    then show ?thesis using assms x by (simp add: recoverStuckStep_def)
  next
    case (Some w)
    have w: "rowOk w" using assms(2) [of w] x Some by simp
    have d: "rowsOk env (s1\<lparr>draws := n\<rparr>) = rowsOk env s1" for s1 :: "('wt, 'st, 'r) world" and n
      by (rule rowsOk_frame) simp
    have "rowsOk env (saveWorkflow env (w\<lparr>w_state := FAILED, w_failedAt := Some t, w_failureReason := Some m\<rparr>) (tick (tick s)))" for t m
      using assms(1) w by (intro rowsOk_save) (simp_all add: rowOk_def)
    then show ?thesis using assms(1) d unfolding x Some recoverStuckStep_def by (simp add: Let_def)
  qed
qed

lemma rowsOk_stuck:
  assumes "rowsOk env s"
  shows "rowsOk env (recoverStuckSteps env s)"
proof -
  have "rowsOk env (forEachLogged (recoverStuckStep env)
      (map (\<lambda>p. (p, rFindOne (wfRepo env) (\<lambda>w. w_id w = s_workflowId p) (wfTab (tick s)))) qs) (tick s))" for qs
  proof (rule forEachLogged_inv)
    show "rowsOk env (tick s)" using assms by simp
    fix x s'
    assume x: "x \<in> set (map (\<lambda>p. (p, rFindOne (wfRepo env) (\<lambda>w. w_id w = s_workflowId p) (wfTab (tick s)))) qs)"
      and s': "rowsOk env s'"
    have "rowOk w" if "snd x = Some w" for w
      using x that rowsOk_get [OF assms, of "s_workflowId (fst x)" w] by auto
    then show "rowsOk env (snd (recoverStuckStep env x s'))" by (rule rowsOk_stuck_one [OF s'])
  qed
  then show ?thesis by (simp add: recoverStuckSteps_def Let_def)
qed

lemma rowsOk_cleanup: "rowsOk env s \<Longrightarrow> rowsOk env (snd (cleanupOldWorkflows env d s))"
  by (auto simp: rowsOk_def cleanupOldWorkflows_def Let_def W.get_delete split: option.splits if_splits)

lemma rowsOk_queue:
  assumes "rowsOk env s"
  shows "rowsOk env (snd (processRetryQueue env s))"
proof -
  have "rowsOk env (forEachLogged (\<lambda>w. retryWorkflow env (w_id w)) ws (tick s))" for ws
    by (rule forEachLogged_inv [where I = "rowsOk env"]) (simp_all add: assms rowsOk_retry)
  then show ?thesis by (simp add: processRetryQueue_def getWorkflowsNeedingRetry_def)
qed

lemma fold_saveStep_rows: "rowsOk env (fold (saveStep env) ps s) = rowsOk env s"
  by (rule rowsOk_frame) simp

lemma rowsOk_start:
  assumes "rowsOk env s"
    and "startWorkflow env newId stepIds token obs ty input userId wallet ctx s = Some (r, s')"
  shows "rowsOk env s'"
proof -
  let ?key = "startKey env ty input userId ctx s"
  obtain b s1 where acq: "acquireWorkflowLock env (getWorkflowLockKey ?key) token 3600 (tick s) = (b, s1)"
    by (metis surj_pair)
  have "wfTab s1 = wfTab s" using acquire_wfTab [of env "getWorkflowLockKey ?key" token 3600 "tick s"] acq by simp
  then have s1: "rowsOk env s1" using assms(1) rowsOk_frame by blast
  have new: "rowsOk env (snd (executeWorkflow env w (fold (saveStep env) ps (saveWorkflow env w s1))))"
    if "w = newWorkflow def newId ?key ty input userId wallet ctx t" for w def t ps
    using that s1 by (intro rowsOk_execute) (simp_all add: fold_saveStep_rows rowsOk_save rowOk_def newWorkflow_def)
  have rel: "rowsOk env (releaseWorkflowLock env k t x) = rowsOk env x" for k t x
    by (rule rowsOk_frame) (rule release_wfTab)
  show ?thesis
  proof (cases "workflowDefinitions env ty")
    case None
    then show ?thesis using assms by (simp add: startWorkflow_def)
  next
    case def: (Some def)
    show ?thesis
    proof (cases "rFindOne (wfRepo env) (\<lambda>w. w_idempotencyKey w = ?key) (wfTab s)")
      case (Some w)
      then show ?thesis using assms startWorkflow_existing [OF def Some] by auto
    next
      case None
      note eq = assms(2) [unfolded startWorkflow_def def option.case Let_def startKey_def [symmetric]]
      show ?thesis
      proof (cases b)
        case False
        then have "s' = s1" using eq None acq by (auto split: option.splits)
        then show ?thesis using s1 by simp
      next
        case True
        let ?w = "newWorkflow def newId ?key ty input userId wallet ctx (nowOf env s1)"
        let ?s2 = "saveWorkflow env ?w s1"
        let ?ps = "map (\<lambda>(i, sd). newStep newId (stepIds i) i sd (nowOf env ?s2)) (enumerate 0 (d_steps def))"
        let ?x = "executeWorkflow env ?w (fold (saveStep env) ?ps ?s2)"
        obtain r4 s4 where run: "?x = (r4, s4)" by (cases ?x)
        have "rowsOk env s4" using new [OF refl, of def "nowOf env s1" ?ps] run by simp
        moreover have "s' = releaseWorkflowLock env (getWorkflowLockKey ?key) token s4"
          using eq None acq True run by (cases r4) simp_all
        ultimately show ?thesis by (simp add: rel)
      qed
    qed
  qed
qed

end


text \<open>
  C12. The invariant of the workflow table. In every world that the engine's calls reach from a world with
  well-formed rows (in particular from the empty one) a running or completed workflow has a start date,
  a completed or cancelled one a completion date, a failed one a reason, and a compensated one carries
  both compensation flags. No call ever sets \<^verbatim>\<open>nextRetryAt\<close> of a workflow, so the retry queue is always
  empty and processing it does nothing but read the clock.
\<close>

theorem engine_rows_ok:
  assumes "wf_tables env" and "(engine_step env)\<^sup>*\<^sup>* s s'" and "rowsOk env s"
  shows "rowsOk env s' \<and> processRetryQueue env s' = (0, tick s')"
proof -
  have step: "rowsOk env v" if "engine_step env u v" "rowsOk env u" for u v
    using that
  proof cases
    case start
    then show ?thesis using wf_tables.rowsOk_start [OF assms(1) that(2)] by blast
  next
    case redis
    then show ?thesis using that(2) rowsOk_frame [of v u env] by simp
  qed (use that(2) in \<open>simp_all add: wf_tables.rowsOk_retry [OF assms(1)] wf_tables.rowsOk_cancel [OF assms(1)]
        wf_tables.rowsOk_compensate [OF assms(1)] wf_tables.rowsOk_force [OF assms(1)]
        wf_tables.rowsOk_orphans [OF assms(1)] wf_tables.rowsOk_stuck [OF assms(1)]
        wf_tables.rowsOk_cleanup [OF assms(1)] wf_tables.rowsOk_queue [OF assms(1)]\<close>)
  have ok: "rowsOk env s'" using assms(2,3) by (induction rule: rtranclp_induct) (auto intro: step)
  have W: "repository (wfRepo env) w_id" using assms(1) by (simp add: wf_tables_def)
  have "rFindOrd (wfRepo env)
      (\<lambda>w. w_state w = FAILED \<and> w_retryCount w = 0 \<and> dateBefore (w_nextRetryAt w) (nowOf env s')) le (wfTab s') = []" (is "?q = []") for le
  proof -
    have "x \<notin> set ?q" for x
    proof
      assume "x \<in> set ?q"
      then have "getWf env s' (w_id x) = Some x" "dateBefore (w_nextRetryAt x) (nowOf env s')"
        unfolding repository.findOrd_set [OF W] repository.find_iff [OF W] by blast+
      with ok show False by (simp add: rowsOk_def rowOk_def dateBefore_def)
    qed
    then show ?thesis by (metis list.set_intros(1) neq_Nil_conv)
  qed
  then have "processRetryQueue env s' = (0, tick s')"
    by (simp add: processRetryQueue_def getWorkflowsNeedingRetry_def)
  with ok show ?thesis by blast
qed

theorem engine_rows_ok_witness:
  "let env = memEnv int (\<lambda>_. None); s = memWorld [sampleWorkflow PENDING] [] in
   rowsOk env (snd (cancelWorkflow env ''w1'' s)) \<and>
   fst (processRetryQueue env (snd (cancelWorkflow env ''w1'' s))) = 0"
proof -
  let ?env = "memEnv int (\<lambda>_. None)" and ?s = "memWorld [sampleWorkflow PENDING] []"
  have ok: "rowsOk ?env ?s"
    by (auto simp: rowsOk_def rowOk_def run_simps split: if_splits list.splits)
  have "(engine_step ?env)\<^sup>*\<^sup>* ?s (snd (cancelWorkflow ?env ''w1'' ?s))"
    by (intro r_into_rtranclp engine_step.cancel)
  from engine_rows_ok [OF memt.wf_tables_axioms this ok] show ?thesis by (simp add: Let_def)
qed

text \<open>
  The clean-up deletes exactly the completed or compensated workflows whose completion date lies
  before the cutoff, keeps every other row as it was, and returns the number of deleted rows.
\<close>

theorem cleanupOldWorkflows_correct:
  assumes "wf_tables env" and "cleanupOldWorkflows env daysOld s = (n, s')"
  shows "getWf env s' i = (case getWf env s i of None \<Rightarrow> None
           | Some w \<Rightarrow> if w_state w \<in> {COMPLETED, COMPENSATED} \<and>
                (\<exists>t. w_completedAt w = Some t \<and> t < nowOf env s - daysOld * 86400000)
              then None else Some w) \<and>
     n = card {w. getWf env s (w_id w) = Some w \<and> w_state w \<in> {COMPLETED, COMPENSATED} \<and>
                (\<exists>t. w_completedAt w = Some t \<and> t < nowOf env s - daysOld * 86400000)} \<and>
     stTab s' = stTab s"
proof -
  have W: "repository (wfRepo env) w_id" using assms(1) by (simp add: wf_tables_def)
  let ?old = "\<lambda>w. w_state w \<in> {COMPLETED, COMPENSATED} \<and> dateBefore (w_completedAt w) (nowOf env s - daysOld * 86400000)"
  have before: "dateBefore d t \<longleftrightarrow> (\<exists>u. d = Some u \<and> u < t)" for d t
    by (auto simp: dateBefore_def split: option.splits)
  have "rCount (wfRepo env) ?old (wfTab s) = card {w. getWf env s (w_id w) = Some w \<and> ?old w}"
    by (rule repository.count_card [OF W])
  moreover have "n = rCount (wfRepo env) ?old (wfTab s)" and "wfTab s' = rDelete (wfRepo env) ?old (wfTab s)"
    and "stTab s' = stTab s"
    using assms(2) by (auto simp: cleanupOldWorkflows_def Let_def)
  ultimately show ?thesis by (simp only: repository.get_delete [OF W] before simp_thms)
qed

theorem cleanupOldWorkflows_correct_witness:
  "let env = memEnv (\<lambda>n. 100 * 86400000) (\<lambda>_. None);
       w = (sampleWorkflow COMPLETED)\<lparr>w_completedAt := Some 5\<rparr>
   in getWf env (snd (cleanupOldWorkflows env 30 (memWorld [w] []))) ''w1'' = None"
proof -
  let ?env = "memEnv (\<lambda>n. 100 * 86400000) (\<lambda>_. None)"
  let ?w = "(sampleWorkflow COMPLETED)\<lparr>w_completedAt := Some 5\<rparr>"
  have g: "getWf ?env (memWorld [?w] []) ''w1'' = Some ?w" by (simp add: run_simps)
  have n: "nowOf ?env (memWorld [?w] []) = 100 * 86400000" by (simp add: nowOf_def memEnv_def)
  show ?thesis unfolding Let_def
    using cleanupOldWorkflows_correct [OF memt.wf_tables_axioms prod.collapse [symmetric],
        of "\<lambda>n. 100 * 86400000" "\<lambda>_. None" "''w1''" 30 "memWorld [?w] []"]
    unfolding g n by (simp add: sampleWorkflow_def)
qed

end
