(* ===== verification/Monitoring.thy ===== *)
theory Monitoring
  imports Complex_Main Execution_Props
begin

text \<open>
  The monitoring service, \<^verbatim>\<open>workflow/services/monitoring.service.ts\<close>: statistics over the rows of a
  time range, the timeline of one workflow and the health of the engine. The service only reads; the
  clock readings it makes are the next ones of the world. Quotients are rational numbers, free of
  rounding. Counters in an object keep the order of their first use.
\<close>

section \<open>Workflow and step metrics\<close>

definition createdIn :: "date \<Rightarrow> date \<Rightarrow> date \<Rightarrow> bool" where
  "createdIn since til t = (since \<le> t \<and> t \<le> til)"

text \<open>The clock as the method reads it: \<open>n\<close> readings after the last one.\<close>

definition laterNow :: "('wt, 'st, 'r) wfenv \<Rightarrow> ('wt, 'st, 'r) world \<Rightarrow> nat \<Rightarrow> date" where
  "laterNow env s n = clockOf env (ticks s + n)"

definition hoursAgo :: "int \<Rightarrow> date \<Rightarrow> date" where
  "hoursAgo h now = now - h * 60 * 60 * 1000"

definition ratio :: "nat \<Rightarrow> nat \<Rightarrow> rat" where
  "ratio a b = (if 0 < b then of_nat a / of_nat b else 0)"

definition percent :: "nat \<Rightarrow> nat \<Rightarrow> rat" where
  "percent a b = (if 0 < b then of_nat a / of_nat b * 100 else 0)"

definition spanOf :: "date option \<Rightarrow> date option \<Rightarrow> int option" where
  "spanOf started completed =
     (case (started, completed) of (Some a, Some b) \<Rightarrow> Some (b - a) | _ \<Rightarrow> None)"

record workflowMetrics =
  wm_totalWorkflows :: nat
  wm_workflowsByState :: "WorkflowState \<Rightarrow> nat"
  wm_averageDuration :: rat
  wm_successRate :: rat
  wm_failureRate :: rat
  wm_retryRate :: rat

definition getWorkflowMetrics ::
    "('wt, 'st, 'r) wfenv \<Rightarrow> int \<Rightarrow> ('wt, 'st, 'r) world \<Rightarrow> workflowMetrics" where
  "getWorkflowMetrics env timeRangeHours s =
     (let since = hoursAgo timeRangeHours (laterNow env s 0);
          workflows = rFind (wfRepo env) (\<lambda>w. createdIn since (laterNow env s 1) (w_createdAt w)) (wfTab s);
          totalWorkflows = length workflows;
          durations = List.map_filter (\<lambda>w. if w_state w = COMPLETED then spanOf (w_startedAt w) (w_completedAt w) else None) workflows;
          completedCount = length durations;
          failedCount = length (filter (\<lambda>w. w_state w = FAILED) workflows);
          retryCount = sum_list (map w_retryCount workflows)
      in \<lparr>wm_totalWorkflows = totalWorkflows,
          wm_workflowsByState = (\<lambda>st. length (filter (\<lambda>w. w_state w = st) workflows)),
          wm_averageDuration = (if 0 < completedCount then of_int (sum_list durations) / of_nat completedCount else 0),
          wm_successRate = percent completedCount totalWorkflows,
          wm_failureRate = percent failedCount totalWorkflows,
          wm_retryRate = ratio retryCount totalWorkflows\<rparr>)"

text \<open>\<^verbatim>\<open>counts[k] = (counts[k] || 0) + 1\<close>\<close>

definition bump :: "string \<Rightarrow> (string \<times> nat) list \<Rightarrow> (string \<times> nat) list" where
  "bump k counts = objSet k ((case map_of counts k of None \<Rightarrow> 0 | Some n \<Rightarrow> n) + 1) counts"

record stepMetrics =
  sm_totalSteps :: nat
  sm_stepsByState :: "StepState \<Rightarrow> nat"
  sm_averageStepDuration :: rat
  sm_stepSuccessRate :: rat
  sm_stepFailureRate :: rat
  sm_mostFailedSteps :: "(string \<times> nat) list"

definition failureCounts :: "WorkflowStep list \<Rightarrow> (string \<times> nat) list" where
  "failureCounts steps = fold (\<lambda>p counts. if s_state p = SFAILED then bump (s_stepName p) counts else counts) steps []"

definition getStepMetrics ::
    "('wt, 'st, 'r) wfenv \<Rightarrow> int \<Rightarrow> ('wt, 'st, 'r) world \<Rightarrow> stepMetrics" where
  "getStepMetrics env timeRangeHours s =
     (let since = hoursAgo timeRangeHours (laterNow env s 0);
          steps = rFind (stRepo env) (\<lambda>p. createdIn since (laterNow env s 1) (s_createdAt p)) (stTab s);
          totalSteps = length steps;
          durations = List.map_filter (\<lambda>p. if s_state p = SCOMPLETED then spanOf (s_startedAt p) (s_completedAt p) else None) steps;
          completedSteps = length durations;
          failedSteps = length (filter (\<lambda>p. s_state p = SFAILED) steps);
          mostFailedSteps = take 5 (sortBy (\<lambda>a b. snd b \<le> snd a) (failureCounts steps))
      in \<lparr>sm_totalSteps = totalSteps,
          sm_stepsByState = (\<lambda>st. length (filter (\<lambda>p. s_state p = st) steps)),
          sm_averageStepDuration = (if 0 < completedSteps then of_int (sum_list durations) / of_nat completedSteps else 0),
          sm_stepSuccessRate = percent completedSteps totalSteps,
          sm_stepFailureRate = percent failedSteps totalSteps,
          sm_mostFailedSteps = mostFailedSteps\<rparr>)"

definition getWorkflowTypeDistribution ::
    "('wt, 'st, 'r) wfenv \<Rightarrow> int \<Rightarrow> ('wt, 'st, 'r) world \<Rightarrow> (string \<times> nat \<times> rat) list" where
  "getWorkflowTypeDistribution env timeRangeHours s =
     (let since = hoursAgo timeRangeHours (laterNow env s 0);
          workflows = rFind (wfRepo env) (\<lambda>w. createdIn since (laterNow env s 1) (w_createdAt w)) (wfTab s);
          typeStats = fold (\<lambda>w stats.
              let (total, completed) = (case map_of stats (w_type w) of None \<Rightarrow> (0, 0) | Some tc \<Rightarrow> tc)
              in objSet (w_type w) (total + 1, if w_state w = COMPLETED then completed + 1 else completed) stats)
            workflows []
      in map (\<lambda>(ty, total, completed). (ty, total, percent completed total)) typeStats)"

section \<open>Timeline\<close>

record timelineEvent =
  te_timestamp :: date
  te_eventType :: string
  te_description :: string
  te_metadata :: "json option"

definition jOpt :: "string option \<Rightarrow> json" where
  "jOpt x = (case x of None \<Rightarrow> JNull | Some t \<Rightarrow> JStr t)"

abbreviation event :: "date \<Rightarrow> string \<Rightarrow> string \<Rightarrow> json option \<Rightarrow> timelineEvent" where
  "event t ty d m \<equiv> \<lparr>te_timestamp = t, te_eventType = ty, te_description = d, te_metadata = m\<rparr>"

definition onDate :: "date option \<Rightarrow> (date \<Rightarrow> timelineEvent) \<Rightarrow> timelineEvent list" where
  "onDate d f = (case d of None \<Rightarrow> [] | Some t \<Rightarrow> [f t])"

definition stepEvents :: "WorkflowStep \<Rightarrow> timelineEvent list" where
  "stepEvents step =
     onDate (s_startedAt step) (\<lambda>t. event t ''STEP_STARTED'' (''Step '' @ [CHR 0x27] @ s_stepName step @ [CHR 0x27] @ '' started'')
       (Some (JObj [(''stepIndex'', JNum (int (s_stepIndex step))), (''retryCount'', JNum (int (s_retryCount step)))]))) @
     onDate (s_completedAt step) (\<lambda>t. event t ''STEP_COMPLETED'' (''Step '' @ [CHR 0x27] @ s_stepName step @ [CHR 0x27] @ '' completed'')
       (Some (JObj [(''duration'', JNum (t - (case s_startedAt step of None \<Rightarrow> t | Some u \<Rightarrow> if u = 0 then t else u))),
                    (''outputKeys'', JArr (case s_output step of
                        None \<Rightarrow> [] | Some out \<Rightarrow> if truthy out then map JStr (objKeys out) else []))]))) @
     onDate (s_failedAt step) (\<lambda>t. event t ''STEP_FAILED'' (''Step '' @ [CHR 0x27] @ s_stepName step @ [CHR 0x27] @ '' failed'')
       (Some (JObj [(''failureReason'', jOpt (s_failureReason step)), (''retryCount'', JNum (int (s_retryCount step)))]))) @
     onDate (s_compensatedAt step) (\<lambda>t. event t ''STEP_COMPENSATED''
       (''Step '' @ [CHR 0x27] @ s_stepName step @ [CHR 0x27] @ '' compensated'') None)"

text \<open>The duration of a completed workflow reads its start date without a check.\<close>

definition completionEvent :: "Workflow \<Rightarrow> js_error + timelineEvent list" where
  "completionEvent w =
     (case w_completedAt w of
        None \<Rightarrow> Inr []
      | Some t \<Rightarrow>
          (case w_startedAt w of
             None \<Rightarrow> Inl (Error ''Cannot read properties of undefined'')
           | Some u \<Rightarrow> Inr [event t ''WORKFLOW_COMPLETED'' ''Workflow completed successfully''
               (Some (JObj [(''totalDuration'', JNum (t - u)), (''totalSteps'', JNum (int (w_totalSteps w))),
                            (''retryCount'', JNum (int (w_retryCount w)))]))]))"

text \<open>The events before sorting; \<open>completed\<close> is the completion event.\<close>

definition timelineEvents :: "Workflow \<Rightarrow> WorkflowStep list \<Rightarrow> timelineEvent list \<Rightarrow> timelineEvent list" where
  "timelineEvents w steps completed =
     event (w_createdAt w) ''WORKFLOW_CREATED'' (''Workflow '' @ w_type w @ '' created'')
       (Some (JObj [(''idempotencyKey'', JStr (w_idempotencyKey w)), (''userId'', jOpt (w_userId w)),
                    (''walletAddress'', jOpt (w_walletAddress w))])) #
     onDate (w_startedAt w) (\<lambda>t. event t ''WORKFLOW_STARTED'' ''Workflow execution started'' None) @
     concat (map stepEvents (sortBy (\<lambda>a b. s_stepIndex a \<le> s_stepIndex b) steps)) @
     completed @
     onDate (w_failedAt w) (\<lambda>t. event t ''WORKFLOW_FAILED'' ''Workflow failed''
        (Some (JObj [(''failureReason'', jOpt (w_failureReason w)),
                     (''currentStep'', JNum (int (w_currentStepIndex w))),
                     (''retryCount'', JNum (int (w_retryCount w)))]))) @
     (if w_isCompensated w
      then [event (case w_completedAt w of Some t \<Rightarrow> t | None \<Rightarrow> w_updatedAt w)
              ''WORKFLOW_COMPENSATED'' ''Workflow compensation completed'' None]
      else [])"

definition getWorkflowTimeline ::
    "('wt, 'st, 'r) wfenv \<Rightarrow> string \<Rightarrow> ('wt, 'st, 'r) world \<Rightarrow> js_error + timelineEvent list" where
  "getWorkflowTimeline env workflowId s =
     (case rFindOne (wfRepo env) (\<lambda>w. w_id w = workflowId) (wfTab s) of
        None \<Rightarrow> Inl (Error (''Workflow not found: '' @ workflowId))
      | Some w \<Rightarrow>
          (case completionEvent w of
             Inl err \<Rightarrow> Inl err
           | Inr completed \<Rightarrow>
               Inr (sortBy (\<lambda>a b. te_timestamp a \<le> te_timestamp b)
                      (timelineEvents w (stepsOf env workflowId s) completed))))"

section \<open>Health\<close>

datatype engineStatus = healthy | degraded | unhealthy

record systemHealth =
  sh_databaseConnection :: bool
  sh_workflowEngineStatus :: engineStatus
  sh_pendingWorkflows :: nat
  sh_runningWorkflows :: nat
  sh_recentFailures :: nat
  sh_averageResponseTime :: rat

definition dateIn :: "date \<Rightarrow> date \<Rightarrow> date option \<Rightarrow> bool" where
  "dateIn a b d = (case d of None \<Rightarrow> False | Some t \<Rightarrow> a \<le> t \<and> t \<le> b)"

text \<open>\<open>dbOk\<close> is the outcome of the query \<^verbatim>\<open>SELECT 1\<close>.\<close>

definition getSystemHealth ::
    "('wt, 'st, 'r) wfenv \<Rightarrow> bool \<Rightarrow> ('wt, 'st, 'r) world \<Rightarrow> systemHealth" where
  "getSystemHealth env dbOk s =
     (let pending = rCount (wfRepo env) (\<lambda>w. w_state w = PENDING) (wfTab s);
          running = rCount (wfRepo env) (\<lambda>w. w_state w = RUNNING) (wfTab s);
          recentFailures = rCount (wfRepo env) (\<lambda>w. w_state w = FAILED \<and>
              dateIn (hoursAgo 1 (laterNow env s 0)) (laterNow env s 1) (w_failedAt w)) (wfTab s);
          recentCompleted = rFind (wfRepo env) (\<lambda>w. w_state w = COMPLETED \<and>
              dateIn (hoursAgo 1 (laterNow env s 2)) (laterNow env s 3) (w_completedAt w)) (wfTab s);
          total = sum_list (map (\<lambda>w. case spanOf (w_startedAt w) (w_completedAt w) of None \<Rightarrow> 0 | Some d \<Rightarrow> d) recentCompleted)
      in \<lparr>sh_databaseConnection = dbOk,
          sh_workflowEngineStatus = (if \<not> dbOk then unhealthy
             else if 10 < recentFailures \<or> 1000 < running then degraded else healthy),
          sh_pendingWorkflows = pending,
          sh_runningWorkflows = running,
          sh_recentFailures = recentFailures,
          sh_averageResponseTime = (if recentCompleted = [] then 0 else of_int total / of_nat (length recentCompleted))\<rparr>)"

section \<open>Properties\<close>

lemma length_map_filter: "length (List.map_filter f xs) = length (filter (\<lambda>x. f x \<noteq> None) xs)"
  by (simp add: map_filter_def)

lemma filter_disjoint_le:
  assumes "\<And>x. \<not> (P x \<and> Q x)"
  shows "length (filter P xs) + length (filter Q xs) \<le> length xs"
proof -
  have "P x \<Longrightarrow> \<not> Q x" for x using assms by blast
  then show ?thesis by (induction xs) auto
qed

lemma length_filter_le_mono:
  assumes "\<And>x. P x \<Longrightarrow> Q x"
  shows "length (filter P xs) \<le> length (filter Q xs)"
  using assms by (induction xs) auto

lemma length_by_class:
  fixes f :: "'a \<Rightarrow> 'c"
  assumes "distinct cs" and "\<And>x. x \<in> set xs \<Longrightarrow> f x \<in> set cs"
  shows "sum_list (map (\<lambda>c. length (filter (\<lambda>x. f x = c) xs)) cs) = length xs"
  using assms(2)
proof (induction xs)
  case (Cons x xs)
  have one: "sum_list (map (\<lambda>c. if f x = c then Suc (g c) else g c) cs) = Suc (sum_list (map g cs))" for g :: "'c \<Rightarrow> nat"
  proof -
    have skip: "f x \<notin> set ds \<Longrightarrow> map (\<lambda>c. if f x = c then Suc (g c) else g c) ds = map g ds" for ds
      by (induction ds) auto
    show ?thesis using assms(1) Cons.prems [of x] by (induction cs) (auto simp: skip)
  qed
  have "sum_list (map (\<lambda>c. length (filter (\<lambda>y. f y = c) (x # xs))) cs) =
      sum_list (map (\<lambda>c. if f x = c then Suc (length (filter (\<lambda>y. f y = c) xs)) else length (filter (\<lambda>y. f y = c) xs)) cs)"
    by (rule arg_cong [of _ _ sum_list]) (rule map_cong, auto)
  then show ?case using one Cons by simp
qed simp


lemma percent_bounds: "a + b \<le> n \<Longrightarrow> 0 \<le> percent a n \<and> percent a n + percent b n \<le> 100"
proof -
  assume le: "a + b \<le> n"
  show ?thesis
  proof (cases "n = 0")
    case False
    have "(of_nat a + of_nat b :: rat) \<le> of_nat n" using le by (metis of_nat_add of_nat_mono)
    then have "(of_nat a + of_nat b :: rat) / of_nat n \<le> 1" using False by (simp add: divide_le_eq_1)
    then have le100: "(of_nat a + of_nat b :: rat) / of_nat n * 100 \<le> 1 * 100" by (rule mult_right_mono) simp
    have "percent a n + percent b n = (of_nat a + of_nat b :: rat) / of_nat n * 100"
      using False by (simp add: percent_def add_divide_distrib)
    with le100 have "percent a n + percent b n \<le> 100" by (simp only: mult_1)
    moreover have "0 \<le> percent a n" by (simp add: percent_def)
    ultimately show ?thesis by blast
  qed (simp add: percent_def)
qed

abbreviation allWorkflowStates :: "WorkflowState list" where
  "allWorkflowStates \<equiv> [PENDING, RUNNING, COMPLETED, FAILED, CANCELLED, COMPENSATING, COMPENSATED]"

lemma all_states: "distinct allWorkflowStates \<and> st \<in> set allWorkflowStates"
  by (cases st) simp_all

text \<open>
  The workflow metrics are consistent with one another for every table and range: the counts per
  state add up to the total, the success and failure rates are percentages that together stay within
  100, and the success rate never exceeds the share of workflows in state \<open>COMPLETED\<close>.
\<close>

theorem workflowMetrics_consistent:
  "sum_list (map (wm_workflowsByState (getWorkflowMetrics env h s)) allWorkflowStates) =
     wm_totalWorkflows (getWorkflowMetrics env h s) \<and>
   0 \<le> wm_successRate (getWorkflowMetrics env h s) \<and>
   wm_successRate (getWorkflowMetrics env h s) + wm_failureRate (getWorkflowMetrics env h s) \<le> 100 \<and>
   wm_successRate (getWorkflowMetrics env h s) \<le>
     percent (wm_workflowsByState (getWorkflowMetrics env h s) COMPLETED) (wm_totalWorkflows (getWorkflowMetrics env h s))"
proof -
  let ?ws = "rFind (wfRepo env) (\<lambda>w. createdIn (hoursAgo h (laterNow env s 0)) (laterNow env s 1) (w_createdAt w)) (wfTab s)"
  let ?d = "\<lambda>w. if w_state w = COMPLETED then spanOf (w_startedAt w) (w_completedAt w) else None"
  let ?m = "getWorkflowMetrics env h s"
  have m: "wm_totalWorkflows ?m = length ?ws" "wm_workflowsByState ?m = (\<lambda>st. length (filter (\<lambda>w. w_state w = st) ?ws))"
    "wm_successRate ?m = percent (length (List.map_filter ?d ?ws)) (length ?ws)"
    "wm_failureRate ?m = percent (length (filter (\<lambda>w. w_state w = FAILED) ?ws)) (length ?ws)"
    by (simp_all add: getWorkflowMetrics_def Let_def)
  have "length (List.map_filter ?d ?ws) + length (filter (\<lambda>w. w_state w = FAILED) ?ws) \<le> length ?ws"
    unfolding length_map_filter by (rule filter_disjoint_le) auto
  note rates = percent_bounds [OF this]
  have "length (List.map_filter ?d ?ws) \<le> length (filter (\<lambda>w. w_state w = COMPLETED) ?ws)"
    unfolding length_map_filter by (rule length_filter_le_mono) (simp split: if_splits)
  then have "percent (length (List.map_filter ?d ?ws)) n \<le> percent (length (filter (\<lambda>w. w_state w = COMPLETED) ?ws)) n" for n
    by (simp add: percent_def divide_right_mono)
  with rates length_by_class [of allWorkflowStates ?ws w_state] all_states show ?thesis
    unfolding m by blast
qed

section \<open>The most failed steps\<close>

abbreviation failures :: "WorkflowStep list \<Rightarrow> string \<Rightarrow> nat" where
  "failures steps n \<equiv> length (filter (\<lambda>p. s_state p = SFAILED \<and> s_stepName p = n) steps)"

definition recentSteps :: "('wt, 'st, 'r) wfenv \<Rightarrow> int \<Rightarrow> ('wt, 'st, 'r) world \<Rightarrow> WorkflowStep list" where
  "recentSteps env h s = rFind (stRepo env)
     (\<lambda>p. createdIn (hoursAgo h (laterNow env s 0)) (laterNow env s 1) (s_createdAt p)) (stTab s)"

definition countOf :: "(string \<times> nat) list \<Rightarrow> string \<Rightarrow> nat" where
  "countOf counts n = (case map_of counts n of None \<Rightarrow> 0 | Some k \<Rightarrow> k)"

lemma countOf_bump: "countOf (bump k counts) n = (if n = k then Suc (countOf counts n) else countOf counts n)"
  by (simp add: countOf_def bump_def split: option.splits)

lemma set_objSet: "x \<in> set (objSet a k c) \<Longrightarrow> x = (a, k) \<or> x \<in> set c"
  by (induction c) (auto split: if_splits)

lemma failureCounts_run:
  fixes ps :: "WorkflowStep list"
  assumes "distinct (map fst c)" and "\<forall>x \<in> set c. 0 < snd x"
  defines "c' \<equiv> fold (\<lambda>p counts. if s_state p = SFAILED then bump (s_stepName p) counts else counts) ps c"
  shows "distinct (map fst c') \<and> (\<forall>x \<in> set c'. 0 < snd x) \<and> countOf c' n = countOf c n + failures ps n"
  unfolding c'_def using assms(1,2)
proof (induction ps arbitrary: c)
  case (Cons p ps)
  show ?case
  proof (cases "s_state p = SFAILED")
    case True
    let ?c = "bump (s_stepName p) c"
    have d: "distinct (map fst ?c)" using Cons.prems by (simp add: bump_def distinct_objSet)
    have "\<forall>x \<in> set ?c. 0 < snd x" using Cons.prems(2) set_objSet by (fastforce simp: bump_def)
    note pos = this
    from Cons.IH [OF d pos] True show ?thesis by (simp add: countOf_bump)
  next
    case False
    with Cons show ?thesis by simp
  qed
qed simp

lemma failureCounts_props:
  "distinct (map fst (failureCounts ps))" "(n, k) \<in> set (failureCounts ps) \<longleftrightarrow> k = failures ps n \<and> 0 < k"
proof -
  have run: "distinct (map fst (failureCounts ps))" "\<forall>x \<in> set (failureCounts ps). 0 < snd x"
    "countOf (failureCounts ps) n = failures ps n"
    using failureCounts_run [of "[]" ps n] by (simp_all add: failureCounts_def countOf_def)
  then show "distinct (map fst (failureCounts ps))" by simp
  show "(n, k) \<in> set (failureCounts ps) \<longleftrightarrow> k = failures ps n \<and> 0 < k"
  proof
    assume m: "(n, k) \<in> set (failureCounts ps)"
    then have "map_of (failureCounts ps) n = Some k" using run(1) by simp
    then show "k = failures ps n \<and> 0 < k" using run(2,3) m by (auto simp: countOf_def)
  next
    assume "k = failures ps n \<and> 0 < k"
    then have "map_of (failureCounts ps) n = Some k" using run(3) by (auto simp: countOf_def split: option.splits)
    then show "(n, k) \<in> set (failureCounts ps)" by (rule map_of_SomeD)
  qed
qed

lemma top_of_sorted:
  assumes "total_preorder le" and "x \<in> set (take n (sortBy le xs))" and "y \<in> set xs" and "y \<notin> set (take n (sortBy le xs))"
  shows "le x y"
proof -
  let ?ys = "sortBy le xs"
  have "sorted_wrt le (take n ?ys @ drop n ?ys)" using sorted_wrt_sortBy [OF assms(1)] by simp
  moreover have "y \<in> set (drop n ?ys)"
    using assms(3,4) set_sortBy [of le xs] by (metis Un_iff append_take_drop_id set_append)
  ultimately show ?thesis using assms(2) by (simp only: sorted_wrt_append)
qed

text \<open>
  The list of most failed steps: at most five names, each once, with their exact numbers of failed
  rows in the range, in descending order; a name that is left out failed at most as often as every
  name that is listed.
\<close>

theorem mostFailedSteps_top:
  "length (sm_mostFailedSteps (getStepMetrics env h s)) \<le> 5 \<and>
   distinct (map fst (sm_mostFailedSteps (getStepMetrics env h s))) \<and>
   sorted_wrt (\<lambda>a b. snd b \<le> snd a) (sm_mostFailedSteps (getStepMetrics env h s)) \<and>
   (\<forall>(n, k) \<in> set (sm_mostFailedSteps (getStepMetrics env h s)).
      k = failures (recentSteps env h s) n \<and> 0 < k \<and>
      (\<forall>n'. n' \<notin> fst ` set (sm_mostFailedSteps (getStepMetrics env h s)) \<longrightarrow> failures (recentSteps env h s) n' \<le> k))"
proof -
  let ?le = "\<lambda>a b. snd b \<le> snd (a :: string \<times> nat)"
  let ?c = "failureCounts (recentSteps env h s)"
  let ?top = "sm_mostFailedSteps (getStepMetrics env h s)"
  have top: "?top = take 5 (sortBy ?le ?c)" by (simp add: recentSteps_def getStepMetrics_def Let_def)
  have tp: "total_preorder ?le" by (rule total_preorder_key_desc)
  have sub: "x \<in> set (?top) \<Longrightarrow> x \<in> set ?c" for x using in_set_takeD [of x 5 "sortBy ?le ?c"] by (simp add: top)
  have rest: "failures (recentSteps env h s) n' \<le> k" if "(n, k) \<in> set (?top)" "n' \<notin> fst ` set (?top)" for n k n'
  proof (cases "failures (recentSteps env h s) n' = 0")
    case False
    then have in_c: "(n', failures (recentSteps env h s) n') \<in> set ?c" by (simp add: failureCounts_props(2))
    have "(n', failures (recentSteps env h s) n') \<notin> set (?top)" using that(2) by (metis fst_conv imageI)
    then show ?thesis using top_of_sorted [OF tp _ in_c, of "(n, k)" 5] that(1) unfolding top by simp
  qed simp
  have "distinct (map fst (sortBy ?le ?c))" using failureCounts_props(1) by simp
  then have "distinct (map fst (?top))" unfolding top by (metis distinct_take take_map)
  moreover have "sorted_wrt ?le (?top)" unfolding top by (intro sorted_wrt_take sorted_wrt_sortBy tp)
  ultimately show ?thesis using rest sub failureCounts_props(2) by (auto simp: top)
qed


theorem mostFailedSteps_top_witness:
  "let env = memEnv int (\<lambda>_. None); s = memWorld [] [sampleStep ''a'' 0 SFAILED, sampleStep ''b'' 1 SCOMPLETED]
   in sm_mostFailedSteps (getStepMetrics env 24 s) = [(''stepa'', 1)] \<and>
      failures (recentSteps env 24 s) ''stepa'' = 1"
proof -
  let ?env = "memEnv int (\<lambda>_. None)" and ?s = "memWorld [] [sampleStep ''a'' 0 SFAILED, sampleStep ''b'' 1 SCOMPLETED]"
  have top: "sm_mostFailedSteps (getStepMetrics ?env 24 ?s) = [(''stepa'', 1)]"
    by (simp add: getStepMetrics_def failureCounts_def bump_def createdIn_def hoursAgo_def laterNow_def run_simps Let_def)
  then have "failures (recentSteps ?env 24 ?s) ''stepa'' = 1"
    using mostFailedSteps_top [of ?env 24 ?s] by simp
  with top show ?thesis unfolding Let_def by blast
qed

section \<open>The timeline\<close>

lemma stepEvents_shows:
  "Some t \<in> {s_startedAt p, s_completedAt p, s_failedAt p, s_compensatedAt p} \<Longrightarrow>
     \<exists>e \<in> set (stepEvents p). te_timestamp e = t"
  by (elim insertE emptyE; drule sym; simp add: stepEvents_def onDate_def)

text \<open>
  The timeline of a workflow: it is in the order of time, starts no later than the creation of the
  workflow, and shows every date of every step. It fails for exactly the workflows with a completion
  date and no start date, as the cancellation of a pending workflow leaves them.
\<close>

theorem timeline_correct:
  assumes "wf_tables env" and "getWf env s i = Some w"
  shows "(case getWorkflowTimeline env i s of
      Inl err \<Rightarrow> w_completedAt w \<noteq> None \<and> w_startedAt w = None
    | Inr events \<Rightarrow> \<not> (w_completedAt w \<noteq> None \<and> w_startedAt w = None) \<and>
        sorted_wrt (\<lambda>a b. te_timestamp a \<le> te_timestamp b) events \<and>
        te_timestamp (hd events) \<le> w_createdAt w \<and>
        (\<forall>j p. getSt env s j = Some p \<longrightarrow> s_workflowId p = i \<longrightarrow>
           (\<forall>d \<in> {s_startedAt p, s_completedAt p, s_failedAt p, s_compensatedAt p}. \<forall>t. d = Some t \<longrightarrow>
              (\<exists>e \<in> set events. te_timestamp e = t))))"
proof (cases "completionEvent w")
  case (Inl err)
  then have "getWorkflowTimeline env i s = Inl err" using assms(2) by (simp add: getWorkflowTimeline_def rGet_def)
  with Inl show ?thesis by (auto simp: completionEvent_def split: option.splits)
next
  case (Inr c)
  let ?le = "\<lambda>a b. te_timestamp a \<le> te_timestamp b"
  have ok: "\<not> (w_completedAt w \<noteq> None \<and> w_startedAt w = None)"
    using Inr by (auto simp: completionEvent_def split: option.splits)
  let ?l = "timelineEvents w (stepsOf env i s) c"
  let ?evs = "sortBy ?le ?l"
  have ev: "getWorkflowTimeline env i s = Inr ?evs"
    using assms(2) Inr by (simp add: getWorkflowTimeline_def rGet_def)
  have sorted: "sorted_wrt ?le ?evs" by (intro sorted_wrt_sortBy total_preorder_key)
  have "hd ?l \<in> set ?evs" "te_timestamp (hd ?l) = w_createdAt w" by (simp_all add: timelineEvents_def)
  then have first: "te_timestamp (hd ?evs) \<le> w_createdAt w"
    using sorted by (cases ?evs) auto
  have steps: "\<exists>e \<in> set ?evs. te_timestamp e = t"
    if "getSt env s j = Some p" "s_workflowId p = i"
      "d \<in> {s_startedAt p, s_completedAt p, s_failedAt p, s_compensatedAt p}" "d = Some t" for j p d t
  proof -
    have "p \<in> set (stepsOf env i s)"
      using that(1,2) wf_tables.stepsOf_iff [OF assms(1)] wf_tables.getSt_id [OF assms(1) that(1)] by simp
    moreover have "\<exists>e \<in> set (stepEvents p). te_timestamp e = t"
      using that(3,4) by (intro stepEvents_shows) simp
    ultimately show ?thesis by (auto simp: timelineEvents_def)
  qed
  show ?thesis unfolding ev sum.case using ok sorted first steps by blast
qed

theorem timeline_correct_witness:
  "let env = memEnv int (\<lambda>_. None); s = memWorld [sampleWorkflow PENDING] []
   in \<exists>err. getWorkflowTimeline env ''w1'' (snd (cancelWorkflow env ''w1'' s)) = Inl err"
proof -
  let ?env = "memEnv int (\<lambda>_. None)" and ?s = "memWorld [sampleWorkflow PENDING] []"
  let ?s' = "snd (cancelWorkflow ?env ''w1'' ?s)"
  have g: "\<exists>w. getWf ?env ?s' ''w1'' = Some w \<and> w_completedAt w \<noteq> None \<and> w_startedAt w = None"
    by (simp add: cancelWorkflow_def sm_defs saveWorkflow_def run_simps)
  then obtain w where w: "getWf ?env ?s' ''w1'' = Some w" "w_completedAt w \<noteq> None" "w_startedAt w = None" by blast
  show ?thesis unfolding Let_def
    using timeline_correct [OF memt.wf_tables_axioms w(1)] w(2,3)
    by (cases "getWorkflowTimeline ?env ''w1'' ?s'") auto
qed

end
