(* ===== verification/Stellar_Storage.thy ===== *)
theory Stellar_Storage
  imports Complex_Main Json Repository
begin

text \<open>
  Storage of the Stellar monitor: the events and the webhook consumers
  (\<^verbatim>\<open>stellar-monitor/entities\<close>), the event storage service and the consumer management service. The
  services take the repositories and the clock as the record \<open>menv\<close>; the world \<open>mon\<close> holds both tables,
  the delivery queue, the retries that wait for their timer and the webhook requests sent so far.
\<close>

section \<open>Entities\<close>

datatype EventType = PAYMENT | OFFER | CONTRACT | ACCOUNT | TRUSTLINE

fun eventTypeName :: "EventType \<Rightarrow> string" where
  "eventTypeName PAYMENT = ''payment''"
| "eventTypeName OFFER = ''offer''"
| "eventTypeName CONTRACT = ''contract''"
| "eventTypeName ACCOUNT = ''account''"
| "eventTypeName TRUSTLINE = ''trustline''"

datatype DeliveryStatus = DPENDING | DELIVERED | DFAILED | RETRYING

datatype ConsumerStatus = ACTIVE | INACTIVE | SUSPENDED

record StellarEvent =
  e_id :: string
  e_eventType :: EventType
  e_ledgerSequence :: int
  e_timestamp :: date
  e_transactionHash :: string
  e_sourceAccount :: string
  e_payload :: json
  e_deliveryStatus :: DeliveryStatus
  e_deliveryAttempts :: nat
  e_lastAttemptAt :: "date option"
  e_deliveredAt :: "date option"
  e_deliveredTo :: "string list option"
  e_failedDeliveries :: "string list option"
  e_createdAt :: date
  e_updatedAt :: date
  e_errorMessage :: "string option"
  e_isProcessed :: bool

record WebhookConsumer =
  c_id :: string
  c_name :: string
  c_url :: string
  c_secret :: "string option"
  c_status :: ConsumerStatus
  c_maxRetries :: nat
  c_timeoutMs :: nat
  c_isActive :: bool
  c_createdAt :: date
  c_updatedAt :: date
  c_metadata :: "(string \<times> json) list"
  c_lastDeliveryAttempt :: "date option"
  c_lastDeliverySuccess :: "date option"
  c_totalDeliveries :: nat
  c_failedDeliveries :: nat

section \<open>The world of the monitor\<close>

text \<open>A webhook request as it is handed to the HTTP client.\<close>

record request =
  q_url :: string
  q_timeout :: nat
  q_headers :: "(string \<times> string) list"
  q_body :: json

text \<open>\<open>httpPost\<close> is the answer to the \<open>n\<close>-th request: a status, or an error with the status of the answer,
  if there was one, and a message.\<close>

record ('et, 'ct) menv =
  evRepo :: "('et, StellarEvent) repo"
  coRepo :: "('ct, WebhookConsumer) repo"
  mclock :: "nat \<Rightarrow> date"
  hmacSha256 :: "string \<Rightarrow> string \<Rightarrow> string"
  httpPost :: "nat \<Rightarrow> request \<Rightarrow> (nat option \<times> string) + nat"

record ('et, 'ct) mon =
  evTab :: 'et
  coTab :: 'ct
  deliveryQueue :: "(StellarEvent \<times> WebhookConsumer) list"
  retryTimers :: "(nat \<times> StellarEvent \<times> WebhookConsumer) list"
  isProcessingQueue :: bool
  posted :: "request list"
  mticks :: nat

definition mnow :: "('et, 'ct) menv \<Rightarrow> ('et, 'ct) mon \<Rightarrow> date" where
  "mnow env s = mclock env (mticks s)"

definition mtick :: "('et, 'ct) mon \<Rightarrow> ('et, 'ct) mon" where
  "mtick s = s\<lparr>mticks := Suc (mticks s)\<rparr>"

definition saveEv :: "('et, 'ct) menv \<Rightarrow> StellarEvent \<Rightarrow> ('et, 'ct) mon \<Rightarrow> ('et, 'ct) mon" where
  "saveEv env e s = mtick (s\<lparr>evTab := rSave (evRepo env) (e\<lparr>e_updatedAt := mnow env s\<rparr>) (evTab s)\<rparr>)"

definition saveCo :: "('et, 'ct) menv \<Rightarrow> WebhookConsumer \<Rightarrow> ('et, 'ct) mon \<Rightarrow> ('et, 'ct) mon" where
  "saveCo env c s = mtick (s\<lparr>coTab := rSave (coRepo env) (c\<lparr>c_updatedAt := mnow env s\<rparr>) (coTab s)\<rparr>)"

abbreviation getEv :: "('et, 'ct) menv \<Rightarrow> ('et, 'ct) mon \<Rightarrow> string \<Rightarrow> StellarEvent option" where
  "getEv env s i \<equiv> rGet (evRepo env) e_id i (evTab s)"

abbreviation getCo :: "('et, 'ct) menv \<Rightarrow> ('et, 'ct) mon \<Rightarrow> string \<Rightarrow> WebhookConsumer option" where
  "getCo env s i \<equiv> rGet (coRepo env) c_id i (coTab s)"

locale mon_tables =
  E: repository "evRepo env" e_id + C: repository "coRepo env" c_id
  for env :: "('et, 'ct) menv"
begin

lemma getEv_saveEv: "getEv env (saveEv env e s) i =
    (if i = e_id e then Some (e\<lparr>e_updatedAt := mnow env s\<rparr>) else getEv env s i)"
  by (simp add: saveEv_def mtick_def E.get_save)

lemma getCo_saveCo: "getCo env (saveCo env c s) i =
    (if i = c_id c then Some (c\<lparr>c_updatedAt := mnow env s\<rparr>) else getCo env s i)"
  by (simp add: saveCo_def mtick_def C.get_save)

lemma getCo_id: "getCo env s i = Some c \<Longrightarrow> c_id c = i"
  by (rule C.get_key)

lemma getEv_id: "getEv env s i = Some e \<Longrightarrow> e_id e = i"
  by (rule E.get_key)

end

lemma mon_frame [simp]:
  "coTab (saveEv env e s) = coTab s" "evTab (saveCo env c s) = evTab s"
  "deliveryQueue (saveEv env e s) = deliveryQueue s" "deliveryQueue (saveCo env c s) = deliveryQueue s"
  "retryTimers (saveEv env e s) = retryTimers s" "retryTimers (saveCo env c s) = retryTimers s"
  "isProcessingQueue (saveEv env e s) = isProcessingQueue s" "isProcessingQueue (saveCo env c s) = isProcessingQueue s"
  "posted (saveEv env e s) = posted s" "posted (saveCo env c s) = posted s"
  "evTab (mtick s) = evTab s" "coTab (mtick s) = coTab s" "deliveryQueue (mtick s) = deliveryQueue s"
  "retryTimers (mtick s) = retryTimers s" "isProcessingQueue (mtick s) = isProcessingQueue s"
  "posted (mtick s) = posted s"
  by (simp_all add: saveEv_def saveCo_def mtick_def)

section \<open>Event storage\<close>

record StellarEventDto =
  v_id :: string
  v_eventType :: EventType
  v_ledgerSequence :: int
  v_timestamp :: date
  v_transactionHash :: string
  v_sourceAccount :: string
  v_payload :: json

definition saveEvent ::
    "('et, 'ct) menv \<Rightarrow> StellarEventDto \<Rightarrow> ('et, 'ct) mon \<Rightarrow> StellarEvent \<times> ('et, 'ct) mon" where
  "saveEvent env d s =
     (let now = mnow env s;
          event = \<lparr>e_id = v_id d, e_eventType = v_eventType d, e_ledgerSequence = v_ledgerSequence d,
             e_timestamp = v_timestamp d, e_transactionHash = v_transactionHash d,
             e_sourceAccount = v_sourceAccount d, e_payload = v_payload d,
             e_deliveryStatus = DPENDING, e_deliveryAttempts = 0, e_lastAttemptAt = None,
             e_deliveredAt = None, e_deliveredTo = None, e_failedDeliveries = None,
             e_createdAt = now, e_updatedAt = now, e_errorMessage = None, e_isProcessed = False\<rparr>
      in (event, saveEv env event s))"

definition getEventById :: "('et, 'ct) menv \<Rightarrow> string \<Rightarrow> ('et, 'ct) mon \<Rightarrow> StellarEvent option" where
  "getEventById env i s = rFindOne (evRepo env) (\<lambda>e. e_id e = i) (evTab s)"

text \<open>An absent filter accepts every event.\<close>

definition accepts :: "'a option \<Rightarrow> ('a \<Rightarrow> bool) \<Rightarrow> bool" where
  "accepts f P = (case f of None \<Rightarrow> True | Some x \<Rightarrow> P x)"

definition getEvents ::
    "('et, 'ct) menv \<Rightarrow> int \<Rightarrow> nat \<Rightarrow> EventType option \<Rightarrow> date option \<Rightarrow> date option \<Rightarrow> DeliveryStatus option \<Rightarrow>
     ('et, 'ct) mon \<Rightarrow> js_error + StellarEvent list \<times> nat" where
  "getEvents env page limit eventType startDate endDate deliveryStatus s =
     (let P = (\<lambda>e. accepts eventType (\<lambda>t. e_eventType e = t) \<and> accepts startDate (\<lambda>d. d \<le> e_timestamp e) \<and>
                   accepts endDate (\<lambda>d. e_timestamp e \<le> d) \<and> accepts deliveryStatus (\<lambda>d. e_deliveryStatus e = d));
          skip = (page - 1) * int limit;
          rest = drop (nat skip) (rFindOrd (evRepo env) P (\<lambda>a b. e_timestamp b \<le> e_timestamp a) (evTab s))
      in if skip < 0 then Inl (Error ''OFFSET must not be negative'')
         else Inr (if limit = 0 then rest else take limit rest, rCount (evRepo env) P (evTab s)))"

definition getRecentEvents :: "('et, 'ct) menv \<Rightarrow> nat \<Rightarrow> ('et, 'ct) mon \<Rightarrow> StellarEvent list" where
  "getRecentEvents env limit s =
     take limit (rFindOrd (evRepo env) (\<lambda>_. True) (\<lambda>a b. e_timestamp b \<le> e_timestamp a) (evTab s))"

definition getPendingEvents :: "('et, 'ct) menv \<Rightarrow> nat \<Rightarrow> ('et, 'ct) mon \<Rightarrow> StellarEvent list" where
  "getPendingEvents env limit s =
     take limit (rFindOrd (evRepo env) (\<lambda>e. e_deliveryStatus e = DPENDING \<and> \<not> e_isProcessed e)
       (\<lambda>a b. e_createdAt a \<le> e_createdAt b) (evTab s))"

text \<open>\<^verbatim>\<open>list = list || []; if (!list.includes(x)) list.push(x)\<close>\<close>

definition pushNew :: "string \<Rightarrow> string list option \<Rightarrow> string list" where
  "pushNew x l = (let xs = (case l of None \<Rightarrow> [] | Some ys \<Rightarrow> ys) in if x \<in> set xs then xs else xs @ [x])"

definition updateEventStatus ::
    "('et, 'ct) menv \<Rightarrow> string \<Rightarrow> DeliveryStatus \<Rightarrow> string option \<Rightarrow> string option \<Rightarrow>
     (('et, 'ct) mon, StellarEvent) action" where
  "updateEventStatus env eventId status consumerId errorMessage s =
     (case getEventById env eventId s of
        None \<Rightarrow> (Inl (Error (''Event '' @ eventId @ '' not found'')), s)
      | Some event \<Rightarrow>
          let e1 = event\<lparr>e_deliveryStatus := status, e_deliveryAttempts := Suc (e_deliveryAttempts event),
                         e_lastAttemptAt := Some (mnow env s)\<rparr>;
              s1 = mtick s;
              (e2, s2) =
                (if status = DELIVERED
                 then (let d = e1\<lparr>e_deliveredAt := Some (mnow env s1)\<rparr>
                       in (if strTruthy consumerId
                           then d\<lparr>e_deliveredTo := Some (pushNew (the consumerId) (e_deliveredTo d))\<rparr> else d, mtick s1))
                 else if status = DFAILED \<and> strTruthy consumerId
                 then (e1\<lparr>e_failedDeliveries := Some (pushNew (the consumerId) (e_failedDeliveries e1))\<rparr>, s1)
                 else (e1, s1));
              e3 = (if strTruthy errorMessage then e2\<lparr>e_errorMessage := errorMessage\<rparr> else e2)
          in (Inr e3, saveEv env e3 s2))"

definition markEventAsProcessed ::
    "('et, 'ct) menv \<Rightarrow> string \<Rightarrow> (('et, 'ct) mon, StellarEvent) action" where
  "markEventAsProcessed env eventId s =
     (case getEventById env eventId s of
        None \<Rightarrow> (Inl (Error (''Event '' @ eventId @ '' not found'')), s)
      | Some event \<Rightarrow> let e1 = event\<lparr>e_isProcessed := True\<rparr> in (Inr e1, saveEv env e1 s))"

record eventStats =
  es_totalEvents :: nat
  es_pendingEvents :: nat
  es_deliveredEvents :: nat
  es_failedEvents :: nat
  es_eventsByType :: "EventType \<Rightarrow> nat"
  es_eventsByDay :: "(string \<times> nat) list"

text \<open>The query groups by \<^verbatim>\<open>DATE(timestamp)\<close>; the database session runs in UTC.\<close>

definition getEventStats :: "('et, 'ct) menv \<Rightarrow> ('et, 'ct) mon \<Rightarrow> eventStats" where
  "getEventStats env s =
     (let thirtyDaysAgo = mnow env s - 30 * 86400000;
          recent = rFind (evRepo env) (\<lambda>e. thirtyDaysAgo \<le> e_timestamp e) (evTab s);
          days = map (\<lambda>e. isoDay (e_timestamp e)) recent
      in \<lparr>es_totalEvents = rCount (evRepo env) (\<lambda>_. True) (evTab s),
          es_pendingEvents = rCount (evRepo env) (\<lambda>e. e_deliveryStatus e = DPENDING) (evTab s),
          es_deliveredEvents = rCount (evRepo env) (\<lambda>e. e_deliveryStatus e = DELIVERED) (evTab s),
          es_failedEvents = rCount (evRepo env) (\<lambda>e. e_deliveryStatus e = DFAILED) (evTab s),
          es_eventsByType = (\<lambda>t. rCount (evRepo env) (\<lambda>e. e_eventType e = t) (evTab s)),
          es_eventsByDay = map (\<lambda>d. (d, count_list days d)) (sort (remdups days))\<rparr>)"

definition cleanupOldEvents :: "('et, 'ct) menv \<Rightarrow> int \<Rightarrow> ('et, 'ct) mon \<Rightarrow> nat \<times> ('et, 'ct) mon" where
  "cleanupOldEvents env daysToKeep s =
     (let cutoffDate = mnow env s - daysToKeep * 86400000; s1 = mtick s
      in (rCount (evRepo env) (\<lambda>e. e_createdAt e < cutoffDate) (evTab s1),
          s1\<lparr>evTab := rDelete (evRepo env) (\<lambda>e. e_createdAt e < cutoffDate) (evTab s1)\<rparr>))"

section \<open>Consumer management\<close>

record CreateConsumerDto =
  cd_name :: string
  cd_url :: string
  cd_secret :: "string option"
  cd_maxRetries :: nat
  cd_timeoutMs :: nat
  cd_isActive :: bool

definition createConsumer ::
    "('et, 'ct) menv \<Rightarrow> string \<Rightarrow> CreateConsumerDto \<Rightarrow> (('et, 'ct) mon, WebhookConsumer) action" where
  "createConsumer env newId d s =
     (case rFindOne (coRepo env) (\<lambda>c. c_url c = cd_url d) (coTab s) of
        Some _ \<Rightarrow> (Inl (BadRequestException ''Consumer with this URL already exists''), s)
      | None \<Rightarrow>
          let now = mnow env s;
              consumer = \<lparr>c_id = newId, c_name = cd_name d, c_url = cd_url d, c_secret = cd_secret d,
                 c_status = ACTIVE, c_maxRetries = cd_maxRetries d, c_timeoutMs = cd_timeoutMs d,
                 c_isActive = cd_isActive d, c_createdAt = now, c_updatedAt = now, c_metadata = [],
                 c_lastDeliveryAttempt = None, c_lastDeliverySuccess = None,
                 c_totalDeliveries = 0, c_failedDeliveries = 0\<rparr>
          in (Inr consumer, saveCo env consumer s))"

definition getAllConsumers :: "('et, 'ct) menv \<Rightarrow> bool \<Rightarrow> ('et, 'ct) mon \<Rightarrow> WebhookConsumer list" where
  "getAllConsumers env activeOnly s =
     rFindOrd (coRepo env) (\<lambda>c. activeOnly \<longrightarrow> c_isActive c) (\<lambda>a b. c_createdAt b \<le> c_createdAt a) (coTab s)"

definition getConsumerById ::
    "('et, 'ct) menv \<Rightarrow> string \<Rightarrow> ('et, 'ct) mon \<Rightarrow> js_error + WebhookConsumer" where
  "getConsumerById env i s =
     (case rFindOne (coRepo env) (\<lambda>c. c_id c = i) (coTab s) of
        None \<Rightarrow> Inl (NotFoundException (''Consumer with ID '' @ i @ '' not found''))
      | Some c \<Rightarrow> Inr c)"

record UpdateConsumerDto =
  ud_name :: "string option"
  ud_url :: "string option"
  ud_secret :: "string option"
  ud_maxRetries :: "nat option"
  ud_timeoutMs :: "nat option"
  ud_isActive :: "bool option"

definition orKeep :: "'a option \<Rightarrow> 'a \<Rightarrow> 'a" where
  "orKeep x a = (case x of None \<Rightarrow> a | Some y \<Rightarrow> y)"

definition assignDto :: "UpdateConsumerDto \<Rightarrow> WebhookConsumer \<Rightarrow> WebhookConsumer" where
  "assignDto d c =
     c\<lparr>c_name := orKeep (ud_name d) (c_name c), c_url := orKeep (ud_url d) (c_url c),
       c_secret := (case ud_secret d of None \<Rightarrow> c_secret c | Some x \<Rightarrow> Some x),
       c_maxRetries := orKeep (ud_maxRetries d) (c_maxRetries c),
       c_timeoutMs := orKeep (ud_timeoutMs d) (c_timeoutMs c),
       c_isActive := orKeep (ud_isActive d) (c_isActive c)\<rparr>"

definition updateConsumer ::
    "('et, 'ct) menv \<Rightarrow> string \<Rightarrow> UpdateConsumerDto \<Rightarrow> (('et, 'ct) mon, WebhookConsumer) action" where
  "updateConsumer env i d s =
     (case getConsumerById env i s of
        Inl err \<Rightarrow> (Inl err, s)
      | Inr consumer \<Rightarrow>
          if strTruthy (ud_url d) \<and> ud_url d \<noteq> Some (c_url consumer) \<and>
             (case rFindOne (coRepo env) (\<lambda>c. Some (c_url c) = ud_url d) (coTab s) of
                None \<Rightarrow> False | Some existing \<Rightarrow> c_id existing \<noteq> i)
          then (Inl (BadRequestException ''Another consumer with this URL already exists''), s)
          else let c1 = assignDto d consumer in (Inr c1, saveCo env c1 s))"

definition deleteConsumer :: "('et, 'ct) menv \<Rightarrow> string \<Rightarrow> (('et, 'ct) mon, unit) action" where
  "deleteConsumer env i s =
     (case getConsumerById env i s of
        Inl err \<Rightarrow> (Inl err, s)
      | Inr consumer \<Rightarrow> (Inr (), s\<lparr>coTab := rDelete (coRepo env) (\<lambda>c. c_id c = c_id consumer) (coTab s)\<rparr>))"

definition changeConsumer ::
    "('et, 'ct) menv \<Rightarrow> string \<Rightarrow> (WebhookConsumer \<Rightarrow> WebhookConsumer) \<Rightarrow> (('et, 'ct) mon, WebhookConsumer) action" where
  "changeConsumer env i f s =
     (case getConsumerById env i s of
        Inl err \<Rightarrow> (Inl err, s)
      | Inr consumer \<Rightarrow> (Inr (f consumer), saveCo env (f consumer) s))"

definition activateConsumer :: "('et, 'ct) menv \<Rightarrow> string \<Rightarrow> (('et, 'ct) mon, WebhookConsumer) action" where
  "activateConsumer env i s = changeConsumer env i (\<lambda>c. c\<lparr>c_isActive := True, c_status := ACTIVE\<rparr>) s"

definition deactivateConsumer :: "('et, 'ct) menv \<Rightarrow> string \<Rightarrow> (('et, 'ct) mon, WebhookConsumer) action" where
  "deactivateConsumer env i s = changeConsumer env i (\<lambda>c. c\<lparr>c_isActive := False, c_status := INACTIVE\<rparr>) s"

definition suspendConsumer ::
    "('et, 'ct) menv \<Rightarrow> string \<Rightarrow> string option \<Rightarrow> (('et, 'ct) mon, WebhookConsumer) action" where
  "suspendConsumer env i reason s =
     changeConsumer env i (\<lambda>c.
       let c1 = c\<lparr>c_isActive := False, c_status := SUSPENDED\<rparr>
       in if strTruthy reason
          then c1\<lparr>c_metadata := objSet ''suspendedAt'' (JStr (toISOString (mnow env s)))
                                (objSet ''suspensionReason'' (JStr (the reason)) (c_metadata c1))\<rparr>
          else c1) (mtick s)"

definition getActiveConsumers :: "('et, 'ct) menv \<Rightarrow> ('et, 'ct) mon \<Rightarrow> WebhookConsumer list" where
  "getActiveConsumers env s =
     rFindOrd (coRepo env) (\<lambda>c. c_isActive c \<and> c_status c = ACTIVE) (\<lambda>a b. c_createdAt a \<le> c_createdAt b) (coTab s)"

definition countDelivery :: "bool \<Rightarrow> date \<Rightarrow> date \<Rightarrow> date \<Rightarrow> WebhookConsumer \<Rightarrow> WebhookConsumer" where
  "countDelivery isSuccess t1 t2 t3 consumer =
     (let c1 = consumer\<lparr>c_totalDeliveries := Suc (c_totalDeliveries consumer), c_lastDeliveryAttempt := Some t1\<rparr>
      in if isSuccess
         then c1\<lparr>c_lastDeliverySuccess := Some t2, c_failedDeliveries := c_failedDeliveries c1 - 1\<rparr>
         else
           let c2 = c1\<lparr>c_failedDeliveries := Suc (c_failedDeliveries c1)\<rparr>
           in if 10 < c_failedDeliveries c2
              then c2\<lparr>c_isActive := False, c_status := SUSPENDED,
                      c_metadata := objSet ''autoSuspendedAt'' (JStr (toISOString t3))
                        (objSet ''autoSuspensionReason'' (JStr ''Too many consecutive failures'')
                          (objSet ''autoSuspended'' (JBool True) (c_metadata c2)))\<rparr>
              else c2)"

definition updateDeliveryStats ::
    "('et, 'ct) menv \<Rightarrow> string \<Rightarrow> bool \<Rightarrow> date option \<Rightarrow> (('et, 'ct) mon, WebhookConsumer) action" where
  "updateDeliveryStats env consumerId isSuccess deliveryTime s =
     (let t1 = mnow env s; s1 = mtick s; t2 = (case deliveryTime of Some t \<Rightarrow> t | None \<Rightarrow> mnow env s1); t3 = mnow env s1
      in case getConsumerById env consumerId s of
           Inl err \<Rightarrow> (Inl err, s)
         | Inr consumer \<Rightarrow>
             let c1 = countDelivery isSuccess t1 t2 t3 consumer in (Inr c1, saveCo env c1 (mtick s1)))"

text \<open>\<^verbatim>\<open>parseFloat(x.toFixed(2))\<close> rounds to two decimals, away from zero on a tie.\<close>

definition round2 :: "rat \<Rightarrow> rat" where
  "round2 x = of_int \<lfloor>x * 100 + 1 / 2\<rfloor> / 100"

definition getConsumerHealthStats ::
    "('et, 'ct) menv \<Rightarrow> string \<Rightarrow> ('et, 'ct) mon \<Rightarrow> js_error + rat \<times> nat \<times> nat \<times> date option" where
  "getConsumerHealthStats env consumerId s =
     (case getConsumerById env consumerId s of
        Inl err \<Rightarrow> Inl err
      | Inr c \<Rightarrow>
          let successRate = (if 0 < c_totalDeliveries c
                then (of_nat (c_totalDeliveries c) - of_nat (c_failedDeliveries c)) / of_nat (c_totalDeliveries c) * 100
                else 100)
          in Inr (round2 successRate, c_failedDeliveries c, 0, c_lastDeliveryAttempt c))"

record consumerStats =
  cs_totalConsumers :: nat
  cs_activeConsumers :: nat
  cs_inactiveConsumers :: nat
  cs_suspendedConsumers :: nat
  cs_consumersByStatus :: "ConsumerStatus \<Rightarrow> nat"

definition getConsumerStats :: "('et, 'ct) menv \<Rightarrow> ('et, 'ct) mon \<Rightarrow> consumerStats" where
  "getConsumerStats env s =
     \<lparr>cs_totalConsumers = rCount (coRepo env) (\<lambda>_. True) (coTab s),
      cs_activeConsumers = rCount (coRepo env) c_isActive (coTab s),
      cs_inactiveConsumers = rCount (coRepo env) (\<lambda>c. c_status c = INACTIVE) (coTab s),
      cs_suspendedConsumers = rCount (coRepo env) (\<lambda>c. c_status c = SUSPENDED) (coTab s),
      cs_consumersByStatus = (\<lambda>st. rCount (coRepo env) (\<lambda>c. c_status c = st) (coTab s))\<rparr>"


section \<open>The consumer table as a transition system\<close>

text \<open>
  Every call that changes the consumer table. A new identifier is fresh, and an update passed the
  validation of its DTO, which rejects an empty URL.
\<close>

inductive consumer_step :: "('et, 'ct) menv \<Rightarrow> ('et, 'ct) mon \<Rightarrow> ('et, 'ct) mon \<Rightarrow> bool" for env where
  create: "getCo env s newId = None \<Longrightarrow> consumer_step env s (snd (createConsumer env newId d s))"
| update: "ud_url d \<noteq> Some [] \<Longrightarrow> consumer_step env s (snd (updateConsumer env i d s))"
| delete: "consumer_step env s (snd (deleteConsumer env i s))"
| activate: "consumer_step env s (snd (activateConsumer env i s))"
| deactivate: "consumer_step env s (snd (deactivateConsumer env i s))"
| suspend: "consumer_step env s (snd (suspendConsumer env i reason s))"
| stats: "consumer_step env s (snd (updateDeliveryStats env i ok t s))"
| other: "coTab s' = coTab s \<Longrightarrow> consumer_step env s s'"

definition coInv :: "('et, 'ct) menv \<Rightarrow> ('et, 'ct) mon \<Rightarrow> bool" where
  "coInv env s \<longleftrightarrow>
     (\<forall>i j c d. getCo env s i = Some c \<longrightarrow> getCo env s j = Some d \<longrightarrow> c_url c = c_url d \<longrightarrow> i = j) \<and>
     (\<forall>i c. getCo env s i = Some c \<longrightarrow> c_failedDeliveries c \<le> c_totalDeliveries c)"

lemma coInv_frame: "coTab s' = coTab s \<Longrightarrow> coInv env s' = coInv env s"
  by (simp add: coInv_def)

lemma coInv_mtick [simp]: "coInv env (mtick s) = coInv env s"
  by (rule coInv_frame) simp

lemma countDelivery_simps [simp]:
  "c_id (countDelivery ok t1 t2 t3 c) = c_id c" "c_url (countDelivery ok t1 t2 t3 c) = c_url c"
  by (simp_all add: countDelivery_def Let_def)

lemma countDelivery_ratio:
  "c_failedDeliveries c \<le> c_totalDeliveries c \<Longrightarrow>
     c_failedDeliveries (countDelivery ok t1 t2 t3 c) \<le> c_totalDeliveries (countDelivery ok t1 t2 t3 c)"
  by (cases ok) (simp_all add: countDelivery_def Let_def)

lemma getConsumerById_get:
  "getConsumerById env i s = (case getCo env s i of None \<Rightarrow> Inl (NotFoundException (''Consumer with ID '' @ i @ '' not found'')) | Some c \<Rightarrow> Inr c)"
  by (simp add: getConsumerById_def rGet_def)

context mon_tables
begin

lemma coInv_save:
  assumes "coInv env s" and "c_failedDeliveries c \<le> c_totalDeliveries c"
    and "\<And>j d. getCo env s j = Some d \<Longrightarrow> c_url d = c_url c \<Longrightarrow> j = c_id c"
  shows "coInv env (saveCo env c s)"
  unfolding coInv_def
proof (intro conjI allI impI)
  fix i j a b
  assume "getCo env (saveCo env c s) i = Some a" "getCo env (saveCo env c s) j = Some b" "c_url a = c_url b"
  then show "i = j" using assms(1,3) unfolding coInv_def getCo_saveCo
    by (cases "i = c_id c"; cases "j = c_id c") auto
next
  fix i a
  assume "getCo env (saveCo env c s) i = Some a"
  then show "c_failedDeliveries a \<le> c_totalDeliveries a" using assms(1,2) unfolding coInv_def getCo_saveCo
    by (auto split: if_splits)
qed

lemma coInv_keep_url:
  assumes "coInv env s" and "getCo env s i = Some c" and "c_id c' = c_id c" and "c_url c' = c_url c"
    and "c_failedDeliveries c' \<le> c_totalDeliveries c'"
  shows "coInv env (saveCo env c' s)"
proof (rule coInv_save [OF assms(1,5)])
  fix j d
  assume "getCo env s j = Some d" "c_url d = c_url c'"
  then have "j = i" using assms(1,2,4) unfolding coInv_def by metis
  then show "j = c_id c'" using getCo_id [OF assms(2)] assms(3) by simp
qed

lemma coInv_change:
  assumes "coInv env s" and "\<And>c. c_id (f c) = c_id c \<and> c_url (f c) = c_url c"
    and "\<And>c. c_failedDeliveries c \<le> c_totalDeliveries c \<Longrightarrow> c_failedDeliveries (f c) \<le> c_totalDeliveries (f c)"
  shows "coInv env (snd (changeConsumer env i f s))"
proof (cases "getCo env s i")
  case None
  then show ?thesis using assms(1) by (simp add: changeConsumer_def getConsumerById_get)
next
  case (Some c)
  have "coInv env (saveCo env (f c) s)"
    by (rule coInv_keep_url [OF assms(1) Some]) (use assms Some in \<open>auto simp: coInv_def\<close>)
  with Some show ?thesis by (simp add: changeConsumer_def getConsumerById_get)
qed

lemma coInv_create:
  assumes "coInv env s"
  shows "coInv env (snd (createConsumer env newId d s))"
proof (cases "rFindOne (coRepo env) (\<lambda>c. c_url c = cd_url d) (coTab s)")
  case None
  have "c_url c \<noteq> cd_url d" if "getCo env s j = Some c" for j c
    using C.findOne_NoneD [OF None that] .
  then show ?thesis using None assms by (auto simp: createConsumer_def Let_def intro!: coInv_save)
next
  case (Some c)
  then show ?thesis using assms by (simp add: createConsumer_def)
qed

lemma coInv_update:
  assumes "coInv env s" and "ud_url d \<noteq> Some []"
  shows "coInv env (snd (updateConsumer env i d s))"
proof (cases "getCo env s i")
  case None
  then show ?thesis using assms(1) by (simp add: updateConsumer_def getConsumerById_get)
next
  case (Some c)
  let ?c = "assignDto d c"
  have id: "c_id ?c = i" and rt: "c_failedDeliveries ?c \<le> c_totalDeliveries ?c"
    using getCo_id [OF Some] assms(1) Some by (auto simp: assignDto_def coInv_def)
  let ?P = "\<lambda>x. Some (c_url x) = ud_url d"
  let ?clash = "strTruthy (ud_url d) \<and> ud_url d \<noteq> Some (c_url c) \<and>
      (case rFindOne (coRepo env) ?P (coTab s) of None \<Rightarrow> False | Some existing \<Rightarrow> c_id existing \<noteq> i)"
  show ?thesis
  proof (cases ?clash)
    case True
    then have "snd (updateConsumer env i d s) = s"
      using Some by (auto simp: updateConsumer_def getConsumerById_get)
    with assms(1) show ?thesis by simp
  next
    case False
    have eq: "snd (updateConsumer env i d s) = saveCo env ?c s"
      using Some False by (auto simp: updateConsumer_def getConsumerById_get Let_def)
    have "j = i" if g: "getCo env s j = Some x" and u: "c_url x = c_url ?c" for j x
    proof (cases "ud_url d = None \<or> ud_url d = Some (c_url c)")
      case True
      then have "c_url ?c = c_url c" by (auto simp: assignDto_def orKeep_def)
      then show ?thesis using assms(1) g u Some unfolding coInv_def by metis
    next
      case new: False
      then have P: "?P x" using u by (auto simp: assignDto_def orKeep_def)
      have truthy: "strTruthy (ud_url d)" using new assms(2) by (auto simp: strTruthy_def split: option.splits)
      obtain y where y: "rFindOne (coRepo env) ?P (coTab s) = Some y" "?P y"
        using C.findOne_exists [OF g, of ?P] P by blast
      have yi: "c_id y = i" using False truthy new y(1) by auto
      have gy: "getCo env s (c_id y) = Some y" using C.findOne_Some [OF y(1)] C.find_get by blast
      have "c_url y = c_url x" using y(2) P by (metis option.inject)
      then show ?thesis using assms(1) g gy yi unfolding coInv_def by metis
    qed
    then show ?thesis unfolding eq using assms(1) rt id by (intro coInv_save) auto
  qed
qed

lemma coInv_delete: "coInv env s \<Longrightarrow> coInv env (snd (deleteConsumer env i s))"
  by (cases "getCo env s i")
    (simp_all add: deleteConsumer_def getConsumerById_get coInv_def C.get_delete split: option.splits)

lemma coInv_stats:
  assumes "coInv env s"
  shows "coInv env (snd (updateDeliveryStats env i ok t s))"
proof (cases "getCo env s i")
  case None
  then show ?thesis using assms by (simp add: updateDeliveryStats_def getConsumerById_get)
next
  case (Some c)
  have s1: "coInv env (mtick (mtick s))" using assms by simp
  have "coInv env (saveCo env (countDelivery ok t1 t2 t3 c) (mtick (mtick s)))" for t1 t2 t3
    by (rule coInv_keep_url [OF s1, of i c]) (use Some assms in \<open>auto simp: coInv_def intro: countDelivery_ratio\<close>)
  with Some show ?thesis by (simp add: updateDeliveryStats_def getConsumerById_get Let_def)
qed

lemma coInv_step:
  assumes "consumer_step env s s'" and "coInv env s"
  shows "coInv env s'"
  using assms(1)
proof cases
  case (suspend i reason)
  have "coInv env (mtick s)" using assms(2) by simp
  then show ?thesis unfolding suspend(1) suspendConsumer_def by (rule coInv_change) (simp_all add: Let_def)
next
  case other
  then show ?thesis using assms(2) coInv_frame by blast
qed (use assms(2) in \<open>auto simp: activateConsumer_def deactivateConsumer_def
      intro: coInv_create coInv_update coInv_delete coInv_stats coInv_change\<close>)

end


text \<open>The in-memory monitor of the witnesses.\<close>

definition memMenv :: "(nat \<Rightarrow> request \<Rightarrow> (nat option \<times> string) + nat) \<Rightarrow> (StellarEvent list, WebhookConsumer list) menv" where
  "memMenv post = \<lparr>evRepo = memRepo e_id, coRepo = memRepo c_id, mclock = int, hmacSha256 = (\<lambda>k m. k @ m), httpPost = post\<rparr>"

definition memMon :: "StellarEvent list \<Rightarrow> WebhookConsumer list \<Rightarrow> (StellarEvent list, WebhookConsumer list) mon" where
  "memMon es cs = \<lparr>evTab = es, coTab = cs, deliveryQueue = [], retryTimers = [], isProcessingQueue = False,
     posted = [], mticks = 0\<rparr>"

interpretation memm: mon_tables "memMenv post" for post
  unfolding mon_tables_def memMenv_def by (simp add: mem.repository_axioms)

definition sampleConsumer :: "string \<Rightarrow> nat \<Rightarrow> WebhookConsumer" where
  "sampleConsumer i failed =
     \<lparr>c_id = i, c_name = ''c'' @ i, c_url = ''https://'' @ i, c_secret = Some ''s3cret'', c_status = ACTIVE,
      c_maxRetries = 5, c_timeoutMs = 5000, c_isActive = True, c_createdAt = 0, c_updatedAt = 0, c_metadata = [],
      c_lastDeliveryAttempt = None, c_lastDeliverySuccess = None, c_totalDeliveries = failed, c_failedDeliveries = failed\<rparr>"

definition sampleEvent :: "string \<Rightarrow> StellarEvent" where
  "sampleEvent i =
     \<lparr>e_id = i, e_eventType = PAYMENT, e_ledgerSequence = 7, e_timestamp = 0, e_transactionHash = ''h'',
      e_sourceAccount = ''G'', e_payload = JObj [], e_deliveryStatus = DPENDING, e_deliveryAttempts = 0,
      e_lastAttemptAt = None, e_deliveredAt = None, e_deliveredTo = None, e_failedDeliveries = None,
      e_createdAt = 0, e_updatedAt = 0, e_errorMessage = None, e_isProcessed = False\<rparr>"

lemmas mon_simps = memMenv_def memMon_def sampleConsumer_def sampleEvent_def rGet_def memFindOne_def memFind_def

lemma round2_bounds:
  assumes "0 \<le> x" and "x \<le> 100"
  shows "0 \<le> round2 x \<and> round2 x \<le> 100"
proof -
  define n where "n = \<lfloor>x * 100 + 1 / 2\<rfloor>"
  have "0 \<le> n" using assms(1) by (simp add: n_def)
  moreover have "x * 100 + 1 / 2 < 10001" using assms(2) by linarith
  then have "n < 10001" unfolding n_def by linarith
  then have "n \<le> 10000" by simp
  then have "(of_int n :: rat) \<le> 10000" by simp
  ultimately show ?thesis by (simp add: round2_def n_def [symmetric])
qed

text \<open>
  The consumer table keeps its invariant over every sequence of calls: no two consumers share a URL,
  and a consumer never has more failed than total deliveries, so that its success rate stays between
  0 and 100.
\<close>

theorem consumers_invariant:
  assumes "mon_tables env" and "(consumer_step env)\<^sup>*\<^sup>* s s'" and "coInv env s"
  shows "coInv env s' \<and>
     (\<forall>i r. getConsumerHealthStats env i s' = Inr r \<longrightarrow> 0 \<le> fst r \<and> fst r \<le> 100)"
proof -
  have inv: "coInv env s'" using assms(2,3)
    by (induction rule: rtranclp_induct) (auto intro: mon_tables.coInv_step [OF assms(1)])
  have "0 \<le> fst r \<and> fst r \<le> 100" if h: "getConsumerHealthStats env i s' = Inr r" for i r
  proof -
    obtain c where c: "getCo env s' i = Some c"
      using h by (cases "getCo env s' i") (simp_all add: getConsumerHealthStats_def getConsumerById_get)
    have le: "c_failedDeliveries c \<le> c_totalDeliveries c" using inv c by (auto simp: coInv_def)
    let ?q = "(of_nat (c_totalDeliveries c) - of_nat (c_failedDeliveries c)) / of_nat (c_totalDeliveries c) :: rat"
    let ?x = "if 0 < c_totalDeliveries c then ?q * 100 else 100 :: rat"
    have x: "0 \<le> ?x" "?x \<le> 100" using le by (auto simp: divide_le_eq_1 field_simps)
    have "fst r = round2 ?x"
      using h c by (auto simp: getConsumerHealthStats_def getConsumerById_get Let_def)
    then show ?thesis using round2_bounds [OF x] by simp
  qed
  with inv show ?thesis by blast
qed

theorem consumers_invariant_witness:
  "let env = memMenv (\<lambda>_ _. Inr 200); s = memMon [] [sampleConsumer ''a'' 3] in
   coInv env (snd (updateDeliveryStats env ''a'' False None s)) \<and>
   fst (createConsumer env ''b'' \<lparr>cd_name = ''x'', cd_url = ''https://a'', cd_secret = None, cd_maxRetries = 5,
      cd_timeoutMs = 5000, cd_isActive = True\<rparr> s) = Inl (BadRequestException ''Consumer with this URL already exists'')"
proof -
  let ?env = "memMenv (\<lambda>_ _. Inr 200)" and ?s = "memMon [] [sampleConsumer ''a'' 3]"
  have inv: "coInv ?env ?s" by (auto simp: coInv_def mon_simps split: if_splits list.splits)
  have "(consumer_step ?env)\<^sup>*\<^sup>* ?s (snd (updateDeliveryStats ?env ''a'' False None ?s))"
    by (intro r_into_rtranclp consumer_step.stats)
  from consumers_invariant [OF memm.mon_tables_axioms this inv]
  have "coInv ?env (snd (updateDeliveryStats ?env ''a'' False None ?s))" by blast
  moreover have "fst (createConsumer ?env ''b'' \<lparr>cd_name = ''x'', cd_url = ''https://a'', cd_secret = None, cd_maxRetries = 5,
      cd_timeoutMs = 5000, cd_isActive = True\<rparr> ?s) = Inl (BadRequestException ''Consumer with this URL already exists'')"
    by (simp add: createConsumer_def mon_simps)
  ultimately show ?thesis unfolding Let_def by blast
qed

section \<open>Automatic suspension\<close>

fun failTimes :: "('et, 'ct) menv \<Rightarrow> string \<Rightarrow> nat \<Rightarrow> ('et, 'ct) mon \<Rightarrow> ('et, 'ct) mon" where
  "failTimes env i 0 s = s"
| "failTimes env i (Suc n) s = snd (updateDeliveryStats env i False None (failTimes env i n s))"

context mon_tables
begin

lemma failTimes_run:
  assumes "getCo env s i = Some c"
  shows "\<exists>c'. getCo env (failTimes env i n s) i = Some c' \<and> c_failedDeliveries c' = c_failedDeliveries c + n \<and>
     (c_failedDeliveries c + n \<le> 10 \<longrightarrow> c_isActive c' = c_isActive c \<and> c_status c' = c_status c) \<and>
     (10 < c_failedDeliveries c + n \<longrightarrow> 0 < n \<longrightarrow> \<not> c_isActive c' \<and> c_status c' = SUSPENDED)"
proof (induction n)
  case 0
  then show ?case using assms by simp
next
  case (Suc n)
  then obtain c' where c': "getCo env (failTimes env i n s) i = Some c'" "c_failedDeliveries c' = c_failedDeliveries c + n"
    "c_failedDeliveries c + n \<le> 10 \<longrightarrow> c_isActive c' = c_isActive c \<and> c_status c' = c_status c" by blast
  have id: "c_id c' = i" using c'(1) by (rule getCo_id)
  show ?case using c' id
    by (auto simp: updateDeliveryStats_def getConsumerById_get Let_def getCo_saveCo countDelivery_def)
qed

end

text \<open>
  C13. Automatic suspension: an active consumer whose failure counter is \<open>f\<close> stays active while at most
  ten failures are counted, and the failure that makes the counter exceed ten suspends it, after which
  it is no longer among the consumers that events are queued for.
\<close>

theorem consumer_suspended_after_failures:
  assumes "mon_tables env" and "getCo env s i = Some c" and "c_isActive c" and "c_status c = ACTIVE"
    and "c_failedDeliveries c \<le> 10"
  shows "(\<exists>c'. getCo env (failTimes env i (10 - c_failedDeliveries c) s) i = Some c' \<and>
            c' \<in> set (getActiveConsumers env (failTimes env i (10 - c_failedDeliveries c) s))) \<and>
         (\<exists>c'. getCo env (failTimes env i (11 - c_failedDeliveries c) s) i = Some c' \<and> c_status c' = SUSPENDED \<and>
            i \<notin> c_id ` set (getActiveConsumers env (failTimes env i (11 - c_failedDeliveries c) s)))"
proof -
  have C: "repository (coRepo env) c_id" using assms(1) by (simp add: mon_tables_def)
  have act: "x \<in> set (getActiveConsumers env t) \<longleftrightarrow> getCo env t (c_id x) = Some x \<and> c_isActive x \<and> c_status x = ACTIVE" for x t
    by (simp add: getActiveConsumers_def repository.findOrd_set [OF C] repository.find_iff [OF C])
  note run = mon_tables.failTimes_run [OF assms(1,2)]
  have id: "getCo env t j = Some x \<Longrightarrow> c_id x = j" for t j x by (rule mon_tables.getCo_id [OF assms(1)])
  have "\<exists>c'. getCo env (failTimes env i (10 - c_failedDeliveries c) s) i = Some c' \<and>
            c' \<in> set (getActiveConsumers env (failTimes env i (10 - c_failedDeliveries c) s))"
    using run [of "10 - c_failedDeliveries c"] assms(3-5) id unfolding act by fastforce
  moreover have "\<exists>c'. getCo env (failTimes env i (11 - c_failedDeliveries c) s) i = Some c' \<and> c_status c' = SUSPENDED \<and>
            i \<notin> c_id ` set (getActiveConsumers env (failTimes env i (11 - c_failedDeliveries c) s))"
    using run [of "11 - c_failedDeliveries c"] assms(5) by (auto simp: act)
  ultimately show ?thesis by blast
qed

theorem consumer_suspended_after_failures_witness:
  "let env = memMenv (\<lambda>_ _. Inr 200); s = memMon [] [sampleConsumer ''a'' 9] in
   \<exists>c'. getCo env (failTimes env ''a'' 2 s) ''a'' = Some c' \<and> c_status c' = SUSPENDED"
proof -
  let ?env = "memMenv (\<lambda>_ _. Inr 200)" and ?s = "memMon [] [sampleConsumer ''a'' 9]" and ?c = "sampleConsumer ''a'' 9"
  have g: "getCo ?env ?s ''a'' = Some ?c" by (simp add: mon_simps)
  have c: "c_isActive ?c" "c_status ?c = ACTIVE" "c_failedDeliveries ?c \<le> 10" "11 - c_failedDeliveries ?c = 2"
    by (simp_all add: sampleConsumer_def)
  show ?thesis using consumer_suspended_after_failures [OF memm.mon_tables_axioms g c(1-3)] unfolding c(4) Let_def by blast
qed

end
