(* ===== verification/Stellar_Delivery.thy ===== *)
theory Stellar_Delivery
  imports Stellar_Storage
begin

text \<open>
  The webhook delivery service, \<^verbatim>\<open>stellar-monitor/services/webhook-delivery.service.ts\<close>: the queue of
  pairs of an event and a consumer, the signed request, the bookkeeping after a delivery and the
  retries. The HTTP client and the HMAC are parameters. The deliveries of one batch are taken one after
  the other; the event of a queue entry is the object that was queued and is never read again from the
  table, as in the source.
\<close>

section \<open>Requests\<close>

record DeliveryResult =
  r_success :: bool
  r_statusCode :: "nat option"
  r_errorMessage :: "string option"

definition calculateBackoffDelay :: "nat \<Rightarrow> nat" where
  "calculateBackoffDelay attempt = min (1000 * 2 ^ (attempt - 1)) 300000"

definition generateSignature :: "('et, 'ct) menv \<Rightarrow> string \<Rightarrow> string \<Rightarrow> string" where
  "generateSignature env payload secret = hmacSha256 env secret payload"

definition deliveryPayload :: "StellarEvent \<Rightarrow> date \<Rightarrow> json" where
  "deliveryPayload event now =
     JObj [(''id'', JStr (e_id event)), (''eventType'', JStr (eventTypeName (e_eventType event))),
           (''ledgerSequence'', JNum (e_ledgerSequence event)),
           (''timestamp'', JStr (toISOString (e_timestamp event))),
           (''transactionHash'', JStr (e_transactionHash event)),
           (''sourceAccount'', JStr (e_sourceAccount event)), (''payload'', e_payload event),
           (''deliveredAt'', JStr (toISOString now))]"

definition deliveryRequest ::
    "('et, 'ct) menv \<Rightarrow> StellarEvent \<Rightarrow> WebhookConsumer \<Rightarrow> date \<Rightarrow> request" where
  "deliveryRequest env event consumer now =
     (let payload = deliveryPayload event now;
          headers = [(''X-Stellar-Event-ID'', e_id event),
                     (''X-Stellar-Event-Type'', eventTypeName (e_eventType event)),
                     (''X-Delivery-Attempt'', showNat (e_deliveryAttempts event + 1))];
          signed = (if strTruthy (c_secret consumer)
                    then headers @ [(''X-Signature'',
                           generateSignature env (stringify None payload) (the (c_secret consumer)))]
                    else headers)
      in \<lparr>q_url = c_url consumer, q_timeout = c_timeoutMs consumer, q_headers = signed, q_body = payload\<rparr>)"

definition attemptDelivery ::
    "('et, 'ct) menv \<Rightarrow> StellarEvent \<Rightarrow> WebhookConsumer \<Rightarrow> ('et, 'ct) mon \<Rightarrow> DeliveryResult \<times> ('et, 'ct) mon" where
  "attemptDelivery env event consumer s =
     (let rq = deliveryRequest env event consumer (mnow env s);
          s1 = (mtick s)\<lparr>posted := posted s @ [rq]\<rparr>
      in case httpPost env (length (posted s)) rq of
           Inr status \<Rightarrow> (\<lparr>r_success = True, r_statusCode = Some status, r_errorMessage = None\<rparr>, s1)
         | Inl (status, msg) \<Rightarrow> (\<lparr>r_success = False, r_statusCode = status, r_errorMessage = Some msg\<rparr>, s1))"

section \<open>After a delivery\<close>

definition handleSuccessfulDelivery ::
    "('et, 'ct) menv \<Rightarrow> StellarEvent \<Rightarrow> WebhookConsumer \<Rightarrow> (('et, 'ct) mon, unit) action" where
  "handleSuccessfulDelivery env event consumer s =
     (case updateEventStatus env (e_id event) DELIVERED (Some (c_id consumer)) None s of
        (Inl err, s1) \<Rightarrow> (Inl err, s1)
      | (Inr _, s1) \<Rightarrow>
          (case updateDeliveryStats env (c_id consumer) True None s1 of
             (Inl err, s2) \<Rightarrow> (Inl err, s2)
           | (Inr _, s2) \<Rightarrow>
               let activeConsumers = getActiveConsumers env s2;
                   deliveredCount = (case e_deliveredTo event of None \<Rightarrow> 0 | Some l \<Rightarrow> length l) + 1
               in if length activeConsumers \<le> deliveredCount
                  then (case markEventAsProcessed env (e_id event) s2 of
                          (Inl err, s3) \<Rightarrow> (Inl err, s3) | (Inr _, s3) \<Rightarrow> (Inr (), s3))
                  else (Inr (), s2)))"

definition handleFailedDelivery ::
    "('et, 'ct) menv \<Rightarrow> StellarEvent \<Rightarrow> WebhookConsumer \<Rightarrow> string option \<Rightarrow> (('et, 'ct) mon, unit) action" where
  "handleFailedDelivery env event consumer errorMessage s =
     (case updateDeliveryStats env (c_id consumer) False None s of
        (Inl err, s1) \<Rightarrow> (Inl err, s1)
      | (Inr _, s1) \<Rightarrow>
          let attemptNumber = e_deliveryAttempts event + 1
          in if c_maxRetries consumer \<le> attemptNumber
             then (case updateEventStatus env (e_id event) DFAILED (Some (c_id consumer)) errorMessage s1 of
                     (Inl err, s2) \<Rightarrow> (Inl err, s2) | (Inr _, s2) \<Rightarrow> (Inr (), s2))
             else (Inr (), s1\<lparr>retryTimers := retryTimers s1 @
                     [(calculateBackoffDelay attemptNumber, event, consumer)]\<rparr>))"

definition deliverEventToConsumer ::
    "('et, 'ct) menv \<Rightarrow> StellarEvent \<times> WebhookConsumer \<Rightarrow> (('et, 'ct) mon, unit) action" where
  "deliverEventToConsumer env item s =
     (case item of (event, consumer) \<Rightarrow>
        let body = (case getConsumerById env (c_id consumer) s of
               Inl err \<Rightarrow> (Inl err, s)
             | Inr freshConsumer \<Rightarrow>
                 if \<not> c_isActive freshConsumer then (Inr (), s)
                 else (case attemptDelivery env event freshConsumer s of
                         (result, s1) \<Rightarrow>
                           if r_success result then handleSuccessfulDelivery env event consumer s1
                           else handleFailedDelivery env event consumer (r_errorMessage result) s1))
        in case body of
             (Inr _, s') \<Rightarrow> (Inr (), s')
           | (Inl err, s') \<Rightarrow> handleFailedDelivery env event consumer (Some (message err)) s')"

section \<open>The queue\<close>

definition processQueue :: "('et, 'ct) menv \<Rightarrow> ('et, 'ct) mon \<Rightarrow> ('et, 'ct) mon" where
  "processQueue env s =
     (if isProcessingQueue s \<or> deliveryQueue s = [] then s
      else let batch = take 10 (deliveryQueue s);
               s1 = s\<lparr>isProcessingQueue := True, deliveryQueue := drop 10 (deliveryQueue s)\<rparr>
           in (forEachLogged (deliverEventToConsumer env) batch s1)\<lparr>isProcessingQueue := False\<rparr>)"

definition queueEventForDelivery ::
    "('et, 'ct) menv \<Rightarrow> StellarEvent \<Rightarrow> (('et, 'ct) mon, unit) action" where
  "queueEventForDelivery env event s =
     (let activeConsumers = getActiveConsumers env s
      in if activeConsumers = []
         then (case markEventAsProcessed env (e_id event) s of (Inl err, s1) \<Rightarrow> (Inl err, s1) | (Inr _, s1) \<Rightarrow> (Inr (), s1))
         else let s1 = s\<lparr>deliveryQueue := deliveryQueue s @ map (\<lambda>c. (event, c)) activeConsumers\<rparr>
              in (Inr (), if \<not> isProcessingQueue s1 then processQueue env s1 else s1))"

text \<open>The timer of the first scheduled retry fires.\<close>

definition fireRetry :: "('et, 'ct) menv \<Rightarrow> ('et, 'ct) mon \<Rightarrow> ('et, 'ct) mon" where
  "fireRetry env s =
     (case retryTimers s of
        [] \<Rightarrow> s
      | (_, event, consumer) # rest \<Rightarrow>
          let s1 = s\<lparr>retryTimers := rest, deliveryQueue := deliveryQueue s @ [(event, consumer)]\<rparr>
          in if \<not> isProcessingQueue s1 then processQueue env s1 else s1)"

text \<open>A test event has no attempt counter, so its attempt header prints as not a number.\<close>

definition deliverTestEvent ::
    "('et, 'ct) menv \<Rightarrow> string \<Rightarrow> (('et, 'ct) mon, DeliveryResult) action" where
  "deliverTestEvent env consumerId s =
     (case getConsumerById env consumerId s of
        Inl err \<Rightarrow> (Inl err, s)
      | Inr consumer \<Rightarrow>
          if \<not> c_isActive consumer
          then (Inr \<lparr>r_success = False, r_statusCode = None, r_errorMessage = Some ''Consumer is not active''\<rparr>, s)
          else
            let testId = ''test-'' @ showInt (mnow env s); s1 = mtick s;
                payload = JObj [(''id'', JStr testId), (''eventType'', JStr (eventTypeName PAYMENT)),
                    (''ledgerSequence'', JNum 123456), (''timestamp'', JStr (toISOString (mnow env s1))),
                    (''transactionHash'', JStr ''test-transaction-hash''),
                    (''sourceAccount'', JStr ''test-source-account''),
                    (''payload'', JObj [(''test'', JBool True), (''message'', JStr ''This is a test event'')]),
                    (''deliveredAt'', JStr (toISOString (mnow env (mtick s1))))];
                headers = [(''X-Stellar-Event-ID'', testId), (''X-Stellar-Event-Type'', eventTypeName PAYMENT),
                           (''X-Delivery-Attempt'', ''NaN'')];
                signed = (if strTruthy (c_secret consumer)
                    then headers @ [(''X-Signature'', generateSignature env (stringify None payload) (the (c_secret consumer)))]
                    else headers);
                rq = \<lparr>q_url = c_url consumer, q_timeout = c_timeoutMs consumer, q_headers = signed, q_body = payload\<rparr>;
                s2 = (mtick (mtick s1))\<lparr>posted := posted s @ [rq]\<rparr>
            in (case httpPost env (length (posted s)) rq of
                  Inr status \<Rightarrow> (Inr \<lparr>r_success = True, r_statusCode = Some status, r_errorMessage = None\<rparr>, s2)
                | Inl (status, msg) \<Rightarrow> (Inr \<lparr>r_success = False, r_statusCode = status, r_errorMessage = Some msg\<rparr>, s2)))"

definition getQueueSize :: "('et, 'ct) mon \<Rightarrow> nat" where
  "getQueueSize s = length (deliveryQueue s)"

definition getDeliveryStats :: "('et, 'ct) menv \<Rightarrow> ('et, 'ct) mon \<Rightarrow> nat \<times> nat \<times> nat" where
  "getDeliveryStats env s =
     (length (deliveryQueue s), length (getActiveConsumers env s), length (getPendingEvents env 50 s))"

section \<open>Backoff and signature\<close>

text \<open>
  The delay before a webhook retry doubles from one second with every attempt, is never longer than
  five minutes, and reaches that limit from the tenth attempt on.
\<close>

theorem calculateBackoffDelay_doubles:
  "calculateBackoffDelay 1 = 1000 \<and> calculateBackoffDelay n \<le> 300000 \<and>
   (0 < n \<longrightarrow> calculateBackoffDelay (Suc n) = min (2 * calculateBackoffDelay n) 300000) \<and>
   (10 \<le> n \<longrightarrow> calculateBackoffDelay n = 300000)"
proof -
  have "calculateBackoffDelay (Suc n) = min (2 * calculateBackoffDelay n) 300000" if "0 < n"
  proof -
    obtain m where n: "n = Suc m" using \<open>0 < n\<close> by (cases n) auto
    show ?thesis by (simp add: calculateBackoffDelay_def n min_def)
  qed
  moreover have "calculateBackoffDelay n = 300000" if "10 \<le> n"
  proof -
    have "(2::nat) ^ 9 \<le> 2 ^ (n - 1)" using \<open>10 \<le> n\<close> by (intro power_increasing) auto
    then show ?thesis by (simp add: calculateBackoffDelay_def min_def)
  qed
  ultimately show ?thesis by (simp add: calculateBackoffDelay_def)
qed

theorem calculateBackoffDelay_doubles_witness:
  "calculateBackoffDelay 4 = 8000 \<and> calculateBackoffDelay 12 = 300000"
proof -
  have 3: "calculateBackoffDelay 3 = 4000" by (simp add: calculateBackoffDelay_def)
  have "calculateBackoffDelay 4 = 8000" using calculateBackoffDelay_doubles [of 3] 3 by simp
  then show ?thesis using calculateBackoffDelay_doubles [of 12] by simp
qed


text \<open>
  Every delivery sends exactly one request, to the consumer's URL with its timeout, and the request
  carries a signature exactly if the consumer has a secret: the HMAC under that secret of the printed
  body that is sent. The result reports success exactly if the client got an answer.
\<close>

theorem attemptDelivery_signed:
  assumes "attemptDelivery env event consumer s = (result, s')"
  shows "\<exists>rq. posted s' = posted s @ [rq] \<and> q_url rq = c_url consumer \<and> q_timeout rq = c_timeoutMs consumer \<and>
     map_of (q_headers rq) ''X-Signature'' =
       (case c_secret consumer of
          None \<Rightarrow> None
        | Some secret \<Rightarrow> if secret = [] then None else Some (hmacSha256 env secret (stringify None (q_body rq)))) \<and>
     (r_success result \<longleftrightarrow> (\<exists>st. httpPost env (length (posted s)) rq = Inr st)) \<and>
     evTab s' = evTab s \<and> coTab s' = coTab s"
proof -
  let ?rq = "deliveryRequest env event consumer (mnow env s)"
  have "posted s' = posted s @ [?rq]" "evTab s' = evTab s" "coTab s' = coTab s"
    "r_success result \<longleftrightarrow> (\<exists>st. httpPost env (length (posted s)) ?rq = Inr st)"
    using assms by (auto simp: attemptDelivery_def Let_def split: sum.splits)
  moreover have "q_url ?rq = c_url consumer" "q_timeout ?rq = c_timeoutMs consumer"
    "map_of (q_headers ?rq) ''X-Signature'' =
       (case c_secret consumer of
          None \<Rightarrow> None
        | Some secret \<Rightarrow> if secret = [] then None else Some (hmacSha256 env secret (stringify None (q_body ?rq))))"
    by (simp_all add: deliveryRequest_def Let_def generateSignature_def strTruthy_def split: option.splits)
  ultimately show ?thesis by blast
qed

theorem attemptDelivery_signed_witness:
  "let env = memMenv (\<lambda>_ _. Inr 200);
       s' = snd (attemptDelivery env (sampleEvent ''e'') (sampleConsumer ''a'' 0) (memMon [] []))
   in \<exists>rq. posted s' = [rq] \<and> map_of (q_headers rq) ''X-Signature'' = Some (''s3cret'' @ stringify None (q_body rq))"
proof -
  have "posted (memMon [] []) = []" "c_secret (sampleConsumer ''a'' 0) = Some ''s3cret''"
    "hmacSha256 (memMenv (\<lambda>_ _. Inr 200)) k m = k @ m" for k m
    by (simp_all add: mon_simps)
  then show ?thesis
    using attemptDelivery_signed [OF prod.collapse [symmetric], of "memMenv (\<lambda>_ _. Inr 200)" "sampleEvent ''e''"
        "sampleConsumer ''a'' 0" "memMon [] []"]
    unfolding Let_def by auto
qed

section \<open>Retries\<close>

text \<open>\<open>n\<close> timers fire one after the other.\<close>

fun rounds :: "('et, 'ct) menv \<Rightarrow> nat \<Rightarrow> ('et, 'ct) mon \<Rightarrow> ('et, 'ct) mon" where
  "rounds env 0 s = s"
| "rounds env (Suc n) s = fireRetry env (rounds env n s)"

definition idle :: "('et, 'ct) mon \<Rightarrow> bool" where
  "idle s \<longleftrightarrow> deliveryQueue s = [] \<and> \<not> isProcessingQueue s"

text \<open>The state after \<open>n\<close> rounds that all fail: \<open>k\<close> failures are left until the suspension.\<close>

definition retrying :: "('et, 'ct) menv \<Rightarrow> StellarEvent \<Rightarrow> WebhookConsumer \<Rightarrow> nat \<Rightarrow> nat \<Rightarrow> ('et, 'ct) mon \<Rightarrow> ('et, 'ct) mon \<Rightarrow> bool" where
  "retrying env e c f n s0 s \<longleftrightarrow>
     idle s \<and> evTab s = evTab s0 \<and> length (posted s) = length (posted s0) + min n (11 - f) \<and>
     (\<exists>c1. getCo env s (c_id c) = Some c1 \<and> c_failedDeliveries c1 = f + min n (11 - f) \<and>
        (c_isActive c1 \<longleftrightarrow> f + n \<le> 10)) \<and>
     (if n \<le> 11 - f then \<exists>d. retryTimers s = [(d, e, c)] else retryTimers s = [])"

context mon_tables
begin

lemma fireRetry_one:
  assumes "idle s" and "retryTimers s = [(d, e, c)]"
  shows "fireRetry env s = (snd (deliverEventToConsumer env (e, c)
           (s\<lparr>retryTimers := [], isProcessingQueue := True, deliveryQueue := []\<rparr>)))\<lparr>isProcessingQueue := False\<rparr>"
  using assms by (simp add: fireRetry_def processQueue_def idle_def)

lemma fail_once:
  assumes "getCo env s (c_id c) = Some c0" and "c_isActive c0" and "e_deliveryAttempts e + 1 < c_maxRetries c"
    and "\<And>n rq. \<exists>st m. httpPost env n rq = Inl (st, m)"
  defines "s' \<equiv> snd (deliverEventToConsumer env (e, c) s)"
  shows "evTab s' = evTab s" "deliveryQueue s' = deliveryQueue s"
    "retryTimers s' = retryTimers s @ [(calculateBackoffDelay (e_deliveryAttempts e + 1), e, c)]"
    "length (posted s') = Suc (length (posted s))"
    "\<exists>c1. getCo env s' (c_id c) = Some c1 \<and> c_failedDeliveries c1 = Suc (c_failedDeliveries c0) \<and>
       (c_isActive c1 \<longleftrightarrow> Suc (c_failedDeliveries c0) \<le> 10)"
proof -
  obtain res s1 where att: "attemptDelivery env e c0 s = (res, s1)" by (metis surj_pair)
  have res: "\<not> r_success res" and s1: "evTab s1 = evTab s" "coTab s1 = coTab s" "deliveryQueue s1 = deliveryQueue s"
    "retryTimers s1 = retryTimers s" "length (posted s1) = Suc (length (posted s))"
    using att assms(4) [of "length (posted s)" "deliveryRequest env e c0 (mnow env s)"]
    by (auto simp: attemptDelivery_def Let_def split: sum.splits)
  have id: "c_id c0 = c_id c" using assms(1) by (rule getCo_id)
  have get: "getCo env s1 (c_id c) = Some c0" using assms(1) s1 by simp
  obtain c1 s2 where st: "updateDeliveryStats env (c_id c) False None s1 = (Inr c1, s2)"
    and c1: "getCo env s2 (c_id c) = Some (c1\<lparr>c_updatedAt := mnow env (mtick (mtick s1))\<rparr>)" "c_failedDeliveries c1 = Suc (c_failedDeliveries c0)"
      "c_isActive c1 \<longleftrightarrow> Suc (c_failedDeliveries c0) \<le> 10"
    and s2: "evTab s2 = evTab s1" "deliveryQueue s2 = deliveryQueue s1" "retryTimers s2 = retryTimers s1" "posted s2 = posted s1"
    using get assms(2) id
    by (auto simp: updateDeliveryStats_def getConsumerById_get Let_def getCo_saveCo countDelivery_def)
  let ?s3 = "s2\<lparr>retryTimers := retryTimers s2 @ [(calculateBackoffDelay (e_deliveryAttempts e + 1), e, c)]\<rparr>"
  have "handleFailedDelivery env e c m s1 = (Inr (), ?s3)" for m
    using st assms(3) by (simp add: handleFailedDelivery_def)
  then have s': "s' = ?s3"
    using assms(1,2) att res by (simp add: s'_def deliverEventToConsumer_def getConsumerById_get)
  show "evTab s' = evTab s" "deliveryQueue s' = deliveryQueue s"
    "retryTimers s' = retryTimers s @ [(calculateBackoffDelay (e_deliveryAttempts e + 1), e, c)]"
    "length (posted s') = Suc (length (posted s))"
    using s1 s2 by (simp_all add: s')
  show "\<exists>c1. getCo env s' (c_id c) = Some c1 \<and> c_failedDeliveries c1 = Suc (c_failedDeliveries c0) \<and>
       (c_isActive c1 \<longleftrightarrow> Suc (c_failedDeliveries c0) \<le> 10)"
    using c1 by (simp add: s')
qed

lemma skip_inactive:
  assumes "getCo env s (c_id c) = Some c0" and "\<not> c_isActive c0"
  shows "snd (deliverEventToConsumer env (e, c) s) = s"
  using assms by (simp add: deliverEventToConsumer_def getConsumerById_get)


lemma retrying_step:
  assumes "retrying env e c f n s0 s" and "f \<le> 10" and "e_deliveryAttempts e + 1 < c_maxRetries c"
    and "\<And>n rq. \<exists>st m. httpPost env n rq = Inl (st, m)"
  shows "retrying env e c f (Suc n) s0 (fireRetry env s)"
proof -
  obtain c1 where c1: "getCo env s (c_id c) = Some c1" "c_failedDeliveries c1 = f + min n (11 - f)"
    "c_isActive c1 \<longleftrightarrow> f + n \<le> 10" using assms(1) by (auto simp: retrying_def)
  show ?thesis
  proof (cases "n \<le> 11 - f")
    case False
    then have "fireRetry env s = s" using assms(1) by (simp add: retrying_def fireRetry_def)
    moreover have "(f + n \<le> 10) = (f + Suc n \<le> 10)" using False assms(2) by auto
    ultimately show ?thesis using False assms(1) by (simp only: retrying_def) (simp add: min_def)
  next
    case True
    then obtain d where d: "retryTimers s = [(d, e, c)]" and i: "idle s" using assms(1) by (auto simp: retrying_def)
    let ?s = "s\<lparr>retryTimers := [], isProcessingQueue := True, deliveryQueue := []\<rparr>"
    note eq = fireRetry_one [OF i d]
    have get: "getCo env ?s (c_id c) = Some c1" using c1(1) by simp
    show ?thesis
    proof (cases "f + n \<le> 10")
      case active: True
      then have "c_isActive c1" using c1(3) by simp
      note f1 = fail_once [OF get this assms(3,4)]
      have m: "min n (11 - f) = n" "min (Suc n) (11 - f) = Suc n" "Suc n \<le> 11 - f" using active by auto
      show ?thesis unfolding eq retrying_def idle_def using f1 assms(1) c1(2) m by (auto simp: retrying_def)
    next
      case False
      then have n: "n = 11 - f" using True assms(2) by simp
      have "\<not> c_isActive c1" using c1(3) False by simp
      then have "fireRetry env s = ?s\<lparr>isProcessingQueue := False\<rparr>"
        unfolding eq using skip_inactive [OF get] by simp
      then show ?thesis using assms(1,2) c1 n by (auto simp: retrying_def idle_def)
    qed
  qed
qed

lemma retrying_rounds:
  assumes "idle s" and "retryTimers s = [(d, e, c)]" and "getCo env s (c_id c) = Some c0" and "c_isActive c0"
    and "c_failedDeliveries c0 \<le> 10" and "e_deliveryAttempts e + 1 < c_maxRetries c"
    and "\<And>n rq. \<exists>st m. httpPost env n rq = Inl (st, m)"
  shows "retrying env e c (c_failedDeliveries c0) n s (rounds env n s)"
proof (induction n)
  case 0
  then show ?case using assms by (simp add: retrying_def)
next
  case (Suc n)
  from retrying_step [OF this assms(5-7)] show ?case by simp
qed

end

text \<open>
  C14. A failing webhook is retried regardless of its retry limit. The attempt number is read from the
  queued event object, which no delivery updates, so a retry that was below the limit once stays below
  it: if every request fails, the event row never changes, in particular is never marked failed, and
  requests go on until the consumer is suspended by its failure counter.
\<close>

theorem webhook_retry_ignores_limit:
  assumes "mon_tables env" and "idle s" and "retryTimers s = [(d, e, c)]" and "getCo env s (c_id c) = Some c0"
    and "c_isActive c0" and "c_failedDeliveries c0 \<le> 10" and "e_deliveryAttempts e + 1 < c_maxRetries c"
    and "\<And>n rq. \<exists>st m. httpPost env n rq = Inl (st, m)"
  shows "evTab (rounds env n s) = evTab s \<and>
     length (posted (rounds env n s)) = length (posted s) + min n (11 - c_failedDeliveries c0)"
  using mon_tables.retrying_rounds [OF assms, of n] by (simp add: retrying_def)

theorem webhook_retry_ignores_limit_witness:
  "let env = memMenv (\<lambda>_ _. Inl (Some 500, ''down'')); c = sampleConsumer ''a'' 0; e = sampleEvent ''e'';
       s = (memMon [e] [c])\<lparr>retryTimers := [(1000, e, c)]\<rparr>
   in c_maxRetries c = 5 \<and> length (posted (rounds env 20 s)) = 11 \<and> evTab (rounds env 20 s) = [e]"
proof -
  let ?env = "memMenv (\<lambda>_ _. Inl (Some 500, ''down''))" and ?c = "sampleConsumer ''a'' 0" and ?e = "sampleEvent ''e''"
  let ?s = "(memMon [?e] [?c])\<lparr>retryTimers := [(1000, ?e, ?c)]\<rparr>"
  have i: "idle ?s" and t: "retryTimers ?s = [(1000, ?e, ?c)]" and g: "getCo ?env ?s (c_id ?c) = Some ?c"
    and a: "c_isActive ?c" and f: "c_failedDeliveries ?c \<le> 10" and m: "e_deliveryAttempts ?e + 1 < c_maxRetries ?c"
    and p: "\<And>n rq. \<exists>st m. httpPost ?env n rq = Inl (st, m)"
    by (simp_all add: idle_def mon_simps)
  have z: "c_failedDeliveries ?c = 0" "posted ?s = []" "evTab ?s = [?e]" "c_maxRetries ?c = 5"
    by (simp_all add: mon_simps)
  show ?thesis
    using webhook_retry_ignores_limit [OF memm.mon_tables_axioms i t g a f m p, of 20] z unfolding Let_def by simp
qed


section \<open>Successful deliveries\<close>

definition activeIds :: "('et, 'ct) menv \<Rightarrow> ('et, 'ct) mon \<Rightarrow> string set" where
  "activeIds env s = {i. \<exists>c. getCo env s i = Some c \<and> c_isActive c \<and> c_status c = ACTIVE}"

context mon_tables
begin

lemma active_ids: "length (getActiveConsumers env s) = card (activeIds env s)"
proof -
  have "c_id ` set (getActiveConsumers env s) = activeIds env s"
  proof (rule set_eqI, rule iffI)
    fix i
    assume "i \<in> activeIds env s"
    then obtain c where c: "getCo env s i = Some c" "c_isActive c" "c_status c = ACTIVE" by (auto simp: activeIds_def)
    moreover have "c_id c = i" using c(1) by (rule getCo_id)
    ultimately have "c \<in> set (getActiveConsumers env s)" "i = c_id c"
      by (simp_all add: getActiveConsumers_def C.findOrd_set C.find_iff)
    then show "i \<in> c_id ` set (getActiveConsumers env s)" by blast
  qed (auto simp: getActiveConsumers_def activeIds_def C.findOrd_set C.find_iff)
  moreover have "distinct (map c_id (getActiveConsumers env s))"
    unfolding getActiveConsumers_def by (rule C.findOrd_distinct)
  ultimately show ?thesis by (metis distinct_card length_map set_map)
qed

text \<open>One successful delivery: both rows are updated, and the event is processed only if the consumers
  that the queued object knows of, and this one, are as many as the active ones.\<close>

lemma deliver_success:
  assumes "getEv env s (e_id e) = Some row" and "getCo env s (c_id c) = Some c0" and "c_isActive c0"
    and "httpPost env (length (posted s)) (deliveryRequest env e c0 (mnow env s)) = Inr st" and "c_id c \<noteq> []"
  defines "s' \<equiv> snd (deliverEventToConsumer env (e, c) s)"
  shows "\<exists>row' c1. getEv env s' (e_id e) = Some row' \<and> e_deliveryStatus row' = DELIVERED \<and>
      e_deliveredTo row' = Some (pushNew (c_id c) (e_deliveredTo row)) \<and>
      (e_isProcessed row' \<longleftrightarrow> e_isProcessed row \<or>
         card (activeIds env s) \<le> (case e_deliveredTo e of None \<Rightarrow> 0 | Some l \<Rightarrow> length l) + 1) \<and>
      getCo env s' (c_id c) = Some c1 \<and> c_isActive c1 \<and> c_totalDeliveries c1 = Suc (c_totalDeliveries c0)"
    "activeIds env s' = activeIds env s" "length (posted s') = Suc (length (posted s))"
proof -
  obtain res s1 where att: "attemptDelivery env e c0 s = (res, s1)" by (metis surj_pair)
  have res: "r_success res" and s1: "evTab s1 = evTab s" "coTab s1 = coTab s" "length (posted s1) = Suc (length (posted s))"
    using att assms(4) by (auto simp: attemptDelivery_def Let_def)
  have ids: "e_id row = e_id e" "c_id c0 = c_id c" using assms(1,2) getEv_id getCo_id by blast+
  obtain r1 s2 where up: "updateEventStatus env (e_id e) DELIVERED (Some (c_id c)) None s1 = (Inr r1, s2)"
    and r1: "getEv env s2 (e_id e) = Some (r1\<lparr>e_updatedAt := mnow env (mtick (mtick s1))\<rparr>)" "e_deliveryStatus r1 = DELIVERED" "e_id r1 = e_id e"
      "e_deliveredTo r1 = Some (pushNew (c_id c) (e_deliveredTo row))" "e_isProcessed r1 = e_isProcessed row"
    and s2: "coTab s2 = coTab s1" "posted s2 = posted s1"
    using assms(1,5) s1 ids by (auto simp: updateEventStatus_def getEventById_def rGet_def [symmetric] Let_def
        strTruthy_def getEv_saveEv split: list.splits)
  obtain c1 s3 where st: "updateDeliveryStats env (c_id c) True None s2 = (Inr c1, s3)"
    and c1: "getCo env s3 (c_id c) = Some (c1\<lparr>c_updatedAt := mnow env (mtick (mtick s2))\<rparr>)" "c_isActive c1" "c_status c1 = c_status c0"
      "c_totalDeliveries c1 = Suc (c_totalDeliveries c0)"
    and others: "\<And>i. i \<noteq> c_id c \<Longrightarrow> getCo env s3 i = getCo env s i"
    and s3: "evTab s3 = evTab s2" "posted s3 = posted s2"
    using assms(2,3) s1 s2 ids
    by (auto simp: updateDeliveryStats_def getConsumerById_get Let_def getCo_saveCo countDelivery_def)
  have act: "activeIds env s3 = activeIds env s"
  proof (rule set_eqI)
    fix i
    show "i \<in> activeIds env s3 \<longleftrightarrow> i \<in> activeIds env s"
      using c1 others [of i] assms(2,3) by (cases "i = c_id c") (auto simp: activeIds_def)
  qed
  let ?n = "(case e_deliveredTo e of None \<Rightarrow> 0 | Some l \<Rightarrow> length l) + 1"
  let ?row = "r1\<lparr>e_updatedAt := mnow env (mtick (mtick s1))\<rparr>"
  let ?s4 = "if card (activeIds env s) \<le> ?n then saveEv env (?row\<lparr>e_isProcessed := True\<rparr>) s3 else s3"
  have ev3: "getEv env s3 (e_id e) = Some ?row" using r1 s3 by simp
  have "handleSuccessfulDelivery env e c s1 = (Inr (), ?s4)"
    using up st ev3 act by (simp add: handleSuccessfulDelivery_def active_ids markEventAsProcessed_def
        getEventById_def rGet_def Let_def)
  then have s': "s' = ?s4"
    using assms(2,3) att res by (simp add: s'_def deliverEventToConsumer_def getConsumerById_get)
  have co: "getCo env ?s4 i = getCo env s3 i" for i by simp
  show "activeIds env s' = activeIds env s" using act unfolding s' activeIds_def co by simp
  show "length (posted s') = Suc (length (posted s))" using s1 s2 s3 by (simp add: s')
  show "\<exists>row' c1. getEv env s' (e_id e) = Some row' \<and> e_deliveryStatus row' = DELIVERED \<and>
      e_deliveredTo row' = Some (pushNew (c_id c) (e_deliveredTo row)) \<and>
      (e_isProcessed row' \<longleftrightarrow> e_isProcessed row \<or> card (activeIds env s) \<le> ?n) \<and>
      getCo env s' (c_id c) = Some c1 \<and> c_isActive c1 \<and> c_totalDeliveries c1 = Suc (c_totalDeliveries c0)"
  proof (cases "card (activeIds env s) \<le> ?n")
    case True
    have "getEv env s' (e_id e) = Some (?row\<lparr>e_isProcessed := True, e_updatedAt := mnow env s3\<rparr>)"
      using True r1(3) by (simp add: s' getEv_saveEv)
    with True r1 c1 show ?thesis unfolding s' co by simp
  next
    case False
    with ev3 r1 c1 show ?thesis unfolding s' co by simp
  qed
qed


lemma set_pushNew: "set (pushNew x l) = insert x (case l of None \<Rightarrow> {} | Some xs \<Rightarrow> set xs)"
  by (auto simp: pushNew_def Let_def split: option.splits)

lemma deliver_all:
  assumes "\<And>n rq. \<exists>st. httpPost env n rq = Inr st" and "e_deliveredTo e = None" and "2 \<le> card (activeIds env s)"
    and "set (map c_id cs) \<subseteq> activeIds env s" and "[] \<notin> set (map c_id cs)"
    and "getEv env s (e_id e) = Some row" and "\<not> e_isProcessed row"
  defines "s' \<equiv> forEachLogged (deliverEventToConsumer env) (map (\<lambda>c. (e, c)) cs) s"
  shows "\<exists>row'. getEv env s' (e_id e) = Some row' \<and> \<not> e_isProcessed row' \<and>
     set (map c_id cs) \<union> (case e_deliveredTo row of None \<Rightarrow> {} | Some l \<Rightarrow> set l) \<subseteq>
       (case e_deliveredTo row' of None \<Rightarrow> {} | Some l \<Rightarrow> set l)"
  unfolding s'_def using assms(3-7)
proof (induction cs arbitrary: s row)
  case (Cons c cs)
  let ?s1 = "snd (deliverEventToConsumer env (e, c) s)"
  obtain c0 where c0: "getCo env s (c_id c) = Some c0" "c_isActive c0"
    using Cons.prems(2) by (auto simp: activeIds_def)
  obtain st where "httpPost env (length (posted s)) (deliveryRequest env e c0 (mnow env s)) = Inr st" using assms(1) by blast
  moreover have "c_id c \<noteq> []" using Cons.prems(3) by auto
  ultimately have one: "\<exists>row' c1. getEv env ?s1 (e_id e) = Some row' \<and> e_deliveryStatus row' = DELIVERED \<and>
      e_deliveredTo row' = Some (pushNew (c_id c) (e_deliveredTo row)) \<and>
      (e_isProcessed row' \<longleftrightarrow> e_isProcessed row \<or>
         card (activeIds env s) \<le> (case e_deliveredTo e of None \<Rightarrow> 0 | Some l \<Rightarrow> length l) + 1) \<and>
      getCo env ?s1 (c_id c) = Some c1 \<and> c_isActive c1 \<and> c_totalDeliveries c1 = Suc (c_totalDeliveries c0)"
    "activeIds env ?s1 = activeIds env s"
    using deliver_success [OF Cons.prems(4) c0] by blast+
  obtain row1 where row1: "getEv env ?s1 (e_id e) = Some row1" "\<not> e_isProcessed row1"
    "e_deliveredTo row1 = Some (pushNew (c_id c) (e_deliveredTo row))"
    using one(1) Cons.prems assms(2) by auto
  have act: "activeIds env ?s1 = activeIds env s" using one(2) .
  obtain row' where row': "getEv env (forEachLogged (deliverEventToConsumer env) (map (\<lambda>c. (e, c)) cs) ?s1) (e_id e) = Some row'"
    "\<not> e_isProcessed row'" "set (map c_id cs) \<union> (case e_deliveredTo row1 of None \<Rightarrow> {} | Some l \<Rightarrow> set l) \<subseteq>
       (case e_deliveredTo row' of None \<Rightarrow> {} | Some l \<Rightarrow> set l)"
    using Cons.IH [OF _ _ _ row1(1,2)] Cons.prems act by auto
  then show ?case using row1(3) by (auto simp: set_pushNew)
qed simp

end

text \<open>
  An event that is delivered to every active consumer is still not marked as processed when there
  are two or more of them: the count of earlier deliveries is read from the queued object, which knows
  of none. The row does record every consumer it was delivered to.
\<close>

theorem delivered_to_all_not_processed:
  assumes "mon_tables env" and "\<And>n rq. \<exists>st. httpPost env n rq = Inr st" and "e_deliveredTo e = None"
    and "2 \<le> card (activeIds env s)" and "set (map c_id cs) \<subseteq> activeIds env s" and "[] \<notin> set (map c_id cs)"
    and "getEv env s (e_id e) = Some row" and "\<not> e_isProcessed row"
  shows "\<exists>row'. getEv env (forEachLogged (deliverEventToConsumer env) (map (\<lambda>c. (e, c)) cs) s) (e_id e) = Some row' \<and>
     \<not> e_isProcessed row' \<and>
     set (map c_id cs) \<subseteq> (case e_deliveredTo row' of None \<Rightarrow> {} | Some l \<Rightarrow> set l)"
  using mon_tables.deliver_all [OF assms] by blast

theorem delivered_to_all_not_processed_witness:
  "let env = memMenv (\<lambda>_ _. Inr 200); a = sampleConsumer ''a'' 0; b = sampleConsumer ''b'' 0; e = sampleEvent ''e'' in
   \<exists>row'. getEv env (forEachLogged (deliverEventToConsumer env) (map (\<lambda>c. (e, c)) [a, b]) (memMon [e] [a, b])) ''e'' = Some row' \<and>
     \<not> e_isProcessed row'"
proof -
  let ?env = "memMenv (\<lambda>_ _. Inr 200)" and ?a = "sampleConsumer ''a'' 0" and ?b = "sampleConsumer ''b'' 0" and ?e = "sampleEvent ''e''"
  let ?s = "memMon [?e] [?a, ?b]"
  have act: "activeIds ?env ?s = {''a'', ''b''}"
    by (auto simp: activeIds_def mon_simps split: if_splits list.splits)
  have p: "\<And>n rq. \<exists>st. httpPost ?env n rq = Inr st" and d: "e_deliveredTo ?e = None"
    and two: "2 \<le> card (activeIds ?env ?s)" and sub: "set (map c_id [?a, ?b]) \<subseteq> activeIds ?env ?s"
    and ne: "[] \<notin> set (map c_id [?a, ?b])" and ev: "getEv ?env ?s (e_id ?e) = Some ?e" and np: "\<not> e_isProcessed ?e"
    unfolding act by (simp_all add: mon_simps)
  have i: "e_id ?e = ''e''" by (simp add: sampleEvent_def)
  show ?thesis using delivered_to_all_not_processed [OF memm.mon_tables_axioms p d two sub ne ev np]
    unfolding i Let_def by blast
qed

end
