(* ===== verification/Stellar_Monitor.thy ===== *)
theory Stellar_Monitor
  imports Stellar_Delivery
begin

text \<open>
  The event monitor, \<^verbatim>\<open>stellar-monitor/services/stellar-event-monitor.service.ts\<close>: it follows the
  payment and operation streams of a Horizon server, turns their records into events and hands these
  to storage and delivery. The Horizon client is outside the repository: a record it delivers and the
  ledger it reports are inputs, and a stream is the number of its opening. \<open>openStreams\<close> lists the
  streams that were opened and not closed.
\<close>

section \<open>The service's state\<close>

record monitorSvc =
  isMonitoring :: bool
  lastLedgerSequence :: int
  paymentStream :: "nat option"
  offerStream :: "nat option"
  opened :: nat
  openStreams :: "nat list"
  restartTimers :: "bool list"

text \<open>\<open>True\<close> stands for the payment stream, \<open>False\<close> for the offer stream.\<close>

definition startStream :: "bool \<Rightarrow> monitorSvc \<Rightarrow> monitorSvc" where
  "startStream payment m =
     (let m1 = m\<lparr>opened := Suc (opened m), openStreams := opened m # openStreams m\<rparr>
      in if payment then m1\<lparr>paymentStream := Some (opened m)\<rparr> else m1\<lparr>offerStream := Some (opened m)\<rparr>)"

definition startPaymentStream :: "monitorSvc \<Rightarrow> monitorSvc" where
  "startPaymentStream m = startStream True m"

definition startOfferStream :: "monitorSvc \<Rightarrow> monitorSvc" where
  "startOfferStream m = startStream False m"

text \<open>\<open>ledger\<close> is the answer of the ledger query.\<close>

definition startMonitoring :: "js_error + int \<Rightarrow> (monitorSvc, unit) action" where
  "startMonitoring ledger m =
     (if isMonitoring m then (Inr (), m)
      else case ledger of
             Inl err \<Rightarrow> (Inl err, m\<lparr>isMonitoring := False\<rparr>)
           | Inr sequence \<Rightarrow>
               (Inr (), startOfferStream (startPaymentStream
                  (m\<lparr>isMonitoring := True, lastLedgerSequence := sequence\<rparr>))))"

definition closeStream :: "nat option \<Rightarrow> nat list \<Rightarrow> nat list" where
  "closeStream h l = (case h of None \<Rightarrow> l | Some n \<Rightarrow> removeAll n l)"

definition stopMonitoring :: "monitorSvc \<Rightarrow> monitorSvc" where
  "stopMonitoring m =
     (if \<not> isMonitoring m then m
      else m\<lparr>openStreams := closeStream (offerStream m) (closeStream (paymentStream m) (openStreams m)),
             paymentStream := None, offerStream := None, isMonitoring := False\<rparr>)"

text \<open>A stream reports an error: a restart is scheduled. Five seconds later its timer fires.\<close>

definition onStreamError :: "bool \<Rightarrow> monitorSvc \<Rightarrow> monitorSvc" where
  "onStreamError payment m = m\<lparr>restartTimers := restartTimers m @ [payment]\<rparr>"

definition fireRestart :: "monitorSvc \<Rightarrow> monitorSvc" where
  "fireRestart m =
     (case restartTimers m of
        [] \<Rightarrow> m
      | payment # rest \<Rightarrow>
          let m1 = m\<lparr>restartTimers := rest\<rparr>
          in if isMonitoring m1 then (if payment then startPaymentStream m1 else startOfferStream m1) else m1)"

definition onModuleInitMonitor :: "string option \<Rightarrow> js_error + int \<Rightarrow> (monitorSvc, unit) action" where
  "onModuleInitMonitor enabled ledger m = (if enabled \<noteq> Some ''false'' then startMonitoring ledger m else (Inr (), m))"

definition onModuleDestroy :: "monitorSvc \<Rightarrow> monitorSvc" where
  "onModuleDestroy m = stopMonitoring m"

definition getLatestLedger :: "js_error + int \<Rightarrow> monitorSvc \<Rightarrow> int" where
  "getLatestLedger ledger m = (case ledger of Inr sequence \<Rightarrow> sequence | Inl _ \<Rightarrow> lastLedgerSequence m)"

section \<open>Records of the streams\<close>

text \<open>A transaction attribute is absent if the record was not joined with its transaction; a creation time
  that does not parse is \<open>None\<close>.\<close>

record transactionAttr =
  ta_ledger :: int
  ta_memo :: "string option"
  ta_memo_type :: "string option"

record HorizonPaymentOperation =
  hp_created_at :: "date option"
  hp_transaction_hash :: string
  hp_asset_type :: string
  hp_asset_code :: "string option"
  hp_asset_issuer :: "string option"
  hp_from :: string
  hp_to :: string
  hp_amount :: string
  hp_transaction_attr :: "transactionAttr option"

record HorizonManageOfferOperation =
  ho_type :: string
  ho_source_account :: string
  ho_created_at :: "date option"
  ho_transaction_hash :: string
  ho_offer_id :: "string option"
  ho_amount :: string
  ho_price :: string
  ho_selling_asset_type :: string
  ho_selling_asset_code :: "string option"
  ho_selling_asset_issuer :: "string option"
  ho_buying_asset_type :: string
  ho_buying_asset_code :: "string option"
  ho_buying_asset_issuer :: "string option"
  ho_transaction_attr :: "transactionAttr option"

text \<open>An absent property of an object literal.\<close>

definition optProp :: "string \<Rightarrow> string option \<Rightarrow> (string \<times> json) list" where
  "optProp k v = (case v of None \<Rightarrow> [] | Some x \<Rightarrow> [(k, JStr x)])"

text \<open>\<^verbatim>\<open>parseFloat(s) === 0\<close> for a decimal number: some digit is read and all digits read are zero.\<close>

definition parsesToZero :: "string \<Rightarrow> bool" where
  "parsesToZero s =
     (let unsigned = (case s of [] \<Rightarrow> [] | c # cs \<Rightarrow> if c = CHR ''-'' \<or> c = CHR ''+'' then cs else s);
          whole = takeWhile (\<lambda>c. c \<in> set ''0123456789'') unsigned;
          rest = dropWhile (\<lambda>c. c \<in> set ''0123456789'') unsigned;
          fraction = (case rest of [] \<Rightarrow> [] | c # cs \<Rightarrow> if c = CHR ''.'' then takeWhile (\<lambda>c. c \<in> set ''0123456789'') cs else [])
      in whole @ fraction \<noteq> [] \<and> (\<forall>c \<in> set (whole @ fraction). c = CHR ''0''))"

definition determineOfferType :: "HorizonManageOfferOperation \<Rightarrow> string" where
  "determineOfferType offer =
     (if parsesToZero (ho_amount offer) then ''delete''
      else if strTruthy (ho_offer_id offer) then ''update'' else ''create'')"

definition paymentDto :: "string \<Rightarrow> HorizonPaymentOperation \<Rightarrow> js_error + StellarEventDto" where
  "paymentDto uuid p =
     (case hp_transaction_attr p of
        None \<Rightarrow> Inl (Error ''Cannot read properties of undefined'')
      | Some ta \<Rightarrow>
          (case hp_created_at p of
             None \<Rightarrow> Inl (Error ''Invalid time value'')
           | Some t \<Rightarrow> Inr \<lparr>v_id = uuid, v_eventType = PAYMENT, v_ledgerSequence = ta_ledger ta, v_timestamp = t,
                 v_transactionHash = hp_transaction_hash p, v_sourceAccount = hp_from p,
                 v_payload = JObj ([(''amount'', JStr (hp_amount p)), (''assetType'', JStr (hp_asset_type p))] @
                    optProp ''assetCode'' (hp_asset_code p) @ optProp ''assetIssuer'' (hp_asset_issuer p) @
                    [(''from'', JStr (hp_from p)), (''to'', JStr (hp_to p))] @
                    optProp ''memo'' (ta_memo ta) @ optProp ''memoType'' (ta_memo_type ta))\<rparr>))"

definition offerDto :: "string \<Rightarrow> HorizonManageOfferOperation \<Rightarrow> js_error + StellarEventDto" where
  "offerDto uuid offer =
     (case ho_transaction_attr offer of
        None \<Rightarrow> Inl (Error ''Cannot read properties of undefined'')
      | Some ta \<Rightarrow>
          (case ho_created_at offer of
             None \<Rightarrow> Inl (Error ''Invalid time value'')
           | Some t \<Rightarrow> Inr \<lparr>v_id = uuid, v_eventType = OFFER, v_ledgerSequence = ta_ledger ta, v_timestamp = t,
                 v_transactionHash = ho_transaction_hash offer, v_sourceAccount = ho_source_account offer,
                 v_payload = JObj (optProp ''offerId'' (ho_offer_id offer) @
                    [(''seller'', JStr (ho_source_account offer)), (''sellingAssetType'', JStr (ho_selling_asset_type offer))] @
                    optProp ''sellingAssetCode'' (ho_selling_asset_code offer) @
                    optProp ''sellingAssetIssuer'' (ho_selling_asset_issuer offer) @
                    [(''buyingAssetType'', JStr (ho_buying_asset_type offer))] @
                    optProp ''buyingAssetCode'' (ho_buying_asset_code offer) @
                    optProp ''buyingAssetIssuer'' (ho_buying_asset_issuer offer) @
                    [(''amount'', JStr (ho_amount offer)), (''price'', JStr (ho_price offer)),
                     (''type'', JStr (determineOfferType offer))])\<rparr>))"

definition storeAndQueue :: "('et, 'ct) menv \<Rightarrow> StellarEventDto \<Rightarrow> (('et, 'ct) mon, StellarEvent) action" where
  "storeAndQueue env d s =
     (case saveEvent env d s of (savedEvent, s1) \<Rightarrow>
        (case queueEventForDelivery env savedEvent s1 of
           (Inl err, s2) \<Rightarrow> (Inl err, s2) | (Inr _, s2) \<Rightarrow> (Inr savedEvent, s2)))"

text \<open>Both handlers catch and log every exception.\<close>

definition handlePaymentEvent ::
    "('et, 'ct) menv \<Rightarrow> string \<Rightarrow> HorizonPaymentOperation \<Rightarrow> ('et, 'ct) mon \<Rightarrow> ('et, 'ct) mon" where
  "handlePaymentEvent env uuid payment s =
     (case paymentDto uuid payment of Inl _ \<Rightarrow> s | Inr d \<Rightarrow> snd (storeAndQueue env d s))"

definition handleOfferEvent ::
    "('et, 'ct) menv \<Rightarrow> string \<Rightarrow> HorizonManageOfferOperation \<Rightarrow> ('et, 'ct) mon \<Rightarrow> ('et, 'ct) mon" where
  "handleOfferEvent env uuid offer s =
     (case offerDto uuid offer of Inl _ \<Rightarrow> s | Inr d \<Rightarrow> snd (storeAndQueue env d s))"

text \<open>The operation stream carries every operation; only offers are handled.\<close>

definition onOperation ::
    "('et, 'ct) menv \<Rightarrow> string \<Rightarrow> HorizonManageOfferOperation \<Rightarrow> ('et, 'ct) mon \<Rightarrow> ('et, 'ct) mon" where
  "onOperation env uuid offer s =
     (if ho_type offer = ''manage_sell_offer'' \<or> ho_type offer = ''manage_buy_offer''
      then handleOfferEvent env uuid offer s else s)"

definition simulatePaymentEvent ::
    "('et, 'ct) menv \<Rightarrow> string \<Rightarrow> string \<Rightarrow> monitorSvc \<Rightarrow> string \<Rightarrow> string \<Rightarrow> string \<Rightarrow> string \<Rightarrow>
     (('et, 'ct) mon, StellarEvent) action" where
  "simulatePaymentEvent env uuid1 uuid2 m from to amount assetType s =
     storeAndQueue env
       \<lparr>v_id = uuid1, v_eventType = PAYMENT, v_ledgerSequence = lastLedgerSequence m + 1, v_timestamp = mnow env s,
        v_transactionHash = ''simulated-'' @ uuid2, v_sourceAccount = from,
        v_payload = JObj [(''amount'', JStr amount), (''assetType'', JStr assetType), (''from'', JStr from),
                          (''to'', JStr to), (''simulated'', JBool True)]\<rparr> (mtick s)"

section \<open>Streams\<close>

text \<open>Every call that changes the monitor's own state.\<close>

inductive monitor_step :: "monitorSvc \<Rightarrow> monitorSvc \<Rightarrow> bool" where
  "monitor_step m (snd (startMonitoring ledger m))"
| "monitor_step m (stopMonitoring m)"
| "monitor_step m (onStreamError payment m)"
| "monitor_step m (fireRestart m)"

definition monInv :: "monitorSvc \<Rightarrow> bool" where
  "monInv m \<longleftrightarrow> (isMonitoring m \<longleftrightarrow> paymentStream m \<noteq> None) \<and> (isMonitoring m \<longleftrightarrow> offerStream m \<noteq> None) \<and>
     distinct (openStreams m) \<and> (\<forall>n \<in> set (openStreams m). n < opened m) \<and>
     (\<forall>n. paymentStream m = Some n \<longrightarrow> n \<in> set (openStreams m)) \<and>
     (\<forall>n. offerStream m = Some n \<longrightarrow> n \<in> set (openStreams m)) \<and>
     (isMonitoring m \<longrightarrow> paymentStream m \<noteq> offerStream m)"

lemma distinct_closeStream: "distinct l \<Longrightarrow> distinct (closeStream h l)"
  by (simp add: closeStream_def distinct_removeAll split: option.splits)

lemma set_closeStream: "set (closeStream h l) = set l - set_option h"
  by (auto simp: closeStream_def split: option.splits)

lemma monInv_step:
  assumes "monitor_step m m'" and "monInv m"
  shows "monInv m'"
  using assms
proof cases
  case (1 ledger)
  with assms(2) show ?thesis
    by (auto simp: monInv_def startMonitoring_def startOfferStream_def startPaymentStream_def startStream_def
        less_Suc_eq Let_def split: sum.splits)
next
  case 2
  with assms(2) show ?thesis
    by (auto simp: monInv_def stopMonitoring_def distinct_closeStream set_closeStream)
next
  case (3 payment)
  with assms(2) show ?thesis by (auto simp: monInv_def onStreamError_def)
next
  case 4
  with assms(2) show ?thesis
    by (auto simp: monInv_def fireRestart_def startOfferStream_def startPaymentStream_def startStream_def Let_def
        less_Suc_eq split: list.splits)
qed

text \<open>
  The monitor's streams, over every sequence of starts, stops, stream errors and restarts: the monitor
  holds a payment and an offer stream exactly while it is monitoring, and both are open. But a restart
  after an error opens a new stream without closing the old one, so the number of open streams grows by
  one, and stopping the monitor closes only the last two: the earlier ones stay open.
\<close>

theorem restart_leaks_stream:
  assumes "monitor_step\<^sup>*\<^sup>* m0 m" and "monInv m0" and "isMonitoring m" and "restartTimers m = []"
  shows "monInv m \<and>
     length (openStreams (fireRestart (onStreamError payment m))) = Suc (length (openStreams m)) \<and>
     length (openStreams (stopMonitoring (fireRestart (onStreamError payment m)))) = length (openStreams m) - 1"
proof -
  have inv: "monInv m" using assms(1,2) by (induction rule: rtranclp_induct) (auto intro: monInv_step)
  let ?m = "fireRestart (onStreamError payment m)"
  have one: "length (openStreams ?m) = Suc (length (openStreams m))" and run: "isMonitoring ?m"
    using assms(3,4) by (simp_all add: fireRestart_def onStreamError_def startPaymentStream_def startOfferStream_def startStream_def Let_def)
  have "monInv ?m" using inv monInv_step monitor_step.intros by metis
  then obtain a b where h: "paymentStream ?m = Some a" "offerStream ?m = Some b" "a \<noteq> b"
    "{a, b} \<subseteq> set (openStreams ?m)" "distinct (openStreams ?m)"
    using run by (auto simp: monInv_def)
  have "set (openStreams (stopMonitoring ?m)) = set (openStreams ?m) - {a, b}" "distinct (openStreams (stopMonitoring ?m))"
    using run h by (auto simp: stopMonitoring_def set_closeStream distinct_closeStream)
  then have "length (openStreams (stopMonitoring ?m)) = card (set (openStreams ?m) - {a, b})" by (metis distinct_card)
  also have "\<dots> = length (openStreams ?m) - 2"
    using h by (simp add: card_Diff_subset distinct_card)
  finally show ?thesis using inv one by simp
qed

theorem restart_leaks_stream_witness:
  "let idle = \<lparr>isMonitoring = False, lastLedgerSequence = 0, paymentStream = None, offerStream = None, opened = 0,
         openStreams = [], restartTimers = []\<rparr>;
       m = snd (startMonitoring (Inr 5) idle)
   in length (openStreams m) = 2 \<and> length (openStreams (stopMonitoring (fireRestart (onStreamError True m)))) = 1"
proof -
  let ?i = "\<lparr>isMonitoring = False, lastLedgerSequence = 0, paymentStream = None, offerStream = None, opened = 0,
         openStreams = [], restartTimers = []\<rparr>"
  let ?m = "snd (startMonitoring (Inr 5) ?i)"
  have r: "monitor_step\<^sup>*\<^sup>* ?i ?m" by (intro r_into_rtranclp monitor_step.intros)
  have i: "monInv ?i" by (simp add: monInv_def)
  have m: "isMonitoring ?m" "restartTimers ?m = []" "length (openStreams ?m) = 2"
    by (simp_all add: startMonitoring_def startOfferStream_def startPaymentStream_def startStream_def Let_def)
  show ?thesis using restart_leaks_stream [OF r i m(1,2), of True] m(3) unfolding Let_def by simp
qed


section \<open>From a stream record to the queue\<close>

text \<open>
  A payment record that carries its transaction and a valid time is stored under the drawn identifier as a pending
  event with the record's data. While a batch is being processed it is then queued, once for every
  active consumer and in the order of their creation; if there is no active consumer it is marked as
  processed instead.
\<close>

theorem handlePaymentEvent_queues:
  assumes "mon_tables env" and "isProcessingQueue s" and "paymentDto uuid p = Inr d"
  shows "\<exists>row. getEv env (handlePaymentEvent env uuid p s) uuid = Some row \<and>
     e_eventType row = PAYMENT \<and> e_payload row = v_payload d \<and> hp_created_at p = Some (e_timestamp row) \<and>
     e_sourceAccount row = hp_from p \<and> e_deliveryStatus row = DPENDING \<and> e_deliveryAttempts row = 0 \<and>
     (if getActiveConsumers env s = []
      then e_isProcessed row \<and> deliveryQueue (handlePaymentEvent env uuid p s) = deliveryQueue s
      else \<not> e_isProcessed row \<and> deliveryQueue (handlePaymentEvent env uuid p s) =
             deliveryQueue s @ map (\<lambda>c. (fst (saveEvent env d s), c)) (getActiveConsumers env s))"
proof -
  let ?e = "fst (saveEvent env d s)" and ?s1 = "snd (saveEvent env d s)"
  have d: "v_id d = uuid" "v_eventType d = PAYMENT" "hp_created_at p = Some (v_timestamp d)" "v_sourceAccount d = hp_from p"
    using assms(3) by (auto simp: paymentDto_def split: option.splits)
  have e: "e_id ?e = uuid" "e_eventType ?e = PAYMENT" "e_payload ?e = v_payload d" "e_timestamp ?e = v_timestamp d"
    "e_sourceAccount ?e = hp_from p" "e_deliveryStatus ?e = DPENDING" "e_deliveryAttempts ?e = 0" "\<not> e_isProcessed ?e"
    by (simp_all add: saveEvent_def Let_def d)
  have s1: "?s1 = saveEv env ?e s" by (simp add: saveEvent_def Let_def)
  then have act: "getActiveConsumers env ?s1 = getActiveConsumers env s" "isProcessingQueue ?s1"
    "deliveryQueue ?s1 = deliveryQueue s" using assms(2) by (simp_all add: getActiveConsumers_def)
  have g1: "getEv env ?s1 uuid = Some (?e\<lparr>e_updatedAt := mnow env s\<rparr>)"
    using mon_tables.getEv_saveEv [OF assms(1)] e(1) by (simp add: s1)
  have h: "handlePaymentEvent env uuid p s = snd (queueEventForDelivery env ?e ?s1)"
    by (simp add: handlePaymentEvent_def assms(3) storeAndQueue_def split_beta split: sum.splits)
  show ?thesis
  proof (cases "getActiveConsumers env s = []")
    case True
    let ?row = "?e\<lparr>e_updatedAt := mnow env s, e_isProcessed := True\<rparr>"
    have eq: "snd (queueEventForDelivery env ?e ?s1) = saveEv env ?row ?s1"
      using g1 e(1) True act by (simp add: queueEventForDelivery_def markEventAsProcessed_def getEventById_def rGet_def Let_def)
    have "getEv env (saveEv env ?row ?s1) uuid = Some (?row\<lparr>e_updatedAt := mnow env ?s1\<rparr>)"
      using mon_tables.getEv_saveEv [OF assms(1)] e(1) by simp
    then show ?thesis unfolding h eq using True e d act by simp
  next
    case False
    have eq: "snd (queueEventForDelivery env ?e ?s1) =
        ?s1\<lparr>deliveryQueue := deliveryQueue ?s1 @ map (\<lambda>c. (?e, c)) (getActiveConsumers env ?s1)\<rparr>"
      using False act by (simp add: queueEventForDelivery_def Let_def)
    show ?thesis unfolding h eq using False e d act g1 by simp
  qed
qed

theorem handlePaymentEvent_queues_witness:
  "let env = memMenv (\<lambda>_ _. Inr 200); s = (memMon [] [sampleConsumer ''a'' 0])\<lparr>isProcessingQueue := True\<rparr>;
       p = \<lparr>hp_created_at = Some 9, hp_transaction_hash = ''h'', hp_asset_type = ''native'', hp_asset_code = None,
            hp_asset_issuer = None, hp_from = ''GA'', hp_to = ''GB'', hp_amount = ''5'',
            hp_transaction_attr = Some \<lparr>ta_ledger = 3, ta_memo = None, ta_memo_type = None\<rparr>\<rparr>
   in length (deliveryQueue (handlePaymentEvent env ''u'' p s)) = 1"
proof -
  let ?env = "memMenv (\<lambda>_ _. Inr 200)" and ?s = "(memMon [] [sampleConsumer ''a'' 0])\<lparr>isProcessingQueue := True\<rparr>"
  let ?p = "\<lparr>hp_created_at = Some 9, hp_transaction_hash = ''h'', hp_asset_type = ''native'', hp_asset_code = None,
            hp_asset_issuer = None, hp_from = ''GA'', hp_to = ''GB'', hp_amount = ''5'',
            hp_transaction_attr = Some \<lparr>ta_ledger = 3, ta_memo = None, ta_memo_type = None\<rparr>\<rparr>"
  have b: "isProcessingQueue ?s" "deliveryQueue ?s = []" by (simp_all add: memMon_def)
  have a: "getActiveConsumers ?env ?s = [sampleConsumer ''a'' 0]" by (simp add: getActiveConsumers_def mon_simps)
  obtain d where d: "paymentDto ''u'' ?p = Inr d" by (simp add: paymentDto_def)
  show ?thesis using handlePaymentEvent_queues [OF memm.mon_tables_axioms [of "\<lambda>_ _. Inr 200"] b(1) d] a b(2) unfolding Let_def by auto
qed

end
