(* ===== verification/Throttle.thy ===== *)
theory Throttle
  imports Redis
begin

text \<open>
  The throttle (\<^verbatim>\<open>throttle/throttle.service.ts\<close>, \<^verbatim>\<open>throttle.guard.ts\<close>,
  \<^verbatim>\<open>throttle.util.ts\<close>, \<^verbatim>\<open>throttle.constants.ts\<close>): a fixed-window counter per path and client,
  and a temporary ban after repeated violations, both kept in Redis. The theorem follows a client
  that keeps sending requests through the whole of it: the quota, the violations, the ban and its
  end.
\<close>

section \<open>Constants and keys\<close>

record limitConfig =
  l_limit :: nat
  l_window :: nat

definition RATE_LIMITS_GLOBAL :: limitConfig where
  "RATE_LIMITS_GLOBAL = \<lparr>l_limit = 100, l_window = 60\<rparr>"

definition RATE_LIMITS_AUTH :: limitConfig where
  "RATE_LIMITS_AUTH = \<lparr>l_limit = 5, l_window = 60\<rparr>"

definition MAX_VIOLATIONS :: nat where
  "MAX_VIOLATIONS = 3"

definition BASE_BAN_SECONDS :: nat where
  "BASE_BAN_SECONDS = 60"

definition buildRateKey :: "string \<Rightarrow> string \<Rightarrow> string" where
  "buildRateKey pre identifier = ''rate:'' @ pre @ '':'' @ identifier"

definition buildBanKey :: "string \<Rightarrow> string" where
  "buildBanKey identifier = ''ban:'' @ identifier"

definition violationsKey :: "string \<Rightarrow> string" where
  "violationsKey identifier = ''violations:'' @ identifier"

section \<open>Service\<close>

definition throttleCheckRateLimit :: "'r redis \<Rightarrow> string \<Rightarrow> nat \<Rightarrow> nat \<Rightarrow> 'r \<Rightarrow> (nat \<times> nat \<times> int) \<times> 'r" where
  "throttleCheckRateLimit D key limit windowSeconds r =
     (case rdIncr D key r of (current, r1) \<Rightarrow>
        let r2 = (if current = 1 then rdExpire D key windowSeconds r1 else r1)
        in ((current, limit, rdTtl D key r2), r2))"

definition checkBan :: "'r redis \<Rightarrow> string \<Rightarrow> 'r \<Rightarrow> js_error + unit" where
  "checkBan D identifier r =
     (if strTruthy (rdGet D (buildBanKey identifier) r)
      then Inl (HttpException ''Temporarily banned'' 429) else Inr ())"

definition registerViolation :: "'r redis \<Rightarrow> string \<Rightarrow> 'r \<Rightarrow> 'r" where
  "registerViolation D identifier r =
     (case rdIncr D (violationsKey identifier) r of (violations, r1) \<Rightarrow>
           let r2 = (if violations = 1 then rdExpire D (violationsKey identifier) 3600 r1 else r1)
           in if MAX_VIOLATIONS \<le> violations
              then rdSetEx D (buildBanKey identifier) (BASE_BAN_SECONDS * 2 ^ (violations - 1)) ''1'' r2
              else r2)"

section \<open>Guard\<close>

record httpReq =
  q_ip :: string
  q_userId :: "string option"
  q_path :: string

abbreviation identifierOf :: "httpReq \<Rightarrow> string" where
  "identifierOf req \<equiv> (case q_userId req of None \<Rightarrow> q_ip req | Some u \<Rightarrow> u)"

abbreviation configOf :: "httpReq \<Rightarrow> limitConfig" where
  "configOf req \<equiv> (if strIncludes ''/auth'' (q_path req) then RATE_LIMITS_AUTH else RATE_LIMITS_GLOBAL)"

text \<open>The verdict, the headers set on the response and the store.\<close>

definition throttleCanActivate ::
    "'r redis \<Rightarrow> httpReq \<Rightarrow> 'r \<Rightarrow> (js_error + bool) \<times> (string \<times> int) list \<times> 'r" where
  "throttleCanActivate D req r =
     (case checkBan D (identifierOf req) r of
        Inl e \<Rightarrow> (Inl e, [], r)
      | Inr _ \<Rightarrow>
          let config = configOf req;
              key = buildRateKey (q_path req) (identifierOf req)
          in case throttleCheckRateLimit D key (l_limit config) (l_window config) r of
               ((current, limit, ttl), r1) \<Rightarrow>
                 let headers = [(''X-RateLimit-Limit'', int limit),
                                (''X-RateLimit-Remaining'', max 0 (int limit - int current)),
                                (''X-RateLimit-Reset'', ttl)]
                 in if limit < current
                    then (Inl (HttpException ''Rate limit exceeded'' 429), headers,
                          registerViolation D (identifierOf req) r1)
                    else (Inr True, headers, r1))"

section \<open>A client that keeps sending requests\<close>

fun throttleRun :: "'r redis \<Rightarrow> httpReq \<Rightarrow> nat \<Rightarrow> 'r \<Rightarrow> (js_error + bool) list \<times> 'r" where
  "throttleRun D req 0 r = ([], r)"
| "throttleRun D req (Suc n) r =
     (case throttleRun D req n r of (rs, r1) \<Rightarrow>
        case throttleCanActivate D req r1 of (res, _, r2) \<Rightarrow> (rs @ [res], r2))"

abbreviation rateKey :: "httpReq \<Rightarrow> string" where
  "rateKey req \<equiv> buildRateKey (q_path req) (identifierOf req)"

abbreviation violKey :: "httpReq \<Rightarrow> string" where
  "violKey req \<equiv> violationsKey (identifierOf req)"

definition unknownClient :: "kvstate \<Rightarrow> httpReq \<Rightarrow> bool" where
  "unknownClient m req \<longleftrightarrow>
     m (rateKey req) = None \<and> m (violKey req) = None \<and> m (buildBanKey (identifierOf req)) = None"

definition exceeded :: js_error where
  "exceeded = HttpException ''Rate limit exceeded'' 429"

definition banned :: js_error where
  "banned = HttpException ''Temporarily banned'' 429"

text \<open>The three keys after \<open>n\<close> requests, with a quota of \<open>L\<close> in a window of \<open>w\<close> seconds.\<close>

definition afterRequests :: "kvstate \<Rightarrow> httpReq \<Rightarrow> nat \<Rightarrow> nat \<Rightarrow> nat \<Rightarrow> bool" where
  "afterRequests m req L w n \<longleftrightarrow>
     m (rateKey req) = (if n = 0 then None else Some (showNat (min n (L + 3)), Some w)) \<and>
     m (violKey req) = (if n \<le> L then None else Some (showNat (min n (L + 3) - L), Some 3600)) \<and>
     m (buildBanKey (identifierOf req)) = (if L + 3 \<le> n then Some (''1'', Some 240) else None)"

definition verdict :: "nat \<Rightarrow> nat \<Rightarrow> js_error + bool" where
  "verdict L n = (if n < L then Inr True else if n < L + 3 then Inl exceeded else Inl banned)"

lemma throttle_keys [simp]:
  "buildRateKey p i \<noteq> violationsKey j" "violationsKey j \<noteq> buildRateKey p i"
  "buildRateKey p i \<noteq> buildBanKey j" "buildBanKey j \<noteq> buildRateKey p i"
  "violationsKey i \<noteq> buildBanKey j" "buildBanKey j \<noteq> violationsKey i"
  by (simp_all add: buildBanKey_def buildRateKey_def violationsKey_def)

lemma throttle_consts:
  "0 < l_limit (configOf req)" "BASE_BAN_SECONDS * 2 ^ (MAX_VIOLATIONS - 1) = 240"
  by (simp_all add: RATE_LIMITS_AUTH_def RATE_LIMITS_GLOBAL_def BASE_BAN_SECONDS_def MAX_VIOLATIONS_def)

context redis_kv
begin

text \<open>One counted request: the counter goes up, and its first count starts the window.\<close>

lemma checkRateLimit_look:
  assumes "look r key = (if n = 0 then None else Some (showNat n, Some w))"
  obtains ttl r1 where "throttleCheckRateLimit D key L w r = ((Suc n, L, ttl), r1)"
    and "look r1 = (look r)(key \<mapsto> (showNat (Suc n), Some w))"
proof -
  obtain c r1 where i: "rdIncr D key r = (c, r1)" by (cases "rdIncr D key r")
  have c: "c = Suc n" and r1: "look r1 = (look r)(key \<mapsto> (showNat (Suc n), if n = 0 then None else Some w))"
    using assms incr_val [of key r] incr_look [of key r] i by (auto simp: numAt_def expiryAt_def)
  let ?r2 = "if c = 1 then rdExpire D key w r1 else r1"
  have "look ?r2 = (look r)(key \<mapsto> (showNat (Suc n), Some w))"
    using c r1 by (auto simp: expire_look)
  then show ?thesis using that i c by (simp add: throttleCheckRateLimit_def Let_def)
qed

lemma registerViolation_look:
  assumes "look r (violationsKey i) = (if v = 0 then None else Some (showNat v, Some 3600))" and "v < 3"
  shows "look (registerViolation D i r) =
    (let m = (look r)(violationsKey i \<mapsto> (showNat (Suc v), Some 3600))
     in if v = 2 then m(buildBanKey i \<mapsto> (''1'', Some 240)) else m)"
proof -
  obtain c r1 where i: "rdIncr D (violationsKey i) r = (c, r1)" by (cases "rdIncr D (violationsKey i) r")
  have c: "c = Suc v" and r1: "look r1 = (look r)(violationsKey i \<mapsto> (showNat (Suc v), if v = 0 then None else Some 3600))"
    using assms incr_val [of "violationsKey i" r] incr_look [of "violationsKey i" r] i
    by (auto simp: numAt_def expiryAt_def)
  let ?r2 = "if c = 1 then rdExpire D (violationsKey i) 3600 r1 else r1"
  have "look ?r2 = (look r)(violationsKey i \<mapsto> (showNat (Suc v), Some 3600))"
    using c r1 by (auto simp: expire_look)
  moreover have "MAX_VIOLATIONS \<le> c \<longleftrightarrow> v = 2" using c assms(2) by (auto simp: MAX_VIOLATIONS_def)
  ultimately show ?thesis
    using i c by (auto simp: registerViolation_def Let_def setEx_look BASE_BAN_SECONDS_def)
qed

lemma throttle_step:
  fixes req :: httpReq
  defines "L \<equiv> l_limit (configOf req)" and "w \<equiv> l_window (configOf req)"
  assumes "afterRequests (look r) req L w n"
  shows "fst (throttleCanActivate D req r) = verdict L n \<and>
         afterRequests (look (snd (snd (throttleCanActivate D req r)))) req L w (Suc n)"
proof (cases "L + 3 \<le> n")
  case True
  with assms(3) have "rdGet D (buildBanKey (identifierOf req)) r = Some ''1''"
    by (simp add: afterRequests_def get_look)
  then have "throttleCanActivate D req r = (Inl banned, [], r)"
    by (simp add: throttleCanActivate_def checkBan_def strTruthy_def banned_def)
  with True assms(3) show ?thesis by (simp add: afterRequests_def verdict_def)
next
  case False
  have L: "0 < L" using throttle_consts(1) [of req] by (simp add: L_def)
  have free: "checkBan D (identifierOf req) r = Inr ()"
    using assms(3) False by (simp add: afterRequests_def get_look checkBan_def strTruthy_def)
  have rate: "look r (rateKey req) = (if n = 0 then None else Some (showNat n, Some w))"
    using assms(3) False by (simp add: afterRequests_def min_def)
  obtain ttl r1 where c: "throttleCheckRateLimit D (rateKey req) L w r = ((Suc n, L, ttl), r1)"
    and r1: "look r1 = (look r)(rateKey req \<mapsto> (showNat (Suc n), Some w))"
    by (rule checkRateLimit_look [OF rate])
  show ?thesis
  proof (cases "n < L")
    case True
    then have "fst (throttleCanActivate D req r) = Inr True \<and> snd (snd (throttleCanActivate D req r)) = r1"
      using free c by (simp add: throttleCanActivate_def L_def [symmetric] w_def [symmetric] Let_def)
    with True assms(3) L r1 show ?thesis by (simp add: afterRequests_def verdict_def min_def)
  next
    case over: False
    then have res: "fst (throttleCanActivate D req r) = Inl exceeded \<and>
        snd (snd (throttleCanActivate D req r)) = registerViolation D (identifierOf req) r1"
      using free c
      by (simp add: throttleCanActivate_def L_def [symmetric] w_def [symmetric] exceeded_def Let_def)
    obtain v where n: "n = L + v" using over by (metis le_add_diff_inverse not_less)
    have v: "v < 3" using False n by simp
    have "look r1 (violKey req) = (if v = 0 then None else Some (showNat v, Some 3600))"
      using assms(3) v by (simp add: r1 n afterRequests_def min_def)
    note registerViolation_look [OF this v]
    with assms(3) n v L res r1 show ?thesis
      by (auto simp: afterRequests_def verdict_def min_def Let_def)
  qed
qed

end

context redis_kv
begin

lemma throttleRun_after:
  assumes "unknownClient (look r) req"
  shows "fst (throttleRun D req n r) = map (verdict (l_limit (configOf req))) [0..<n] \<and>
         afterRequests (look (snd (throttleRun D req n r))) req (l_limit (configOf req)) (l_window (configOf req)) n"
proof (induction n)
  case 0
  then show ?case using assms by (simp add: unknownClient_def afterRequests_def)
next
  case (Suc n)
  obtain rs r1 where run: "throttleRun D req n r = (rs, r1)" by (cases "throttleRun D req n r")
  obtain res hs r2 where step: "throttleCanActivate D req r1 = (res, hs, r2)"
    by (cases "throttleCanActivate D req r1") auto
  from throttle_step [of r1 req n] Suc run step show ?case by simp
qed

lemma ban_lifts:
  assumes "afterRequests (look r) req L w n" and "L + 3 \<le> n"
  shows "checkBan D (identifierOf req) (adv d r) = (if d < 240 then Inl banned else Inr ())"
  using assms by (simp add: afterRequests_def checkBan_def get_look adv_look advKey_def strTruthy_def banned_def)

end



end
