(* ===== verification/Json_Injective.thy ===== *)
theory Json_Injective
  imports Json Redis
begin

text \<open>
  \<^verbatim>\<open>JSON.stringify\<close> is injective: the printed text of a value, followed by a delimiter, determines
  the value and what follows it. The signature of an audit entry and the body of a signed webhook
  are computed from such a text, so what they protect is the value itself.
\<close>

section \<open>Strings\<close>

definition hexVal :: "char \<Rightarrow> nat" where
  "hexVal c = (let n = of_char c in if n < 58 then n - 48 else n - 87)"

text \<open>Reads one character of a quoted string back, with the text after it.\<close>

fun unescape :: "string \<Rightarrow> char \<times> string" where
  "unescape (b # k # rest) =
     (if b \<noteq> CHR 0x5C then (b, k # rest)
      else if k = CHR ''b'' then (CHR 0x08, rest)
      else if k = CHR ''t'' then (CHR 0x09, rest)
      else if k = CHR ''n'' then (CHR 0x0A, rest)
      else if k = CHR ''f'' then (CHR 0x0C, rest)
      else if k = CHR ''r'' then (CHR 0x0D, rest)
      else if k = CHR ''u''
        then (char_of (16 * hexVal (rest ! 2) + hexVal (rest ! 3)), drop 4 rest)
      else (k, rest))"
| "unescape [b] = (b, [])"
| "unescape [] = (CHR 0x00, [])"

lemma hexVal_hexDigit:
  assumes "d < 16"
  shows "hexVal (hexDigit d) = d"
proof -
  have "d \<in> {0, 1, 2, 3, 4, 5, 6, 7, 8, 9, 10, 11, 12, 13, 14, 15}" using assms by (simp, presburger)
  then show ?thesis by (elim insertE emptyE) (simp_all add: hexVal_def hexDigit_def Let_def)
qed

lemma unescape_escape: "unescape (jsonEscape c @ x) = (c, x)"
proof (cases "(of_char c :: nat) < 32")
  case True
  define n :: nat where "n = of_char c"
  have c: "c = char_of n" and n: "n mod 256 = n" using True by (simp_all add: n_def)
  have "16 * hexVal (hexDigit (n div 16)) + hexVal (hexDigit (n mod 16)) = n"
    using True by (simp add: hexVal_hexDigit n_def)
  then show ?thesis using True c n by (auto simp: n_def [symmetric])
next
  case False
  then show ?thesis by (cases x) auto
qed

lemma escape_not_quote: "jsonEscape c @ x \<noteq> CHR 0x22 # y"
  by auto

declare jsonEscape.simps [simp del]

lemma escape_prefix: "jsonEscape c @ x = jsonEscape d @ y \<longleftrightarrow> c = d \<and> x = y"
  by (metis unescape_escape Pair_inject)

lemma quote_prefix: "jsonQuote s @ r = jsonQuote s' @ r' \<longleftrightarrow> s = s' \<and> r = r'"
proof -
  have "concat (map jsonEscape s) @ CHR 0x22 # r = concat (map jsonEscape s') @ CHR 0x22 # r' \<Longrightarrow>
      s = s' \<and> r = r'"
  proof (induction s arbitrary: s')
    case Nil
    then show ?case by (cases s') (auto simp: escape_not_quote [THEN not_sym])
  next
    case (Cons c s)
    then show ?case by (cases s') (auto simp: escape_prefix escape_not_quote)
  qed
  then show ?thesis by (auto simp: jsonQuote_def)
qed

section \<open>Numbers\<close>

definition delim :: "string \<Rightarrow> bool" where
  "delim r = (case r of [] \<Rightarrow> True | c # _ \<Rightarrow> c = CHR '','' \<or> c = CHR '']'' \<or> c = CHR 0x7D)"

lemma delim_simps [simp]:
  "delim []" "delim (CHR '','' # r)" "delim (CHR '']'' # r)" "delim (CHR 0x7D # r)"
  by (simp_all add: delim_def)

lemma delim_not_digit: "delim r \<Longrightarrow> takeWhile isDigit r = []"
  by (cases r) (auto simp: delim_def isDigit_def)

lemma showNat_prefix:
  assumes "showNat m @ r = showNat n @ r'" and "delim r" and "delim r'"
  shows "m = n \<and> r = r'"
proof -
  have "takeWhile isDigit (showNat k @ x) = showNat k" if "delim x" for k x
    using that showNat_digits [of k] by (simp add: takeWhile_append delim_not_digit)
  then have "showNat m = showNat n" using assms by metis
  with assms show ?thesis by (simp add: showNat_inj)
qed

lemma showNat_not_minus: "showNat m @ r \<noteq> CHR ''-'' # r'"
proof -
  obtain c cs where c: "showNat m = c # cs" by (metis neq_Nil_conv showNat_nonempty)
  then have "isDigit c" using showNat_digits [of m] by simp
  with c show ?thesis by (auto simp: isDigit_def)
qed

lemma showInt_prefix:
  assumes "showInt m @ r = showInt n @ r'" and "delim r" and "delim r'"
  shows "m = n \<and> r = r'"
proof (cases "m < 0")
  case True
  then have "n < 0" using assms(1) showNat_not_minus [of "nat n" r']
    by (cases "n < 0") (auto simp: showInt_def dest!: sym [of "CHR ''-'' # _"])
  with True assms showNat_prefix [of "nat (- m)" r "nat (- n)" r'] show ?thesis
    by (auto simp: showInt_def)
next
  case False
  then have "\<not> n < 0" using assms(1) showNat_not_minus [of "nat m" r]
    by (cases "n < 0") (auto simp: showInt_def)
  with False assms showNat_prefix [of "nat m" r "nat n" r'] show ?thesis
    by (auto simp: showInt_def)
qed

section \<open>Values\<close>

lemma joinWith_Cons: "joinWith c (p # ps) @ r = p @ (if ps = [] then r else c # joinWith c ps @ r)"
  by (cases ps) auto

lemma joinWith_prefix:
  assumes "\<And>x y r r'. x \<in> set xs \<Longrightarrow> f x @ r = f y @ r' \<Longrightarrow> delim r \<Longrightarrow> delim r' \<Longrightarrow> x = y \<and> r = r'"
    and "\<And>x r. \<not> delim (f x @ r)" and "c \<noteq> CHR '',''" and "\<And>r. delim (c # r)"
    and "joinWith (CHR '','') (map f xs) @ c # r = joinWith (CHR '','') (map f ys) @ c # r'"
  shows "xs = ys \<and> r = r'"
  using assms(1,5)
proof (induction xs arbitrary: ys)
  case Nil
  then show ?case using assms(2,4) by (cases ys) (simp_all add: joinWith_Cons, metis)
next
  case (Cons x xs)
  let ?tail = "\<lambda>zs q. if map f zs = [] then c # q else CHR '','' # joinWith (CHR '','') (map f zs) @ c # q"
  from Cons.prems(2) have eq: "f x @ ?tail xs r = joinWith (CHR '','') (map f ys) @ c # r'"
    by (simp only: list.map joinWith_Cons)
  show ?case
  proof (cases ys)
    case Nil
    with eq assms(2,4) show ?thesis by (metis append_Nil joinWith.simps(1) list.map(1))
  next
    case (Cons y ys')
    with eq have "f x @ ?tail xs r = f y @ ?tail ys' r'" by (simp only: list.map joinWith_Cons)
    moreover have d: "delim (?tail zs q)" for zs q using assms(4) by simp
    ultimately have xy: "x = y" and tl: "?tail xs r = ?tail ys' r'"
      using Cons.prems(1) [of x "?tail xs r" y "?tail ys' r'"] by auto
    show ?thesis
    proof (cases "xs = [] \<or> ys' = []")
      case True
      with tl xy Cons assms(3) show ?thesis by (auto split: if_splits)
    next
      case False
      with tl have "joinWith (CHR '','') (map f xs) @ c # r = joinWith (CHR '','') (map f ys') @ c # r'"
        by simp
      with Cons.IH [of ys'] Cons.prems(1) xy Cons show ?thesis by auto
    qed
  qed
qed

definition showProp :: "string \<times> json \<Rightarrow> string" where
  "showProp kv = jsonQuote (fst kv) @ '':'' @ stringify None (snd kv)"

lemma stringify_obj:
  "stringify None (JObj kvs) = ''{'' @ joinWith (CHR '','') (map showProp kvs) @ [CHR 0x7D]"
proof -
  have "map (\<lambda>(k, s). jsonQuote k @ '':'' @ s) (mapVals (stringify None) kvs) = map showProp kvs"
    by (auto simp: showProp_def)
  then show ?thesis by (simp only: stringify.simps selectProps.simps append.simps)
qed

text \<open>The first character tells the kind of a value.\<close>

fun headOk :: "json \<Rightarrow> char \<Rightarrow> bool" where
  "headOk JNull c = (c = CHR ''n'')"
| "headOk (JBool b) c = (c = (if b then CHR ''t'' else CHR ''f''))"
| "headOk (JNum n) c = (c = CHR ''-'' \<or> isDigit c)"
| "headOk (JStr s) c = (c = CHR 0x22)"
| "headOk (JArr xs) c = (c = CHR ''['')"
| "headOk (JObj kvs) c = (c = CHR 0x7B)"

lemma showInt_head: "\<exists>c cs. showInt n = c # cs \<and> (c = CHR ''-'' \<or> isDigit c)"
proof -
  obtain c cs where c: "showNat (nat n) = c # cs" by (metis neq_Nil_conv showNat_nonempty)
  then have "isDigit c" using showNat_digits [of "nat n"] by simp
  with c show ?thesis by (auto simp: showInt_def)
qed

lemma stringify_head: "\<exists>c cs. stringify None j = c # cs \<and> headOk j c"
proof (cases j)
  case (JNum n)
  then show ?thesis using showInt_head [of n] by simp
qed (auto simp: jsonQuote_def)

lemma same_head: "stringify None j @ r = stringify None j' @ r' \<Longrightarrow> \<exists>c. headOk j c \<and> headOk j' c"
  using stringify_head [of j] stringify_head [of j'] by auto

lemma isDigit_simps [simp]:
  "\<not> isDigit (CHR ''n'')" "\<not> isDigit (CHR ''t'')" "\<not> isDigit (CHR ''f'')" "\<not> isDigit (CHR 0x22)"
  "\<not> isDigit (CHR ''['')" "\<not> isDigit (CHR 0x7B)" "\<not> isDigit (CHR '','')" "\<not> isDigit (CHR '']'')"
  "\<not> isDigit (CHR 0x7D)"
  by (simp_all add: isDigit_def)

lemma stringify_not_delim: "\<not> delim (stringify None j @ r)"
  using stringify_head [of j] by (cases j) (auto simp: delim_def simp del: stringify.simps split: if_splits)

lemma showProp_not_delim: "\<not> delim (showProp kv @ r)"
  by (simp add: showProp_def jsonQuote_def delim_def)

lemma stringify_prefix:
  "stringify None j @ r = stringify None j' @ r' \<Longrightarrow> delim r \<Longrightarrow> delim r' \<Longrightarrow> j = j' \<and> r = r'"
proof (induction j arbitrary: j' r r')
  case JNull
  then show ?case using same_head [OF JNull(1)] by (cases j') (auto split: if_splits)
next
  case (JBool b)
  then show ?case using same_head [OF JBool(1)] by (cases j') (auto split: if_splits)
next
  case (JNum n)
  then show ?case using same_head [OF JNum(1)] showInt_prefix [of n r _ r']
    by (cases j') (auto split: if_splits)
next
  case (JStr s)
  then show ?case using same_head [OF JStr(1)] quote_prefix [of s r _ r']
    by (cases j') (auto split: if_splits)
next
  case (JArr xs)
  have "joinWith (CHR '','') (map (stringify None) xs) @ CHR '']'' # r =
      joinWith (CHR '','') (map (stringify None) ys) @ CHR '']'' # r' \<Longrightarrow> xs = ys \<and> r = r'" for ys
    by (rule joinWith_prefix [where f = "stringify None", OF JArr.IH stringify_not_delim]) auto
  then show ?case using JArr.prems same_head [OF JArr.prems(1)]
    by (cases j') (auto split: if_splits)
next
  case (JObj kvs)
  have p: "x = y \<and> q = q'" if "x \<in> set kvs" "showProp x @ q = showProp y @ q'" "delim q" "delim q'"
    for x y q q'
  proof -
    have "jsonQuote (fst x) @ CHR '':'' # stringify None (snd x) @ q =
        jsonQuote (fst y) @ CHR '':'' # stringify None (snd y) @ q'"
      using that(2) by (simp add: showProp_def)
    then have "fst x = fst y" and "stringify None (snd x) @ q = stringify None (snd y) @ q'"
      by (auto simp only: quote_prefix list.inject)
    moreover have "snd x \<in> Basic_BNFs.snds x" by (cases x) simp
    ultimately show ?thesis using JObj.IH [OF that(1)] that(3,4) by (metis prod_eqI)
  qed
  have "joinWith (CHR '','') (map showProp kvs) @ CHR 0x7D # r =
      joinWith (CHR '','') (map showProp ys) @ CHR 0x7D # r' \<Longrightarrow> kvs = ys \<and> r = r'" for ys
    by (rule joinWith_prefix [where f = showProp, OF p showProp_not_delim]) auto
  then show ?case using JObj.prems same_head [OF JObj.prems(1)]
    by (cases j') (auto simp: stringify_obj simp del: stringify.simps(6) split: if_splits)
qed

theorem stringify_inj: "stringify None j = stringify None j' \<longleftrightarrow> j = j'"
  using stringify_prefix [of j "[]" j' "[]"] by auto

end
