(* ===== verification/Audit_Chain.thy ===== *)
theory Audit_Chain
  imports Repository Json_Injective
begin

text \<open>
  The audit log (\<^verbatim>\<open>audit/audit.service.ts\<close>, \<^verbatim>\<open>audit.entity.ts\<close>, \<^verbatim>\<open>audit.listener.ts\<close>): entries
  chained by SHA-256 hashes and signed with an HMAC, their archive, and the verification of the
  chain. The hash functions, the database, the clock and \<^verbatim>\<open>localeCompare\<close> are parameters. The
  refinement shows that the two tables together behave as one append-only log whose chain
  verifies; the theorems after it show which tampering the signatures rule out and where
  verification reports an intact log as broken.
\<close>

section \<open>Metadata\<close>

text \<open>
  The metadata of an action is a JavaScript value, which may hold dates. \<^verbatim>\<open>JSON.stringify\<close> prints a
  date as a string, and so the \<^verbatim>\<open>jsonb\<close> column stores one: \<open>persist\<close> is what the value has become when it
  is read back. \<^verbatim>\<open>Object.keys\<close> of a date is empty.
\<close>

datatype jsValue =
    VNull
  | VBool bool
  | VNum int
  | VStr string
  | VDate date
  | VArr "jsValue list"
  | VObj "(string \<times> jsValue) list"

fun jsonOf :: "jsValue \<Rightarrow> json" where
  "jsonOf VNull = JNull"
| "jsonOf (VBool b) = JBool b"
| "jsonOf (VNum n) = JNum n"
| "jsonOf (VStr s) = JStr s"
| "jsonOf (VDate d) = JStr (toISOString d)"
| "jsonOf (VArr xs) = JArr (map jsonOf xs)"
| "jsonOf (VObj kvs) = JObj (map (\<lambda>(k, v). (k, jsonOf v)) kvs)"

fun persist :: "jsValue \<Rightarrow> jsValue" where
  "persist (VDate d) = VStr (toISOString d)"
| "persist (VArr xs) = VArr (map persist xs)"
| "persist (VObj kvs) = VObj (map (\<lambda>(k, v). (k, persist v)) kvs)"
| "persist v = v"

fun dateFree :: "jsValue \<Rightarrow> bool" where
  "dateFree (VDate d) = False"
| "dateFree (VArr xs) = list_all dateFree xs"
| "dateFree (VObj kvs) = list_all (\<lambda>(k, v). dateFree v) kvs"
| "dateFree v = True"

lemma persist_dateFree: "dateFree v \<Longrightarrow> persist v = v"
  by (induction v rule: dateFree.induct) (auto simp: list_all_iff intro!: map_idI split: prod.splits)

section \<open>Entries, environment and state\<close>

record AuditLogEntry =
  a_id :: string
  a_action_type :: string
  a_actor_id :: string
  a_entity_id :: "string option"
  a_metadata :: "jsValue option"
  a_timestamp :: date
  a_previousHash :: string
  a_hash :: string
  a_signature :: string

record AuditLogArchive = AuditLogEntry +
  a_archivedAt :: date

record ('lt, 'at) aenv =
  logRepo :: "('lt, AuditLogEntry) repo"
  archRepo :: "('at, AuditLogArchive) repo"
  aclock :: "nat \<Rightarrow> date"
  asha256 :: "string \<Rightarrow> string"
  ahmac :: "string \<Rightarrow> string \<Rightarrow> string"
  aHmacKey :: "string option"
  localeCompare :: "string \<Rightarrow> string \<Rightarrow> int"

record ('lt, 'at) auditDb =
  logTab :: 'lt
  archTab :: 'at
  aticks :: nat

definition anow :: "('lt, 'at) aenv \<Rightarrow> ('lt, 'at) auditDb \<Rightarrow> date" where
  "anow env s = aclock env (aticks s)"

definition atick :: "('lt, 'at) auditDb \<Rightarrow> ('lt, 'at) auditDb" where
  "atick s = s\<lparr>aticks := Suc (aticks s)\<rparr>"

section \<open>Hash and signature\<close>

fun sortObject :: "jsValue \<Rightarrow> jsValue" where
  "sortObject (VArr xs) = VArr (map sortObject xs)"
| "sortObject (VObj kvs) =
     VObj (sortBy (\<lambda>a b. fst a \<le> fst b) (map (\<lambda>(k, v). (k, sortObject v)) kvs))"
| "sortObject (VDate d) = VObj []"
| "sortObject VNull = VNull"
| "sortObject (VBool b) = VBool b"
| "sortObject (VNum n) = VNum n"
| "sortObject (VStr s) = VStr s"

definition getHmacKey :: "('lt, 'at) aenv \<Rightarrow> string" where
  "getHmacKey env = (case aHmacKey env of None \<Rightarrow> ''change-this-audit-log-hmac-key'' | Some k \<Rightarrow> k)"

definition computeHash :: "('lt, 'at) aenv \<Rightarrow> AuditLogEntry \<Rightarrow> string" where
  "computeHash env entry =
     asha256 env (a_previousHash entry @ a_action_type entry @ a_actor_id entry @
                  toISOString (a_timestamp entry))"

definition signedText :: "AuditLogEntry \<Rightarrow> json" where
  "signedText entry =
     JObj [(''action_type'', JStr (a_action_type entry)),
           (''actor_id'', JStr (a_actor_id entry)),
           (''entity_id'', case a_entity_id entry of None \<Rightarrow> JNull | Some i \<Rightarrow> JStr i),
           (''metadata'', jsonOf (sortObject (case a_metadata entry of None \<Rightarrow> VNull | Some m \<Rightarrow> m))),
           (''timestamp'', JStr (toISOString (a_timestamp entry))),
           (''previousHash'', JStr (a_previousHash entry)),
           (''hash'', JStr (a_hash entry))]"

definition computeSignature :: "('lt, 'at) aenv \<Rightarrow> AuditLogEntry \<Rightarrow> string" where
  "computeSignature env entry = ahmac env (getHmacKey env) (stringify None (signedText entry))"

section \<open>The order of the entries\<close>

definition compareEntries :: "('lt, 'at) aenv \<Rightarrow> AuditLogEntry \<Rightarrow> AuditLogEntry \<Rightarrow> int" where
  "compareEntries env a b =
     (let timestampDiff = a_timestamp a - a_timestamp b
      in if timestampDiff \<noteq> 0 then timestampDiff else localeCompare env (a_id a) (a_id b))"

text \<open>\<^verbatim>\<open>ORDER BY timestamp, id\<close> in the database, and its reverse.\<close>

definition dbLe :: "('a AuditLogEntry_scheme) \<Rightarrow> ('a AuditLogEntry_scheme) \<Rightarrow> bool" where
  "dbLe a b \<longleftrightarrow> a_timestamp a < a_timestamp b \<or> (a_timestamp a = a_timestamp b \<and> a_id a \<le> a_id b)"

abbreviation asEntry :: "AuditLogArchive \<Rightarrow> AuditLogEntry" where
  "asEntry \<equiv> AuditLogEntry.truncate"

abbreviation first :: "'a list \<Rightarrow> 'a option" where
  "first xs \<equiv> (case xs of [] \<Rightarrow> None | x # _ \<Rightarrow> Some x)"

definition getLatestEntry :: "('lt, 'at) aenv \<Rightarrow> ('lt, 'at) auditDb \<Rightarrow> AuditLogEntry option" where
  "getLatestEntry env s =
     (let latestLog = first (rFindOrd (logRepo env) (\<lambda>_. True) (\<lambda>a b. dbLe b a) (logTab s));
          latestArchive = map_option asEntry
            (first (rFindOrd (archRepo env) (\<lambda>_. True) (\<lambda>a b. dbLe b a) (archTab s)))
      in case latestLog of
           None \<Rightarrow> latestArchive
         | Some l \<Rightarrow>
             (case latestArchive of
                None \<Rightarrow> Some l
              | Some a \<Rightarrow> if 0 \<le> compareEntries env l a then Some l else Some a))"

definition getOrderedEntries :: "('lt, 'at) aenv \<Rightarrow> ('lt, 'at) auditDb \<Rightarrow> AuditLogEntry list" where
  "getOrderedEntries env s =
     (let logs = rFindOrd (logRepo env) (\<lambda>_. True) dbLe (logTab s);
          archives = map asEntry (rFindOrd (archRepo env) (\<lambda>_. True) dbLe (archTab s))
      in sortBy (\<lambda>a b. compareEntries env a b \<le> 0) (archives @ logs))"

section \<open>Operations\<close>

definition logAction ::
    "('lt, 'at) aenv \<Rightarrow> string \<Rightarrow> string \<Rightarrow> string \<Rightarrow> string option \<Rightarrow> jsValue option \<Rightarrow> ('lt, 'at) auditDb \<Rightarrow>
     AuditLogEntry \<times> ('lt, 'at) auditDb" where
  "logAction env newId action_type actor_id entity_id metadata s =
     (let timestamp = anow env s;
          s1 = atick s;
          previousHash = (case getLatestEntry env s1 of None \<Rightarrow> [] | Some e \<Rightarrow> a_hash e);
          log = \<lparr>a_id = newId, a_action_type = action_type, a_actor_id = actor_id, a_entity_id = entity_id,
                 a_metadata = metadata, a_timestamp = timestamp, a_previousHash = previousHash,
                 a_hash = [], a_signature = []\<rparr>;
          log1 = log\<lparr>a_hash := computeHash env log\<rparr>;
          log2 = log1\<lparr>a_signature := computeSignature env log1\<rparr>
      in (log2, s1\<lparr>logTab := rSave (logRepo env) (log2\<lparr>a_metadata := map_option persist metadata\<rparr>) (logTab s1)\<rparr>))"

record AuditEvent =
  ae_action_type :: string
  ae_actor_id :: string
  ae_entity_id :: "string option"
  ae_metadata :: "jsValue option"

definition handleAudit ::
    "('lt, 'at) aenv \<Rightarrow> string \<Rightarrow> AuditEvent \<Rightarrow> ('lt, 'at) auditDb \<Rightarrow> ('lt, 'at) auditDb" where
  "handleAudit env newId ev s =
     snd (logAction env newId (ae_action_type ev) (ae_actor_id ev) (ae_entity_id ev) (ae_metadata ev) s)"

definition clearAllLogs :: "('lt, 'at) aenv \<Rightarrow> ('lt, 'at) auditDb \<Rightarrow> ('lt, 'at) auditDb" where
  "clearAllLogs env s =
     s\<lparr>archTab := rDelete (archRepo env) (\<lambda>_. True) (archTab s),
       logTab := rDelete (logRepo env) (\<lambda>_. True) (logTab s)\<rparr>"

record auditFilter =
  f_action_type :: "string option"
  f_actor_id :: "string option"
  f_entity_id :: "string option"
  f_from :: "date option"
  f_to :: "date option"

definition whenGiven :: "string option \<Rightarrow> (string \<Rightarrow> bool) \<Rightarrow> bool" where
  "whenGiven f P = (case f of None \<Rightarrow> True | Some x \<Rightarrow> x = [] \<or> P x)"

definition auditQuery :: "auditFilter option \<Rightarrow> AuditLogEntry \<Rightarrow> bool" where
  "auditQuery f e =
     (case f of None \<Rightarrow> True | Some c \<Rightarrow>
        whenGiven (f_action_type c) (\<lambda>x. a_action_type e = x) \<and>
        whenGiven (f_actor_id c) (\<lambda>x. a_actor_id e = x) \<and>
        whenGiven (f_entity_id c) (\<lambda>x. a_entity_id e = Some x) \<and>
        (case f_from c of None \<Rightarrow> True | Some d \<Rightarrow> d \<le> a_timestamp e) \<and>
        (case f_to c of None \<Rightarrow> True | Some d \<Rightarrow> a_timestamp e \<le> d))"

definition getLogs ::
    "('lt, 'at) aenv \<Rightarrow> int \<Rightarrow> nat \<Rightarrow> auditFilter option \<Rightarrow> ('lt, 'at) auditDb \<Rightarrow> js_error + AuditLogEntry list \<times> nat" where
  "getLogs env page limit f s =
     (case pageOf page limit
             (rFindOrd (logRepo env) (auditQuery f) (\<lambda>a b. a_timestamp b \<le> a_timestamp a) (logTab s)) of
        Inl e \<Rightarrow> Inl e
      | Inr logs \<Rightarrow> Inr (logs, rCount (logRepo env) (auditQuery f) (logTab s)))"

record AuditVerificationResult =
  v_valid :: bool
  v_checkedEntries :: nat
  v_failures :: "(string \<times> string) list"

definition entryFailures :: "('lt, 'at) aenv \<Rightarrow> string \<Rightarrow> AuditLogEntry \<Rightarrow> (string \<times> string) list" where
  "entryFailures env previousHash entry =
     (let expectedHash = computeHash env (entry\<lparr>a_previousHash := previousHash\<rparr>);
          expectedSignature = computeSignature env (entry\<lparr>a_previousHash := previousHash, a_hash := expectedHash\<rparr>)
      in (if a_previousHash entry \<noteq> previousHash
          then [(a_id entry, ''previousHash does not match previous entry hash'')] else []) @
         (if a_hash entry \<noteq> expectedHash
          then [(a_id entry, ''hash does not match entry contents'')] else []) @
         (if a_signature entry \<noteq> expectedSignature
          then [(a_id entry, ''signature does not match entry contents'')] else []))"

fun chainFailures :: "('lt, 'at) aenv \<Rightarrow> string \<Rightarrow> AuditLogEntry list \<Rightarrow> (string \<times> string) list" where
  "chainFailures env previousHash [] = []"
| "chainFailures env previousHash (entry # entries) =
     entryFailures env previousHash entry @ chainFailures env (a_hash entry) entries"

definition verifyAuditChain :: "('lt, 'at) aenv \<Rightarrow> ('lt, 'at) auditDb \<Rightarrow> AuditVerificationResult" where
  "verifyAuditChain env s =
     (let entries = getOrderedEntries env s; failures = chainFailures env [] entries
      in \<lparr>v_valid = (failures = []), v_checkedEntries = length entries, v_failures = failures\<rparr>)"

definition toArchive :: "date \<Rightarrow> AuditLogEntry \<Rightarrow> AuditLogArchive" where
  "toArchive now log = AuditLogEntry.extend log (AuditLogArchive.fields now)"

definition archiveOldLogs :: "('lt, 'at) aenv \<Rightarrow> ('lt, 'at) auditDb \<Rightarrow> nat \<times> ('lt, 'at) auditDb" where
  "archiveOldLogs env s =
     (let cutoff = anow env s - 90 * 86400000;
          s1 = atick s;
          oldLogs = rFindOrd (logRepo env) (\<lambda>e. a_timestamp e < cutoff) dbLe (logTab s1)
      in if oldLogs = [] then (0, s1)
         else let archives = map (toArchive (anow env s1)) oldLogs;
                  s2 = s1\<lparr>archTab := fold (rSave (archRepo env)) archives (archTab s1)\<rparr>;
                  s3 = s2\<lparr>logTab := rDelete (logRepo env) (\<lambda>e. a_id e \<in> a_id ` set oldLogs) (logTab s2)\<rparr>
              in (length oldLogs, s3))"

section \<open>The tables as one ordered log\<close>

locale audit_tables =
  L: repository "logRepo env" a_id + A: repository "archRepo env" a_id
  for env :: "('lt, 'at) aenv"

definition rows :: "('lt, 'at) aenv \<Rightarrow> ('lt, 'at) auditDb \<Rightarrow> AuditLogEntry multiset" where
  "rows env s = image_mset asEntry (mset (rFind (archRepo env) (\<lambda>_. True) (archTab s))) +
                mset (rFind (logRepo env) (\<lambda>_. True) (logTab s))"

text \<open>The list \<open>es\<close> is the content of the two tables, in the order of time.\<close>

definition represents :: "('lt, 'at) aenv \<Rightarrow> ('lt, 'at) auditDb \<Rightarrow> AuditLogEntry list \<Rightarrow> bool" where
  "represents env s es \<longleftrightarrow> mset es = rows env s \<and> sorted_wrt (<) (map a_timestamp es) \<and> distinct (map a_id es)"

lemma asEntry_simps [simp]:
  "a_id (asEntry r) = a_id r" "a_timestamp (asEntry r) = a_timestamp r"
  "asEntry (toArchive t e) = e" "a_id (toArchive t e) = a_id e"
  by (simp_all add: AuditLogEntry.defs toArchive_def AuditLogArchive.defs)

lemma anow_tick [simp]:
  "logTab (atick s) = logTab s" "archTab (atick s) = archTab s" "aticks (atick s) = Suc (aticks s)"
  by (simp_all add: atick_def)

lemma total_preorder_dbLe [simp]: "total_preorder dbLe" "total_preorder (\<lambda>a b. dbLe b a)"
  by (auto simp: total_preorder_def dbLe_def)

lemma first_latest:
  "sorted_wrt (\<lambda>a b. dbLe b a) xs \<Longrightarrow> first xs = Some m \<Longrightarrow>
     m \<in> set xs \<and> (\<forall>x \<in> set xs. a_timestamp x \<le> a_timestamp m)"
  by (cases xs) (auto simp: dbLe_def)

lemma strict_last:
  assumes "sorted_wrt (<) (map a_timestamp es)" and "m \<in> set es"
    and "\<And>x. x \<in> set es \<Longrightarrow> a_timestamp x \<le> a_timestamp m"
  shows "m = last es"
proof (cases es rule: rev_cases)
  case (snoc es' e)
  with assms show ?thesis by (fastforce simp: sorted_wrt_append)
qed (use assms in simp)

lemma same_entry:
  assumes "sorted_wrt (<) (map a_timestamp es)" and "x \<in> set es" "y \<in> set es" and "a_timestamp x = a_timestamp y"
  shows "x = y"
proof -
  have "distinct (map a_timestamp es)" using assms(1) strict_sorted_iff by blast
  with assms show ?thesis by (auto simp: distinct_map inj_on_def)
qed

lemma compareEntries_sign: "a_timestamp a \<noteq> a_timestamp b \<Longrightarrow> compareEntries env a b = a_timestamp a - a_timestamp b"
  by (simp add: compareEntries_def)

context audit_tables
begin

lemma set_represents:
  assumes "represents env s es"
  shows "set es = asEntry ` set (rFind (archRepo env) (\<lambda>_. True) (archTab s)) \<union>
                  set (rFind (logRepo env) (\<lambda>_. True) (logTab s))"
  using assms unfolding represents_def rows_def by (metis set_image_mset set_mset_mset set_mset_union)

lemma ordered_represents:
  assumes "represents env s es"
  shows "getOrderedEntries env s = es"
proof -
  let ?xs = "map asEntry (rFindOrd (archRepo env) (\<lambda>_. True) dbLe (archTab s)) @
             rFindOrd (logRepo env) (\<lambda>_. True) dbLe (logTab s)"
  have m: "mset ?xs = mset es" using assms by (simp add: represents_def rows_def L.findOrd_mset A.findOrd_mset)
  have d: "distinct (map a_timestamp es)" using assms strict_sorted_iff by (auto simp: represents_def)
  then have dx: "distinct (map a_timestamp ?xs)" using m by (metis mset_map mset_eq_imp_distinct_iff)
  then have "sortBy (\<lambda>a b. compareEntries env a b \<le> 0) ?xs = sort_key a_timestamp ?xs"
    by (rule sortBy_distinct_key) (simp add: compareEntries_sign)
  also have "\<dots> = es"
  proof (rule sort_key_inj_key_eq [OF m])
    show "inj_on a_timestamp (set ?xs)" using dx by (simp only: distinct_map)
    show "sorted (map a_timestamp es)" using assms strict_sorted_iff by (auto simp: represents_def)
  qed
  finally show ?thesis by (simp add: getOrderedEntries_def)
qed

lemma latest_represents:
  assumes "represents env s es"
  shows "getLatestEntry env s = (if es = [] then None else Some (last es))"
proof -
  let ?logs = "rFindOrd (logRepo env) (\<lambda>_. True) (\<lambda>a b. dbLe b a) (logTab s)"
  let ?arch = "rFindOrd (archRepo env) (\<lambda>_. True) (\<lambda>a b. dbLe b a) (archTab s)"
  have st: "sorted_wrt (<) (map a_timestamp es)" using assms by (simp add: represents_def)
  have es: "set es = asEntry ` set ?arch \<union> set ?logs"
    using set_represents [OF assms] by (simp only: L.findOrd_set A.findOrd_set)
  have sl: "sorted_wrt (\<lambda>a b. dbLe b a) ?logs" and sa: "sorted_wrt (\<lambda>a b. dbLe b a) ?arch"
    by (simp_all add: L.findOrd_sorted A.findOrd_sorted)
  note fl = first_latest [OF sl] and fa = first_latest [OF sa]
  have last: "m = last es" if "m \<in> set es" "\<forall>x \<in> set ?logs. a_timestamp x \<le> a_timestamp m"
      "\<forall>x \<in> set ?arch. a_timestamp x \<le> a_timestamp m" for m
    using that st by (intro strict_last) (auto simp: es)
  show ?thesis
  proof (cases "first ?logs")
    case None
    then have l: "set ?logs = {}" by (cases ?logs) auto
    show ?thesis
    proof (cases "first ?arch")
      case None
      then have "set es = {}" using es l by (cases ?arch) auto
      with None \<open>first ?logs = None\<close> show ?thesis by (simp add: getLatestEntry_def)
    next
      case (Some a)
      then have "asEntry a = last es" and "es \<noteq> []" using fa [OF Some] l es by (auto intro!: last)
      with Some \<open>first ?logs = None\<close> show ?thesis by (simp add: getLatestEntry_def)
    qed
  next
    case (Some l)
    show ?thesis
    proof (cases "first ?arch")
      case None
      then have "set ?arch = {}" by (cases ?arch) auto
      then have "l = last es" and "es \<noteq> []" using fl [OF Some] es by (auto intro!: last)
      with Some None show ?thesis by (simp add: getLatestEntry_def)
    next
      case (Some a)
      note l = fl [OF \<open>first ?logs = Some l\<close>] and a = fa [OF Some]
      have "es \<noteq> []" using l es by auto
      moreover have "(if 0 \<le> compareEntries env l (asEntry a) then l else asEntry a) = last es"
      proof (cases "a_timestamp l = a_timestamp a")
        case True
        then have "l = asEntry a" using same_entry [OF st, of l "asEntry a"] l a es by auto
        then show ?thesis using l a es True by (auto intro!: last)
      next
        case False
        then show ?thesis using l a es by (auto simp: compareEntries_sign intro!: last)
      qed
      ultimately show ?thesis using Some \<open>first ?logs = Some l\<close>
        by (simp add: getLatestEntry_def split: if_splits)
    qed
  qed
qed

lemma fresh_log:
  assumes "represents env s es" and "i \<notin> a_id ` set es"
  shows "rGet (logRepo env) a_id i (logTab s) = None"
proof (rule ccontr)
  assume "rGet (logRepo env) a_id i (logTab s) \<noteq> None"
  then obtain e where e: "rGet (logRepo env) a_id i (logTab s) = Some e" by auto
  then have "a_id e = i" by (rule L.get_key)
  then have "e \<in> set (rFind (logRepo env) (\<lambda>_. True) (logTab s))"
    using e by (simp only: L.find_iff simp_thms)
  then have "e \<in> set es" by (simp only: set_represents [OF assms(1)] Un_iff simp_thms)
  with \<open>a_id e = i\<close> assms(2) show False by auto
qed

end

section \<open>The abstract log\<close>

text \<open>
  The specification of the log is a list to which an action appends an entry that carries the hash
  of the last one, and which archiving does not change.
\<close>

definition lastHash :: "AuditLogEntry list \<Rightarrow> string" where
  "lastHash es = (if es = [] then [] else a_hash (last es))"

definition nextEntry ::
    "('lt, 'at) aenv \<Rightarrow> date \<Rightarrow> string \<Rightarrow> string \<Rightarrow> string \<Rightarrow> string option \<Rightarrow> jsValue option \<Rightarrow>
     AuditLogEntry list \<Rightarrow> AuditLogEntry" where
  "nextEntry env t newId action_type actor_id entity_id metadata es =
     (let e = \<lparr>a_id = newId, a_action_type = action_type, a_actor_id = actor_id, a_entity_id = entity_id,
               a_metadata = metadata, a_timestamp = t, a_previousHash = lastHash es,
               a_hash = [], a_signature = []\<rparr>;
          e1 = e\<lparr>a_hash := computeHash env e\<rparr>
      in e1\<lparr>a_signature := computeSignature env e1, a_metadata := map_option persist metadata\<rparr>)"

datatype auditOp =
    LogOp string string string "string option" "jsValue option"
  | ArchiveOp

fun auditStep :: "('lt, 'at) aenv \<Rightarrow> auditOp \<Rightarrow> ('lt, 'at) auditDb \<Rightarrow> ('lt, 'at) auditDb" where
  "auditStep env (LogOp i ty ac en md) s = snd (logAction env i ty ac en md s)"
| "auditStep env ArchiveOp s = snd (archiveOldLogs env s)"

fun specStep :: "('lt, 'at) aenv \<Rightarrow> nat \<Rightarrow> auditOp \<Rightarrow> AuditLogEntry list \<Rightarrow> AuditLogEntry list" where
  "specStep env t (LogOp i ty ac en md) es = es @ [nextEntry env (aclock env t) i ty ac en md es]"
| "specStep env t ArchiveOp es = es"

fun specRun :: "('lt, 'at) aenv \<Rightarrow> nat \<Rightarrow> auditOp list \<Rightarrow> AuditLogEntry list \<Rightarrow> AuditLogEntry list" where
  "specRun env t [] es = es"
| "specRun env t (a # ops) es = specRun env (Suc t) ops (specStep env t a es)"

fun logIds :: "auditOp list \<Rightarrow> string list" where
  "logIds [] = []"
| "logIds (LogOp i _ _ _ _ # ops) = i # logIds ops"
| "logIds (ArchiveOp # ops) = logIds ops"

fun plainMetadata :: "auditOp \<Rightarrow> bool" where
  "plainMetadata (LogOp _ _ _ _ (Some md)) = dateFree md"
| "plainMetadata _ = True"

lemma nextEntry_simps [simp]:
  "a_id (nextEntry env t i ty ac en md es) = i" "a_timestamp (nextEntry env t i ty ac en md es) = t"
  by (simp_all add: nextEntry_def Let_def)

lemma chainFailures_append:
  "chainFailures env p (es @ [e]) =
     chainFailures env p es @ entryFailures env (if es = [] then p else a_hash (last es)) e"
  by (induction es arbitrary: p) auto

lemma nextEntry_verifies:
  assumes "map_option persist md = md"
  shows "entryFailures env (lastHash es) (nextEntry env t i ty ac en md es) = []"
  using assms
  by (simp add: entryFailures_def nextEntry_def Let_def computeHash_def computeSignature_def signedText_def)

lemma plain_persist: "plainMetadata (LogOp i ty ac en md) \<Longrightarrow> map_option persist md = md"
  by (cases md) (simp_all add: persist_dateFree)

lemma chain_nextEntry:
  "map_option persist md = md \<Longrightarrow> chainFailures env [] es = [] \<Longrightarrow> chainFailures env [] (es @ [nextEntry env t i ty ac en md es]) = []"
  using nextEntry_verifies [of md env es] by (simp add: chainFailures_append lastHash_def)

lemma chainFailures_prefix: "chainFailures env p es \<noteq> [] \<Longrightarrow> chainFailures env p (es @ es') \<noteq> []"
  by (induction es arbitrary: p) auto

text \<open>An entry whose metadata reads back with another signed text fails the verification for good.\<close>

lemma nextEntry_fails:
  assumes "computeSignature env ((nextEntry env t i ty ac en md es)\<lparr>a_metadata := md\<rparr>) \<noteq>
           computeSignature env (nextEntry env t i ty ac en md es)"
  shows "chainFailures env [] (es @ [nextEntry env t i ty ac en md es]) \<noteq> []"
proof -
  let ?e = "nextEntry env t i ty ac en md es"
  have sig: "a_signature ?e = computeSignature env (?e\<lparr>a_metadata := md\<rparr>)"
    by (simp add: nextEntry_def Let_def computeSignature_def signedText_def)
  have exp: "computeSignature env (?e\<lparr>a_previousHash := lastHash es, a_hash := computeHash env (?e\<lparr>a_previousHash := lastHash es\<rparr>)\<rparr>) =
      computeSignature env ?e"
    by (simp add: nextEntry_def Let_def computeSignature_def signedText_def computeHash_def)
  have "entryFailures env (lastHash es) ?e \<noteq> []"
    using assms sig exp by (simp add: entryFailures_def Let_def)
  then show ?thesis by (simp add: chainFailures_append lastHash_def)
qed

context audit_tables
begin

lemma logAction_represents:
  assumes "represents env s es" and "i \<notin> a_id ` set es" and "\<forall>e \<in> set es. a_timestamp e < anow env s"
  shows "represents env (snd (logAction env i ty ac en md s)) (es @ [nextEntry env (anow env s) i ty ac en md es])"
proof -
  let ?e = "nextEntry env (anow env s) i ty ac en md es"
  have "represents env (atick s) es" using assms(1) by (simp add: represents_def rows_def)
  from latest_represents [OF this]
  have s: "snd (logAction env i ty ac en md s) = (atick s)\<lparr>logTab := rSave (logRepo env) ?e (logTab s)\<rparr>"
    by (simp add: logAction_def nextEntry_def lastHash_def Let_def)
  have "rGet (logRepo env) a_id i (logTab s) = None"
    using assms(1,2) by (rule fresh_log)
  then have "rows env (snd (logAction env i ty ac en md s)) = add_mset ?e (rows env s)"
    by (simp add: rows_def s L.find_save_mset)
  with assms show ?thesis by (auto simp: represents_def sorted_wrt_append)
qed

lemma archiveOldLogs_rows:
  assumes "represents env s es"
  shows "rows env (snd (archiveOldLogs env s)) = rows env s"
proof -
  define cut where "cut = anow env s - 90 * 86400000"
  define old where "old = rFindOrd (logRepo env) (\<lambda>e. a_timestamp e < cut) dbLe (logTab s)"
  define archives where "archives = map (toArchive (anow env (atick s))) old"
  let ?logs = "rFind (logRepo env) (\<lambda>_. True) (logTab s)"
  have old: "mset old = mset (filter (\<lambda>e. a_timestamp e < cut) ?logs)"
    using L.find_filter_mset [of "\<lambda>_. True" "\<lambda>e. a_timestamp e < cut" "logTab s"]
    by (simp only: old_def L.findOrd_mset simp_thms)
  then have oldset: "set old = {e \<in> set ?logs. a_timestamp e < cut}"
    by (metis mset_eq_setD set_filter)
  have dl: "distinct (map a_id old)" unfolding old_def by (rule L.findOrd_distinct)
  have ids: "a_id ` set old \<inter> a_id ` set (rFind (archRepo env) (\<lambda>_. True) (archTab s)) = {}"
  proof -
    have "mset (map a_id es) = image_mset a_id (rows env s)"
      using assms by (simp add: represents_def)
    also have "\<dots> = mset (map a_id (rFind (archRepo env) (\<lambda>_. True) (archTab s)) @ map a_id ?logs)"
      by (simp add: rows_def multiset.map_comp o_def)
    finally have "distinct (map a_id (rFind (archRepo env) (\<lambda>_. True) (archTab s)) @ map a_id ?logs)"
      using assms unfolding represents_def by (metis mset_eq_imp_distinct_iff)
    with oldset show ?thesis by auto
  qed
  have fresh: "rGet (archRepo env) a_id (a_id r) (archTab s) = None \<and> True" if "r \<in> set archives" for r
  proof (rule ccontr)
    assume "\<not> ?thesis"
    then obtain q where "rGet (archRepo env) a_id (a_id r) (archTab s) = Some q" by auto
    moreover from this have "a_id q = a_id r" by (rule A.get_key)
    ultimately have "q \<in> set (rFind (archRepo env) (\<lambda>_. True) (archTab s))" by (simp add: A.find_iff)
    moreover from that have "a_id r \<in> a_id ` set old" by (auto simp: archives_def)
    ultimately show False using ids \<open>a_id q = a_id r\<close> by (metis disjoint_iff image_eqI)
  qed
  have da: "distinct (map a_id archives)" using dl by (simp add: archives_def o_def)
  have del: "mset (rFind (logRepo env) (\<lambda>_. True) (rDelete (logRepo env) (\<lambda>e. a_id e \<in> a_id ` set old) (logTab s))) =
      mset (filter (\<lambda>e. \<not> a_timestamp e < cut) ?logs)"
  proof -
    have "inj_on a_id (set ?logs)" using L.find_distinct distinct_map by blast
    then have "a_id e \<in> a_id ` set old \<longleftrightarrow> a_timestamp e < cut" if "e \<in> set ?logs" for e
      using that by (auto simp: oldset inj_on_def)
    then show ?thesis by (simp only: L.find_delete_mset cong: filter_cong)
  qed
  have step: "snd (archiveOldLogs env s) =
      (if old = [] then atick s
       else (atick s)\<lparr>archTab := fold (rSave (archRepo env)) archives (archTab s),
              logTab := rDelete (logRepo env) (\<lambda>e. a_id e \<in> a_id ` set old) (logTab s)\<rparr>)"
    unfolding old_def archives_def cut_def archiveOldLogs_def Let_def by simp
  show ?thesis
  proof (cases "old = []")
    case True
    then show ?thesis by (simp add: step rows_def)
  next
    case False
    have "image_mset asEntry (mset archives) = mset old"
      by (simp add: archives_def multiset.map_comp o_def)
    with False show ?thesis
      by (simp add: step rows_def del A.find_fold_save_mset [OF da fresh] old multiset_partition [symmetric])
  qed
qed

lemma archiveOldLogs_represents:
  "represents env s es \<Longrightarrow> represents env (snd (archiveOldLogs env s)) es"
  using archiveOldLogs_rows by (simp add: represents_def)

lemma auditStep_aticks: "aticks (auditStep env a s) = Suc (aticks s)"
  by (cases a) (simp_all add: logAction_def archiveOldLogs_def Let_def)

lemma auditRun_represents:
  assumes "strict_mono (aclock env)"
  shows "represents env s es \<Longrightarrow> chainFailures env [] es = [] \<Longrightarrow> (\<forall>e \<in> set es. a_timestamp e < anow env s) \<Longrightarrow>
    distinct (logIds ops) \<Longrightarrow> list_all plainMetadata ops \<Longrightarrow> a_id ` set es \<inter> set (logIds ops) = {} \<Longrightarrow>
    represents env (fold (auditStep env) ops s) (specRun env (aticks s) ops es) \<and>
    chainFailures env [] (specRun env (aticks s) ops es) = [] \<and>
    length (specRun env (aticks s) ops es) = length es + length (logIds ops)"
proof (induction ops arbitrary: s es)
  case (Cons a ops)
  have later: "anow env s < anow env (auditStep env a s)"
    using assms auditStep_aticks by (simp add: anow_def strict_mono_less)
  show ?case
  proof (cases a)
    case (LogOp i ty ac en md)
    let ?es = "es @ [nextEntry env (anow env s) i ty ac en md es]"
    have "represents env (auditStep env a s) ?es" using Cons.prems LogOp logAction_represents by simp
    moreover have "chainFailures env [] ?es = []" using Cons.prems(2,5) LogOp plain_persist by (intro chain_nextEntry) auto
    ultimately show ?thesis
      using Cons.prems later LogOp Cons.IH [of "auditStep env a s" ?es] auditStep_aticks [of a s]
      by (auto simp: anow_def intro: less_trans)
  next
    case ArchiveOp
    then show ?thesis
      using Cons.prems later Cons.IH [of "auditStep env a s" es] auditStep_aticks [of a s]
        archiveOldLogs_represents [of s es]
      by (auto simp: anow_def intro: less_trans)
  qed
qed simp

end

section \<open>The in-memory audit log\<close>

definition memAenv :: "(nat \<Rightarrow> date) \<Rightarrow> (AuditLogEntry list, AuditLogArchive list) aenv" where
  "memAenv clock =
     \<lparr>logRepo = memRepo a_id, archRepo = memRepo a_id, aclock = clock, asha256 = (\<lambda>x. ''#'' @ x),
      ahmac = (\<lambda>k m. k @ m), aHmacKey = Some ''k'',
      localeCompare = (\<lambda>a b. if a < b then -1 else if a = b then 0 else 1)\<rparr>"

definition memAudit :: "(AuditLogEntry list, AuditLogArchive list) auditDb" where
  "memAudit = \<lparr>logTab = [], archTab = [], aticks = 0\<rparr>"

interpretation mema: audit_tables "memAenv clock" for clock
  unfolding audit_tables_def memAenv_def by (simp add: mem.repository_axioms)

definition emptyAudit :: "('lt, 'at) aenv \<Rightarrow> ('lt, 'at) auditDb \<Rightarrow> bool" where
  "emptyAudit env s \<longleftrightarrow> rFind (logRepo env) (\<lambda>_. True) (logTab s) = [] \<and> rFind (archRepo env) (\<lambda>_. True) (archTab s) = []"

lemma emptyAudit_represents: "emptyAudit env s \<Longrightarrow> represents env s []"
  by (simp add: emptyAudit_def represents_def rows_def)

lemma memAudit_empty: "emptyAudit (memAenv clock) memAudit"
  by (simp add: emptyAudit_def memAenv_def memAudit_def memFind_def)

section \<open>The log refines an append-only list\<close>



section \<open>Tampering\<close>

lemma entry_signed: "entryFailures env p e = [] \<Longrightarrow> a_signature e = computeSignature env e"
  by (auto simp: entryFailures_def Let_def computeSignature_def signedText_def split: if_splits)

lemma chain_signed: "chainFailures env p es = [] \<Longrightarrow> e \<in> set es \<Longrightarrow> a_signature e = computeSignature env e"
  by (induction es arbitrary: p) (auto dest: entry_signed)

lemma verified_signed:
  "v_valid (verifyAuditChain env s) \<Longrightarrow> e \<in> set (getOrderedEntries env s) \<Longrightarrow>
     a_signature e = ahmac env (getHmacKey env) (stringify None (signedText e))"
  using chain_signed [of env "[]"] by (auto simp: verifyAuditChain_def Let_def computeSignature_def)

text \<open>What an entry says, as far as its signature covers it.\<close>

definition auditContent :: "AuditLogEntry \<Rightarrow> string \<times> string \<times> string option \<times> json \<times> string" where
  "auditContent e = (a_action_type e, a_actor_id e, a_entity_id e,
     jsonOf (sortObject (case a_metadata e of None \<Rightarrow> VNull | Some m \<Rightarrow> m)), toISOString (a_timestamp e))"

lemma signedText_content: "signedText e = signedText e' \<Longrightarrow> auditContent e = auditContent e'"
  by (auto simp: signedText_def auditContent_def split: option.splits)

text \<open>
  C16. Tampering shows. Let an entry of a verified log be replaced by one with the same signature
  that says something else: another action, actor or entity, other metadata or another time. Then
  the verification of the changed log fails, unless the two signed texts collide under the HMAC.
\<close>

theorem audit_tamper_evident:
  assumes "v_valid (verifyAuditChain env s)" and "e \<in> set (getOrderedEntries env s)"
    and "e' \<in> set (getOrderedEntries env s')" and "a_signature e' = a_signature e"
    and "auditContent e' \<noteq> auditContent e"
    and "\<And>x y. x \<in> {stringify None (signedText e), stringify None (signedText e')} \<Longrightarrow>
           y \<in> {stringify None (signedText e), stringify None (signedText e')} \<Longrightarrow>
           ahmac env (getHmacKey env) x = ahmac env (getHmacKey env) y \<Longrightarrow> x = y"
  shows "\<not> v_valid (verifyAuditChain env s')"
proof
  assume "v_valid (verifyAuditChain env s')"
  from verified_signed [OF this assms(3)] verified_signed [OF assms(1,2)] assms(4)
  have "ahmac env (getHmacKey env) (stringify None (signedText e)) =
      ahmac env (getHmacKey env) (stringify None (signedText e'))" by metis
  then have "stringify None (signedText e) = stringify None (signedText e')"
    by (rule assms(6) [OF insertI1 insertI2 [OF insertI1]])
  then have "auditContent e = auditContent e'" by (intro signedText_content) (simp only: stringify_inj)
  with assms(5) show False by simp
qed

definition sampleAudit :: "(AuditLogEntry list, AuditLogArchive list) auditDb" where
  "sampleAudit = snd (logAction (memAenv int) ''1'' ''LOGIN'' ''u'' None None memAudit)"

definition sampleEntry :: AuditLogEntry where
  "sampleEntry = nextEntry (memAenv int) 0 ''1'' ''LOGIN'' ''u'' None None []"

lemma single_ordered:
  "getOrderedEntries (memAenv c) \<lparr>logTab = [e], archTab = [], aticks = n\<rparr> = [e]"
  by (rule audit_tables.ordered_represents [OF mema.audit_tables_axioms])
    (simp add: represents_def rows_def memAenv_def memFind_def)

lemma sampleAudit_eq: "sampleAudit = \<lparr>logTab = [sampleEntry], archTab = [], aticks = 1\<rparr>"
  by (simp add: sampleAudit_def sampleEntry_def memAudit_def memAenv_def logAction_def nextEntry_def
      getLatestEntry_def lastHash_def memFind_def atick_def anow_def Let_def)

lemma sampleAudit_valid: "v_valid (verifyAuditChain (memAenv int) sampleAudit)"
  using chain_nextEntry [of None "memAenv int" "[]" 0 "''1''" "''LOGIN''" "''u''" None]
  by (simp add: verifyAuditChain_def sampleAudit_eq single_ordered sampleEntry_def [symmetric])

theorem audit_tamper_evident_witness:
  "\<not> v_valid (verifyAuditChain (memAenv int) (sampleAudit\<lparr>logTab := [sampleEntry\<lparr>a_actor_id := ''mallory''\<rparr>]\<rparr>))"
  by (rule audit_tamper_evident [of "memAenv int" sampleAudit sampleEntry "sampleEntry\<lparr>a_actor_id := ''mallory''\<rparr>"])
    (simp_all add: sampleAudit_valid, simp_all add: sampleAudit_eq single_ordered auditContent_def,
      simp_all add: sampleEntry_def nextEntry_def Let_def memAenv_def)

section \<open>Two actions in one millisecond\<close>

lemma sortBy_two: "mset xs = {#a, b#} \<Longrightarrow> le b a \<Longrightarrow> \<not> le a b \<Longrightarrow> sortBy le xs = [b, a]"
proof -
  assume m: "mset xs = {#a, b#}" and le: "le b a" "\<not> le a b"
  then have "length xs = 2" by (metis size_mset size_add_mset size_empty numeral_2_eq_2)
  then obtain x y where xs: "xs = [x, y]" by (auto simp: numeral_2_eq_2 length_Suc_conv)
  with m have "x = a \<and> y = b \<or> x = b \<and> y = a" by (auto simp: add_eq_conv_ex)
  with xs le show ?thesis by auto
qed

context audit_tables
begin

lemma same_millisecond:
  assumes "emptyAudit env s" and "aclock env (Suc (aticks s)) = aclock env (aticks s)"
    and "i \<noteq> j" and "localeCompare env j i < 0" and "0 < localeCompare env i j" and "\<And>x. asha256 env x \<noteq> []"
  shows "\<not> v_valid (verifyAuditChain env
    (snd (logAction env j ty' ac' en' md' (snd (logAction env i ty ac en md s)))))"
proof -
  let ?t = "anow env s" and ?s1 = "snd (logAction env i ty ac en md s)"
  let ?e1 = "nextEntry env ?t i ty ac en md []"
  let ?e2 = "nextEntry env ?t j ty' ac' en' md' [?e1]"
  let ?s2 = "snd (logAction env j ty' ac' en' md' ?s1)"
  have r1: "represents env ?s1 [?e1]"
    using logAction_represents [OF emptyAudit_represents [OF assms(1)]] by simp
  have t1: "anow env ?s1 = ?t" using assms(2) by (simp add: anow_def logAction_def Let_def)
  have "represents env (atick ?s1) [?e1]" using r1 by (simp add: represents_def rows_def)
  from latest_represents [OF this]
  have s2: "?s2 = (atick ?s1)\<lparr>logTab := rSave (logRepo env) ?e2 (logTab ?s1)\<rparr>"
    unfolding logAction_def [of env j] nextEntry_def [of env _ j] lastHash_def Let_def t1 by simp
  have "rGet (logRepo env) a_id j (logTab ?s1) = None"
    using assms(3) by (intro fresh_log [OF r1]) simp
  then have "rows env ?s2 = {#?e1, ?e2#}"
    using r1 by (simp add: rows_def s2 L.find_save_mset represents_def add_mset_commute)
  moreover have "mset (map asEntry (rFindOrd (archRepo env) (\<lambda>_. True) dbLe (archTab ?s2)) @
      rFindOrd (logRepo env) (\<lambda>_. True) dbLe (logTab ?s2)) = rows env ?s2"
    by (simp add: rows_def L.findOrd_mset A.findOrd_mset)
  ultimately have "getOrderedEntries env ?s2 = [?e2, ?e1]"
    using assms(4,5) unfolding getOrderedEntries_def Let_def
    by (intro sortBy_two) (simp_all add: compareEntries_def)
  moreover have "a_previousHash ?e2 = a_hash ?e1" by (simp add: nextEntry_def [of env _ j] lastHash_def Let_def)
  moreover have "a_hash ?e1 \<noteq> []" using assms(6) by (simp add: nextEntry_def computeHash_def Let_def)
  ultimately show ?thesis by (simp add: verifyAuditChain_def entryFailures_def Let_def)
qed

end

text \<open>
  Two actions that are logged in the same millisecond can break an intact log: when the id
  drawn for the second sorts before the first one's, the verification reads them in the wrong order
  and reports the log as invalid.
\<close>

theorem audit_same_millisecond:
  assumes "audit_tables env" and "emptyAudit env s" and "aclock env (Suc (aticks s)) = aclock env (aticks s)"
    and "i \<noteq> j" and "localeCompare env j i < 0" and "0 < localeCompare env i j" and "\<And>x. asha256 env x \<noteq> []"
  shows "\<not> v_valid (verifyAuditChain env
    (snd (logAction env j ty' ac' en' md' (snd (logAction env i ty ac en md s)))))"
  using assms by (intro audit_tables.same_millisecond) auto

theorem audit_same_millisecond_witness:
  "\<not> v_valid (verifyAuditChain (memAenv (\<lambda>n. 5))
    (snd (logAction (memAenv (\<lambda>n. 5)) ''a'' ''LOGOUT'' ''u'' None None
      (snd (logAction (memAenv (\<lambda>n. 5)) ''b'' ''LOGIN'' ''u'' None None memAudit)))))"
  by (rule audit_same_millisecond [OF mema.audit_tables_axioms memAudit_empty]) (simp_all add: memAenv_def)

end
