(* ===== verification/Auth.thy ===== *)
theory Auth
  imports Audit_Chain
begin

text \<open>
  Authentication (\<^verbatim>\<open>auth/services\<close>, \<^verbatim>\<open>auth/entities\<close>, \<^verbatim>\<open>auth/controllers/auth.controller.ts\<close>): login
  nonces, wallets, refresh tokens, API tokens, and the handlers that compose them. The five tables,
  the signature check, the JWT library, bcrypt and the random ids are parameters; the audit log that
  the services write is the one of theory \<^verbatim>\<open>Audit_Chain\<close>. A draw of a random id advances a counter, and so
  does every reading of the clock.
\<close>

section \<open>Entities\<close>

record User =
  u_id :: string
  u_email :: "string option"
  u_username :: "string option"
  u_createdAt :: date
  u_updatedAt :: date
  u_isActive :: bool

record WalletBinding =
  b_id :: string
  b_publicKey :: string
  b_userId :: string
  b_boundAt :: date
  b_isPrimary :: bool
  b_lastUsed :: "date option"

record LoginNonce =
  n_id :: string
  n_nonce :: string
  n_publicKey :: string
  n_expiresAt :: date
  n_used :: bool
  n_createdAt :: date

record RefreshToken =
  t_id :: string
  t_token :: string
  t_userId :: string
  t_expiresAt :: date
  t_revoked :: bool
  t_revokedAt :: "date option"
  t_createdAt :: date

record ApiToken =
  k_id :: string
  k_token :: string
  k_name :: string
  k_role :: string
  k_userId :: string
  k_expiresAt :: "date option"
  k_revoked :: bool
  k_lastUsedAt :: "date option"
  k_createdAt :: date

record JwtPayload =
  p_sub :: string
  p_walletId :: "string option"

section \<open>Environment and state\<close>

record ('u, 'w, 'n, 'r, 'k, 'l, 'h) authEnv =
  userRepo :: "('u, User) repo"
  walletRepo :: "('w, WalletBinding) repo"
  nonceRepo :: "('n, LoginNonce) repo"
  refreshRepo :: "('r, RefreshToken) repo"
  apiRepo :: "('k, ApiToken) repo"
  auditEnv :: "('l, 'h) aenv"
  uuidOf :: "nat \<Rightarrow> string"
  decodeEd25519PublicKey :: "string \<Rightarrow> string option"
  naclVerify :: "string \<Rightarrow> string \<Rightarrow> string \<Rightarrow> bool option"
  jwtSign :: "JwtPayload \<Rightarrow> string \<Rightarrow> date \<Rightarrow> string"
  jwtVerify :: "string \<Rightarrow> date \<Rightarrow> JwtPayload option"
  passportJwt :: "string option \<Rightarrow> date \<Rightarrow> JwtPayload option"
  jwtAccessExpiration :: "string option"
  bcryptHash :: "string \<Rightarrow> nat \<Rightarrow> string"
  bcryptCompare :: "string \<Rightarrow> string \<Rightarrow> bool"
  apiTokenDefaultDays :: "nat option"

record ('u, 'w, 'n, 'r, 'k, 'l, 'h) auth =
  userTab :: 'u
  walletTab :: 'w
  nonceTab :: 'n
  refreshTab :: 'r
  apiTab :: 'k
  auditTabs :: "('l, 'h) auditDb"
  uuids :: nat

definition authNow :: "('u, 'w, 'n, 'r, 'k, 'l, 'h) authEnv \<Rightarrow> ('u, 'w, 'n, 'r, 'k, 'l, 'h) auth \<Rightarrow> date" where
  "authNow env s = anow (auditEnv env) (auditTabs s)"

definition authTick :: "('u, 'w, 'n, 'r, 'k, 'l, 'h) auth \<Rightarrow> ('u, 'w, 'n, 'r, 'k, 'l, 'h) auth" where
  "authTick s = s\<lparr>auditTabs := atick (auditTabs s)\<rparr>"

definition newUuid ::
    "('u, 'w, 'n, 'r, 'k, 'l, 'h) authEnv \<Rightarrow> ('u, 'w, 'n, 'r, 'k, 'l, 'h) auth \<Rightarrow> string \<times> ('u, 'w, 'n, 'r, 'k, 'l, 'h) auth" where
  "newUuid env s = (uuidOf env (uuids s), s\<lparr>uuids := Suc (uuids s)\<rparr>)"

definition authLog ::
    "('u, 'w, 'n, 'r, 'k, 'l, 'h) authEnv \<Rightarrow> string \<Rightarrow> string \<Rightarrow> string option \<Rightarrow> jsValue option \<Rightarrow>
     ('u, 'w, 'n, 'r, 'k, 'l, 'h) auth \<Rightarrow> ('u, 'w, 'n, 'r, 'k, 'l, 'h) auth" where
  "authLog env action_type actor_id entity_id metadata s =
     (case newUuid env s of (i, s1) \<Rightarrow>
        s1\<lparr>auditTabs := snd (logAction (auditEnv env) i action_type actor_id entity_id metadata (auditTabs s1))\<rparr>)"

section \<open>Nonces\<close>

definition loginMessage :: "string \<Rightarrow> string" where
  "loginMessage nonce = ''Sign this message to authenticate with Stellara: '' @ nonce"

definition generateNonce ::
    "('u, 'w, 'n, 'r, 'k, 'l, 'h) authEnv \<Rightarrow> string \<Rightarrow> ('u, 'w, 'n, 'r, 'k, 'l, 'h) auth \<Rightarrow>
     (string \<times> date \<times> string) \<times> ('u, 'w, 'n, 'r, 'k, 'l, 'h) auth" where
  "generateNonce env publicKey s =
     (case newUuid env s of (nonce, s1) \<Rightarrow>
        let expiresAt = authNow env s1 + 5 * 60000 in
        case newUuid env (authTick s1) of (i, s2) \<Rightarrow>
          let loginNonce = \<lparr>n_id = i, n_nonce = nonce, n_publicKey = publicKey, n_expiresAt = expiresAt,
                            n_used = False, n_createdAt = authNow env s2\<rparr>
          in ((nonce, expiresAt, loginMessage nonce),
              s2\<lparr>nonceTab := rSave (nonceRepo env) loginNonce (nonceTab s2)\<rparr>))"

definition validateNonce ::
    "('u, 'w, 'n, 'r, 'k, 'l, 'h) authEnv \<Rightarrow> string \<Rightarrow> string \<Rightarrow>
     (('u, 'w, 'n, 'r, 'k, 'l, 'h) auth, LoginNonce) action" where
  "validateNonce env nonce publicKey s =
     (case rFindOne (nonceRepo env) (\<lambda>n. n_nonce n = nonce \<and> n_publicKey n = publicKey) (nonceTab s) of
        None \<Rightarrow> (Inl (UnauthorizedException ''Invalid nonce''), s)
      | Some loginNonce \<Rightarrow>
          if n_used loginNonce then (Inl (UnauthorizedException ''Nonce already used''), s)
          else if n_expiresAt loginNonce < authNow env s
               then (Inl (UnauthorizedException ''Nonce expired''), authTick s)
          else (Inr loginNonce, authTick s))"

definition markNonceUsed ::
    "('u, 'w, 'n, 'r, 'k, 'l, 'h) authEnv \<Rightarrow> string \<Rightarrow> ('u, 'w, 'n, 'r, 'k, 'l, 'h) auth \<Rightarrow>
     ('u, 'w, 'n, 'r, 'k, 'l, 'h) auth" where
  "markNonceUsed env nonce s =
     s\<lparr>nonceTab := rUpdate (nonceRepo env) (\<lambda>n. n_nonce n = nonce) (n_used_update (\<lambda>_. True)) (nonceTab s)\<rparr>"

definition cleanupExpiredNonces ::
    "('u, 'w, 'n, 'r, 'k, 'l, 'h) authEnv \<Rightarrow> ('u, 'w, 'n, 'r, 'k, 'l, 'h) auth \<Rightarrow> ('u, 'w, 'n, 'r, 'k, 'l, 'h) auth" where
  "cleanupExpiredNonces env s =
     (let now = authNow env s; s1 = authTick s
      in s1\<lparr>nonceTab := rDelete (nonceRepo env) (\<lambda>n. n_expiresAt n < now) (nonceTab s1)\<rparr>)"

section \<open>Wallets\<close>

definition verifySignature ::
    "('u, 'w, 'n, 'r, 'k, 'l, 'h) authEnv \<Rightarrow> string \<Rightarrow> string \<Rightarrow> string \<Rightarrow> bool" where
  "verifySignature env publicKey signature msg =
     (case decodeEd25519PublicKey env publicKey of
        None \<Rightarrow> False
      | Some publicKeyBytes \<Rightarrow>
          (case naclVerify env msg signature publicKeyBytes of None \<Rightarrow> False | Some isValid \<Rightarrow> isValid))"

abbreviation userById :: "('u, 'w, 'n, 'r, 'k, 'l, 'h) authEnv \<Rightarrow> string \<Rightarrow> ('u, 'w, 'n, 'r, 'k, 'l, 'h) auth \<Rightarrow> User option" where
  "userById env i s \<equiv> rFindOne (userRepo env) (\<lambda>u. u_id u = i) (userTab s)"

definition findUserByWallet ::
    "('u, 'w, 'n, 'r, 'k, 'l, 'h) authEnv \<Rightarrow> string \<Rightarrow> ('u, 'w, 'n, 'r, 'k, 'l, 'h) auth \<Rightarrow> User option" where
  "findUserByWallet env publicKey s =
     (case rFindOne (walletRepo env) (\<lambda>b. b_publicKey b = publicKey) (walletTab s) of
        None \<Rightarrow> None
      | Some binding \<Rightarrow> userById env (b_userId binding) s)"

definition bindWalletToUser ::
    "('u, 'w, 'n, 'r, 'k, 'l, 'h) authEnv \<Rightarrow> string \<Rightarrow> string \<Rightarrow> bool \<Rightarrow>
     (('u, 'w, 'n, 'r, 'k, 'l, 'h) auth, WalletBinding) action" where
  "bindWalletToUser env publicKey userId isPrimary s =
     (case rFindOne (walletRepo env) (\<lambda>b. b_publicKey b = publicKey) (walletTab s) of
        Some _ \<Rightarrow> (Inl (ConflictException ''Wallet already bound to an account''), s)
      | None \<Rightarrow>
          let s1 = (if isPrimary
                    then s\<lparr>walletTab := rUpdate (walletRepo env) (\<lambda>b. b_userId b = userId)
                             (b_isPrimary_update (\<lambda>_. False)) (walletTab s)\<rparr>
                    else s)
          in case newUuid env s1 of (i, s2) \<Rightarrow>
               let binding = \<lparr>b_id = i, b_publicKey = publicKey, b_userId = userId, b_boundAt = authNow env s2,
                              b_isPrimary = isPrimary, b_lastUsed = Some (authNow env s2)\<rparr>;
                   s3 = authTick s2
               in (Inr binding, s3\<lparr>walletTab := rSave (walletRepo env) binding (walletTab s3)\<rparr>))"

definition unbindWallet ::
    "('u, 'w, 'n, 'r, 'k, 'l, 'h) authEnv \<Rightarrow> string \<Rightarrow> string \<Rightarrow> (('u, 'w, 'n, 'r, 'k, 'l, 'h) auth, unit) action" where
  "unbindWallet env publicKey userId s =
     (case rFindOne (walletRepo env) (\<lambda>b. b_publicKey b = publicKey \<and> b_userId b = userId) (walletTab s) of
        None \<Rightarrow> (Inl (BadRequestException ''Wallet not found or not owned by user''), s)
      | Some binding \<Rightarrow>
          if rCount (walletRepo env) (\<lambda>b. b_userId b = userId) (walletTab s) = 1
          then (Inl (BadRequestException
                  ''Cannot unbind the only wallet. Account must have at least one wallet.''), s)
          else let s1 = s\<lparr>walletTab := rDelete (walletRepo env) (\<lambda>b. b_id b = b_id binding) (walletTab s)\<rparr>
               in if b_isPrimary binding
                  then (case rFindOne (walletRepo env) (\<lambda>b. b_userId b = userId) (walletTab s1) of
                          None \<Rightarrow> (Inr (), s1)
                        | Some anotherWallet \<Rightarrow>
                            (Inr (), s1\<lparr>walletTab := rSave (walletRepo env) (anotherWallet\<lparr>b_isPrimary := True\<rparr>)
                                                                (walletTab s1)\<rparr>))
                  else (Inr (), s1))"

definition updateLastUsed ::
    "('u, 'w, 'n, 'r, 'k, 'l, 'h) authEnv \<Rightarrow> string \<Rightarrow> ('u, 'w, 'n, 'r, 'k, 'l, 'h) auth \<Rightarrow> ('u, 'w, 'n, 'r, 'k, 'l, 'h) auth" where
  "updateLastUsed env publicKey s =
     (let now = authNow env s; s1 = authTick s
      in s1\<lparr>walletTab := rUpdate (walletRepo env) (\<lambda>b. b_publicKey b = publicKey)
              (b_lastUsed_update (\<lambda>_. Some now)) (walletTab s1)\<rparr>)"

definition createUserWithWallet ::
    "('u, 'w, 'n, 'r, 'k, 'l, 'h) authEnv \<Rightarrow> string \<Rightarrow> (('u, 'w, 'n, 'r, 'k, 'l, 'h) auth, User) action" where
  "createUserWithWallet env publicKey s =
     (case newUuid env s of (i, s1) \<Rightarrow>
        let user = \<lparr>u_id = i, u_email = None, u_username = None, u_createdAt = authNow env s1,
                    u_updatedAt = authNow env s1, u_isActive = True\<rparr>;
            s2 = s1\<lparr>userTab := rSave (userRepo env) user (userTab s1)\<rparr>
        in case bindWalletToUser env publicKey (u_id user) True s2 of
             (Inl e, s3) \<Rightarrow> (Inl e, s3)
           | (Inr _, s3) \<Rightarrow> (Inr user, s3))"

section \<open>Access and refresh tokens\<close>

definition generateAccessToken ::
    "('u, 'w, 'n, 'r, 'k, 'l, 'h) authEnv \<Rightarrow> string \<Rightarrow> string option \<Rightarrow> ('u, 'w, 'n, 'r, 'k, 'l, 'h) auth \<Rightarrow> string" where
  "generateAccessToken env userId walletId s =
     jwtSign env \<lparr>p_sub = userId, p_walletId = walletId\<rparr>
       (case jwtAccessExpiration env of None \<Rightarrow> ''15m'' | Some e \<Rightarrow> e) (authNow env s)"

definition generateRefreshToken ::
    "('u, 'w, 'n, 'r, 'k, 'l, 'h) authEnv \<Rightarrow> string \<Rightarrow> ('u, 'w, 'n, 'r, 'k, 'l, 'h) auth \<Rightarrow>
     (string \<times> string \<times> date) \<times> ('u, 'w, 'n, 'r, 'k, 'l, 'h) auth" where
  "generateRefreshToken env userId s =
     (case newUuid env s of (token, s1) \<Rightarrow>
        let expiresAt = authNow env s1 + 7 * 86400000 in
        case newUuid env (authTick s1) of (i, s2) \<Rightarrow>
          let saved = \<lparr>t_id = i, t_token = token, t_userId = userId, t_expiresAt = expiresAt,
                       t_revoked = False, t_revokedAt = None, t_createdAt = authNow env s2\<rparr>;
              s3 = s2\<lparr>refreshTab := rSave (refreshRepo env) saved (refreshTab s2)\<rparr>;
              s4 = authLog env ''REFRESH_TOKEN_CREATED'' userId (Some (t_id saved))
                     (Some (VObj [(''expiresAt'', VDate (t_expiresAt saved))])) s3
          in ((t_token saved, t_id saved, t_expiresAt saved), s4))"

definition validateAccessToken ::
    "('u, 'w, 'n, 'r, 'k, 'l, 'h) authEnv \<Rightarrow> string \<Rightarrow> ('u, 'w, 'n, 'r, 'k, 'l, 'h) auth \<Rightarrow> js_error + JwtPayload" where
  "validateAccessToken env token s =
     (case jwtVerify env token (authNow env s) of
        None \<Rightarrow> Inl (UnauthorizedException ''Invalid or expired access token'')
      | Some payload \<Rightarrow> Inr payload)"

definition revokeRefreshToken ::
    "('u, 'w, 'n, 'r, 'k, 'l, 'h) authEnv \<Rightarrow> string \<Rightarrow> ('u, 'w, 'n, 'r, 'k, 'l, 'h) auth \<Rightarrow> ('u, 'w, 'n, 'r, 'k, 'l, 'h) auth" where
  "revokeRefreshToken env tokenId s =
     (let now = authNow env s; s1 = authTick s;
          s2 = s1\<lparr>refreshTab := rUpdate (refreshRepo env) (\<lambda>t. t_id t = tokenId)
                   (\<lambda>t. t\<lparr>t_revoked := True, t_revokedAt := Some now\<rparr>) (refreshTab s1)\<rparr>
      in authLog env ''REFRESH_TOKEN_REVOKED'' tokenId (Some tokenId) None s2)"

definition inactiveError :: js_error where
  "inactiveError = UnauthorizedException ''User account is inactive''"

definition noUserError :: js_error where
  "noUserError = Error ''Cannot read properties of null (reading 'isActive')''"

definition refreshAccessToken ::
    "('u, 'w, 'n, 'r, 'k, 'l, 'h) authEnv \<Rightarrow> string \<Rightarrow> (('u, 'w, 'n, 'r, 'k, 'l, 'h) auth, string \<times> string) action" where
  "refreshAccessToken env refreshToken s =
     (case rFindOne (refreshRepo env) (\<lambda>t. t_token t = refreshToken) (refreshTab s) of
        None \<Rightarrow> (Inl (UnauthorizedException ''Invalid refresh token''), s)
      | Some tokenRecord \<Rightarrow>
          if t_revoked tokenRecord then (Inl (UnauthorizedException ''Refresh token has been revoked''), s)
          else let now = authNow env s; s1 = authTick s in
            if t_expiresAt tokenRecord < now then (Inl (UnauthorizedException ''Refresh token expired''), s1)
            else (case userById env (t_userId tokenRecord) s1 of
                    None \<Rightarrow> (Inl noUserError, s1)
                  | Some user \<Rightarrow>
                      if \<not> u_isActive user then (Inl inactiveError, s1)
                      else let s2 = revokeRefreshToken env (t_id tokenRecord) s1;
                               accessToken = generateAccessToken env (t_userId tokenRecord) None s2
                           in case generateRefreshToken env (t_userId tokenRecord) s2 of
                                ((newToken, _, _), s3) \<Rightarrow>
                                  (Inr (accessToken, newToken),
                                   authLog env ''ACCESS_TOKEN_REFRESHED'' (t_userId tokenRecord)
                                     (Some (t_id tokenRecord)) None s3)))"

definition revokeAllUserRefreshTokens ::
    "('u, 'w, 'n, 'r, 'k, 'l, 'h) authEnv \<Rightarrow> string \<Rightarrow> ('u, 'w, 'n, 'r, 'k, 'l, 'h) auth \<Rightarrow> ('u, 'w, 'n, 'r, 'k, 'l, 'h) auth" where
  "revokeAllUserRefreshTokens env userId s =
     (let now = authNow env s; s1 = authTick s
      in s1\<lparr>refreshTab := rUpdate (refreshRepo env) (\<lambda>t. t_userId t = userId \<and> \<not> t_revoked t)
              (\<lambda>t. t\<lparr>t_revoked := True, t_revokedAt := Some now\<rparr>) (refreshTab s1)\<rparr>)"

definition getUserFromToken ::
    "('u, 'w, 'n, 'r, 'k, 'l, 'h) authEnv \<Rightarrow> string \<Rightarrow> ('u, 'w, 'n, 'r, 'k, 'l, 'h) auth \<Rightarrow> js_error + User" where
  "getUserFromToken env token s =
     (case validateAccessToken env token s of
        Inl e \<Rightarrow> Inl e
      | Inr payload \<Rightarrow>
          (case userById env (p_sub payload) s of
             None \<Rightarrow> Inl (UnauthorizedException ''User not found'')
           | Some user \<Rightarrow> if u_isActive user then Inr user else Inl inactiveError))"

end
