(* ===== verification/Auth_Handlers.thy ===== *)
theory Auth_Handlers
  imports Auth
begin

text \<open>
  API tokens (\<^verbatim>\<open>auth/services/api-token.service.ts\<close>), the handlers of
  \<^verbatim>\<open>auth/controllers/auth.controller.ts\<close>, and the guards and the JWT strategy in front of the handlers
  (\<^verbatim>\<open>auth/guards\<close>, \<^verbatim>\<open>auth/strategies\<close>, \<^verbatim>\<open>guards/roles.guard.ts\<close>, \<^verbatim>\<open>auth/rbac.config.ts\<close>).
\<close>

section \<open>API tokens\<close>

definition createApiToken ::
    "('u, 'w, 'n, 'r, 'k, 'l, 'h) authEnv \<Rightarrow> string \<Rightarrow> string \<Rightarrow> string \<Rightarrow> nat option \<Rightarrow>
     ('u, 'w, 'n, 'r, 'k, 'l, 'h) auth \<Rightarrow> (string \<times> string \<times> date option) \<times> ('u, 'w, 'n, 'r, 'k, 'l, 'h) auth" where
  "createApiToken env userId name role expiresInDays s =
     (case newUuid env s of (u1, s1) \<Rightarrow>
      case newUuid env s1 of (u2, s2) \<Rightarrow>
        let plainToken = filter (\<lambda>c. c \<noteq> CHR ''-'') (''stl_'' @ u1 @ u2);
            hashedToken = bcryptHash env plainToken (uuids s2);
            days = numOr expiresInDays (case apiTokenDefaultDays env of None \<Rightarrow> 90 | Some d \<Rightarrow> d);
            expiresAt = authNow env s2 + int days * 86400000
        in case newUuid env (authTick s2) of (i, s3) \<Rightarrow>
             let saved = \<lparr>k_id = i, k_token = hashedToken, k_name = name, k_role = role, k_userId = userId,
                          k_expiresAt = Some expiresAt, k_revoked = False, k_lastUsedAt = None,
                          k_createdAt = authNow env s3\<rparr>
             in ((plainToken, k_id saved, k_expiresAt saved),
                 s3\<lparr>apiTab := rSave (apiRepo env) saved (apiTab s3)\<rparr>))"

fun matchToken ::
    "('u, 'w, 'n, 'r, 'k, 'l, 'h) authEnv \<Rightarrow> string \<Rightarrow> ApiToken list \<Rightarrow>
     (('u, 'w, 'n, 'r, 'k, 'l, 'h) auth, string \<times> string \<times> string) action" where
  "matchToken env plainToken [] s = (Inl (UnauthorizedException ''Invalid API token''), s)"
| "matchToken env plainToken (tokenRecord # tokens) s =
     (if bcryptCompare env plainToken (k_token tokenRecord)
      then let now = authNow env s; s1 = authTick s in
           if (case k_expiresAt tokenRecord of None \<Rightarrow> False | Some d \<Rightarrow> d < now)
           then (Inl (UnauthorizedException ''API token expired''), s1)
           else (case userById env (k_userId tokenRecord) s1 of
                   None \<Rightarrow> (Inl noUserError, s1)
                 | Some user \<Rightarrow>
                     if \<not> u_isActive user then (Inl inactiveError, s1)
                     else (Inr (k_userId tokenRecord, k_role tokenRecord, k_id tokenRecord),
                           (authTick s1)\<lparr>apiTab := rUpdate (apiRepo env) (\<lambda>t. k_id t = k_id tokenRecord)
                             (k_lastUsedAt_update (\<lambda>_. Some (authNow env s1))) (apiTab s1)\<rparr>))
      else matchToken env plainToken tokens s)"

definition validateApiToken ::
    "('u, 'w, 'n, 'r, 'k, 'l, 'h) authEnv \<Rightarrow> string \<Rightarrow>
     (('u, 'w, 'n, 'r, 'k, 'l, 'h) auth, string \<times> string \<times> string) action" where
  "validateApiToken env plainToken s =
     matchToken env plainToken (rFind (apiRepo env) (\<lambda>t. \<not> k_revoked t) (apiTab s)) s"

definition revokeApiToken ::
    "('u, 'w, 'n, 'r, 'k, 'l, 'h) authEnv \<Rightarrow> string \<Rightarrow> string \<Rightarrow> (('u, 'w, 'n, 'r, 'k, 'l, 'h) auth, unit) action" where
  "revokeApiToken env tokenId userId s =
     (case rFindOne (apiRepo env) (\<lambda>t. k_id t = tokenId \<and> k_userId t = userId) (apiTab s) of
        None \<Rightarrow> (Inl (NotFoundException ''API token not found''), s)
      | Some _ \<Rightarrow>
          (Inr (), s\<lparr>apiTab := rUpdate (apiRepo env) (\<lambda>t. k_id t = tokenId)
                       (k_revoked_update (\<lambda>_. True)) (apiTab s)\<rparr>))"

record apiTokenView =
  av_id :: string
  av_name :: string
  av_role :: string
  av_expiresAt :: "date option"
  av_revoked :: bool
  av_lastUsedAt :: "date option"
  av_createdAt :: date

definition listUserApiTokens ::
    "('u, 'w, 'n, 'r, 'k, 'l, 'h) authEnv \<Rightarrow> string \<Rightarrow> ('u, 'w, 'n, 'r, 'k, 'l, 'h) auth \<Rightarrow> apiTokenView list" where
  "listUserApiTokens env userId s =
     map (\<lambda>t. \<lparr>av_id = k_id t, av_name = k_name t, av_role = k_role t, av_expiresAt = k_expiresAt t,
              av_revoked = k_revoked t, av_lastUsedAt = k_lastUsedAt t, av_createdAt = k_createdAt t\<rparr>)
       (rFindOrd (apiRepo env) (\<lambda>t. k_userId t = userId) (\<lambda>a b. k_createdAt b \<le> k_createdAt a) (apiTab s))"

definition revokeAllUserApiTokens ::
    "('u, 'w, 'n, 'r, 'k, 'l, 'h) authEnv \<Rightarrow> string \<Rightarrow> ('u, 'w, 'n, 'r, 'k, 'l, 'h) auth \<Rightarrow> ('u, 'w, 'n, 'r, 'k, 'l, 'h) auth" where
  "revokeAllUserApiTokens env userId s =
     s\<lparr>apiTab := rUpdate (apiRepo env) (\<lambda>t. k_userId t = userId \<and> \<not> k_revoked t)
        (k_revoked_update (\<lambda>_. True)) (apiTab s)\<rparr>"

section \<open>Handlers\<close>

record WalletLoginDto =
  d_publicKey :: string
  d_signature :: string
  d_nonce :: string

definition requestNonce ::
    "('u, 'w, 'n, 'r, 'k, 'l, 'h) authEnv \<Rightarrow> string \<Rightarrow> ('u, 'w, 'n, 'r, 'k, 'l, 'h) auth \<Rightarrow>
     (string \<times> date \<times> string) \<times> ('u, 'w, 'n, 'r, 'k, 'l, 'h) auth" where
  "requestNonce env publicKey s = generateNonce env publicKey s"

text \<open>
  A login in two parts: the checks up to the signature, which only read the tables, and what
  follows them. Other requests can run between the two.
\<close>

definition loginChecks ::
    "('u, 'w, 'n, 'r, 'k, 'l, 'h) authEnv \<Rightarrow> WalletLoginDto \<Rightarrow> (('u, 'w, 'n, 'r, 'k, 'l, 'h) auth, unit) action" where
  "loginChecks env dto s =
     (case validateNonce env (d_nonce dto) (d_publicKey dto) s of
        (Inl e, s1) \<Rightarrow> (Inl e, s1)
      | (Inr _, s1) \<Rightarrow>
          if verifySignature env (d_publicKey dto) (d_signature dto) (loginMessage (d_nonce dto))
          then (Inr (), s1) else (Inl (Error ''Invalid signature''), s1))"

record loginResult =
  lr_accessToken :: string
  lr_refreshToken :: string
  lr_user :: User

definition findOrCreateUser ::
    "('u, 'w, 'n, 'r, 'k, 'l, 'h) authEnv \<Rightarrow> string \<Rightarrow> (('u, 'w, 'n, 'r, 'k, 'l, 'h) auth, User) action" where
  "findOrCreateUser env publicKey s =
     (case findUserByWallet env publicKey s of
        Some user \<Rightarrow> (Inr user, s)
      | None \<Rightarrow>
          (case createUserWithWallet env publicKey s of
             (Inl e, s1) \<Rightarrow> (Inl e, s1)
           | (Inr user, s1) \<Rightarrow>
               (Inr user, authLog env ''USER_CREATED'' (u_id user) (Some (u_id user))
                            (Some (VObj [(''wallet'', VStr publicKey)])) s1)))"

definition loginCommit ::
    "('u, 'w, 'n, 'r, 'k, 'l, 'h) authEnv \<Rightarrow> WalletLoginDto \<Rightarrow> (('u, 'w, 'n, 'r, 'k, 'l, 'h) auth, loginResult) action" where
  "loginCommit env dto s =
     (case findOrCreateUser env (d_publicKey dto) (markNonceUsed env (d_nonce dto) s) of
        (Inl e, s1) \<Rightarrow> (Inl e, s1)
      | (Inr user, s1) \<Rightarrow>
          let s2 = updateLastUsed env (d_publicKey dto) s1;
              accessToken = generateAccessToken env (u_id user) None s2
          in case generateRefreshToken env (u_id user) s2 of
               ((token, _, _), s3) \<Rightarrow>
                 (Inr \<lparr>lr_accessToken = accessToken, lr_refreshToken = token, lr_user = user\<rparr>, s3))"

definition walletLogin ::
    "('u, 'w, 'n, 'r, 'k, 'l, 'h) authEnv \<Rightarrow> WalletLoginDto \<Rightarrow> (('u, 'w, 'n, 'r, 'k, 'l, 'h) auth, loginResult) action" where
  "walletLogin env dto s =
     (case loginChecks env dto s of (Inl e, s1) \<Rightarrow> (Inl e, s1) | (Inr _, s1) \<Rightarrow> loginCommit env dto s1)"

definition refreshTokenHandler ::
    "('u, 'w, 'n, 'r, 'k, 'l, 'h) authEnv \<Rightarrow> string \<Rightarrow> (('u, 'w, 'n, 'r, 'k, 'l, 'h) auth, string \<times> string) action" where
  "refreshTokenHandler env token s = refreshAccessToken env token s"

definition logout ::
    "('u, 'w, 'n, 'r, 'k, 'l, 'h) authEnv \<Rightarrow> User \<Rightarrow> ('u, 'w, 'n, 'r, 'k, 'l, 'h) auth \<Rightarrow> ('u, 'w, 'n, 'r, 'k, 'l, 'h) auth" where
  "logout env user s = revokeAllUserRefreshTokens env (u_id user) s"

definition bindWallet ::
    "('u, 'w, 'n, 'r, 'k, 'l, 'h) authEnv \<Rightarrow> User \<Rightarrow> WalletLoginDto \<Rightarrow>
     (('u, 'w, 'n, 'r, 'k, 'l, 'h) auth, WalletBinding) action" where
  "bindWallet env user dto s =
     (case loginChecks env dto s of
        (Inl e, s1) \<Rightarrow> (Inl e, s1)
      | (Inr _, s1) \<Rightarrow>
          bindWalletToUser env (d_publicKey dto) (u_id user) False (markNonceUsed env (d_nonce dto) s1))"

definition unbindWalletHandler ::
    "('u, 'w, 'n, 'r, 'k, 'l, 'h) authEnv \<Rightarrow> User \<Rightarrow> string \<Rightarrow> (('u, 'w, 'n, 'r, 'k, 'l, 'h) auth, unit) action" where
  "unbindWalletHandler env user publicKey s = unbindWallet env publicKey (u_id user) s"

definition createApiTokenHandler ::
    "('u, 'w, 'n, 'r, 'k, 'l, 'h) authEnv \<Rightarrow> User \<Rightarrow> string \<Rightarrow> string \<Rightarrow> nat option \<Rightarrow>
     ('u, 'w, 'n, 'r, 'k, 'l, 'h) auth \<Rightarrow> (string \<times> string \<times> date option) \<times> ('u, 'w, 'n, 'r, 'k, 'l, 'h) auth" where
  "createApiTokenHandler env user name role expiresInDays s =
     createApiToken env (u_id user) name role expiresInDays s"

definition revokeApiTokenHandler ::
    "('u, 'w, 'n, 'r, 'k, 'l, 'h) authEnv \<Rightarrow> User \<Rightarrow> string \<Rightarrow> (('u, 'w, 'n, 'r, 'k, 'l, 'h) auth, unit) action" where
  "revokeApiTokenHandler env user tokenId s = revokeApiToken env tokenId (u_id user) s"

section \<open>Guards\<close>

datatype Role = USER | MODERATOR | ADMIN | SUPERADMIN

fun roleName :: "Role \<Rightarrow> string" where
  "roleName USER = ''user''"
| "roleName MODERATOR = ''moderator''"
| "roleName ADMIN = ''admin''"
| "roleName SUPERADMIN = ''superadmin''"

datatype Permission = VIEW_AUDIT_LOGS | REQUEUE_JOBS | REGISTER_WEBHOOKS | MODERATE_CONTENT

fun RBAC_CONFIG :: "Role \<Rightarrow> Permission list" where
  "RBAC_CONFIG USER = []"
| "RBAC_CONFIG MODERATOR = [MODERATE_CONTENT]"
| "RBAC_CONFIG ADMIN = [MODERATE_CONTENT, VIEW_AUDIT_LOGS, REQUEUE_JOBS]"
| "RBAC_CONFIG SUPERADMIN = [VIEW_AUDIT_LOGS, REQUEUE_JOBS, REGISTER_WEBHOOKS, MODERATE_CONTENT]"

text \<open>
  What a guard stores as \<^verbatim>\<open>request.user\<close>: the JWT strategy a row of the user table, which has no role
  column; the API-token guard an object with the role of the token.
\<close>

datatype reqUser =
    UserEntity User
  | TokenUser string string string

fun userRole :: "reqUser \<Rightarrow> string option" where
  "userRole (UserEntity _) = None"
| "userRole (TokenUser _ role _) = Some role"

definition extractTokenFromHeader :: "string option \<Rightarrow> string option" where
  "extractTokenFromHeader authorization =
     (if \<not> strTruthy authorization then None
      else case splitOn (CHR '' '') (the authorization) of
             ty # token # _ \<Rightarrow> if ty = ''Bearer'' then Some token else None
           | _ \<Rightarrow> None)"

definition apiTokenGuard ::
    "('u, 'w, 'n, 'r, 'k, 'l, 'h) authEnv \<Rightarrow> string option \<Rightarrow> (('u, 'w, 'n, 'r, 'k, 'l, 'h) auth, reqUser) action" where
  "apiTokenGuard env authorization s =
     (if \<not> strTruthy (extractTokenFromHeader authorization)
      then (Inl (UnauthorizedException ''API token required''), s)
      else case validateApiToken env (the (extractTokenFromHeader authorization)) s of
             (Inr (userId, role, tokenId), s1) \<Rightarrow> (Inr (TokenUser userId role tokenId), s1)
           | (Inl _, s1) \<Rightarrow> (Inl (UnauthorizedException ''Invalid API token''), s1))"

definition jwtStrategyValidate ::
    "('u, 'w, 'n, 'r, 'k, 'l, 'h) authEnv \<Rightarrow> JwtPayload \<Rightarrow> ('u, 'w, 'n, 'r, 'k, 'l, 'h) auth \<Rightarrow> js_error + User" where
  "jwtStrategyValidate env payload s =
     (case userById env (p_sub payload) s of
        None \<Rightarrow> Inl (UnauthorizedException ''User not found'')
      | Some user \<Rightarrow> if u_isActive user then Inr user else Inl inactiveError)"

text \<open>
  \<^verbatim>\<open>JwtAuthGuard\<close>: Passport extracts the token from the header and verifies it (both a parameter) and
  calls the strategy.
\<close>

definition jwtAuthGuard ::
    "('u, 'w, 'n, 'r, 'k, 'l, 'h) authEnv \<Rightarrow> string option \<Rightarrow> ('u, 'w, 'n, 'r, 'k, 'l, 'h) auth \<Rightarrow> js_error + reqUser" where
  "jwtAuthGuard env authorization s =
     (case passportJwt env authorization (authNow env s) of
        None \<Rightarrow> Inl (UnauthorizedException ''Unauthorized'')
      | Some payload \<Rightarrow>
          (case jwtStrategyValidate env payload s of Inl e \<Rightarrow> Inl e | Inr u \<Rightarrow> Inr (UserEntity u)))"

definition rolesGuard :: "Role list option \<Rightarrow> reqUser option \<Rightarrow> js_error + bool" where
  "rolesGuard requiredRoles user =
     (case requiredRoles of
        None \<Rightarrow> Inr True
      | Some rs \<Rightarrow>
          if rs = [] then Inr True
          else if \<not> strTruthy (Option.bind user userRole) then Inl (ForbiddenException ''User role not found'')
          else if the (Option.bind user userRole) \<notin> roleName ` set rs
               then Inl (ForbiddenException ''Insufficient permissions'')
          else Inr True)"

text \<open>
  The second \<^verbatim>\<open>RolesGuard\<close>, of \<^verbatim>\<open>auth/guards\<close>, which the auth module provides and no route uses: its required roles are strings on the handler
  only, and its refusal names them.
\<close>

definition authRolesGuard :: "string list option \<Rightarrow> reqUser option \<Rightarrow> js_error + bool" where
  "authRolesGuard requiredRoles user =
     (case requiredRoles of
        None \<Rightarrow> Inr True
      | Some rs \<Rightarrow>
          if rs = [] then Inr True
          else if \<not> strTruthy (Option.bind user userRole) then Inl (ForbiddenException ''User role not found'')
          else if the (Option.bind user userRole) \<notin> set rs
               then Inl (ForbiddenException (''Required role: '' @ hd rs @ concat (map (\<lambda>x. '' or '' @ x) (tl rs)) @ ''. User has: '' @ the (Option.bind user userRole)))
          else Inr True)"

text \<open>Both guards let the same requests pass.\<close>

lemma rolesGuards_agree: "isl (authRolesGuard (Some (map roleName rs)) user) = isl (rolesGuard (Some rs) user)"
  by (simp add: authRolesGuard_def rolesGuard_def)

text \<open>
  The audit endpoint \<^verbatim>\<open>GET audit/verify\<close> behind its guards: the global ones (the throttle, whose verdict
  is given, and \<^verbatim>\<open>RolesGuard\<close>, which runs before any guard has set \<^verbatim>\<open>request.user\<close>), then
  \<^verbatim>\<open>JwtAuthGuard\<close> and \<^verbatim>\<open>RolesGuard\<close> of the controller.
\<close>

definition auditVerifyRoute ::
    "('u, 'w, 'n, 'r, 'k, 'l, 'h) authEnv \<Rightarrow> js_error + bool \<Rightarrow> string option \<Rightarrow> ('u, 'w, 'n, 'r, 'k, 'l, 'h) auth \<Rightarrow>
     js_error + AuditVerificationResult" where
  "auditVerifyRoute env throttled authorization s =
     (case throttled of Inl e \<Rightarrow> Inl e | Inr _ \<Rightarrow>
      case rolesGuard (Some [ADMIN]) None of Inl e \<Rightarrow> Inl e | Inr _ \<Rightarrow>
      case jwtAuthGuard env authorization s of Inl e \<Rightarrow> Inl e | Inr user \<Rightarrow>
      case rolesGuard (Some [ADMIN]) (Some user) of Inl e \<Rightarrow> Inl e | Inr _ \<Rightarrow>
        Inr (verifyAuditChain (auditEnv env) (auditTabs s)))"

record handshake =
  hs_authToken :: "string option"
  hs_authorization :: "string option"
  hs_queryToken :: "string option"

definition extractTokenFromHandshake :: "handshake \<Rightarrow> string option" where
  "extractTokenFromHandshake h =
     (if strTruthy (hs_authToken h) then hs_authToken h
      else if strTruthy (hs_authorization h) \<and> startsWith ''Bearer '' (the (hs_authorization h))
           then Some (drop 7 (the (hs_authorization h)))
      else if strTruthy (hs_queryToken h) then hs_queryToken h
      else None)"

definition wsJwtAuthGuard ::
    "('u, 'w, 'n, 'r, 'k, 'l, 'h) authEnv \<Rightarrow> handshake \<Rightarrow> ('u, 'w, 'n, 'r, 'k, 'l, 'h) auth \<Rightarrow> js_error + JwtPayload" where
  "wsJwtAuthGuard env h s =
     (if \<not> strTruthy (extractTokenFromHandshake h)
      then Inl (UnauthorizedException ''Authentication token required'')
      else case jwtVerify env (the (extractTokenFromHandshake h)) (authNow env s) of
             None \<Rightarrow> Inl (UnauthorizedException ''Invalid or expired token'')
           | Some payload \<Rightarrow> Inr payload)"

end
