(* ===== verification/Auth_Nonces.thy ===== *)
theory Auth_Nonces
  imports Auth_Handlers
begin

text \<open>
  The runs of the authentication service and the one-time use of login nonces. \<open>auth_step\<close> is one
  handled request or one run of the hourly cleanup; a request of a logged-in user carries the row
  that the guard has loaded for it.
\<close>

section \<open>Tables\<close>

locale auth_tables =
  U: repository "userRepo env" u_id + W: repository "walletRepo env" b_id +
  N: repository "nonceRepo env" n_id + R: repository "refreshRepo env" t_id +
  K: repository "apiRepo env" k_id + Au: audit_tables "auditEnv env"
  for env :: "('u, 'w, 'n, 'r, 'k, 'l, 'h) authEnv"

section \<open>Steps\<close>

inductive auth_step ::
    "('u, 'w, 'n, 'r, 'k, 'l, 'h) authEnv \<Rightarrow> ('u, 'w, 'n, 'r, 'k, 'l, 'h) auth \<Rightarrow> ('u, 'w, 'n, 'r, 'k, 'l, 'h) auth \<Rightarrow> bool"
  for env where
  nonce: "auth_step env s (snd (requestNonce env publicKey s))"
| login: "auth_step env s (snd (walletLogin env dto s))"
| refresh: "auth_step env s (snd (refreshTokenHandler env token s))"
| logout: "auth_step env s (logout env user s)"
| bind: "userById env (u_id user) s = Some user \<Longrightarrow> auth_step env s (snd (bindWallet env user dto s))"
| unbind: "userById env (u_id user) s = Some user \<Longrightarrow> auth_step env s (snd (unbindWalletHandler env user publicKey s))"
| apiToken: "auth_step env s (snd (createApiTokenHandler env user name role days s))"
| apiUse: "auth_step env s (snd (apiTokenGuard env authorization s))"
| apiRevoke: "auth_step env s (snd (revokeApiTokenHandler env user tokenId s))"
| cleanup: "auth_step env s (cleanupExpiredNonces env s)"

section \<open>What each operation leaves alone\<close>

lemma authTick_frame [simp]:
  "nonceTab (authTick s) = nonceTab s" "walletTab (authTick s) = walletTab s" "userTab (authTick s) = userTab s"
  "refreshTab (authTick s) = refreshTab s" "apiTab (authTick s) = apiTab s" "uuids (authTick s) = uuids s"
  "aticks (auditTabs (authTick s)) = Suc (aticks (auditTabs s))"
  by (simp_all add: authTick_def)

lemma authLog_frame [simp]:
  "nonceTab (authLog env ty ac en md s) = nonceTab s" "walletTab (authLog env ty ac en md s) = walletTab s"
  "userTab (authLog env ty ac en md s) = userTab s" "refreshTab (authLog env ty ac en md s) = refreshTab s"
  "apiTab (authLog env ty ac en md s) = apiTab s" "uuids (authLog env ty ac en md s) = Suc (uuids s)"
  by (simp_all add: authLog_def newUuid_def)

lemma revokeRefreshToken_frame [simp]:
  "nonceTab (revokeRefreshToken env i s) = nonceTab s" "walletTab (revokeRefreshToken env i s) = walletTab s"
  "userTab (revokeRefreshToken env i s) = userTab s" "apiTab (revokeRefreshToken env i s) = apiTab s"
  "uuids (revokeRefreshToken env i s) = Suc (uuids s)"
  by (simp_all add: revokeRefreshToken_def Let_def)

lemma generateRefreshToken_frame [simp]:
  "nonceTab (snd (generateRefreshToken env i s)) = nonceTab s" "walletTab (snd (generateRefreshToken env i s)) = walletTab s"
  "userTab (snd (generateRefreshToken env i s)) = userTab s" "apiTab (snd (generateRefreshToken env i s)) = apiTab s"
  "uuids (snd (generateRefreshToken env i s)) = uuids s + 3"
  by (simp_all add: generateRefreshToken_def newUuid_def Let_def)

lemma case_token: "(case x of ((a, b, c), s) \<Rightarrow> (f a, g s)) = (f (fst (fst x)), g (snd x))"
  by (cases x) auto

lemma refreshAccessToken_frame [simp]:
  "nonceTab (snd (refreshAccessToken env token s)) = nonceTab s" "walletTab (snd (refreshAccessToken env token s)) = walletTab s"
  "userTab (snd (refreshAccessToken env token s)) = userTab s" "apiTab (snd (refreshAccessToken env token s)) = apiTab s"
  "uuids s \<le> uuids (snd (refreshAccessToken env token s))"
  by (simp_all add: refreshAccessToken_def case_token Let_def split: option.split)

lemma bindWalletToUser_frame [simp]:
  "nonceTab (snd (bindWalletToUser env pk u p s)) = nonceTab s" "userTab (snd (bindWalletToUser env pk u p s)) = userTab s"
  "refreshTab (snd (bindWalletToUser env pk u p s)) = refreshTab s" "apiTab (snd (bindWalletToUser env pk u p s)) = apiTab s"
  "uuids s \<le> uuids (snd (bindWalletToUser env pk u p s))"
  by (simp_all add: bindWalletToUser_def newUuid_def Let_def split: option.split)

lemma createUserWithWallet_bind:
  obtains u where "snd (createUserWithWallet env pk s) = snd (bindWalletToUser env pk (u_id u) True
    (s\<lparr>uuids := Suc (uuids s), userTab := rSave (userRepo env) u (userTab s)\<rparr>))"
proof
  let ?u = "\<lparr>u_id = uuidOf env (uuids s), u_email = None, u_username = None,
    u_createdAt = authNow env (s\<lparr>uuids := Suc (uuids s)\<rparr>), u_updatedAt = authNow env (s\<lparr>uuids := Suc (uuids s)\<rparr>), u_isActive = True\<rparr>"
  show "snd (createUserWithWallet env pk s) = snd (bindWalletToUser env pk (u_id ?u) True
    (s\<lparr>uuids := Suc (uuids s), userTab := rSave (userRepo env) ?u (userTab s)\<rparr>))"
    by (simp add: createUserWithWallet_def newUuid_def Let_def split: prod.splits sum.splits)
qed

lemma createUserWithWallet_frame [simp]:
  "nonceTab (snd (createUserWithWallet env pk s)) = nonceTab s"
  "refreshTab (snd (createUserWithWallet env pk s)) = refreshTab s" "apiTab (snd (createUserWithWallet env pk s)) = apiTab s"
  "uuids s \<le> uuids (snd (createUserWithWallet env pk s))"
proof -
  obtain u where "snd (createUserWithWallet env pk s) = snd (bindWalletToUser env pk (u_id u) True
    (s\<lparr>uuids := Suc (uuids s), userTab := rSave (userRepo env) u (userTab s)\<rparr>))" (is "_ = snd (bindWalletToUser env pk _ True ?s)")
    by (rule createUserWithWallet_bind)
  with bindWalletToUser_frame [where env = env and pk = pk and u = "u_id u" and p = True and s = ?s]
  show "nonceTab (snd (createUserWithWallet env pk s)) = nonceTab s"
    "refreshTab (snd (createUserWithWallet env pk s)) = refreshTab s"
    "apiTab (snd (createUserWithWallet env pk s)) = apiTab s"
    "uuids s \<le> uuids (snd (createUserWithWallet env pk s))" by simp_all
qed

lemma findOrCreateUser_frame [simp]:
  "nonceTab (snd (findOrCreateUser env pk s)) = nonceTab s"
  "uuids s \<le> uuids (snd (findOrCreateUser env pk s))"
  using createUserWithWallet_frame(1,4) [where env = env and pk = pk and s = s]
  by (auto simp: findOrCreateUser_def simp del: createUserWithWallet_frame split: option.split prod.split sum.split)

lemma loginChecks_frame [simp]:
  "nonceTab (snd (loginChecks env dto s)) = nonceTab s" "walletTab (snd (loginChecks env dto s)) = walletTab s"
  "userTab (snd (loginChecks env dto s)) = userTab s" "uuids (snd (loginChecks env dto s)) = uuids s"
  "refreshTab (snd (loginChecks env dto s)) = refreshTab s"
  by (auto simp: loginChecks_def validateNonce_def split: option.split prod.split sum.split)

lemma updateLastUsed_frame [simp]:
  "nonceTab (updateLastUsed env pk s) = nonceTab s" "uuids (updateLastUsed env pk s) = uuids s"
  "userTab (updateLastUsed env pk s) = userTab s"
  by (simp_all add: updateLastUsed_def Let_def)

lemma markNonceUsed_frame [simp]:
  "uuids (markNonceUsed env n s) = uuids s" "walletTab (markNonceUsed env n s) = walletTab s"
  "userTab (markNonceUsed env n s) = userTab s" "auditTabs (markNonceUsed env n s) = auditTabs s"
  "refreshTab (markNonceUsed env n s) = refreshTab s"
  by (simp_all add: markNonceUsed_def)

lemma matchToken_frame [simp]:
  "nonceTab (snd (matchToken env t ts s)) = nonceTab s" "walletTab (snd (matchToken env t ts s)) = walletTab s"
  "userTab (snd (matchToken env t ts s)) = userTab s" "uuids (snd (matchToken env t ts s)) = uuids s"
  by (induction ts) (simp_all add: Let_def split: option.split)

lemma apiTokenGuard_frame [simp]:
  "nonceTab (snd (apiTokenGuard env h s)) = nonceTab s" "walletTab (snd (apiTokenGuard env h s)) = walletTab s"
  "userTab (snd (apiTokenGuard env h s)) = userTab s" "uuids (snd (apiTokenGuard env h s)) = uuids s"
  using matchToken_frame [where env = env and t = "the (extractTokenFromHeader h)" and s = s
      and ts = "rFind (apiRepo env) (\<lambda>t. \<not> k_revoked t) (apiTab s)"]
  by (auto simp: apiTokenGuard_def validateApiToken_def split: prod.split sum.split simp del: matchToken_frame)

text \<open>A login changes the nonce table only by spending the nonce, and the user-facing rest after it.\<close>

lemma walletLogin_nonceTab:
  "nonceTab (snd (walletLogin env dto s)) =
     (if isl (fst (loginChecks env dto s)) then nonceTab s else nonceTab (markNonceUsed env (d_nonce dto) s))"
  "uuids s \<le> uuids (snd (walletLogin env dto s))"
proof -
  obtain c s1 where c: "loginChecks env dto s = (c, s1)" by (cases "loginChecks env dto s")
  have s1: "nonceTab s1 = nonceTab s" "uuids s1 = uuids s" using loginChecks_frame(1,4) [where env = env and dto = dto and s = s] c by auto
  obtain r s2 where f: "findOrCreateUser env (d_publicKey dto) (markNonceUsed env (d_nonce dto) s1) = (r, s2)"
    by (cases "findOrCreateUser env (d_publicKey dto) (markNonceUsed env (d_nonce dto) s1)")
  have "nonceTab s2 = nonceTab (markNonceUsed env (d_nonce dto) s1)" "uuids s1 \<le> uuids s2"
    using findOrCreateUser_frame [where env = env and pk = "d_publicKey dto" and s = "markNonceUsed env (d_nonce dto) s1"] f by auto
  with s1 c f show "nonceTab (snd (walletLogin env dto s)) =
     (if isl (fst (loginChecks env dto s)) then nonceTab s else nonceTab (markNonceUsed env (d_nonce dto) s))"
     "uuids s \<le> uuids (snd (walletLogin env dto s))"
    by (auto simp: walletLogin_def loginCommit_def Let_def case_token markNonceUsed_def
        split: sum.split)
qed

lemma bindWallet_nonceTab:
  "nonceTab (snd (bindWallet env user dto s)) =
     (if isl (fst (loginChecks env dto s)) then nonceTab s else nonceTab (markNonceUsed env (d_nonce dto) s))"
  "uuids s \<le> uuids (snd (bindWallet env user dto s))"
proof -
  obtain c s1 where c: "loginChecks env dto s = (c, s1)" by (cases "loginChecks env dto s")
  have s1: "nonceTab s1 = nonceTab s" "uuids s1 = uuids s" using loginChecks_frame(1,4) [where env = env and dto = dto and s = s] c by auto
  with c bindWalletToUser_frame(1,5) [where env = env and pk = "d_publicKey dto" and u = "u_id user" and p = False
      and s = "markNonceUsed env (d_nonce dto) s1"]
  show "nonceTab (snd (bindWallet env user dto s)) =
     (if isl (fst (loginChecks env dto s)) then nonceTab s else nonceTab (markNonceUsed env (d_nonce dto) s))"
     "uuids s \<le> uuids (snd (bindWallet env user dto s))"
    by (auto simp: bindWallet_def markNonceUsed_def split: sum.split)
qed

lemma unbindWallet_frame [simp]:
  "nonceTab (snd (unbindWallet env pk u s)) = nonceTab s" "userTab (snd (unbindWallet env pk u s)) = userTab s"
  "uuids (snd (unbindWallet env pk u s)) = uuids s"
  by (simp_all add: unbindWallet_def Let_def split: option.split)

lemma apiToken_frame [simp]:
  "nonceTab (snd (createApiToken env u n r d s)) = nonceTab s" "walletTab (snd (createApiToken env u n r d s)) = walletTab s"
  "userTab (snd (createApiToken env u n r d s)) = userTab s" "uuids (snd (createApiToken env u n r d s)) = uuids s + 3"
  "nonceTab (snd (revokeApiToken env i u s)) = nonceTab s" "walletTab (snd (revokeApiToken env i u s)) = walletTab s"
  "userTab (snd (revokeApiToken env i u s)) = userTab s" "uuids (snd (revokeApiToken env i u s)) = uuids s"
  by (simp_all add: createApiToken_def revokeApiToken_def newUuid_def Let_def split: option.split)

lemma logout_frame [simp]:
  "nonceTab (logout env u s) = nonceTab s" "walletTab (logout env u s) = walletTab s"
  "userTab (logout env u s) = userTab s" "uuids (logout env u s) = uuids s"
  by (simp_all add: logout_def revokeAllUserRefreshTokens_def Let_def)

lemmas handler_defs = requestNonce_def refreshTokenHandler_def unbindWalletHandler_def
  createApiTokenHandler_def revokeApiTokenHandler_def

section \<open>Spent nonces\<close>

text \<open>A nonce is spent when no stored row with it is unused and its id has been drawn.\<close>

definition spent :: "('u, 'w, 'n, 'r, 'k, 'l, 'h) authEnv \<Rightarrow> string \<Rightarrow> ('u, 'w, 'n, 'r, 'k, 'l, 'h) auth \<Rightarrow> bool" where
  "spent env nonce s \<longleftrightarrow> nonce \<in> uuidOf env ` {..<uuids s} \<and>
     (\<forall>i n. rGet (nonceRepo env) n_id i (nonceTab s) = Some n \<longrightarrow> n_nonce n = nonce \<longrightarrow> n_used n)"

text \<open>Every stored nonce is a drawn id.\<close>

definition noncesDrawn :: "('u, 'w, 'n, 'r, 'k, 'l, 'h) authEnv \<Rightarrow> ('u, 'w, 'n, 'r, 'k, 'l, 'h) auth \<Rightarrow> bool" where
  "noncesDrawn env s \<longleftrightarrow>
     (\<forall>i n. rGet (nonceRepo env) n_id i (nonceTab s) = Some n \<longrightarrow> n_nonce n \<in> uuidOf env ` {..<uuids s})"

lemma drawn_mono: "x \<in> uuidOf env ` {..<m} \<Longrightarrow> m \<le> m' \<Longrightarrow> x \<in> uuidOf env ` {..<m'}"
  by auto

context auth_tables
begin

lemma spent_frame:
  "spent env n s \<Longrightarrow> nonceTab s' = nonceTab s \<Longrightarrow> uuids s \<le> uuids s' \<Longrightarrow> spent env n s'"
  by (auto simp: spent_def intro: drawn_mono)

lemma get_markNonceUsed:
  "rGet (nonceRepo env) n_id i (nonceTab (markNonceUsed env nonce s)) =
     map_option (\<lambda>n. if n_nonce n = nonce then n\<lparr>n_used := True\<rparr> else n) (rGet (nonceRepo env) n_id i (nonceTab s))"
  by (simp add: markNonceUsed_def N.get_update)

lemma spent_mark: "spent env n s \<Longrightarrow> spent env n (markNonceUsed env nonce s)"
  by (auto simp: spent_def get_markNonceUsed)

lemma mark_spent:
  assumes "nonce \<in> uuidOf env ` {..<uuids s}"
  shows "spent env nonce (markNonceUsed env nonce s)"
proof -
  have "n_used n" if "rGet (nonceRepo env) n_id i (nonceTab (markNonceUsed env nonce s)) = Some n" "n_nonce n = nonce" for i n
    using that by (cases "rGet (nonceRepo env) n_id i (nonceTab s)") (auto simp: get_markNonceUsed)
  with assms show ?thesis by (simp add: spent_def)
qed

lemma spent_generate:
  assumes "inj (uuidOf env)" and "spent env n s"
  shows "spent env n (snd (generateNonce env pk s))"
proof -
  have "uuidOf env (uuids s) \<noteq> n" using assms by (auto simp: spent_def dest: injD)
  then show ?thesis using assms(2)
    by (auto simp: spent_def generateNonce_def newUuid_def Let_def N.get_save lessThan_Suc split: if_splits)
qed

lemma spent_cleanup: "spent env n s \<Longrightarrow> spent env n (cleanupExpiredNonces env s)"
  by (auto simp: spent_def cleanupExpiredNonces_def Let_def N.get_delete split: option.splits if_splits)

lemma spent_step:
  assumes "inj (uuidOf env)" and "auth_step env s s'" and "spent env n s"
  shows "spent env n s'"
  using assms(2)
proof cases
  case (nonce publicKey)
  then show ?thesis using assms by (simp add: requestNonce_def spent_generate)
next
  case (login dto)
  then show ?thesis
    using assms(3) spent_mark [OF assms(3), of "d_nonce dto"] walletLogin_nonceTab [where env = env and dto = dto and s = s]
    by (auto intro: spent_frame split: if_splits)
next
  case (bind user dto)
  then show ?thesis
    using assms(3) spent_mark [OF assms(3), of "d_nonce dto"] bindWallet_nonceTab [where env = env and user = user and dto = dto and s = s]
    by (auto intro: spent_frame split: if_splits)
next
  case cleanup
  then show ?thesis using assms(3) by (simp add: spent_cleanup)
qed (auto simp: handler_defs intro: spent_frame [OF assms(3)])

lemma spent_steps:
  assumes "inj (uuidOf env)" and "(auth_step env)\<^sup>*\<^sup>* s s'" and "spent env n s"
  shows "spent env n s'"
  using assms(2,3) by (induction rule: rtranclp_induct) (auto intro: spent_step [OF assms(1)])

lemma spent_refused:
  assumes "spent env (d_nonce dto) s"
  shows "isl (fst (loginChecks env dto s))"
proof (cases "rFindOne (nonceRepo env) (\<lambda>n. n_nonce n = d_nonce dto \<and> n_publicKey n = d_publicKey dto) (nonceTab s)")
  case None
  then show ?thesis by (simp add: loginChecks_def validateNonce_def)
next
  case (Some n)
  then have "rGet (nonceRepo env) n_id (n_id n) (nonceTab s) = Some n \<and> n_nonce n = d_nonce dto"
    using N.findOne_get by blast
  then have "n_used n" using assms by (auto simp: spent_def)
  with Some show ?thesis by (simp add: loginChecks_def validateNonce_def)
qed

lemma login_spends:
  assumes "noncesDrawn env s" and "loginChecks env dto s = (Inr x, s1)"
  shows "d_nonce dto \<in> uuidOf env ` {..<uuids s}"
proof -
  from assms(2) obtain n where
    "rFindOne (nonceRepo env) (\<lambda>n. n_nonce n = d_nonce dto \<and> n_publicKey n = d_publicKey dto) (nonceTab s) = Some n"
    by (auto simp: loginChecks_def validateNonce_def split: option.splits)
  then have "rGet (nonceRepo env) n_id (n_id n) (nonceTab s) = Some n \<and> n_nonce n = d_nonce dto"
    using N.findOne_get by blast
  with assms(1) show ?thesis unfolding noncesDrawn_def by metis
qed

lemma walletLogin_spends:
  assumes "noncesDrawn env s" and "walletLogin env dto s = (Inr r, s')"
  shows "spent env (d_nonce dto) s'"
proof -
  obtain x s1 where c: "loginChecks env dto s = (Inr x, s1)"
    using assms(2) by (auto simp: walletLogin_def split: prod.splits sum.splits)
  from login_spends [OF assms(1) c] have "spent env (d_nonce dto) (markNonceUsed env (d_nonce dto) s)"
    by (rule mark_spent)
  then show ?thesis
    using walletLogin_nonceTab [where env = env and dto = dto and s = s] assms(2) c
    by (auto intro: spent_frame)
qed

lemma bindWallet_spends:
  assumes "noncesDrawn env s" and "bindWallet env user dto s = (Inr r, s')"
  shows "spent env (d_nonce dto) s'"
proof -
  obtain x s1 where c: "loginChecks env dto s = (Inr x, s1)"
    using assms(2) by (auto simp: bindWallet_def split: prod.splits sum.splits)
  from login_spends [OF assms(1) c] have "spent env (d_nonce dto) (markNonceUsed env (d_nonce dto) s)"
    by (rule mark_spent)
  then show ?thesis
    using bindWallet_nonceTab [where env = env and user = user and dto = dto and s = s] assms(2) c
    by (auto intro: spent_frame)
qed

lemma spent_login_fails:
  "spent env (d_nonce dto) s \<Longrightarrow> isl (fst (walletLogin env dto s)) \<and> isl (fst (bindWallet env user dto s))"
  using spent_refused [of dto s]
  by (auto simp: walletLogin_def bindWallet_def isl_def split: prod.splits sum.splits)

lemma noncesDrawn_frame:
  "noncesDrawn env s \<Longrightarrow> nonceTab s' = nonceTab s \<Longrightarrow> uuids s \<le> uuids s' \<Longrightarrow> noncesDrawn env s'"
  unfolding noncesDrawn_def by (metis drawn_mono)

lemma noncesDrawn_mark: "noncesDrawn env s \<Longrightarrow> noncesDrawn env (markNonceUsed env n s)"
  by (auto simp: noncesDrawn_def get_markNonceUsed)

lemma noncesDrawn_step:
  assumes "auth_step env s s'" and "noncesDrawn env s"
  shows "noncesDrawn env s'"
  using assms(1)
proof cases
  case (nonce publicKey)
  have "noncesDrawn env (snd (generateNonce env publicKey s))"
    using assms(2) unfolding noncesDrawn_def
    by (auto simp: generateNonce_def newUuid_def Let_def N.get_save lessThan_Suc split: if_splits)
  then show ?thesis using nonce by (simp add: requestNonce_def)
next
  case (login dto)
  then show ?thesis
    using assms(2) noncesDrawn_mark [OF assms(2), of "d_nonce dto"] walletLogin_nonceTab [where env = env and dto = dto and s = s]
    by (auto intro: noncesDrawn_frame split: if_splits)
next
  case (bind user dto)
  then show ?thesis
    using assms(2) noncesDrawn_mark [OF assms(2), of "d_nonce dto"] bindWallet_nonceTab [where env = env and user = user and dto = dto and s = s]
    by (auto intro: noncesDrawn_frame split: if_splits)
next
  case cleanup
  then show ?thesis using assms(2)
    by (auto simp: noncesDrawn_def cleanupExpiredNonces_def Let_def N.get_delete split: option.splits if_splits)
qed (auto simp: handler_defs intro: noncesDrawn_frame [OF assms(2)])

lemma noncesDrawn_reachable:
  assumes "(auth_step env)\<^sup>*\<^sup>* s0 s" and "rFind (nonceRepo env) (\<lambda>_. True) (nonceTab s0) = []"
  shows "noncesDrawn env s"
  using assms(1)
proof (induction rule: rtranclp_induct)
  case base
  have none: "rFindOne (nonceRepo env) (\<lambda>_. True) (nonceTab s0) = None"
    by (simp only: N.findOne_None assms(2))
  have "rGet (nonceRepo env) n_id i (nonceTab s0) \<noteq> Some n" for i n
    by (auto dest: N.findOne_NoneD [OF none])
  then show ?case by (simp add: noncesDrawn_def)
qed (rule noncesDrawn_step)

end

section \<open>The in-memory service\<close>

definition memAuthEnv ::
    "(User list, WalletBinding list, LoginNonce list, RefreshToken list, ApiToken list,
      AuditLogEntry list, AuditLogArchive list) authEnv" where
  "memAuthEnv =
     \<lparr>userRepo = memRepo u_id, walletRepo = memRepo b_id, nonceRepo = memRepo n_id, refreshRepo = memRepo t_id,
      apiRepo = memRepo k_id, auditEnv = memAenv int, uuidOf = showNat,
      decodeEd25519PublicKey = Some, naclVerify = (\<lambda>m sig k. Some (sig = k @ m)),
      jwtSign = (\<lambda>p e d. p_sub p), jwtVerify = (\<lambda>t d. Some \<lparr>p_sub = t, p_walletId = None\<rparr>),
      passportJwt = (\<lambda>h d. map_option (\<lambda>t. \<lparr>p_sub = t, p_walletId = None\<rparr>) (extractTokenFromHeader h)), jwtAccessExpiration = None,
      bcryptHash = (\<lambda>p n. CHR ''$'' # p), bcryptCompare = (\<lambda>p h. h = CHR ''$'' # p), apiTokenDefaultDays = None\<rparr>"

definition memAuth ::
    "(User list, WalletBinding list, LoginNonce list, RefreshToken list, ApiToken list,
      AuditLogEntry list, AuditLogArchive list) auth" where
  "memAuth = \<lparr>userTab = [], walletTab = [], nonceTab = [], refreshTab = [], apiTab = [], auditTabs = memAudit, uuids = 0\<rparr>"

lemma memAuth_tables: "auth_tables memAuthEnv"
  unfolding auth_tables_def memAuthEnv_def by (simp add: mem.repository_axioms mema.audit_tables_axioms)

interpretation memAu: auth_tables memAuthEnv
  by (rule memAuth_tables)

section \<open>One-time use\<close>

text \<open>
  C19. A nonce logs in once. In every run of the service from an empty nonce table: after a login
  or the binding of a wallet has succeeded with a nonce, no later login and no later binding with
  that nonce succeeds, whatever requests and cleanups happen in between, with any key and signature.
\<close>

theorem nonce_single_use:
  assumes "auth_tables env" and "inj (uuidOf env)"
    and "rFind (nonceRepo env) (\<lambda>_. True) (nonceTab s0) = []" and "(auth_step env)\<^sup>*\<^sup>* s0 s"
    and "walletLogin env dto s = (Inr r, s') \<or> bindWallet env user dto s = (Inr b, s')"
    and "(auth_step env)\<^sup>*\<^sup>* s' s''" and "d_nonce dto' = d_nonce dto"
  shows "isl (fst (walletLogin env dto' s'')) \<and> isl (fst (bindWallet env user' dto' s''))"
proof -
  have "noncesDrawn env s" by (rule auth_tables.noncesDrawn_reachable [OF assms(1,4,3)])
  with assms(5) have "spent env (d_nonce dto) s'"
    using auth_tables.walletLogin_spends [OF assms(1)] auth_tables.bindWallet_spends [OF assms(1)] by blast
  then have "spent env (d_nonce dto') s''"
    using auth_tables.spent_steps [OF assms(1,2,6)] assms(7) by simp
  then show ?thesis by (rule auth_tables.spent_login_fails [OF assms(1)])
qed

lemma loginCommit_new:
  assumes "rFindOne (walletRepo env) (\<lambda>b. b_publicKey b = d_publicKey dto) (walletTab s) = None"
  shows "\<exists>r s'. loginCommit env dto s = (Inr r, s')"
  using assms
  by (simp add: loginCommit_def findOrCreateUser_def findUserByWallet_def createUserWithWallet_def newUuid_def
      bindWalletToUser_def Let_def case_token)

definition sampleLogin :: WalletLoginDto where
  "sampleLogin = \<lparr>d_publicKey = ''GA'', d_signature = ''GA'' @ loginMessage ''0'', d_nonce = ''0''\<rparr>"

abbreviation sampleAuth where
  "sampleAuth \<equiv> snd (requestNonce memAuthEnv ''GA'' memAuth)"

lemma showNat_0: "showNat 0 = ''0''"
  by code_simp

lemma sampleLogin_ok: "\<exists>r s'. walletLogin memAuthEnv sampleLogin sampleAuth = (Inr r, s')"
proof -
  have "fst (loginChecks memAuthEnv sampleLogin sampleAuth) = Inr ()"
    by (simp add: loginChecks_def validateNonce_def requestNonce_def generateNonce_def newUuid_def memAuthEnv_def
        memAuth_def memAenv_def memAudit_def sampleLogin_def memFindOne_def memFind_def showNat_0 authNow_def
        anow_def authTick_def atick_def verifySignature_def Let_def)
  moreover have "walletTab (snd (loginChecks memAuthEnv sampleLogin sampleAuth)) = []"
    by (simp add: requestNonce_def generateNonce_def newUuid_def memAuth_def Let_def)
  then have "\<exists>r s'. loginCommit memAuthEnv sampleLogin (snd (loginChecks memAuthEnv sampleLogin sampleAuth)) = (Inr r, s')"
    by (intro loginCommit_new) (simp add: memAuthEnv_def memFindOne_def memFind_def)
  ultimately show ?thesis by (auto simp: walletLogin_def split: prod.splits sum.splits)
qed

lemma mem_uuids_inj: "inj (uuidOf memAuthEnv)"
  by (simp add: memAuthEnv_def inj_def showNat_inj)

theorem nonce_single_use_witness:
  "\<exists>s'. snd (walletLogin memAuthEnv sampleLogin sampleAuth) = s' \<and> isl (fst (walletLogin memAuthEnv sampleLogin s'))"
proof -
  obtain r s' where l: "walletLogin memAuthEnv sampleLogin sampleAuth = (Inr r, s')" using sampleLogin_ok by blast
  have e: "rFind (nonceRepo memAuthEnv) (\<lambda>_. True) (nonceTab memAuth) = []"
    by (simp add: memAuthEnv_def memAuth_def memFind_def)
  have "(auth_step memAuthEnv)\<^sup>*\<^sup>* memAuth sampleAuth" by (blast intro: auth_step.nonce)
  from nonce_single_use [OF memAuth_tables mem_uuids_inj e this disjI1 [OF l] rtranclp.rtrancl_refl refl]
  show ?thesis using l by simp
qed

end
