(* ===== verification/Auth_Wallets.thy ===== *)
theory Auth_Wallets
  imports Auth_Nonces
begin

text \<open>
  The wallets of an account: the effect of each operation on the table of bindings, the invariant
  that every account keeps exactly one primary wallet, and the race between two logins.
\<close>

section \<open>Effects on the bindings\<close>

abbreviation getB :: "('u, 'w, 'n, 'r, 'k, 'l, 'h) authEnv \<Rightarrow> ('u, 'w, 'n, 'r, 'k, 'l, 'h) auth \<Rightarrow> string \<Rightarrow> WalletBinding option" where
  "getB env s i \<equiv> rGet (walletRepo env) b_id i (walletTab s)"

abbreviation getU :: "('u, 'w, 'n, 'r, 'k, 'l, 'h) authEnv \<Rightarrow> ('u, 'w, 'n, 'r, 'k, 'l, 'h) auth \<Rightarrow> string \<Rightarrow> User option" where
  "getU env s i \<equiv> rGet (userRepo env) u_id i (userTab s)"

lemma userById_getU: "userById env i s = getU env s i"
  by (simp add: rGet_def)

context auth_tables
begin

lemma bindWalletToUser_new:
  assumes "rFindOne (walletRepo env) (\<lambda>b. b_publicKey b = pk) (walletTab s) = None"
  obtains b s' where "bindWalletToUser env pk uid prim s = (Inr b, s')"
    and "b_id b = uuidOf env (uuids s)" "b_publicKey b = pk" "b_userId b = uid" "b_isPrimary b = prim"
    and "uuids s' = Suc (uuids s)" "userTab s' = userTab s"
    and "\<And>i. getB env s' i = (if i = b_id b then Some b
           else map_option (\<lambda>c. if prim \<and> b_userId c = uid then c\<lparr>b_isPrimary := False\<rparr> else c) (getB env s i))"
proof -
  obtain b s' where "bindWalletToUser env pk uid prim s = (Inr b, s')"
    "b_id b = uuidOf env (uuids s)" "b_publicKey b = pk" "b_userId b = uid" "b_isPrimary b = prim"
    "uuids s' = Suc (uuids s)" "userTab s' = userTab s"
    "walletTab s' = rSave (walletRepo env) b (if prim then rUpdate (walletRepo env) (\<lambda>b. b_userId b = uid)
                             (b_isPrimary_update (\<lambda>_. False)) (walletTab s) else walletTab s)"
    using assms by (simp add: bindWalletToUser_def newUuid_def Let_def)
  then show ?thesis by (intro that [of b s']) (auto simp: W.get_save W.get_update option.map_ident)
qed

lemma createUserWithWallet_new:
  assumes "rFindOne (walletRepo env) (\<lambda>b. b_publicKey b = pk) (walletTab s) = None"
  obtains u b s' where "createUserWithWallet env pk s = (Inr u, s')"
    and "u_id u = uuidOf env (uuids s)" "u_isActive u" "b_id b = uuidOf env (Suc (uuids s))"
    and "b_publicKey b = pk" "b_userId b = u_id u" "b_isPrimary b"
    and "uuids s' = Suc (Suc (uuids s))" "\<And>i. getU env s' i = (if i = u_id u then Some u else getU env s i)"
    and "\<And>i. getB env s' i = (if i = b_id b then Some b
           else map_option (\<lambda>c. if b_userId c = u_id u then c\<lparr>b_isPrimary := False\<rparr> else c) (getB env s i))"
proof -
  define u where "u = \<lparr>u_id = uuidOf env (uuids s), u_email = None, u_username = None,
    u_createdAt = authNow env (s\<lparr>uuids := Suc (uuids s)\<rparr>), u_updatedAt = authNow env (s\<lparr>uuids := Suc (uuids s)\<rparr>), u_isActive = True\<rparr>"
  define s1 where "s1 = s\<lparr>uuids := Suc (uuids s), userTab := rSave (userRepo env) u (userTab s)\<rparr>"
  have "rFindOne (walletRepo env) (\<lambda>b. b_publicKey b = pk) (walletTab s1) = None" using assms by (simp add: s1_def)
  from bindWalletToUser_new [OF this, of "u_id u" True] obtain b s' where
    b: "bindWalletToUser env pk (u_id u) True s1 = (Inr b, s')" "b_id b = uuidOf env (uuids s1)" "b_publicKey b = pk"
      "b_userId b = u_id u" "b_isPrimary b = True" "uuids s' = Suc (uuids s1)" "userTab s' = userTab s1"
      "\<And>i. getB env s' i = (if i = b_id b then Some b
           else map_option (\<lambda>c. if True \<and> b_userId c = u_id u then c\<lparr>b_isPrimary := False\<rparr> else c) (getB env s1 i))"
    by blast
  have "createUserWithWallet env pk s = (Inr u, s')"
    using b(1) by (simp add: createUserWithWallet_def newUuid_def u_def s1_def Let_def)
  with b show ?thesis by (intro that [of u s' b]) (simp_all add: s1_def u_def U.get_save)
qed

end

section \<open>Two logins at once\<close>

text \<open>All bindings of a key, and at least one, belong to one user.\<close>

definition boundTo :: "('u, 'w, 'n, 'r, 'k, 'l, 'h) authEnv \<Rightarrow> string \<Rightarrow> string \<Rightarrow> ('u, 'w, 'n, 'r, 'k, 'l, 'h) auth \<Rightarrow> bool" where
  "boundTo env pk uid s \<longleftrightarrow>
     (\<exists>i b. rGet (walletRepo env) b_id i (walletTab s) = Some b \<and> b_publicKey b = pk) \<and>
     (\<forall>i b. rGet (walletRepo env) b_id i (walletTab s) = Some b \<longrightarrow> b_publicKey b = pk \<longrightarrow> b_userId b = uid)"

context auth_tables
begin

lemma boundTo_find:
  assumes "boundTo env pk uid s"
  shows "findUserByWallet env pk s = userById env uid s"
proof -
  from assms obtain i b where b: "rGet (walletRepo env) b_id i (walletTab s) = Some b" "b_publicKey b = pk"
    by (auto simp: boundTo_def)
  then obtain c where c: "rFindOne (walletRepo env) (\<lambda>b. b_publicKey b = pk) (walletTab s) = Some c"
    using W.findOne_exists [of i "walletTab s" b "\<lambda>b. b_publicKey b = pk"] by blast
  then have "rGet (walletRepo env) b_id (b_id c) (walletTab s) = Some c \<and> b_publicKey c = pk"
    by (rule W.findOne_get)
  then have "b_userId c = uid" using assms by (auto simp: boundTo_def)
  with c show ?thesis by (simp add: findUserByWallet_def)
qed

lemma boundTo_cong: "walletTab s' = walletTab s \<Longrightarrow> boundTo env pk uid s' = boundTo env pk uid s"
  by (simp add: boundTo_def)

lemma getB_lastUsed:
  "getB env (updateLastUsed env pk s) i =
     map_option (\<lambda>b. if b_publicKey b = pk then b\<lparr>b_lastUsed := Some (authNow env s)\<rparr> else b) (getB env s i)"
  by (simp add: updateLastUsed_def Let_def W.get_update)

lemma boundTo_lastUsed:
  assumes "boundTo env pk uid s"
  shows "boundTo env pk uid (updateLastUsed env pk' s)"
proof -
  let ?f = "\<lambda>b. if b_publicKey b = pk' then b\<lparr>b_lastUsed := Some (authNow env s)\<rparr> else b"
  have f: "b_publicKey (?f b) = b_publicKey b \<and> b_userId (?f b) = b_userId b" for b by simp
  from assms obtain i b where "getB env s i = Some b" "b_publicKey b = pk" by (auto simp: boundTo_def)
  then have "getB env (updateLastUsed env pk' s) i = Some (?f b) \<and> b_publicKey (?f b) = pk"
    by (simp add: getB_lastUsed)
  moreover have "b_userId c = uid" if "getB env (updateLastUsed env pk' s) j = Some c" "b_publicKey c = pk" for j c
  proof -
    from that(1) obtain b where "getB env s j = Some b" and "c = ?f b"
      by (auto simp only: getB_lastUsed map_option_eq_Some)
    moreover have "b_publicKey b = pk" using that(2) f [of b] by (simp only: \<open>c = ?f b\<close>)
    ultimately have "b_userId b = uid" using assms by (simp only: boundTo_def)
    then show ?thesis using f [of b] by (simp only: \<open>c = ?f b\<close>)
  qed
  ultimately show ?thesis unfolding boundTo_def by blast
qed


lemma boundTo_new:
  assumes "rFindOne (walletRepo env) (\<lambda>b. b_publicKey b = pk) (walletTab s) = None"
    and "b_publicKey b = pk" and "b_userId b = uid"
    and "\<And>i. getB env s' i = (if i = b_id b then Some b else map_option f (getB env s i))"
    and "\<And>c. b_publicKey (f c) = b_publicKey c"
  shows "boundTo env pk uid s'"
  using assms W.findOne_NoneD [OF assms(1)]
  by (auto simp: boundTo_def split: if_splits)

lemma findOrCreateUser_new:
  assumes "rFindOne (walletRepo env) (\<lambda>b. b_publicKey b = pk) (walletTab s) = None"
  obtains u s' where "findOrCreateUser env pk s = (Inr u, s')" and "boundTo env pk (u_id u) s'"
    and "getU env s' (u_id u) = Some u"
proof -
  obtain u b s1 where c: "createUserWithWallet env pk s = (Inr u, s1)" "b_publicKey b = pk" "b_userId b = u_id u"
    "\<And>i. getU env s1 i = (if i = u_id u then Some u else getU env s i)"
    "\<And>i. getB env s1 i = (if i = b_id b then Some b
           else map_option (\<lambda>c. if b_userId c = u_id u then c\<lparr>b_isPrimary := False\<rparr> else c) (getB env s i))"
    by (rule createUserWithWallet_new [OF assms]) blast
  have b1: "boundTo env pk (u_id u) s1" by (rule boundTo_new [OF assms c(2,3,5)]) simp
  define s2 where "s2 = authLog env ''USER_CREATED'' (u_id u) (Some (u_id u)) (Some (VObj [(''wallet'', VStr pk)])) s1"
  have "findUserByWallet env pk s = None" using assms by (simp add: findUserByWallet_def)
  then have f: "findOrCreateUser env pk s = (Inr u, s2)" using c(1) by (simp add: findOrCreateUser_def s2_def)
  have "walletTab s2 = walletTab s1" by (simp add: s2_def)
  from boundTo_cong [OF this] b1 have b: "boundTo env pk (u_id u) s2" by blast
  have "getU env s2 (u_id u) = Some u" using c(4) [of "u_id u"] by (simp add: s2_def)
  with f b show ?thesis by (rule that)
qed

lemma loginCommit_known:
  assumes "findUserByWallet env (d_publicKey dto) s = Some u"
  shows "fst (loginCommit env dto s) = Inr \<lparr>lr_accessToken = generateAccessToken env (u_id u) None
      (updateLastUsed env (d_publicKey dto) (markNonceUsed env (d_nonce dto) s)),
    lr_refreshToken = uuidOf env (uuids s), lr_user = u\<rparr>"
proof -
  have "findUserByWallet env (d_publicKey dto) (markNonceUsed env (d_nonce dto) s) = Some u"
    using assms by (simp add: findUserByWallet_def split: option.splits)
  then show ?thesis
    by (simp add: loginCommit_def findOrCreateUser_def Let_def case_token)
      (simp add: generateRefreshToken_def newUuid_def Let_def)
qed

lemma loginCommit_twice:
  assumes "rFindOne (walletRepo env) (\<lambda>b. b_publicKey b = d_publicKey dto) (walletTab s) = None" and "inj (uuidOf env)"
  shows "\<exists>r1 s1 r2. loginCommit env dto s = (Inr r1, s1) \<and> fst (loginCommit env dto s1) = Inr r2 \<and>
    lr_user r1 = lr_user r2 \<and> lr_refreshToken r1 \<noteq> lr_refreshToken r2"
proof -
  let ?m = "markNonceUsed env (d_nonce dto) s"
  have "rFindOne (walletRepo env) (\<lambda>b. b_publicKey b = d_publicKey dto) (walletTab ?m) = None" using assms(1) by simp
  then obtain u s2 where f: "findOrCreateUser env (d_publicKey dto) ?m = (Inr u, s2)"
    "boundTo env (d_publicKey dto) (u_id u) s2" "getU env s2 (u_id u) = Some u"
    by (rule findOrCreateUser_new)
  let ?s3 = "updateLastUsed env (d_publicKey dto) s2"
  let ?s4 = "snd (generateRefreshToken env (u_id u) ?s3)"
  have r: "loginCommit env dto s = (Inr \<lparr>lr_accessToken = generateAccessToken env (u_id u) None ?s3,
      lr_refreshToken = uuidOf env (uuids s2), lr_user = u\<rparr>, ?s4)"
    using f(1) by (simp add: loginCommit_def Let_def case_token) (simp add: generateRefreshToken_def newUuid_def Let_def)
  have "boundTo env (d_publicKey dto) (u_id u) ?s4"
    using boundTo_lastUsed [OF f(2), of "d_publicKey dto"] boundTo_cong [of ?s4 ?s3] by simp
  from boundTo_find [OF this] f(3) have "findUserByWallet env (d_publicKey dto) ?s4 = Some u"
    by (simp add: userById_getU)
  note k = loginCommit_known [OF this]
  have "uuids ?s4 \<noteq> uuids s2" by simp
  then have "uuidOf env (uuids s2) \<noteq> uuidOf env (uuids ?s4)" using assms(2) by (metis injD)
  with r k show ?thesis by (metis loginResult.select_convs(2,3))
qed

end

text \<open>
  The nonce check is not atomic. Of two logins with one nonce whose checks both run before
  either of them marks the nonce as used, both succeed: for a new wallet they log in the same user
  with two different refresh tokens.
\<close>

theorem nonce_race:
  assumes "auth_tables env" and "inj (uuidOf env)"
    and "loginChecks env dto s = (Inr (), s1)" and "loginChecks env dto s1 = (Inr (), s2)"
    and "rFindOne (walletRepo env) (\<lambda>b. b_publicKey b = d_publicKey dto) (walletTab s) = None"
  shows "\<exists>r1 s3 r2. loginCommit env dto s2 = (Inr r1, s3) \<and> fst (loginCommit env dto s3) = Inr r2 \<and>
    lr_user r1 = lr_user r2 \<and> lr_refreshToken r1 \<noteq> lr_refreshToken r2"
proof -
  have "walletTab s2 = walletTab s"
    using loginChecks_frame(2) [of env dto s] loginChecks_frame(2) [of env dto s1] assms(3,4) by simp
  then show ?thesis
    using assms(5) by (intro auth_tables.loginCommit_twice [OF assms(1) _ assms(2)]) simp
qed

theorem nonce_race_witness:
  "\<exists>r1 s3 r2. loginCommit memAuthEnv sampleLogin
      (snd (loginChecks memAuthEnv sampleLogin (snd (loginChecks memAuthEnv sampleLogin sampleAuth)))) = (Inr r1, s3) \<and>
    fst (loginCommit memAuthEnv sampleLogin s3) = Inr r2 \<and> lr_refreshToken r1 \<noteq> lr_refreshToken r2"
proof -
  let ?s1 = "snd (loginChecks memAuthEnv sampleLogin sampleAuth)"
  let ?s2 = "snd (loginChecks memAuthEnv sampleLogin ?s1)"
  have "fst (loginChecks memAuthEnv sampleLogin sampleAuth) = Inr ()" "fst (loginChecks memAuthEnv sampleLogin ?s1) = Inr ()"
    by (simp_all add: loginChecks_def validateNonce_def requestNonce_def generateNonce_def newUuid_def memAuthEnv_def
        memAuth_def memAenv_def memAudit_def sampleLogin_def memFindOne_def memFind_def showNat_0 authNow_def
        anow_def authTick_def atick_def verifySignature_def Let_def)
  then have c: "loginChecks memAuthEnv sampleLogin sampleAuth = (Inr (), ?s1)" "loginChecks memAuthEnv sampleLogin ?s1 = (Inr (), ?s2)"
    by (simp_all add: prod_eq_iff)
  have "rFindOne (walletRepo memAuthEnv) (\<lambda>b. b_publicKey b = d_publicKey sampleLogin) (walletTab sampleAuth) = None"
    by (simp add: requestNonce_def generateNonce_def newUuid_def memAuth_def memAuthEnv_def memFindOne_def memFind_def Let_def)
  from nonce_race [OF memAuth_tables mem_uuids_inj c this] show ?thesis by blast
qed

section \<open>The wallets of the accounts\<close>

definition primaries :: "(string \<Rightarrow> WalletBinding option) \<Rightarrow> string \<Rightarrow> string set" where
  "primaries B uid = {j. \<exists>b. B j = Some b \<and> b_userId b = uid \<and> b_isPrimary b}"

text \<open>
  Of the bindings \<open>B\<close> and the users \<open>U\<close>, with \<open>D\<close> the ids drawn so far: a key is bound once, a binding
  belongs to an account, and an account has exactly one primary wallet.
\<close>

definition walletsOk :: "(string \<Rightarrow> WalletBinding option) \<Rightarrow> (string \<Rightarrow> User option) \<Rightarrow> string set \<Rightarrow> bool" where
  "walletsOk B U D \<longleftrightarrow>
     (\<forall>i j b c. B i = Some b \<longrightarrow> B j = Some c \<longrightarrow> b_publicKey b = b_publicKey c \<longrightarrow> i = j) \<and>
     (\<forall>i b. B i = Some b \<longrightarrow> b_userId b \<in> dom U) \<and>
     (\<forall>i \<in> dom U. \<exists>j. primaries B i = {j}) \<and> dom B \<subseteq> D \<and> dom U \<subseteq> D"

lemma walletsOkI:
  assumes "\<And>i j b c. B i = Some b \<Longrightarrow> B j = Some c \<Longrightarrow> b_publicKey b = b_publicKey c \<Longrightarrow> i = j"
    and "\<And>i b. B i = Some b \<Longrightarrow> b_userId b \<in> dom U" and "\<And>i. i \<in> dom U \<Longrightarrow> \<exists>j. primaries B i = {j}"
    and "dom B \<subseteq> D" and "dom U \<subseteq> D"
  shows "walletsOk B U D"
  unfolding walletsOk_def using assms by blast

lemma walletsOkD:
  assumes "walletsOk B U D"
  shows "B i = Some b \<Longrightarrow> B j = Some c \<Longrightarrow> b_publicKey b = b_publicKey c \<Longrightarrow> i = j"
    and "B i = Some b \<Longrightarrow> b_userId b \<in> dom U" and "i \<in> dom U \<Longrightarrow> \<exists>j. primaries B i = {j}"
    and "dom B \<subseteq> D" and "dom U \<subseteq> D"
  using assms unfolding walletsOk_def by (meson, meson, meson, meson, meson)

lemma walletsOk_mono: "walletsOk B U D \<Longrightarrow> D \<subseteq> D' \<Longrightarrow> walletsOk B U D'"
  by (auto simp: walletsOk_def)

lemma walletsOk_map:
  assumes "walletsOk B U D"
    and f: "\<And>b. b_publicKey (f b) = b_publicKey b \<and> b_userId (f b) = b_userId b \<and> b_isPrimary (f b) = b_isPrimary b"
  shows "walletsOk (\<lambda>i. map_option f (B i)) U D"
proof (rule walletsOkI)
  have p: "primaries (\<lambda>i. map_option f (B i)) = primaries B" using f by (fastforce simp: primaries_def fun_eq_iff)
  show "\<exists>j. primaries (\<lambda>i. map_option f (B i)) i = {j}" if "i \<in> dom U" for i
    unfolding p using that by (rule walletsOkD(3) [OF assms(1)])
  show "dom (\<lambda>i. map_option f (B i)) \<subseteq> D" using walletsOkD(4) [OF assms(1)] by (auto simp: dom_def)
  show "dom U \<subseteq> D" by (rule walletsOkD(5) [OF assms(1)])
  show "b_userId b \<in> dom U" if "map_option f (B i) = Some b" for i b
    using that f walletsOkD(2) [OF assms(1), of i] by (auto simp del: domIff)
  show "i = j" if bc: "map_option f (B i) = Some b" "map_option f (B j) = Some c" "b_publicKey b = b_publicKey c" for i j b c
  proof -
    from bc obtain b' c' where "B i = Some b'" "B j = Some c'" "b = f b'" "c = f c'" by auto
    with bc f walletsOkD(1) [OF assms(1), of i b' j c'] show ?thesis by simp
  qed
qed

lemma walletsOk_bind:
  assumes "walletsOk B U D" and new: "\<And>i c. B i = Some c \<Longrightarrow> b_publicKey c \<noteq> b_publicKey b"
    and "b_userId b \<in> dom U" and "\<not> b_isPrimary b" and "k \<notin> D"
  shows "walletsOk (B(k \<mapsto> b)) U (insert k D)"
proof (rule walletsOkI)
  have k: "B k = None" using walletsOkD(4) [OF assms(1)] assms(5) by auto
  have p: "primaries (B(k \<mapsto> b)) = primaries B" using k assms(4) by (auto simp: primaries_def fun_eq_iff)
  show "\<exists>j. primaries (B(k \<mapsto> b)) i = {j}" if "i \<in> dom U" for i
    unfolding p using that by (rule walletsOkD(3) [OF assms(1)])
  show "i = j" if "(B(k \<mapsto> b)) i = Some x" "(B(k \<mapsto> b)) j = Some y" "b_publicKey x = b_publicKey y" for i j x y
    using that new walletsOkD(1) [OF assms(1), of i x j y] by (auto split: if_splits dest: sym)
  show "b_userId x \<in> dom U" if "(B(k \<mapsto> b)) i = Some x" for i x
    using that assms(3) walletsOkD(2) [OF assms(1), of i x] by (simp split: if_splits)
qed (use walletsOkD(4,5) [OF assms(1)] in auto)

lemma walletsOk_new:
  assumes "walletsOk B U D" and new: "\<And>i c. B i = Some c \<Longrightarrow> b_publicKey c \<noteq> b_publicKey b"
    and "b_userId b = uid" and "b_isPrimary b" and "k \<notin> D" and "uid \<notin> D"
  shows "walletsOk (B(k \<mapsto> b)) (U(uid \<mapsto> u)) (insert k (insert uid D))"
proof (rule walletsOkI)
  have other: "B i = Some c \<Longrightarrow> b_userId c \<noteq> uid" for i c
    using walletsOkD(2,5) [OF assms(1)] assms(6) by blast
  have k: "B k = None" using walletsOkD(4) [OF assms(1)] assms(5) by auto
  have p: "primaries (B(k \<mapsto> b)) i = (if i = uid then {k} else primaries B i)" for i
    using other k assms(3,4) by (auto simp: primaries_def)
  show "\<exists>j. primaries (B(k \<mapsto> b)) i = {j}" if "i \<in> dom (U(uid \<mapsto> u))" for i
    unfolding p using that walletsOkD(3) [OF assms(1), of i] by auto
  show "i = j" if "(B(k \<mapsto> b)) i = Some x" "(B(k \<mapsto> b)) j = Some y" "b_publicKey x = b_publicKey y" for i j x y
    using that new walletsOkD(1) [OF assms(1), of i x j y] by (auto split: if_splits dest: sym)
  show "b_userId x \<in> dom (U(uid \<mapsto> u))" if "(B(k \<mapsto> b)) i = Some x" for i x
    using that assms(3) walletsOkD(2) [OF assms(1), of i x] by (simp split: if_splits)
qed (use walletsOkD(4,5) [OF assms(1)] in auto)

lemma walletsOk_remove:
  assumes "walletsOk B U D" and "\<And>i. i \<in> dom U \<Longrightarrow> \<exists>j. primaries B' i = {j}" and "dom B' \<subseteq> dom B"
    and "\<And>i x. B' i = Some x \<Longrightarrow> \<exists>y. B i = Some y \<and> b_publicKey y = b_publicKey x \<and> b_userId y = b_userId x"
  shows "walletsOk B' U D"
proof (rule walletsOkI)
  show "i = j" if "B' i = Some x" "B' j = Some y" "b_publicKey x = b_publicKey y" for i j x y
    using that assms(4) [OF that(1)] assms(4) [OF that(2)] walletsOkD(1) [OF assms(1)] by metis
  show "b_userId x \<in> dom U" if "B' i = Some x" for i x
    using assms(4) [OF that] walletsOkD(2) [OF assms(1)] by metis
qed (use assms(2,3) walletsOkD(4,5) [OF assms(1)] in auto)

lemma walletsOk_unbind:
  assumes "walletsOk B U D" and "B k = Some b" and "\<not> b_isPrimary b"
  shows "walletsOk (B(k := None)) U D"
proof (rule walletsOk_remove [OF assms(1)])
  have p: "primaries (B(k := None)) = primaries B" using assms(2,3) by (auto simp: primaries_def fun_eq_iff)
  show "\<exists>j. primaries (B(k := None)) i = {j}" if "i \<in> dom U" for i
    unfolding p using that by (rule walletsOkD(3) [OF assms(1)])
qed (auto split: if_splits)

lemma walletsOk_hand_over:
  assumes "walletsOk B U D" and "B k = Some b" and "b_isPrimary b"
    and "B j = Some a" and "j \<noteq> k" and "b_userId a = b_userId b"
  shows "walletsOk (B(k := None, j \<mapsto> a\<lparr>b_isPrimary := True\<rparr>)) U D"
proof (rule walletsOk_remove [OF assms(1)])
  obtain x where x: "primaries B (b_userId b) = {x}"
    using walletsOkD(3) [OF assms(1) walletsOkD(2) [OF assms(1,2)]] by blast
  moreover have "k \<in> primaries B (b_userId b)" using assms(2,3) by (simp add: primaries_def)
  ultimately have k: "primaries B (b_userId b) = {k}" by simp
  have p: "primaries (B(k := None, j \<mapsto> a\<lparr>b_isPrimary := True\<rparr>)) i = (if i = b_userId b then {j} else primaries B i)" for i
  proof (cases "i = b_userId b")
    case True
    have "\<And>l c. B l = Some c \<Longrightarrow> b_userId c = b_userId b \<Longrightarrow> b_isPrimary c \<Longrightarrow> l = k"
      using k by (auto simp: primaries_def)
    with True assms(5,6) show ?thesis by (auto simp: primaries_def)
  next
    case False
    with assms(2,4,6) show ?thesis by (auto simp: primaries_def)
  qed
  show "\<exists>j'. primaries (B(k := None, j \<mapsto> a\<lparr>b_isPrimary := True\<rparr>)) i = {j'}" if "i \<in> dom U" for i
    unfolding p using that walletsOkD(3) [OF assms(1), of i] by auto
qed (use assms(4) in \<open>auto split: if_splits\<close>)

abbreviation drawn :: "('u, 'w, 'n, 'r, 'k, 'l, 'h) authEnv \<Rightarrow> ('u, 'w, 'n, 'r, 'k, 'l, 'h) auth \<Rightarrow> string set" where
  "drawn env s \<equiv> uuidOf env ` {..<uuids s}"

definition accountsOk :: "('u, 'w, 'n, 'r, 'k, 'l, 'h) authEnv \<Rightarrow> ('u, 'w, 'n, 'r, 'k, 'l, 'h) auth \<Rightarrow> bool" where
  "accountsOk env s \<longleftrightarrow> walletsOk (getB env s) (getU env s) (drawn env s)"

lemma accountsOk_frame:
  "accountsOk env s \<Longrightarrow> walletTab s' = walletTab s \<Longrightarrow> userTab s' = userTab s \<Longrightarrow> uuids s \<le> uuids s' \<Longrightarrow> accountsOk env s'"
  unfolding accountsOk_def by (simp, erule walletsOk_mono) auto

lemma not_drawn: "inj (uuidOf env) \<Longrightarrow> uuids s \<le> k \<Longrightarrow> uuidOf env k \<notin> drawn env s"
  by (auto dest: injD)

context auth_tables
begin

lemma accountsOk_bind:
  assumes "accountsOk env s" and "inj (uuidOf env)" and "uid \<in> dom (getU env s)"
  shows "accountsOk env (snd (bindWalletToUser env pk uid False s))"
proof (cases "rFindOne (walletRepo env) (\<lambda>b. b_publicKey b = pk) (walletTab s)")
  case (Some c)
  then show ?thesis using assms(1) by (simp add: bindWalletToUser_def)
next
  case None
  obtain b s' where b: "bindWalletToUser env pk uid False s = (Inr b, s')" "b_id b = uuidOf env (uuids s)"
      "b_publicKey b = pk" "b_userId b = uid" "b_isPrimary b = False" "uuids s' = Suc (uuids s)" "userTab s' = userTab s"
      "\<And>i. getB env s' i = (if i = b_id b then Some b
           else map_option (\<lambda>c. if False \<and> b_userId c = uid then c\<lparr>b_isPrimary := False\<rparr> else c) (getB env s i))"
    by (rule bindWalletToUser_new [OF None]) blast
  have "walletsOk ((getB env s)(b_id b \<mapsto> b)) (getU env s) (insert (b_id b) (drawn env s))"
    using assms W.findOne_NoneD [OF None] b(2-5) not_drawn [OF assms(2) le_refl [of "uuids s"]]
    by (intro walletsOk_bind) (auto simp: accountsOk_def)
  moreover have "getB env s' = (getB env s)(b_id b \<mapsto> b)" by (rule ext) (simp add: b(8) option.map_ident)
  moreover have "drawn env s' = insert (b_id b) (drawn env s)" by (simp add: b(2,6) lessThan_Suc)
  ultimately show ?thesis by (simp add: accountsOk_def b(1,7))
qed

lemma accountsOk_create:
  assumes "accountsOk env s" and "inj (uuidOf env)"
    and None: "rFindOne (walletRepo env) (\<lambda>b. b_publicKey b = pk) (walletTab s) = None"
  shows "accountsOk env (snd (createUserWithWallet env pk s))"
proof -
  obtain u b s' where c: "createUserWithWallet env pk s = (Inr u, s')" "u_id u = uuidOf env (uuids s)"
      "b_id b = uuidOf env (Suc (uuids s))" "b_publicKey b = pk" "b_userId b = u_id u" "b_isPrimary b"
      "uuids s' = Suc (Suc (uuids s))" "\<And>i. getU env s' i = (if i = u_id u then Some u else getU env s i)"
      "\<And>i. getB env s' i = (if i = b_id b then Some b
           else map_option (\<lambda>c. if b_userId c = u_id u then c\<lparr>b_isPrimary := False\<rparr> else c) (getB env s i))"
    by (rule createUserWithWallet_new [OF None]) blast
  have fresh: "u_id u \<notin> drawn env s" "b_id b \<notin> drawn env s"
    using not_drawn [OF assms(2)] by (simp_all add: c(2,3))
  have "walletsOk ((getB env s)(b_id b \<mapsto> b)) ((getU env s)(u_id u \<mapsto> u)) (insert (b_id b) (insert (u_id u) (drawn env s)))"
    using assms(1) W.findOne_NoneD [OF None] c(4-6) fresh by (intro walletsOk_new) (auto simp: accountsOk_def)
  moreover have "getB env s' = (getB env s)(b_id b \<mapsto> b)"
  proof (rule ext)
    fix i
    have "b_userId c \<noteq> u_id u" if "getB env s i = Some c" for c
      using subsetD [OF walletsOkD(5) [OF assms(1) [unfolded accountsOk_def]]
          walletsOkD(2) [OF assms(1) [unfolded accountsOk_def] that]] fresh(1) by metis
    then show "getB env s' i = ((getB env s)(b_id b \<mapsto> b)) i"
      by (cases "getB env s i") (simp_all add: c(9))
  qed
  moreover have "getU env s' = (getU env s)(u_id u \<mapsto> u)" by (rule ext) (simp add: c(8))
  moreover have "drawn env s' = insert (b_id b) (insert (u_id u) (drawn env s))"
    by (simp add: c(2,3,7) lessThan_Suc)
  ultimately show ?thesis by (simp only: accountsOk_def c(1) snd_conv)
qed

lemma accountsOk_lastUsed:
  assumes "accountsOk env s"
  shows "accountsOk env (updateLastUsed env pk s)"
proof -
  have "walletsOk (\<lambda>i. map_option (\<lambda>b. if b_publicKey b = pk then b\<lparr>b_lastUsed := Some (authNow env s)\<rparr> else b) (getB env s i))
      (getU env s) (drawn env s)"
    using assms unfolding accountsOk_def by (rule walletsOk_map) simp
  then show ?thesis unfolding accountsOk_def getB_lastUsed by simp
qed

lemma findUserByWallet_None:
  assumes "accountsOk env s" and "findUserByWallet env pk s = None"
  shows "rFindOne (walletRepo env) (\<lambda>b. b_publicKey b = pk) (walletTab s) = None"
proof (rule ccontr)
  assume "\<not> ?thesis"
  then obtain b where b: "rFindOne (walletRepo env) (\<lambda>b. b_publicKey b = pk) (walletTab s) = Some b" by blast
  then have "getB env s (b_id b) = Some b" using W.findOne_get by blast
  then have "b_userId b \<in> dom (getU env s)" using assms(1) unfolding accountsOk_def by (rule walletsOkD(2) [rotated])
  with b assms(2) show False by (auto simp: findUserByWallet_def userById_getU)
qed

lemma accountsOk_findOrCreate:
  assumes "accountsOk env s" and "inj (uuidOf env)"
  shows "accountsOk env (snd (findOrCreateUser env pk s))"
proof (cases "findUserByWallet env pk s")
  case None
  obtain r s1 where c: "createUserWithWallet env pk s = (r, s1)" by (cases "createUserWithWallet env pk s")
  have ok: "accountsOk env s1" using accountsOk_create [OF assms findUserByWallet_None [OF assms(1) None]] c by simp
  then show ?thesis using None c
    by (cases r) (auto simp: findOrCreateUser_def intro: accountsOk_frame)
qed (use assms in \<open>simp add: findOrCreateUser_def\<close>)

lemma findOrCreateUser_get:
  assumes "findOrCreateUser env pk s = (Inr u, s')"
  shows "getU env s' (u_id u) = Some u"
proof (cases "findUserByWallet env pk s")
  case (Some v)
  then obtain i where "userById env i s = Some v" by (auto simp: findUserByWallet_def split: option.splits)
  then have "getU env s i = Some v" by (simp add: userById_getU)
  moreover from this have "u_id v = i" by (rule U.get_key)
  ultimately show ?thesis using Some assms by (simp add: findOrCreateUser_def)
next
  case None
  show ?thesis
  proof (cases "rFindOne (walletRepo env) (\<lambda>b. b_publicKey b = pk) (walletTab s)")
    case new: None
    obtain v s1 where "findOrCreateUser env pk s = (Inr v, s1)" "getU env s1 (u_id v) = Some v"
      by (rule findOrCreateUser_new [OF new]) blast
    with assms show ?thesis by simp
  next
    case (Some b)
    with None assms show ?thesis
      by (simp add: findOrCreateUser_def createUserWithWallet_def bindWalletToUser_def newUuid_def Let_def)
  qed
qed

lemma walletLogin_user:
  assumes "walletLogin env dto s = (Inr r, s')"
  shows "getU env s' (u_id (lr_user r)) = Some (lr_user r)"
proof -
  obtain x s1 where c: "loginChecks env dto s = (Inr x, s1)" using assms
    by (auto simp: walletLogin_def split: prod.splits sum.splits)
  obtain u s2 where f: "findOrCreateUser env (d_publicKey dto) (markNonceUsed env (d_nonce dto) s1) = (Inr u, s2)"
    using assms c by (auto simp: walletLogin_def loginCommit_def split: prod.splits sum.splits)
  from assms c f have "lr_user r = u \<and> userTab s' = userTab s2"
    by (auto simp: walletLogin_def loginCommit_def Let_def case_token)
  with findOrCreateUser_get [OF f] show ?thesis by simp
qed

lemma accountsOk_mark: "accountsOk env s \<Longrightarrow> accountsOk env (markNonceUsed env n s)"
  by (erule accountsOk_frame) simp_all

lemma accountsOk_checks: "accountsOk env s \<Longrightarrow> accountsOk env (snd (loginChecks env dto s))"
  by (erule accountsOk_frame) simp_all

lemma accountsOk_login:
  assumes "accountsOk env s" and "inj (uuidOf env)"
  shows "accountsOk env (snd (walletLogin env dto s))"
proof -
  obtain c s1 where c: "loginChecks env dto s = (c, s1)" by (cases "loginChecks env dto s")
  have s1: "accountsOk env s1" using accountsOk_checks [OF assms(1), of dto] c by simp
  obtain r s2 where f: "findOrCreateUser env (d_publicKey dto) (markNonceUsed env (d_nonce dto) s1) = (r, s2)"
    by (cases "findOrCreateUser env (d_publicKey dto) (markNonceUsed env (d_nonce dto) s1)")
  have s2: "accountsOk env s2" using accountsOk_findOrCreate [OF accountsOk_mark [OF s1] assms(2)] f by (metis snd_conv)
  have s3: "accountsOk env (snd (generateRefreshToken env i (updateLastUsed env (d_publicKey dto) s2)))" for i
    by (rule accountsOk_frame [OF accountsOk_lastUsed [OF s2]]) simp_all
  show ?thesis using c f s1 s2 s3
    by (cases c; cases r) (simp_all add: walletLogin_def loginCommit_def Let_def case_token)
qed

lemma accountsOk_unbind:
  assumes "accountsOk env s"
  shows "accountsOk env (snd (unbindWallet env pk uid s))"
proof (cases "rFindOne (walletRepo env) (\<lambda>b. b_publicKey b = pk \<and> b_userId b = uid) (walletTab s)")
  case None
  then show ?thesis using assms by (simp add: unbindWallet_def)
next
  case (Some b)
  then have b: "getB env s (b_id b) = Some b" "b_userId b = uid" using W.findOne_get by blast+
  define s1 where "s1 = s\<lparr>walletTab := rDelete (walletRepo env) (\<lambda>c. b_id c = b_id b) (walletTab s)\<rparr>"
  have B1i: "getB env s1 i = (if i = b_id b then None else getB env s i)" for i
    using b(1) by (cases "getB env s i") (auto simp: s1_def W.get_delete dest: W.get_key)
  then have B1: "getB env s1 = (getB env s)(b_id b := None)" by (auto simp: fun_eq_iff)
  note ok = assms [unfolded accountsOk_def]
  show ?thesis
  proof (cases "rCount (walletRepo env) (\<lambda>c. b_userId c = uid) (walletTab s) = 1")
    case True
    then show ?thesis using Some assms by (simp add: unbindWallet_def)
  next
    case more: False
    show ?thesis
    proof (cases "b_isPrimary b")
      case False
      have "accountsOk env s1"
        using walletsOk_unbind [OF ok b(1) False] by (simp add: accountsOk_def B1) (simp add: s1_def)
      then show ?thesis using Some more False by (simp add: unbindWallet_def s1_def)
    next
      case True
      have "rFindOne (walletRepo env) (\<lambda>c. b_userId c = uid) (walletTab s1) \<noteq> None"
      proof
        assume "rFindOne (walletRepo env) (\<lambda>c. b_userId c = uid) (walletTab s1) = None"
        note none = W.findOne_NoneD [OF this]
        have only: "i = b_id b" if "getB env s i = Some c" "b_userId c = uid" for i c
        proof (rule ccontr)
          assume "i \<noteq> b_id b"
          then have "getB env s1 i = Some c" using that(1) by (simp add: B1i)
          with none that(2) show False by blast
        qed
        have "c = b" if "c \<in> set (rFind (walletRepo env) (\<lambda>c. b_userId c = uid) (walletTab s))" for c
          using W.find_get [OF that] only b(1) by (metis option.inject)
        moreover have "b \<in> set (rFind (walletRepo env) (\<lambda>c. b_userId c = uid) (walletTab s))"
          by (simp only: W.find_iff b simp_thms)
        ultimately have "set (rFind (walletRepo env) (\<lambda>c. b_userId c = uid) (walletTab s)) = {b}" by blast
        moreover have "distinct (rFind (walletRepo env) (\<lambda>c. b_userId c = uid) (walletTab s))"
          using W.find_distinct distinct_map by blast
        ultimately have "length (rFind (walletRepo env) (\<lambda>c. b_userId c = uid) (walletTab s)) = 1"
          by (metis distinct_card card.empty card.insert empty_iff finite.emptyI One_nat_def)
        with more show False by (simp add: W.count_find)
      qed
      then obtain a where a: "rFindOne (walletRepo env) (\<lambda>c. b_userId c = uid) (walletTab s1) = Some a" by blast
      then have "getB env s1 (b_id a) = Some a" "b_userId a = uid" using W.findOne_get by blast+
      then have ga: "getB env s (b_id a) = Some a" "b_id a \<noteq> b_id b" by (auto simp: B1i split: if_splits)
      define s2 where "s2 = s1\<lparr>walletTab := rSave (walletRepo env) (a\<lparr>b_isPrimary := True\<rparr>) (walletTab s1)\<rparr>"
      have "getB env s2 = (getB env s)(b_id b := None, b_id a \<mapsto> a\<lparr>b_isPrimary := True\<rparr>)"
        by (rule ext) (simp add: s2_def W.get_save B1i)
      then have "accountsOk env s2"
        using walletsOk_hand_over [OF ok b(1) True ga(1,2)] \<open>b_userId a = uid\<close> b(2)
        by (simp add: accountsOk_def) (simp add: s2_def s1_def)
      then show ?thesis using Some more True a by (simp add: unbindWallet_def s1_def s2_def)
    qed
  qed
qed

lemma accountsOk_step:
  assumes "auth_step env s s'" and "inj (uuidOf env)" and "accountsOk env s"
  shows "accountsOk env s'"
  using assms(1)
proof cases
  case (bind user dto)
  obtain c s1 where c: "loginChecks env dto s = (c, s1)" by (cases "loginChecks env dto s")
  have s1: "accountsOk env s1" "userTab s1 = userTab s"
    using accountsOk_checks [OF assms(3), of dto] loginChecks_frame(3) [of env dto s] c by simp_all
  have "accountsOk env (snd (bindWalletToUser env (d_publicKey dto) (u_id user) False (markNonceUsed env (d_nonce dto) s1)))"
    using bind(2) s1 by (intro accountsOk_bind [OF accountsOk_mark assms(2)]) (auto simp: rGet_def)
  then show ?thesis using bind(1) c s1(1) by (cases c) (simp_all add: bindWallet_def)
qed (auto simp: handler_defs accountsOk_login [OF assms(3,2)] accountsOk_unbind [OF assms(3)] generateNonce_def newUuid_def
  cleanupExpiredNonces_def Let_def intro: accountsOk_frame [OF assms(3)])

lemma empty_tables:
  assumes "rFind (userRepo env) (\<lambda>_. True) (userTab s) = []" and "rFind (walletRepo env) (\<lambda>_. True) (walletTab s) = []"
  shows "getU env s i = None" and "getB env s i = None"
proof -
  have u: "rFindOne (userRepo env) (\<lambda>_. True) (userTab s) = None" by (simp only: U.findOne_None assms(1))
  have w: "rFindOne (walletRepo env) (\<lambda>_. True) (walletTab s) = None" by (simp only: W.findOne_None assms(2))
  show "getU env s i = None" using U.findOne_NoneD [OF u] by (cases "getU env s i") blast+
  show "getB env s i = None" using W.findOne_NoneD [OF w] by (cases "getB env s i") blast+
qed

lemma accountsOk_reachable:
  assumes "(auth_step env)\<^sup>*\<^sup>* s0 s" and "inj (uuidOf env)" and "accountsOk env s0"
  shows "accountsOk env s"
  using assms(1,3) by (induction rule: rtranclp_induct) (auto intro: accountsOk_step [OF _ assms(2)])

end

text \<open>
  C20. The accounts stay in order. In every run of the service from empty user and wallet tables
  a public key is bound to at most one account, every wallet belongs to an existing account, and every
  account has exactly one primary wallet: logging in, binding and unbinding keep it so, and the last
  wallet of an account cannot be removed.
\<close>

theorem one_primary_wallet:
  assumes "auth_tables env" and "inj (uuidOf env)" and "(auth_step env)\<^sup>*\<^sup>* s0 s"
    and "rFind (userRepo env) (\<lambda>_. True) (userTab s0) = []" and "rFind (walletRepo env) (\<lambda>_. True) (walletTab s0) = []"
  shows "(getU env s i = Some u \<longrightarrow> (\<exists>!j. \<exists>b. getB env s j = Some b \<and> b_userId b = i \<and> b_isPrimary b)) \<and>
    (getB env s j = Some b \<longrightarrow> (\<exists>v. getU env s (b_userId b) = Some v)) \<and>
    (getB env s j = Some b \<and> getB env s k = Some c \<and> b_publicKey b = b_publicKey c \<longrightarrow> j = k)"
proof -
  have "getU env s0 = (\<lambda>_. None)" "getB env s0 = (\<lambda>_. None)"
    using auth_tables.empty_tables [OF assms(1,4,5)] by auto
  then have "accountsOk env s0" by (simp add: accountsOk_def walletsOk_def)
  then have ok: "walletsOk (getB env s) (getU env s) (drawn env s)"
    using auth_tables.accountsOk_reachable [OF assms(1,3,2)] by (simp add: accountsOk_def)
  note D = walletsOkD [OF ok]
  have "\<exists>!j. \<exists>b. getB env s j = Some b \<and> b_userId b = i \<and> b_isPrimary b" if "getU env s i = Some u"
  proof -
    from D(3) [of i] that obtain j where "primaries (getB env s) i = {j}" by auto
    then have "(\<exists>b. getB env s j' = Some b \<and> b_userId b = i \<and> b_isPrimary b) \<longleftrightarrow> j' = j" for j'
      unfolding primaries_def by blast
    then show ?thesis by simp
  qed
  moreover have "\<exists>v. getU env s (b_userId b) = Some v" if "getB env s j = Some b" using D(2) [OF that] by blast
  ultimately show ?thesis using D(1) by blast
qed

theorem one_primary_wallet_witness:
  "\<exists>u. getU memAuthEnv (snd (walletLogin memAuthEnv sampleLogin sampleAuth)) (u_id u) = Some u \<and>
     (\<exists>!j. \<exists>b. getB memAuthEnv (snd (walletLogin memAuthEnv sampleLogin sampleAuth)) j = Some b \<and>
        b_userId b = u_id u \<and> b_isPrimary b)"
proof -
  obtain r s where l: "walletLogin memAuthEnv sampleLogin sampleAuth = (Inr r, s)" using sampleLogin_ok by blast
  have e: "rFind (userRepo memAuthEnv) (\<lambda>_. True) (userTab memAuth) = []" "rFind (walletRepo memAuthEnv) (\<lambda>_. True) (walletTab memAuth) = []"
    by (simp_all add: memAuthEnv_def memAuth_def memFind_def)
  have "auth_step memAuthEnv sampleAuth s" using auth_step.login [of memAuthEnv sampleAuth sampleLogin] l by simp
  then have "(auth_step memAuthEnv)\<^sup>*\<^sup>* memAuth s" by (blast intro: auth_step.nonce rtranclp.rtrancl_into_rtrancl)
  from one_primary_wallet [OF memAuth_tables mem_uuids_inj this e, of "u_id (lr_user r)" "lr_user r"] memAu.walletLogin_user [OF l]
  have "getU memAuthEnv s (u_id (lr_user r)) = Some (lr_user r) \<and>
      (\<exists>!j. \<exists>b. getB memAuthEnv s j = Some b \<and> b_userId b = u_id (lr_user r) \<and> b_isPrimary b)" by blast
  then show ?thesis unfolding l snd_conv by (rule exI)
qed

end
