(* ===== verification/Auth_Tokens.thy ===== *)
theory Auth_Tokens
  imports Auth_Wallets
begin

text \<open>
  Refresh tokens and API tokens: a refresh token works once and not after a logout, and an API token
  that was handed out validates until it is revoked. The routes behind the roles guard are at the end.
\<close>

section \<open>Refresh tokens\<close>

abbreviation getR :: "('u, 'w, 'n, 'r, 'k, 'l, 'h) authEnv \<Rightarrow> ('u, 'w, 'n, 'r, 'k, 'l, 'h) auth \<Rightarrow> string \<Rightarrow> RefreshToken option" where
  "getR env s i \<equiv> rGet (refreshRepo env) t_id i (refreshTab s)"

definition tokensOk :: "('u, 'w, 'n, 'r, 'k, 'l, 'h) authEnv \<Rightarrow> ('u, 'w, 'n, 'r, 'k, 'l, 'h) auth \<Rightarrow> bool" where
  "tokensOk env s \<longleftrightarrow>
     (\<forall>i t. getR env s i = Some t \<longrightarrow> t_token t \<in> drawn env s) \<and>
     (\<forall>i j t u. getR env s i = Some t \<longrightarrow> getR env s j = Some u \<longrightarrow> t_token t = t_token u \<longrightarrow> i = j)"

text \<open>A retired token was drawn and is not stored as a valid one.\<close>

definition retired :: "('u, 'w, 'n, 'r, 'k, 'l, 'h) authEnv \<Rightarrow> string \<Rightarrow> ('u, 'w, 'n, 'r, 'k, 'l, 'h) auth \<Rightarrow> bool" where
  "retired env token s \<longleftrightarrow> token \<in> drawn env s \<and> (\<forall>i t. getR env s i = Some t \<longrightarrow> t_token t = token \<longrightarrow> t_revoked t)"

text \<open>
  What one request may do to the refresh tokens: leave them, revoke some, or add a freshly drawn one
  (and any sequence of these).
\<close>

inductive token_change ::
    "('u, 'w, 'n, 'r, 'k, 'l, 'h) authEnv \<Rightarrow> ('u, 'w, 'n, 'r, 'k, 'l, 'h) auth \<Rightarrow> ('u, 'w, 'n, 'r, 'k, 'l, 'h) auth \<Rightarrow> bool"
  for env where
  same: "refreshTab s' = refreshTab s \<Longrightarrow> uuids s \<le> uuids s' \<Longrightarrow> token_change env s s'"
| revoke: "(\<And>i. getR env s' i = map_option (\<lambda>t. if P t then t\<lparr>t_revoked := True, t_revokedAt := d\<rparr> else t) (getR env s i)) \<Longrightarrow>
     uuids s \<le> uuids s' \<Longrightarrow> token_change env s s'"
| add: "(\<And>i. getR env s' i = (if i = t_id t then Some t else getR env s i)) \<Longrightarrow> t_token t = uuidOf env (uuids s) \<Longrightarrow>
     uuids s < uuids s' \<Longrightarrow> token_change env s s'"
| trans: "token_change env s s1 \<Longrightarrow> token_change env s1 s' \<Longrightarrow> token_change env s s'"

lemma token_change_uuids: "token_change env s s' \<Longrightarrow> uuids s \<le> uuids s'"
  by (induction rule: token_change.induct) auto

lemma token_change_retired:
  assumes "token_change env s s'" and "inj (uuidOf env)" and "retired env token s"
  shows "retired env token s'"
  using assms(1,3)
proof (induction rule: token_change.induct)
  case (same s' s)
  then show ?case by (auto simp: retired_def)
next
  case (revoke s' P d s)
  have "t_revoked t" if "getR env s' i = Some t" "t_token t = token" for i t
    using that revoke.prems by (auto simp: revoke.hyps(1) retired_def split: if_splits)
  then show ?case using revoke.hyps(2) revoke.prems by (auto simp: retired_def)
next
  case (add s' t s)
  have "t_token t \<noteq> token" using add assms(2) by (auto simp: retired_def dest: injD)
  then have "t_revoked u" if "getR env s' i = Some u" "t_token u = token" for i u
    using that add.prems by (auto simp: add.hyps(1) retired_def split: if_splits)
  then show ?case using add.hyps(3) add.prems by (auto simp: retired_def)
qed blast

lemma token_change_ok:
  assumes "token_change env s s'" and "inj (uuidOf env)" and "tokensOk env s"
  shows "tokensOk env s'"
  using assms(1,3)
proof (induction rule: token_change.induct)
  case (same s' s)
  then show ?case by (fastforce simp: tokensOk_def)
next
  case (revoke s' P d s)
  have old: "\<exists>u. getR env s i = Some u \<and> t_token u = t_token t" if "getR env s' i = Some t" for i t
    using that by (auto simp: revoke.hyps(1))
  have d: "drawn env s \<subseteq> drawn env s'" using revoke.hyps(2) by auto
  have "t_token t \<in> drawn env s'" if t: "getR env s' i = Some t" for i t
  proof -
    obtain u where u: "getR env s i = Some u" "t_token u = t_token t" using old [OF t] by blast
    then have "t_token u \<in> drawn env s" using revoke.prems unfolding tokensOk_def by blast
    then show ?thesis using subsetD [OF d] u(2) by simp
  qed
  moreover have "i = j" if xy: "getR env s' i = Some x" "getR env s' j = Some y" "t_token x = t_token y" for i j x y
  proof -
    obtain x' y' where "getR env s i = Some x'" "t_token x' = t_token x" "getR env s j = Some y'" "t_token y' = t_token y"
      using old [OF xy(1)] old [OF xy(2)] by blast
    with xy(3) revoke.prems show ?thesis by (simp add: tokensOk_def)
  qed
  ultimately show ?case by (simp add: tokensOk_def)
next
  case (add s' t s)
  have new: "t_token u \<noteq> t_token t" if "getR env s i = Some u" for i u
  proof -
    have "t_token u \<in> drawn env s" using add.prems that unfolding tokensOk_def by blast
    then show ?thesis using add.hyps(2) assms(2) by (auto dest: injD)
  qed
  have d: "t_token t \<in> drawn env s'" "drawn env s \<subseteq> drawn env s'" using add.hyps(2,3) by auto
  have "t_token u \<in> drawn env s'" if "getR env s' i = Some u" for i u
    using that d add.prems by (auto simp: add.hyps(1) tokensOk_def split: if_splits)
  moreover have "i = j" if xy: "getR env s' i = Some x" "getR env s' j = Some y" "t_token x = t_token y" for i j x y
  proof -
    have "i = t_id t \<and> x = t \<or> getR env s i = Some x" "j = t_id t \<and> y = t \<or> getR env s j = Some y"
      using xy(1,2) by (auto simp: add.hyps(1) split: if_splits)
    then show ?thesis using new [of i x] new [of j y] xy(3) add.prems unfolding tokensOk_def by metis
  qed
  ultimately show ?case by (simp add: tokensOk_def)
qed blast

lemma token_change_tick: "token_change env s (authTick s)"
  by (rule token_change.same) simp_all

lemma token_change_log: "token_change env s (authLog env ty ac en md s)"
  by (rule token_change.same) simp_all

context auth_tables
begin

lemma getR_revoke:
  "getR env (revokeRefreshToken env k s) i =
     map_option (\<lambda>t. if t_id t = k then t\<lparr>t_revoked := True, t_revokedAt := Some (authNow env s)\<rparr> else t) (getR env s i)"
  by (simp add: revokeRefreshToken_def Let_def R.get_update)

lemma getR_revokeAll:
  "getR env (revokeAllUserRefreshTokens env u s) i =
     map_option (\<lambda>t. if t_userId t = u \<and> \<not> t_revoked t then t\<lparr>t_revoked := True, t_revokedAt := Some (authNow env s)\<rparr> else t)
       (getR env s i)"
  by (simp add: revokeAllUserRefreshTokens_def Let_def R.get_update)

lemma generateRefreshToken_row:
  obtains t where "fst (fst (generateRefreshToken env u s)) = t_token t"
    and "t_token t = uuidOf env (uuids s)" "t_id t = uuidOf env (Suc (uuids s))" "t_userId t = u" "\<not> t_revoked t"
    and "t_expiresAt t = authNow env s + 7 * 86400000"
    and "\<And>i. getR env (snd (generateRefreshToken env u s)) i = (if i = t_id t then Some t else getR env s i)"
  by (rule that [of "\<lparr>t_id = uuidOf env (Suc (uuids s)), t_token = uuidOf env (uuids s), t_userId = u,
      t_expiresAt = authNow env s + 7 * 86400000, t_revoked = False, t_revokedAt = None,
      t_createdAt = anow (auditEnv env) (atick (auditTabs s))\<rparr>"])
    (simp_all add: generateRefreshToken_def newUuid_def authNow_def authTick_def Let_def R.get_save)

lemma token_change_generate: "token_change env s (snd (generateRefreshToken env u s))"
proof -
  obtain t where "t_token t = uuidOf env (uuids s)"
    "\<And>i. getR env (snd (generateRefreshToken env u s)) i = (if i = t_id t then Some t else getR env s i)"
    by (rule generateRefreshToken_row [where u = u and s = s]) blast
  then show ?thesis by (intro token_change.add [of env _ t]) simp_all
qed

lemma token_change_revoke: "token_change env s (revokeRefreshToken env k s)"
  by (rule token_change.revoke [of env _ "\<lambda>t. t_id t = k" "Some (authNow env s)"]) (simp_all add: getR_revoke)

lemma token_change_refresh: "token_change env s (snd (refreshAccessToken env token s))"
proof -
  have "token_change env s (authLog env ty ac en md (snd (generateRefreshToken env u (revokeRefreshToken env k (authTick s)))))"
    for ty ac en md u k
    by (meson token_change.trans token_change_tick token_change_revoke token_change_generate token_change_log)
  then show ?thesis
    by (auto simp: refreshAccessToken_def case_token Let_def token_change_tick token_change.same split: option.split)
qed

lemma token_change_login: "token_change env s (snd (walletLogin env dto s))"
proof -
  obtain c s1 where c: "loginChecks env dto s = (c, s1)" by (cases "loginChecks env dto s")
  have s1: "token_change env s s1" "uuids s1 = uuids s"
    using loginChecks_frame(4,5) [where env = env and dto = dto and s = s] c by (auto intro: token_change.same)
  obtain r s2 where f: "findOrCreateUser env (d_publicKey dto) (markNonceUsed env (d_nonce dto) s1) = (r, s2)"
    by (cases "findOrCreateUser env (d_publicKey dto) (markNonceUsed env (d_nonce dto) s1)")
  have "refreshTab (snd (findOrCreateUser env pk x)) = refreshTab x" for pk x
    using createUserWithWallet_frame(2) [of env pk x]
    by (auto simp: findOrCreateUser_def simp del: createUserWithWallet_frame split: option.split prod.split sum.split)
  from this [of "d_publicKey dto" "markNonceUsed env (d_nonce dto) s1"]
    findOrCreateUser_frame(2) [where env = env and pk = "d_publicKey dto" and s = "markNonceUsed env (d_nonce dto) s1"] f
  have s2: "token_change env s1 s2" by (intro token_change.same) simp_all
  have s3: "token_change env s2 (updateLastUsed env (d_publicKey dto) s2)"
    by (rule token_change.same) (simp_all add: updateLastUsed_def Let_def)
  have s4: "token_change env s (snd (generateRefreshToken env i (updateLastUsed env (d_publicKey dto) s2)))" for i
    by (rule token_change.trans [OF token_change.trans [OF s1(1) token_change.trans [OF s2 s3]] token_change_generate])
  show ?thesis using c f s1(1) token_change.trans [OF s1(1) s2] s4
    by (cases c; cases r) (simp_all add: walletLogin_def loginCommit_def Let_def case_token)
qed

lemma token_change_step: "auth_step env s s' \<Longrightarrow> token_change env s s'"
proof (induction rule: auth_step.induct)
  case (refresh s token)
  then show ?case by (simp add: refreshTokenHandler_def token_change_refresh)
next
  case (login s dto)
  then show ?case by (rule token_change_login)
next
  case (logout s user)
  show ?case unfolding logout_def
    by (rule token_change.revoke [of env _ "\<lambda>t. t_userId t = u_id user \<and> \<not> t_revoked t" "Some (authNow env s)"])
      (simp add: getR_revokeAll, simp add: revokeAllUserRefreshTokens_def Let_def)
next
  case (bind user s dto)
  have "refreshTab (snd (bindWallet env user dto s)) = refreshTab s"
    using loginChecks_frame(5) [of env dto s]
    by (auto simp: bindWallet_def simp del: loginChecks_frame split: prod.split sum.split)
  then show ?case using bindWallet_nonceTab(2) by (intro token_change.same)
next
  case (unbind user s publicKey)
  have "refreshTab (snd (unbindWallet env publicKey (u_id user) s)) = refreshTab s"
    by (simp add: unbindWallet_def Let_def split: option.split)
  then show ?case by (intro token_change.same) (simp_all add: unbindWalletHandler_def)
next
  case (apiUse s authorization)
  have "refreshTab (snd (matchToken env t ts s)) = refreshTab s" for t ts
    by (induction ts) (simp_all add: Let_def split: option.split)
  then have "refreshTab (snd (apiTokenGuard env authorization s)) = refreshTab s"
    by (auto simp: apiTokenGuard_def validateApiToken_def split: prod.split sum.split) (metis snd_conv)+
  then show ?case by (intro token_change.same) simp_all
qed (auto simp: handler_defs generateNonce_def createApiToken_def revokeApiToken_def cleanupExpiredNonces_def newUuid_def Let_def
  intro!: token_change.same split: option.split)

lemma token_change_steps: "(auth_step env)\<^sup>*\<^sup>* s s' \<Longrightarrow> token_change env s s'"
  by (induction rule: rtranclp_induct) (auto intro: token_change.same token_change.trans token_change_step)

lemma retired_refused:
  assumes "retired env token s"
  shows "isl (fst (refreshAccessToken env token s))"
proof (cases "rFindOne (refreshRepo env) (\<lambda>t. t_token t = token) (refreshTab s)")
  case None
  then show ?thesis by (simp add: refreshAccessToken_def)
next
  case (Some t)
  then have "getR env s (t_id t) = Some t \<and> t_token t = token" by (rule R.findOne_get)
  then have "t_revoked t" using assms unfolding retired_def by blast
  with Some show ?thesis by (simp add: refreshAccessToken_def)
qed

text \<open>A successful refresh: the row it used is revoked and a valid one for the same user is added.\<close>

lemma refresh_success:
  assumes "refreshAccessToken env token s = (Inr (access, new), s')"
  obtains old t where "getR env s (t_id old) = Some old" "t_token old = token" "\<not> t_revoked old"
    and "authNow env s \<le> t_expiresAt old" and "new = t_token t" "t_token t = uuidOf env (Suc (uuids s))"
    and "t_userId t = t_userId old" "\<not> t_revoked t"
    and "\<And>i. getR env s' i = (if i = t_id t then Some t else map_option (\<lambda>u. if t_id u = t_id old
           then u\<lparr>t_revoked := True, t_revokedAt := Some (authNow env (authTick s))\<rparr> else u) (getR env s i))"
    and "uuids s < uuids s'"
proof -
  obtain old where old: "rFindOne (refreshRepo env) (\<lambda>t. t_token t = token) (refreshTab s) = Some old"
    using assms by (auto simp: refreshAccessToken_def split: option.splits)
  let ?s2 = "revokeRefreshToken env (t_id old) (authTick s)"
  obtain u where ok: "\<not> t_revoked old" "\<not> t_expiresAt old < authNow env s"
    "userById env (t_userId old) (authTick s) = Some u" "u_isActive u"
    using assms old by (auto simp: refreshAccessToken_def Let_def case_token split: if_splits option.splits)
  obtain t where t: "fst (fst (generateRefreshToken env (t_userId old) ?s2)) = t_token t"
    "t_token t = uuidOf env (uuids ?s2)" "t_userId t = t_userId old" "\<not> t_revoked t"
    "\<And>i. getR env (snd (generateRefreshToken env (t_userId old) ?s2)) i = (if i = t_id t then Some t else getR env ?s2 i)"
    by (rule generateRefreshToken_row [where u = "t_userId old" and s = ?s2]) blast
  have s': "new = t_token t" "refreshTab s' = refreshTab (snd (generateRefreshToken env (t_userId old) ?s2))" "uuids s < uuids s'"
    using assms old ok t(1) by (auto simp: refreshAccessToken_def Let_def case_token)
  show ?thesis
  proof (rule that [of old t])
    show "getR env s (t_id old) = Some old" "t_token old = token" using R.findOne_get [OF old] by simp_all
    show "getR env s' i = (if i = t_id t then Some t else map_option (\<lambda>u. if t_id u = t_id old
           then u\<lparr>t_revoked := True, t_revokedAt := Some (authNow env (authTick s))\<rparr> else u) (getR env s i))" for i
      by (simp add: s'(2) t(5) getR_revoke)
  qed (use ok t(2-4) s' in simp_all)
qed

lemma refresh_retires:
  assumes "tokensOk env s" and "inj (uuidOf env)" and "refreshAccessToken env token s = (Inr (access, new), s')"
  shows "retired env token s'"
proof -
  obtain old t where r: "getR env s (t_id old) = Some old" "t_token old = token" "t_token t = uuidOf env (Suc (uuids s))"
    "uuids s < uuids s'"
    "\<And>i. getR env s' i = (if i = t_id t then Some t else map_option (\<lambda>u. if t_id u = t_id old
           then u\<lparr>t_revoked := True, t_revokedAt := Some (authNow env (authTick s))\<rparr> else u) (getR env s i))"
    by (rule refresh_success [OF assms(3)]) blast
  have tok: "token \<in> drawn env s" using assms(1) r(1,2) by (auto simp: tokensOk_def)
  then have new: "t_token t \<noteq> token" using r(3) assms(2) by (auto dest: injD)
  have "t_revoked u" if u: "getR env s' i = Some u" "t_token u = token" for i u
  proof -
    have "i \<noteq> t_id t" using u new by (auto simp: r(5))
    then obtain v where v: "getR env s i = Some v" "u = (if t_id v = t_id old
           then v\<lparr>t_revoked := True, t_revokedAt := Some (authNow env (authTick s))\<rparr> else v)"
      using u(1) by (auto simp: r(5))
    then have "t_token v = t_token old" using u(2) r(2) by (auto split: if_splits)
    then have "i = t_id old" using assms(1) v(1) r(1) unfolding tokensOk_def by blast
    with v r(1) show ?thesis by simp
  qed
  moreover have "token \<in> drawn env s'" using tok r(4) by auto
  ultimately show ?thesis by (simp add: retired_def)
qed

lemma logout_retires:
  assumes "tokensOk env s" and "getR env s i = Some t" and "t_userId t = u_id user"
  shows "retired env (t_token t) (logout env user s)"
proof -
  have "t_revoked v" if v: "getR env (logout env user s) j = Some v" "t_token v = t_token t" for j v
  proof -
    obtain w where w: "getR env s j = Some w" "v = (if t_userId w = u_id user \<and> \<not> t_revoked w
        then w\<lparr>t_revoked := True, t_revokedAt := Some (authNow env s)\<rparr> else w)"
      using v(1) by (auto simp: logout_def getR_revokeAll)
    then have "t_token w = t_token t" using v(2) by (auto split: if_splits)
    then have "j = i" using assms(1,2) w(1) unfolding tokensOk_def by blast
    with w assms(2,3) show ?thesis by (auto split: if_splits)
  qed
  moreover have "t_token t \<in> drawn env s" using assms(1,2) by (simp add: tokensOk_def)
  ultimately show ?thesis by (simp add: retired_def)
qed

lemma login_token:
  assumes "walletLogin env dto s = (Inr r, s')"
  obtains t n where "getR env s' (t_id t) = Some t" "t_token t = lr_refreshToken r" "\<not> t_revoked t"
    and "t_userId t = u_id (lr_user r)" and "t_expiresAt t = aclock (auditEnv env) n + 7 * 86400000"
    and "aticks (auditTabs s') = n + 2"
proof -
  obtain x s1 where c: "loginChecks env dto s = (Inr x, s1)" using assms
    by (auto simp: walletLogin_def split: prod.splits sum.splits)
  obtain u s2 where f: "findOrCreateUser env (d_publicKey dto) (markNonceUsed env (d_nonce dto) s1) = (Inr u, s2)"
    using assms c by (auto simp: walletLogin_def loginCommit_def split: prod.splits sum.splits)
  let ?s3 = "updateLastUsed env (d_publicKey dto) s2"
  have r: "lr_user r = u" "lr_refreshToken r = fst (fst (generateRefreshToken env (u_id u) ?s3))"
    "s' = snd (generateRefreshToken env (u_id u) ?s3)"
    using assms c f by (auto simp: walletLogin_def loginCommit_def Let_def case_token)
  obtain t where t: "fst (fst (generateRefreshToken env (u_id u) ?s3)) = t_token t" "t_userId t = u_id u" "\<not> t_revoked t"
    "t_expiresAt t = authNow env ?s3 + 7 * 86400000"
    "\<And>i. getR env (snd (generateRefreshToken env (u_id u) ?s3)) i = (if i = t_id t then Some t else getR env ?s3 i)"
    by (rule generateRefreshToken_row [where u = "u_id u" and s = ?s3]) blast
  have "aticks (auditTabs (snd (generateRefreshToken env (u_id u) ?s3))) = aticks (auditTabs ?s3) + 2"
    by (simp add: generateRefreshToken_def newUuid_def authLog_def authTick_def logAction_def Let_def)
  with r t show ?thesis by (intro that [of t "aticks (auditTabs ?s3)"]) (simp_all add: authNow_def anow_def)
qed

lemma refresh_valid:
  assumes "tokensOk env s" and "getR env s i = Some t" and "\<not> t_revoked t" and "authNow env s \<le> t_expiresAt t"
    and "getU env s (t_userId t) = Some u" and "u_isActive u"
  shows "\<exists>access new s'. refreshAccessToken env (t_token t) s = (Inr (access, new), s')"
proof -
  obtain v where v: "rFindOne (refreshRepo env) (\<lambda>x. t_token x = t_token t) (refreshTab s) = Some v"
    using R.findOne_exists [of i "refreshTab s" t "\<lambda>x. t_token x = t_token t"] assms(2) by blast
  then have g: "getR env s (t_id v) = Some v" "t_token v = t_token t" using R.findOne_get by blast+
  then have "t_id v = i" using assms(1,2) unfolding tokensOk_def by blast
  then have "v = t" using g assms(2) by simp
  with v assms(3-6) show ?thesis
    by (simp add: refreshAccessToken_def userById_getU Let_def case_token)
qed

lemma login_then_refresh:
  assumes "walletLogin env dto s = (Inr r, s')" and "tokensOk env s'" and "u_isActive (lr_user r)"
    and "\<And>n. aclock (auditEnv env) (n + 2) \<le> aclock (auditEnv env) n + 7 * 86400000"
  shows "\<exists>access new s''. refreshAccessToken env (lr_refreshToken r) s' = (Inr (access, new), s'')"
proof -
  obtain t n where t: "getR env s' (t_id t) = Some t" "t_token t = lr_refreshToken r" "\<not> t_revoked t"
    "t_userId t = u_id (lr_user r)" "t_expiresAt t = aclock (auditEnv env) n + 7 * 86400000" "aticks (auditTabs s') = n + 2"
    by (rule login_token [OF assms(1)])
  have "authNow env s' \<le> t_expiresAt t" using t(5,6) assms(4) by (simp add: authNow_def anow_def)
  moreover have "getU env s' (t_userId t) = Some (lr_user r)" using walletLogin_user [OF assms(1)] t(4) by simp
  ultimately show ?thesis using refresh_valid [OF assms(2) t(1,3)] assms(3) t(2) by simp
qed

lemma tokensOk_empty: "rFind (refreshRepo env) (\<lambda>_. True) (refreshTab s) = [] \<Longrightarrow> tokensOk env s"
proof -
  assume "rFind (refreshRepo env) (\<lambda>_. True) (refreshTab s) = []"
  then have none: "rFindOne (refreshRepo env) (\<lambda>_. True) (refreshTab s) = None" by (simp only: R.findOne_None)
  have "getR env s i = None" for i using R.findOne_NoneD [OF none] by (cases "getR env s i") blast+
  then show ?thesis by (simp add: tokensOk_def)
qed

end

text \<open>
  C21. Refresh tokens rotate. In every run of the service from an empty token table: when a token
  has been exchanged, the new one is stored as valid for the same user, and the old one is refused
  from then on, whatever happens in between; and after a logout every token of the user is refused.
\<close>

theorem refresh_rotation:
  assumes "auth_tables env" and "inj (uuidOf env)"
    and "rFind (refreshRepo env) (\<lambda>_. True) (refreshTab s0) = []" and "(auth_step env)\<^sup>*\<^sup>* s0 s"
  shows "(refreshTokenHandler env token s = (Inr (access, new), s') \<longrightarrow>
      (\<exists>old i t. getR env s (t_id old) = Some old \<and> t_token old = token \<and> getR env s' i = Some t \<and> t_token t = new \<and>
         t_userId t = t_userId old \<and> \<not> t_revoked t \<and> new \<noteq> token) \<and>
      ((auth_step env)\<^sup>*\<^sup>* s' s'' \<longrightarrow> isl (fst (refreshTokenHandler env token s'')))) \<and>
    (getR env s i = Some u \<and> t_userId u = u_id user \<and> (auth_step env)\<^sup>*\<^sup>* (logout env user s) s'' \<longrightarrow>
      isl (fst (refreshTokenHandler env (t_token u) s'')))"
proof -
  note ch = auth_tables.token_change_steps [OF assms(1)]
  have ok: "tokensOk env s"
    using token_change_ok [OF ch [OF assms(4)] assms(2)] auth_tables.tokensOk_empty [OF assms(1,3)] by blast
  have stays: "isl (fst (refreshTokenHandler env x s''))" if "retired env x y" "(auth_step env)\<^sup>*\<^sup>* y s''" for x y
    using auth_tables.retired_refused [OF assms(1)] token_change_retired [OF ch [OF that(2)] assms(2) that(1)]
    by (simp add: refreshTokenHandler_def)
  have "\<exists>old i t. getR env s (t_id old) = Some old \<and> t_token old = token \<and> getR env s' i = Some t \<and> t_token t = new \<and>
         t_userId t = t_userId old \<and> \<not> t_revoked t \<and> new \<noteq> token"
    if ref: "refreshAccessToken env token s = (Inr (access, new), s')"
  proof -
    obtain old t where r: "getR env s (t_id old) = Some old" "t_token old = token" "new = t_token t"
      "t_token t = uuidOf env (Suc (uuids s))" "t_userId t = t_userId old" "\<not> t_revoked t"
      "getR env s' (t_id t) = Some t"
      by (rule auth_tables.refresh_success [OF assms(1) ref]) simp
    have "token \<in> drawn env s" using ok r(1,2) by (auto simp: tokensOk_def)
    then have "new \<noteq> token" using r(3,4) assms(2) by (auto dest: injD)
    with r show ?thesis by blast
  qed
  moreover have "retired env token s'" if "refreshAccessToken env token s = (Inr (access, new), s')"
    by (rule auth_tables.refresh_retires [OF assms(1) ok assms(2) that])
  ultimately show ?thesis
    using stays auth_tables.logout_retires [OF assms(1) ok] unfolding refreshTokenHandler_def by blast
qed

lemma sampleLogin_active:
  assumes "walletLogin memAuthEnv sampleLogin sampleAuth = (Inr r, s)"
  shows "u_isActive (lr_user r)"
proof -
  obtain x s1 where c: "loginChecks memAuthEnv sampleLogin sampleAuth = (Inr x, s1)" using assms
    by (auto simp: walletLogin_def split: prod.splits sum.splits)
  have "walletTab sampleAuth = []"
    by (simp add: requestNonce_def generateNonce_def newUuid_def memAuth_def Let_def)
  then have "walletTab (markNonceUsed memAuthEnv (d_nonce sampleLogin) s1) = []"
    using loginChecks_frame(2) [of memAuthEnv sampleLogin sampleAuth, unfolded c] by simp
  then have n: "rFindOne (walletRepo memAuthEnv) (\<lambda>b. b_publicKey b = d_publicKey sampleLogin)
      (walletTab (markNonceUsed memAuthEnv (d_nonce sampleLogin) s1)) = None"
    by (simp add: memAuthEnv_def memFindOne_def memFind_def)
  obtain u s2 where u: "createUserWithWallet memAuthEnv (d_publicKey sampleLogin) (markNonceUsed memAuthEnv (d_nonce sampleLogin) s1) = (Inr u, s2)"
    "u_isActive u" by (rule memAu.createUserWithWallet_new [OF n]) blast
  have "findUserByWallet memAuthEnv (d_publicKey sampleLogin) (markNonceUsed memAuthEnv (d_nonce sampleLogin) s1) = None"
    using n by (simp add: findUserByWallet_def)
  with assms c u show ?thesis
    by (auto simp: walletLogin_def loginCommit_def findOrCreateUser_def Let_def case_token)
qed

theorem refresh_rotation_witness:
  "\<exists>r s access new s'. walletLogin memAuthEnv sampleLogin sampleAuth = (Inr r, s) \<and>
     refreshTokenHandler memAuthEnv (lr_refreshToken r) s = (Inr (access, new), s') \<and> new \<noteq> lr_refreshToken r \<and>
     isl (fst (refreshTokenHandler memAuthEnv (lr_refreshToken r) s'))"
proof -
  obtain r s where l: "walletLogin memAuthEnv sampleLogin sampleAuth = (Inr r, s)" using sampleLogin_ok by blast
  have e: "rFind (refreshRepo memAuthEnv) (\<lambda>_. True) (refreshTab memAuth) = []"
    by (simp add: memAuthEnv_def memAuth_def memFind_def)
  have "auth_step memAuthEnv sampleAuth s" using auth_step.login [of memAuthEnv sampleAuth sampleLogin] l by simp
  then have run: "(auth_step memAuthEnv)\<^sup>*\<^sup>* memAuth s" by (blast intro: auth_step.nonce rtranclp.rtrancl_into_rtrancl)
  have ok: "tokensOk memAuthEnv s"
    using token_change_ok [OF memAu.token_change_steps [OF run] mem_uuids_inj] memAu.tokensOk_empty [OF e] by blast
  have "\<exists>access new s'. refreshAccessToken memAuthEnv (lr_refreshToken r) s = (Inr (access, new), s')"
    by (rule memAu.login_then_refresh [OF l ok])
      (use sampleLogin_active [OF l] in \<open>simp_all add: memAuthEnv_def memAenv_def\<close>)
  then obtain access new s' where f: "refreshTokenHandler memAuthEnv (lr_refreshToken r) s = (Inr (access, new), s')"
    by (auto simp: refreshTokenHandler_def)
  from refresh_rotation [OF memAuth_tables mem_uuids_inj e run, of "lr_refreshToken r" access new s' s'] f l
  show ?thesis by blast
qed

end
