(* ===== verification/Auth_Audit.thy ===== *)
theory Auth_Audit
  imports Auth_Tokens
begin

text \<open>
  Authentication and the audit log together: what a login leaves in the log, API tokens from their
  creation to their revocation, and the audit endpoints behind the guards.
\<close>

section \<open>The audit log grows\<close>

text \<open>The audit log holds \<open>es\<close>, with ids drawn before and times in the past.\<close>

definition auditRel ::
    "('u, 'w, 'n, 'r, 'k, 'l, 'h) authEnv \<Rightarrow> ('u, 'w, 'n, 'r, 'k, 'l, 'h) auth \<Rightarrow> AuditLogEntry list \<Rightarrow> bool" where
  "auditRel env s es \<longleftrightarrow> represents (auditEnv env) (auditTabs s) es \<and> a_id ` set es \<subseteq> drawn env s \<and>
     (\<forall>e \<in> set es. a_timestamp e < authNow env s)"

definition grows ::
    "('u, 'w, 'n, 'r, 'k, 'l, 'h) authEnv \<Rightarrow> ('u, 'w, 'n, 'r, 'k, 'l, 'h) auth \<Rightarrow> ('u, 'w, 'n, 'r, 'k, 'l, 'h) auth \<Rightarrow> bool" where
  "grows env s s' \<longleftrightarrow> (\<forall>es. auditRel env s es \<longrightarrow> (\<exists>more. auditRel env s' (es @ more)))"

definition ticked :: "('u, 'w, 'n, 'r, 'k, 'l, 'h) auth \<Rightarrow> ('u, 'w, 'n, 'r, 'k, 'l, 'h) auth \<Rightarrow> bool" where
  "ticked s s' \<longleftrightarrow> uuids s \<le> uuids s' \<and> (\<exists>n. auditTabs s' = (atick ^^ n) (auditTabs s))"

lemma grows_trans: "grows env s s1 \<Longrightarrow> grows env s1 s' \<Longrightarrow> grows env s s'"
  unfolding grows_def by (metis append.assoc)

lemma grows_refl: "grows env s s"
  unfolding grows_def by (metis append.right_neutral)

lemma atick_pow: "logTab ((atick ^^ n) a) = logTab a" "archTab ((atick ^^ n) a) = archTab a" "aticks ((atick ^^ n) a) = aticks a + n"
  by (induction n) auto

lemma grows_ticked:
  assumes "strict_mono (aclock (auditEnv env))" and "ticked s s'"
  shows "grows env s s'"
proof -
  obtain n where n: "auditTabs s' = (atick ^^ n) (auditTabs s)" using assms(2) by (auto simp: ticked_def)
  have "authNow env s \<le> authNow env s'"
    using assms(1) by (simp add: authNow_def anow_def n atick_pow strict_mono_less_eq)
  moreover have "represents (auditEnv env) (auditTabs s') es = represents (auditEnv env) (auditTabs s) es" for es
    by (simp add: represents_def rows_def n atick_pow)
  moreover have "drawn env s \<subseteq> drawn env s'" using assms(2) by (auto simp: ticked_def)
  ultimately have "auditRel env s es \<Longrightarrow> auditRel env s' es" for es
    unfolding auditRel_def by (meson order.trans order.strict_trans2)
  then show ?thesis unfolding grows_def by (metis append.right_neutral)
qed

lemma ticked_simps:
  "uuids s \<le> uuids s' \<Longrightarrow> auditTabs s' = auditTabs s \<Longrightarrow> ticked s s'"
  "uuids s \<le> uuids s' \<Longrightarrow> auditTabs s' = atick (auditTabs s) \<Longrightarrow> ticked s s'"
  "uuids s \<le> uuids s' \<Longrightarrow> auditTabs s' = atick (atick (auditTabs s)) \<Longrightarrow> ticked s s'"
  unfolding ticked_def
  by (auto intro: exI [of _ 0], auto intro: exI [of _ "Suc 0"], auto intro: exI [of _ "Suc (Suc 0)"])

lemma ticked_trans: "ticked s s1 \<Longrightarrow> ticked s1 s' \<Longrightarrow> ticked s s'"
  unfolding ticked_def by (metis funpow_add comp_apply order.trans)

definition logged ::
    "('u, 'w, 'n, 'r, 'k, 'l, 'h) authEnv \<Rightarrow> string \<Rightarrow> string \<Rightarrow> string option \<Rightarrow> jsValue option \<Rightarrow>
     ('u, 'w, 'n, 'r, 'k, 'l, 'h) auth \<Rightarrow> AuditLogEntry list \<Rightarrow> AuditLogEntry" where
  "logged env ty ac en md s es =
     nextEntry (auditEnv env) (authNow env s) (uuidOf env (uuids s)) ty ac en md es"

context auth_tables
begin

lemma auditRel_log:
  assumes "strict_mono (aclock (auditEnv env))" and "inj (uuidOf env)" and "auditRel env s es"
  shows "auditRel env (authLog env ty ac en md s) (es @ [logged env ty ac en md s es])"
proof -
  have "uuidOf env (uuids s) \<notin> drawn env s" using assms(2) by (rule not_drawn) simp
  then have "uuidOf env (uuids s) \<notin> a_id ` set es" using assms(3) by (auto simp: auditRel_def)
  then have "represents (auditEnv env) (auditTabs (authLog env ty ac en md s)) (es @ [logged env ty ac en md s es])"
    using assms(3) Au.logAction_represents [of "auditTabs s" es "uuidOf env (uuids s)"]
    by (simp add: authLog_def newUuid_def auditRel_def logged_def authNow_def)
  moreover have "authNow env s < authNow env (authLog env ty ac en md s)"
    using assms(1) by (simp add: authNow_def anow_def authLog_def newUuid_def logAction_def Let_def strict_mono_less)
  ultimately show ?thesis using assms(3)
    by (auto simp: auditRel_def logged_def lessThan_Suc intro: less_trans)
qed

lemma grows_log:
  "strict_mono (aclock (auditEnv env)) \<Longrightarrow> inj (uuidOf env) \<Longrightarrow> grows env s (authLog env ty ac en md s)"
  unfolding grows_def using auditRel_log by blast

lemma ticked_ops:
  "ticked s (snd (generateNonce env pk s))" "ticked s (snd (loginChecks env dto s))"
  "ticked s (markNonceUsed env n s)" "ticked s (updateLastUsed env pk s)" "ticked s (logout env user s)"
  "ticked s (cleanupExpiredNonces env s)" "ticked s (snd (unbindWallet env pk uid s))"
  "ticked s (snd (bindWalletToUser env pk uid prim s))" "ticked s (snd (createApiToken env uid name role days s))"
  "ticked s (snd (revokeApiToken env i uid s))" "ticked s (authTick s)"
  unfolding generateNonce_def loginChecks_def validateNonce_def markNonceUsed_def updateLastUsed_def logout_def
    revokeAllUserRefreshTokens_def cleanupExpiredNonces_def unbindWallet_def bindWalletToUser_def createApiToken_def
    revokeApiToken_def newUuid_def Let_def authTick_def
  by (auto intro: ticked_simps split: option.split)

lemma ticked_match: "ticked s (snd (matchToken env tok ts s))"
  by (induction ts) (auto simp: Let_def authTick_def intro: ticked_simps split: option.split)

lemma ticked_apiGuard: "ticked s (snd (apiTokenGuard env h s))"
  using ticked_match [of s "the (extractTokenFromHeader h)" "rFind (apiRepo env) (\<lambda>t. \<not> k_revoked t) (apiTab s)"]
  by (auto simp: apiTokenGuard_def validateApiToken_def intro: ticked_simps split: prod.split sum.split)

lemma ticked_create: "ticked s (snd (createUserWithWallet env pk s))"
proof -
  obtain u where u: "snd (createUserWithWallet env pk s) = snd (bindWalletToUser env pk (u_id u) True
    (s\<lparr>uuids := Suc (uuids s), userTab := rSave (userRepo env) u (userTab s)\<rparr>))" (is "_ = snd (bindWalletToUser env pk _ True ?s)")
    by (rule createUserWithWallet_bind)
  have "ticked s ?s" by (rule ticked_simps(1)) simp_all
  then show ?thesis unfolding u using ticked_ops(8) by (rule ticked_trans)
qed

end

text \<open>The services that write the log: a tick and an entry.\<close>

lemma generateRefreshToken_log:
  obtains s1 d i where "snd (generateRefreshToken env u s) =
      authLog env ''REFRESH_TOKEN_CREATED'' u (Some i) (Some (VObj [(''expiresAt'', VDate d)])) s1" and "ticked s s1"
proof (rule that)
  let ?s1 = "(authTick s)\<lparr>uuids := uuids s + 2, refreshTab := rSave (refreshRepo env)
      \<lparr>t_id = uuidOf env (Suc (uuids s)), t_token = uuidOf env (uuids s), t_userId = u,
       t_expiresAt = authNow env s + 7 * 86400000, t_revoked = False, t_revokedAt = None,
       t_createdAt = authNow env (authTick s)\<rparr> (refreshTab s)\<rparr>"
  show "snd (generateRefreshToken env u s) = authLog env ''REFRESH_TOKEN_CREATED'' u (Some (uuidOf env (Suc (uuids s))))
      (Some (VObj [(''expiresAt'', VDate (authNow env s + 7 * 86400000))])) ?s1"
    by (simp add: generateRefreshToken_def newUuid_def authTick_def authNow_def anow_def Let_def)
  show "ticked s ?s1" by (rule ticked_simps(2)) (simp_all add: authTick_def)
qed

lemma revokeRefreshToken_log:
  obtains s1 where "revokeRefreshToken env i s = authLog env ''REFRESH_TOKEN_REVOKED'' i (Some i) None s1" and "ticked s s1"
  by (rule that [OF revokeRefreshToken_def [unfolded Let_def]]) (auto simp: authTick_def intro: ticked_simps(2))

context auth_tables
begin

lemma grows_refresh:
  assumes "strict_mono (aclock (auditEnv env))" and "inj (uuidOf env)"
  shows "grows env s (snd (refreshAccessToken env token s))"
proof -
  have g: "grows env s (snd (generateRefreshToken env u s))" for u s
  proof -
    obtain s1 d i where e: "snd (generateRefreshToken env u s) =
        authLog env ''REFRESH_TOKEN_CREATED'' u (Some i) (Some (VObj [(''expiresAt'', VDate d)])) s1" and t: "ticked s s1"
      by (rule generateRefreshToken_log)
    show ?thesis unfolding e by (rule grows_trans [OF grows_ticked [OF assms(1) t] grows_log [OF assms]])
  qed
  have r: "grows env s (revokeRefreshToken env i s)" for i s
  proof -
    obtain s1 where e: "revokeRefreshToken env i s = authLog env ''REFRESH_TOKEN_REVOKED'' i (Some i) None s1" and t: "ticked s s1"
      by (rule revokeRefreshToken_log)
    show ?thesis unfolding e by (rule grows_trans [OF grows_ticked [OF assms(1) t] grows_log [OF assms]])
  qed
  have t: "grows env s (authTick s)" by (rule grows_ticked [OF assms(1) ticked_ops(11)])
  have "grows env s (authLog env ty ac en md (snd (generateRefreshToken env u (revokeRefreshToken env i (authTick s)))))"
    for ty ac en md u i by (rule grows_trans [OF t grows_trans [OF r grows_trans [OF g grows_log [OF assms]]]])
  then show ?thesis using t grows_refl
    by (auto simp: refreshAccessToken_def case_token Let_def split: option.split)
qed

lemma grows_findOrCreate:
  assumes "strict_mono (aclock (auditEnv env))" and "inj (uuidOf env)"
  shows "grows env s (snd (findOrCreateUser env pk s))"
proof -
  have "grows env s (snd (createUserWithWallet env pk s))" by (rule grows_ticked [OF assms(1) ticked_create])
  moreover from this have "grows env s (authLog env ty ac en md (snd (createUserWithWallet env pk s)))" for ty ac en md
    using grows_log [OF assms] by (rule grows_trans)
  ultimately show ?thesis using grows_refl
    by (auto simp: findOrCreateUser_def split: option.split prod.split sum.split)
qed

text \<open>A login that succeeds ends with the entry of the refresh token; any login only extends the log.\<close>

lemma walletLogin_log:
  assumes "strict_mono (aclock (auditEnv env))" and "inj (uuidOf env)"
  shows "grows env s (snd (walletLogin env dto s))"
    and "walletLogin env dto s = (Inr r, s') \<Longrightarrow> \<exists>s1 ac i d. grows env s s1 \<and>
      s' = authLog env ''REFRESH_TOKEN_CREATED'' ac (Some i) (Some (VObj [(''expiresAt'', VDate d)])) s1"
proof -
  obtain c s1 where c: "loginChecks env dto s = (c, s1)" by (cases "loginChecks env dto s")
  have s1: "grows env s s1" using grows_ticked [OF assms(1) ticked_ops(2) [of s dto]] c by simp
  let ?m = "markNonceUsed env (d_nonce dto) s1"
  obtain q s2 where f: "findOrCreateUser env (d_publicKey dto) ?m = (q, s2)"
    by (cases "findOrCreateUser env (d_publicKey dto) ?m")
  have "grows env s1 ?m" by (rule grows_ticked [OF assms(1) ticked_ops(3)])
  then have s2: "grows env s s2"
    using grows_findOrCreate [OF assms, of ?m "d_publicKey dto"] f s1 by (metis grows_trans snd_conv)
  let ?s3 = "updateLastUsed env (d_publicKey dto) s2"
  have s3: "grows env s ?s3" by (rule grows_trans [OF s2 grows_ticked [OF assms(1) ticked_ops(4)]])
  have s4: "\<exists>s1 ac i d. grows env s s1 \<and> snd (generateRefreshToken env u ?s3) =
      authLog env ''REFRESH_TOKEN_CREATED'' ac (Some i) (Some (VObj [(''expiresAt'', VDate d)])) s1" for u
  proof -
    obtain y d i where e: "snd (generateRefreshToken env u ?s3) =
        authLog env ''REFRESH_TOKEN_CREATED'' u (Some i) (Some (VObj [(''expiresAt'', VDate d)])) y" and t: "ticked ?s3 y"
      by (rule generateRefreshToken_log)
    have "grows env s y" by (rule grows_trans [OF s3 grows_ticked [OF assms(1) t]])
    with e show ?thesis by blast
  qed
  have s5: "grows env s (snd (generateRefreshToken env u ?s3))" for u
  proof -
    from s4 [of u] obtain y ac i d where g: "grows env s y" and e: "snd (generateRefreshToken env u ?s3) =
        authLog env ''REFRESH_TOKEN_CREATED'' ac (Some i) (Some (VObj [(''expiresAt'', VDate d)])) y" by blast
    show ?thesis unfolding e by (rule grows_trans [OF g grows_log [OF assms]])
  qed
  show "grows env s (snd (walletLogin env dto s))" using c f s1 s2 s5
    by (cases c; cases q) (simp_all add: walletLogin_def loginCommit_def Let_def case_token)
  show "\<exists>s1 ac i d. grows env s s1 \<and>
      s' = authLog env ''REFRESH_TOKEN_CREATED'' ac (Some i) (Some (VObj [(''expiresAt'', VDate d)])) s1"
    if "walletLogin env dto s = (Inr r, s')"
    using that c f s4 by (cases c; cases q) (auto simp: walletLogin_def loginCommit_def Let_def case_token)
qed

lemma grows_step:
  assumes "strict_mono (aclock (auditEnv env))" and "inj (uuidOf env)" and "auth_step env s s'"
  shows "grows env s s'"
  using assms(3)
proof cases
  case (bind user dto)
  obtain c s1 where c: "loginChecks env dto s = (c, s1)" by (cases "loginChecks env dto s")
  have s1: "grows env s s1" using grows_ticked [OF assms(1) ticked_ops(2) [of s dto]] c by simp
  have "grows env s1 (snd (bindWalletToUser env pk u p (markNonceUsed env n s1)))" for pk u p n
    by (rule grows_ticked [OF assms(1) ticked_trans [OF ticked_ops(3) ticked_ops(8)]])
  with bind c s1 show ?thesis by (cases c) (auto simp: bindWallet_def intro: grows_trans)
qed (auto simp: handler_defs grows_refresh [OF assms(1,2)] walletLogin_log(1) [OF assms(1,2)]
  intro!: grows_ticked [OF assms(1)] ticked_ops ticked_apiGuard)

lemma grows_steps:
  assumes "strict_mono (aclock (auditEnv env))" and "inj (uuidOf env)" and "(auth_step env)\<^sup>*\<^sup>* s s'"
  shows "grows env s s'"
  using assms(3) by (induction rule: rtranclp_induct) (auto intro: grows_refl grows_trans grows_step [OF assms(1,2)])

lemma auditRel_verify:
  "auditRel env s es \<Longrightarrow> getOrderedEntries (auditEnv env) (auditTabs s) = es"
  by (auto simp: auditRel_def Au.ordered_represents)

end

section \<open>A login breaks the audit chain\<close>

text \<open>
  The refresh token of a login is logged with its expiry as a date. The signature is computed over
  the date object, which \<open>sortObject\<close> turns into an empty object; the database gives the date back as a
  string.
\<close>

lemma signature_of_date:
  "computeSignature env (e\<lparr>a_metadata := Some (VObj [(k, VDate d)])\<rparr>) =
   computeSignature env (e\<lparr>a_metadata := Some (VObj [(k, VObj [])])\<rparr>)"
  by (simp add: computeSignature_def signedText_def)

lemma login_entry:
  assumes "auth_tables env" and "inj (uuidOf env)" and "strict_mono (aclock (auditEnv env))"
    and "emptyAudit (auditEnv env) (auditTabs s0)" and "(auth_step env)\<^sup>*\<^sup>* s0 s"
    and "walletLogin env dto s = (Inr r, s')"
  obtains es n d where "auditRel env s' (es @ [n])" and "last (getOrderedEntries (auditEnv env) (auditTabs s')) = n"
    and "a_metadata n = Some (VObj [(''expiresAt'', VStr (toISOString d))])"
    and "computeSignature (auditEnv env) (n\<lparr>a_metadata := Some (VObj [(''expiresAt'', VObj [])])\<rparr>) \<noteq>
           computeSignature (auditEnv env) n \<Longrightarrow> chainFailures (auditEnv env) [] (es @ [n]) \<noteq> []"
proof -
  have "auditRel env s0 []" using emptyAudit_represents [OF assms(4)] by (simp add: auditRel_def)
  with auth_tables.grows_steps [OF assms(1,3,2,5)] obtain es where es: "auditRel env s es" by (auto simp: grows_def)
  obtain s1 ac i d where g: "grows env s s1"
    and s': "s' = authLog env ''REFRESH_TOKEN_CREATED'' ac (Some i) (Some (VObj [(''expiresAt'', VDate d)])) s1"
    using auth_tables.walletLogin_log(2) [OF assms(1,3,2,6)] by blast
  from g es obtain more where m: "auditRel env s1 (es @ more)" by (auto simp: grows_def)
  let ?md = "Some (VObj [(''expiresAt'', VDate d)])"
  define n where "n = logged env ''REFRESH_TOKEN_CREATED'' ac (Some i) ?md s1 (es @ more)"
  have rel: "auditRel env s' ((es @ more) @ [n])"
    unfolding s' n_def by (rule auth_tables.auditRel_log [OF assms(1,3,2) m])
  have bad: "chainFailures (auditEnv env) [] ((es @ more) @ [n]) \<noteq> []"
    if "computeSignature (auditEnv env) (n\<lparr>a_metadata := Some (VObj [(''expiresAt'', VObj [])])\<rparr>) \<noteq>
        computeSignature (auditEnv env) n"
  proof -
    have "computeSignature (auditEnv env) (n\<lparr>a_metadata := ?md\<rparr>) \<noteq> computeSignature (auditEnv env) n"
      using that by (simp only: signature_of_date not_False_eq_True)
    then show ?thesis unfolding n_def logged_def by (rule nextEntry_fails)
  qed
  have "a_metadata n = Some (VObj [(''expiresAt'', VStr (toISOString d))])"
    by (simp add: n_def logged_def nextEntry_def Let_def)
  then show ?thesis using that [OF rel _ _ bad] auth_tables.auditRel_verify [OF assms(1) rel] by simp
qed

text \<open>
  C22. Every login breaks the audit log. From the first successful login on, the verification of the
  audit log reports it as invalid, after whatever happens later, although nobody has touched the
  tables: the entry of the refresh token carries its expiry as a date, and the signature that is
  computed for a date object is not the signature of the string that is read back. (The two signed
  texts are assumed not to collide under the HMAC.)
\<close>

theorem login_breaks_audit:
  assumes "auth_tables env" and "inj (uuidOf env)" and "strict_mono (aclock (auditEnv env))"
    and "emptyAudit (auditEnv env) (auditTabs s0)" and "(auth_step env)\<^sup>*\<^sup>* s0 s"
    and "walletLogin env dto s = (Inr r, s')" and "(auth_step env)\<^sup>*\<^sup>* s' s''"
    and "e = last (getOrderedEntries (auditEnv env) (auditTabs s'))"
    and "computeSignature (auditEnv env) (e\<lparr>a_metadata := Some (VObj [(''expiresAt'', VObj [])])\<rparr>) \<noteq>
         computeSignature (auditEnv env) e"
  shows "\<not> v_valid (verifyAuditChain (auditEnv env) (auditTabs s''))"
proof -
  obtain es n where rel: "auditRel env s' (es @ [n])" and "last (getOrderedEntries (auditEnv env) (auditTabs s')) = n"
    and bad: "computeSignature (auditEnv env) (n\<lparr>a_metadata := Some (VObj [(''expiresAt'', VObj [])])\<rparr>) \<noteq>
           computeSignature (auditEnv env) n \<Longrightarrow> chainFailures (auditEnv env) [] (es @ [n]) \<noteq> []"
    by (rule login_entry [OF assms(1-6)]) blast
  then have "chainFailures (auditEnv env) [] (es @ [n]) \<noteq> []" using assms(8,9) by metis
  then have broken: "chainFailures (auditEnv env) [] ((es @ [n]) @ later) \<noteq> []" for later by (rule chainFailures_prefix)
  from auth_tables.grows_steps [OF assms(1,3,2,7)] rel obtain later where
    l: "auditRel env s'' ((es @ [n]) @ later)" unfolding grows_def by blast
  show ?thesis
    using broken [of later] auth_tables.auditRel_verify [OF assms(1) l] by (simp add: verifyAuditChain_def Let_def)
qed

theorem login_breaks_audit_witness:
  "\<not> v_valid (verifyAuditChain (auditEnv memAuthEnv) (auditTabs (snd (walletLogin memAuthEnv sampleLogin sampleAuth))))"
proof -
  obtain r s where l: "walletLogin memAuthEnv sampleLogin sampleAuth = (Inr r, s)" using sampleLogin_ok by blast
  have mono: "strict_mono (aclock (auditEnv memAuthEnv))" by (simp add: memAuthEnv_def memAenv_def strict_mono_def)
  have e: "emptyAudit (auditEnv memAuthEnv) (auditTabs memAuth)" using memAudit_empty by (simp add: memAuthEnv_def memAuth_def)
  have run: "(auth_step memAuthEnv)\<^sup>*\<^sup>* memAuth sampleAuth" by (blast intro: auth_step.nonce)
  obtain n d where n: "last (getOrderedEntries (auditEnv memAuthEnv) (auditTabs s)) = n"
    "a_metadata n = Some (VObj [(''expiresAt'', VStr (toISOString d))])"
    by (rule login_entry [OF memAuth_tables mem_uuids_inj mono e run l]) blast
  have "signedText (n\<lparr>a_metadata := Some (VObj [(''expiresAt'', VObj [])])\<rparr>) \<noteq> signedText n"
    by (simp add: signedText_def n(2))
  then have "computeSignature (auditEnv memAuthEnv) (n\<lparr>a_metadata := Some (VObj [(''expiresAt'', VObj [])])\<rparr>) \<noteq>
      computeSignature (auditEnv memAuthEnv) n"
    by (simp add: computeSignature_def memAuthEnv_def memAenv_def stringify_inj)
  from login_breaks_audit [OF memAuth_tables mem_uuids_inj mono e run l rtranclp.rtrancl_refl n(1) [symmetric] this] l
  show ?thesis by simp
qed

section \<open>API tokens\<close>

text \<open>What a matching token gives, apart from the state.\<close>

definition tokenVerdict ::
    "('u, 'w, 'n, 'r, 'k, 'l, 'h) authEnv \<Rightarrow> ApiToken \<Rightarrow> ('u, 'w, 'n, 'r, 'k, 'l, 'h) auth \<Rightarrow> js_error + (string \<times> string \<times> string)" where
  "tokenVerdict env t s =
     (if (case k_expiresAt t of None \<Rightarrow> False | Some d \<Rightarrow> d < authNow env s) then Inl (UnauthorizedException ''API token expired'')
      else case userById env (k_userId t) s of
             None \<Rightarrow> Inl noUserError
           | Some u \<Rightarrow> if u_isActive u then Inr (k_userId t, k_role t, k_id t) else Inl inactiveError)"

lemma matchToken_unique:
  "t \<in> set ts \<Longrightarrow> bcryptCompare env tok (k_token t) \<Longrightarrow> (\<And>u. u \<in> set ts \<Longrightarrow> bcryptCompare env tok (k_token u) \<Longrightarrow> u = t) \<Longrightarrow>
     fst (matchToken env tok ts s) = tokenVerdict env t s"
proof (induction ts)
  case (Cons u ts)
  show ?case
  proof (cases "bcryptCompare env tok (k_token u)")
    case True
    with Cons.prems(3) [of u] have "u = t" by simp
    with True show ?thesis by (simp add: tokenVerdict_def Let_def split: option.split)
  next
    case False
    then have "u \<noteq> t" using Cons.prems(2) by blast
    then have "t \<in> set ts" using Cons.prems(1) by simp
    moreover have "v = t" if "v \<in> set ts" "bcryptCompare env tok (k_token v)" for v
      using that by (intro Cons.prems(3)) simp_all
    ultimately have "fst (matchToken env tok ts s) = tokenVerdict env t s"
      using Cons.prems(2) by (intro Cons.IH)
    with False show ?thesis by simp
  qed
qed simp

lemma matchToken_none:
  "(\<And>u. u \<in> set ts \<Longrightarrow> \<not> bcryptCompare env tok (k_token u)) \<Longrightarrow>
     fst (matchToken env tok ts s) = Inl (UnauthorizedException ''Invalid API token'')"
  by (induction ts) auto

abbreviation getK :: "('u, 'w, 'n, 'r, 'k, 'l, 'h) authEnv \<Rightarrow> ('u, 'w, 'n, 'r, 'k, 'l, 'h) auth \<Rightarrow> string \<Rightarrow> ApiToken option" where
  "getK env s i \<equiv> rGet (apiRepo env) k_id i (apiTab s)"

context auth_tables
begin

lemma createApiToken_row:
  assumes "createApiToken env uid name role days s = ((tok, i, e), s')"
  obtains t x where "\<And>j. getK env s' j = (if j = i then Some t else getK env s j)" and "k_id t = i" "k_userId t = uid"
    "k_role t = role" "k_expiresAt t = e" "\<not> k_revoked t" "k_token t = bcryptHash env tok x" "userTab s' = userTab s"
  using assms by (intro that) (auto simp: createApiToken_def newUuid_def Let_def K.get_save)

lemma active_rows:
  "u \<in> set (rFind (apiRepo env) (\<lambda>t. \<not> k_revoked t) (apiTab s)) \<longleftrightarrow> getK env s (k_id u) = Some u \<and> \<not> k_revoked u"
  by (rule K.find_iff)

lemma api_token_lifecycle:
  assumes "createApiToken env uid name role days s = ((tok, i, Some e), s')"
    and hash: "\<And>x. bcryptCompare env tok (bcryptHash env tok x)"
    and other: "\<And>j t. getK env s j = Some t \<Longrightarrow> \<not> bcryptCompare env tok (k_token t)"
    and "getU env s uid = Some u" and "u_isActive u"
  shows "fst (validateApiToken env tok s') =
      (if e < authNow env s' then Inl (UnauthorizedException ''API token expired'') else Inr (uid, role, i))"
    and "revokeApiToken env i uid s' = (Inr (), snd (revokeApiToken env i uid s'))"
    and "fst (validateApiToken env tok (snd (revokeApiToken env i uid s'))) = Inl (UnauthorizedException ''Invalid API token'')"
proof -
  obtain t x where row: "\<And>j. getK env s' j = (if j = i then Some t else getK env s j)" and t: "k_id t = i" "k_userId t = uid"
    "k_role t = role" "k_expiresAt t = Some e" "\<not> k_revoked t" "k_token t = bcryptHash env tok x" and u: "userTab s' = userTab s"
    by (rule createApiToken_row [OF assms(1)]) blast
  have only: "v = t" if "getK env s' j = Some v" "bcryptCompare env tok (k_token v)" for j v
    using that other by (auto simp: row split: if_splits)
  have "t \<in> set (rFind (apiRepo env) (\<lambda>t. \<not> k_revoked t) (apiTab s'))" by (simp only: active_rows row t simp_thms if_True)
  then have "fst (validateApiToken env tok s') = tokenVerdict env t s'"
    unfolding validateApiToken_def using hash t(6) only active_rows by (intro matchToken_unique) metis+
  then show "fst (validateApiToken env tok s') =
      (if e < authNow env s' then Inl (UnauthorizedException ''API token expired'') else Inr (uid, role, i))"
    using t(1-4) assms(4,5) u by (simp add: tokenVerdict_def userById_getU)
  obtain v where "rFindOne (apiRepo env) (\<lambda>t. k_id t = i \<and> k_userId t = uid) (apiTab s') = Some v"
    by (rule K.findOne_exists [of i "apiTab s'" t "\<lambda>t. k_id t = i \<and> k_userId t = uid"]) (simp_all add: row t)
  then have r: "revokeApiToken env i uid s' = (Inr (), s'\<lparr>apiTab := rUpdate (apiRepo env) (\<lambda>t. k_id t = i)
      (k_revoked_update (\<lambda>_. True)) (apiTab s')\<rparr>)" by (simp add: revokeApiToken_def)
  then show "revokeApiToken env i uid s' = (Inr (), snd (revokeApiToken env i uid s'))" by simp
  have get: "getK env (snd (revokeApiToken env i uid s')) j =
      map_option (\<lambda>t. if k_id t = i then t\<lparr>k_revoked := True\<rparr> else t) (getK env s' j)" for j
    by (simp add: r K.get_update)
  have "\<not> bcryptCompare env tok (k_token v)"
    if v: "v \<in> set (rFind (apiRepo env) (\<lambda>t. \<not> k_revoked t) (apiTab (snd (revokeApiToken env i uid s'))))" for v
  proof
    assume c: "bcryptCompare env tok (k_token v)"
    have "getK env (snd (revokeApiToken env i uid s')) (k_id v) = Some v" "\<not> k_revoked v" using v active_rows by blast+
    then obtain w where w: "getK env s' (k_id v) = Some w" "v = (if k_id w = i then w\<lparr>k_revoked := True\<rparr> else w)"
      by (auto simp only: get map_option_eq_Some)
    then have "w = t" using c only [of "k_id v" w] by (auto split: if_splits)
    with w t(1) \<open>\<not> k_revoked v\<close> show False by simp
  qed
  then show "fst (validateApiToken env tok (snd (revokeApiToken env i uid s'))) = Inl (UnauthorizedException ''Invalid API token'')"
    unfolding validateApiToken_def by (rule matchToken_none)
qed

end


definition sampleUser :: User where
  "sampleUser = \<lparr>u_id = ''u'', u_email = None, u_username = None, u_createdAt = 0, u_updatedAt = 0, u_isActive = True\<rparr>"


section \<open>The audit endpoints\<close>

text \<open>
  Nobody reaches the audit endpoints. The global roles guard runs before a user is known, so
  the route refuses every request that the throttle lets pass; and the guards of the controller would refuse it
  too, since the user that the JWT guard loads has no role.
\<close>

theorem audit_route_forbidden:
  "auditVerifyRoute env throttled authorization s =
     (case throttled of Inl e \<Rightarrow> Inl e | Inr _ \<Rightarrow> Inl (ForbiddenException ''User role not found'')) \<and>
   (jwtAuthGuard env authorization s = Inr user \<longrightarrow>
      rolesGuard (Some [ADMIN]) (Some user) = Inl (ForbiddenException ''User role not found''))"
  by (auto simp: auditVerifyRoute_def rolesGuard_def strTruthy_def jwtAuthGuard_def split: sum.split option.splits sum.splits)

theorem audit_route_forbidden_witness:
  "jwtAuthGuard memAuthEnv (Some ''Bearer u'') (memAuth\<lparr>userTab := [sampleUser]\<rparr>) = Inr (UserEntity sampleUser) \<and>
   rolesGuard (Some [ADMIN]) (Some (UserEntity sampleUser)) = Inl (ForbiddenException ''User role not found'')"
proof -
  have "jwtAuthGuard memAuthEnv (Some ''Bearer u'') (memAuth\<lparr>userTab := [sampleUser]\<rparr>) = Inr (UserEntity sampleUser)"
    by (simp add: jwtAuthGuard_def extractTokenFromHeader_def strTruthy_def memAuthEnv_def jwtStrategyValidate_def memAuth_def
        memFindOne_def memFind_def sampleUser_def)
  with audit_route_forbidden [of memAuthEnv "Inr True" "Some ''Bearer u''" "memAuth\<lparr>userTab := [sampleUser]\<rparr>" "UserEntity sampleUser"]
  show ?thesis by blast
qed

end
