(* ===== verification/RateLimit.thy ===== *)
theory RateLimit
  imports Json_Injective Redis "HOL-Library.AList"
begin

text \<open>
  The sliding-window rate limit of the auth routes (\<^verbatim>\<open>auth/services/rate-limit.service.ts\<close>,
  \<^verbatim>\<open>auth/guards/rate-limit.guard.ts\<close>), kept in a Redis sorted set per key. Redis is a parameter: a call
  returns nothing when the client throws, and \<open>zlook r t k\<close> is the content of the set \<open>k\<close> as read at time
  \<open>t\<close> when nothing else happens, so that expiry shows. The theorems give the bound that the limit
  keeps, and the requests that escape it.
\<close>

section \<open>Sorted sets\<close>

record 'r zredis =
  zRemRangeByScore :: "string \<Rightarrow> int \<Rightarrow> int \<Rightarrow> date \<Rightarrow> 'r \<Rightarrow> 'r option"
  zCard :: "string \<Rightarrow> date \<Rightarrow> 'r \<Rightarrow> nat option"
  zFirst :: "string \<Rightarrow> date \<Rightarrow> 'r \<Rightarrow> string list option"
  zAdd :: "string \<Rightarrow> int \<Rightarrow> string \<Rightarrow> date \<Rightarrow> 'r \<Rightarrow> 'r option"
  zExpire :: "string \<Rightarrow> nat \<Rightarrow> date \<Rightarrow> 'r \<Rightarrow> 'r option"
  zDel :: "string \<Rightarrow> date \<Rightarrow> 'r \<Rightarrow> 'r option"

locale sorted_sets =
  fixes Z :: "'r zredis" and zlook :: "'r \<Rightarrow> date \<Rightarrow> string \<Rightarrow> (string \<rightharpoonup> int)"
  assumes rem_look: "zRemRangeByScore Z k lo hi now r = Some r' \<Longrightarrow> now \<le> t \<Longrightarrow>
          zlook r' t k = (\<lambda>m. case zlook r t k m of None \<Rightarrow> None | Some s \<Rightarrow> if lo \<le> s \<and> s \<le> hi then None else Some s)"
    and card_look: "zCard Z k now r = Some c \<Longrightarrow> c = card (dom (zlook r now k))"
    and add_look: "zAdd Z k s m now r = Some r' \<Longrightarrow> zlook r' now k = (zlook r now k)(m \<mapsto> s)"
    and expire_look: "zExpire Z k n now r = Some r' \<Longrightarrow> now \<le> t \<Longrightarrow>
          zlook r' t k = (if t < now + int n * 1000 then zlook r now k else Map.empty)"
    and del_look: "zDel Z k now r = Some r' \<Longrightarrow> now \<le> t \<Longrightarrow> zlook r' t k = Map.empty"

definition available :: "'r zredis \<Rightarrow> bool" where
  "available Z \<longleftrightarrow> (\<forall>k lo hi now r. zRemRangeByScore Z k lo hi now r \<noteq> None) \<and> (\<forall>k now r. zCard Z k now r \<noteq> None) \<and>
     (\<forall>k now r. zFirst Z k now r \<noteq> None) \<and> (\<forall>k s m now r. zAdd Z k s m now r \<noteq> None) \<and>
     (\<forall>k n now r. zExpire Z k n now r \<noteq> None)"

lemma availableD:
  assumes "available Z"
  shows "\<exists>r'. zRemRangeByScore Z k lo hi now r = Some r'" "\<exists>c. zCard Z k now r = Some c"
    "\<exists>ms. zFirst Z k now r = Some ms" "\<exists>r'. zAdd Z k s m now r = Some r'" "\<exists>r'. zExpire Z k n now r = Some r'"
  using assms by (simp_all add: available_def)

section \<open>Service\<close>

record rateVerdict =
  rv_allowed :: bool
  rv_remaining :: int
  rv_resetAt :: date

definition failOpen :: "nat \<Rightarrow> nat \<Rightarrow> date \<Rightarrow> rateVerdict" where
  "failOpen limit windowSeconds now =
     \<lparr>rv_allowed = True, rv_remaining = int limit, rv_resetAt = now + int windowSeconds * 1000\<rparr>"

definition rateKey :: "string \<Rightarrow> string" where
  "rateKey key = ''rate_limit:'' @ key"

definition checkRateLimit ::
    "'r zredis \<Rightarrow> string \<Rightarrow> nat \<Rightarrow> nat \<Rightarrow> date \<Rightarrow> 'r \<Rightarrow> rateVerdict \<times> 'r" where
  "checkRateLimit Z key limit windowSeconds now r =
     (let redisKey = rateKey key;
          windowStart = now - int windowSeconds * 1000;
          fail = failOpen limit windowSeconds now
      in case zRemRangeByScore Z redisKey 0 windowStart now r of
           None \<Rightarrow> (fail, r)
         | Some r1 \<Rightarrow>
             (case zCard Z redisKey now r1 of
                None \<Rightarrow> (fail, r1)
              | Some requestCount \<Rightarrow>
                  if limit \<le> requestCount
                  then (case zFirst Z redisKey now r1 of
                          None \<Rightarrow> (fail, r1)
                        | Some oldestEntry \<Rightarrow>
                            let resetTime = (case oldestEntry of
                                  [] \<Rightarrow> now + int windowSeconds * 1000
                                | m # _ \<Rightarrow> int (parseInt10 m) + int windowSeconds * 1000)
                            in (\<lparr>rv_allowed = False, rv_remaining = 0, rv_resetAt = resetTime\<rparr>, r1))
                  else (case zAdd Z redisKey now (showInt now) now r1 of
                          None \<Rightarrow> (fail, r1)
                        | Some r2 \<Rightarrow>
                            (case zExpire Z redisKey windowSeconds now r2 of
                               None \<Rightarrow> (fail, r2)
                             | Some r3 \<Rightarrow>
                                 (\<lparr>rv_allowed = True, rv_remaining = int limit - int requestCount - 1,
                                   rv_resetAt = now + int windowSeconds * 1000\<rparr>, r3)))))"

definition resetRateLimit :: "'r zredis \<Rightarrow> string \<Rightarrow> date \<Rightarrow> 'r \<Rightarrow> 'r" where
  "resetRateLimit Z key now r =
     (case zDel Z (rateKey key) now r of None \<Rightarrow> r | Some r' \<Rightarrow> r')"

definition generateKeyForIp :: "string \<Rightarrow> string \<Rightarrow> string" where
  "generateKeyForIp ip endpoint = ''ip:'' @ ip @ '':'' @ endpoint"

definition generateKeyForUser :: "string \<Rightarrow> string \<Rightarrow> string" where
  "generateKeyForUser userId endpoint = ''user:'' @ userId @ '':'' @ endpoint"

section \<open>Guard\<close>

record RateLimitOptions =
  ro_limit :: nat
  ro_windowSeconds :: nat
  ro_keyPrefix :: "string option"

definition rateLimitGuard ::
    "'r zredis \<Rightarrow> RateLimitOptions option \<Rightarrow> string \<Rightarrow> string option \<Rightarrow> string \<Rightarrow> date \<Rightarrow> 'r \<Rightarrow>
     (js_error + bool) \<times> (string \<times> string) list \<times> 'r" where
  "rateLimitGuard Z options handlerName ip remoteAddress now r =
     (case options of
        None \<Rightarrow> (Inr True, [], r)
      | Some opts \<Rightarrow>
          let key = generateKeyForIp (strOr ip remoteAddress) (strOr (ro_keyPrefix opts) handlerName)
          in case checkRateLimit Z key (ro_limit opts) (ro_windowSeconds opts) now r of
               (result, r1) \<Rightarrow>
                 let headers = [(''X-RateLimit-Limit'', showNat (ro_limit opts)),
                                (''X-RateLimit-Remaining'', showInt (rv_remaining result)),
                                (''X-RateLimit-Reset'', toISOString (rv_resetAt result))]
                 in (if rv_allowed result then Inr True else Inl (HttpException ''Too many requests'' 429), headers, r1))"

section \<open>The window\<close>

text \<open>The requests to one key, by their times; the result is the times of the requests let through.\<close>

fun rateRun :: "'r zredis \<Rightarrow> string \<Rightarrow> nat \<Rightarrow> nat \<Rightarrow> date list \<Rightarrow> 'r \<Rightarrow> date list \<times> 'r" where
  "rateRun Z key limit w [] r = ([], r)"
| "rateRun Z key limit w (t # ts) r =
     (case checkRateLimit Z key limit w t r of (v, r1) \<Rightarrow>
        case rateRun Z key limit w ts r1 of (as, r2) \<Rightarrow> (if rv_allowed v then t # as else as, r2))"

text \<open>
  The set holds requests that were let through, under their own time, and from \<open>lst\<close> on every one
  whose window has not passed.
\<close>

definition tracks :: "(date \<Rightarrow> string \<rightharpoonup> int) \<Rightarrow> nat \<Rightarrow> date \<Rightarrow> date set \<Rightarrow> bool" where
  "tracks C w lst A \<longleftrightarrow> (\<forall>a \<in> A. 0 \<le> a \<and> a \<le> lst) \<and>
     (\<forall>t \<ge> lst. (\<forall>m s. C t m = Some s \<longrightarrow> s \<in> A \<and> m = showInt s) \<and>
        (\<forall>a \<in> A. t - int w * 1000 < a \<longrightarrow> C t (showInt a) = Some a))"

definition inWindow :: "nat \<Rightarrow> date \<Rightarrow> date set \<Rightarrow> date set" where
  "inWindow w t A = {a \<in> A. t - int w * 1000 < a \<and> a \<le> t}"

lemma showInt_inj: "showInt m = showInt n \<longleftrightarrow> m = n"
  using showInt_prefix [of m "[]" n "[]"] by auto

context sorted_sets
begin

lemma tracks_card:
  assumes "tracks (\<lambda>t. zlook r t k) w lst A" and "lst < now" and "zRemRangeByScore Z k 0 (now - int w * 1000) now r = Some r1"
  shows "card (dom (zlook r1 now k)) = card (inWindow w now A)"
    and "tracks (\<lambda>t. zlook r1 t k) w now A"
    and "zlook r1 now k m = Some s \<longleftrightarrow> s \<in> inWindow w now A \<and> m = showInt s"
proof -
  note look = rem_look [OF assms(3)]
  have A: "\<And>a. a \<in> A \<Longrightarrow> 0 \<le> a \<and> a \<le> lst" using assms(1) by (simp add: tracks_def)
  have C: "\<And>t m s. lst \<le> t \<Longrightarrow> zlook r t k m = Some s \<Longrightarrow> s \<in> A \<and> m = showInt s"
    "\<And>t a. lst \<le> t \<Longrightarrow> a \<in> A \<Longrightarrow> t - int w * 1000 < a \<Longrightarrow> zlook r t k (showInt a) = Some a"
    using assms(1) by (simp_all add: tracks_def)
  show iff: "zlook r1 now k m = Some s \<longleftrightarrow> s \<in> inWindow w now A \<and> m = showInt s" for m s
  proof
    assume "zlook r1 now k m = Some s"
    then have "zlook r now k m = Some s \<and> \<not> (0 \<le> s \<and> s \<le> now - int w * 1000)"
      by (simp add: look split: option.splits if_splits)
    with C(1) [of now m s] A [of s] assms(2) show "s \<in> inWindow w now A \<and> m = showInt s" by (auto simp: inWindow_def)
  next
    assume "s \<in> inWindow w now A \<and> m = showInt s"
    with C(2) [of now s] assms(2) show "zlook r1 now k m = Some s" by (auto simp: inWindow_def look)
  qed
  have "dom (zlook r1 now k) = showInt ` inWindow w now A" using iff by (auto simp: dom_def)
  then show "card (dom (zlook r1 now k)) = card (inWindow w now A)"
    by (simp add: card_image inj_on_def showInt_inj)
  show "tracks (\<lambda>t. zlook r1 t k) w now A"
    unfolding tracks_def
  proof (intro conjI ballI allI impI)
    fix a assume "a \<in> A"
    with A [of a] assms(2) show "0 \<le> a" "a \<le> now" by auto
  next
    fix t m s assume "now \<le> t" "zlook r1 t k m = Some s"
    then have "zlook r t k m = Some s" by (simp add: look split: option.splits if_splits)
    with C(1) [of t m s] \<open>now \<le> t\<close> assms(2) show "s \<in> A" "m = showInt s" by auto
  next
    fix t a assume "now \<le> t" "a \<in> A" "t - int w * 1000 < a"
    with C(2) [of t a] assms(2) show "zlook r1 t k (showInt a) = Some a" by (simp add: look)
  qed
qed

lemma tracks_add:
  assumes "\<And>m s. zlook r1 now k m = Some s \<longleftrightarrow> s \<in> inWindow w now A \<and> m = showInt s"
    and "zAdd Z k now (showInt now) now r1 = Some r2" and "zExpire Z k w now r2 = Some r3"
    and "\<And>a. a \<in> A \<Longrightarrow> 0 \<le> a \<and> a \<le> now" and "0 \<le> now"
  shows "tracks (\<lambda>t. zlook r3 t k) w now (insert now A)"
proof -
  have look: "zlook r3 t k = (if t < now + int w * 1000 then (zlook r1 now k)(showInt now \<mapsto> now) else Map.empty)" if "now \<le> t" for t
    using expire_look [OF assms(3) that] add_look [OF assms(2)] by simp
  show ?thesis unfolding tracks_def
  proof (intro conjI ballI allI impI)
    fix a assume "a \<in> insert now A"
    with assms(4,5) show "0 \<le> a" "a \<le> now" by auto
  next
    fix t m s assume "now \<le> t" "zlook r3 t k m = Some s"
    then show "s \<in> insert now A" "m = showInt s"
      using assms(1) [of m s] by (auto simp: look inWindow_def split: if_splits)
  next
    fix t a assume t: "now \<le> t" and a: "a \<in> insert now A" "t - int w * 1000 < a"
    then have "a \<le> now" using assms(4) by auto
    with t a have "t < now + int w * 1000" "a = now \<or> a \<in> inWindow w now A" by (auto simp: inWindow_def)
    with t assms(1) [of "showInt a" a] show "zlook r3 t k (showInt a) = Some a" by (auto simp: look showInt_inj)
  qed
qed

lemma check_step:
  assumes "available Z" and "tracks (\<lambda>t. zlook r t (rateKey key)) w lst A" and "lst < now" and "0 \<le> now"
    and "checkRateLimit Z key limit w now r = (v, r')"
  shows "rv_allowed v \<longleftrightarrow> card (inWindow w now A) < limit"
    and "tracks (\<lambda>t. zlook r' t (rateKey key)) w now (if rv_allowed v then insert now A else A)"
proof -
  let ?k = "rateKey key"
  obtain r1 where r1: "zRemRangeByScore Z ?k 0 (now - int w * 1000) now r = Some r1" using availableD(1) [OF assms(1)] by metis
  note step = tracks_card [OF assms(2,3) r1]
  obtain c where "zCard Z ?k now r1 = Some c" using availableD(2) [OF assms(1)] by metis
  with card_look [OF this] step(1) have c: "zCard Z ?k now r1 = Some (card (inWindow w now A))" by simp
  obtain ms where ms: "zFirst Z ?k now r1 = Some ms" using availableD(3) [OF assms(1)] by metis
  obtain r2 where r2: "zAdd Z ?k now (showInt now) now r1 = Some r2" using availableD(4) [OF assms(1)] by metis
  obtain r3 where r3: "zExpire Z ?k w now r2 = Some r3" using availableD(5) [OF assms(1)] by metis
  have A: "0 \<le> a \<and> a \<le> now" if "a \<in> A" for a using assms(2,3) that by (auto simp: tracks_def)
  have res: "rv_allowed v = (card (inWindow w now A) < limit) \<and> r' = (if card (inWindow w now A) < limit then r3 else r1)"
    using assms(5) by (auto simp: checkRateLimit_def Let_def r1 c ms r2 r3 split: if_splits)
  then show "rv_allowed v \<longleftrightarrow> card (inWindow w now A) < limit" by simp
  show "tracks (\<lambda>t. zlook r' t ?k) w now (if rv_allowed v then insert now A else A)"
    using res step(2) tracks_add [OF step(3) r2 r3 A assms(4)] by simp
qed

lemma check_same_ms:
  assumes "available Z" and "2 \<le> limit"
    and "dom (zlook r t (rateKey key)) \<subseteq> {showInt t}"
    and "checkRateLimit Z key limit w t r = (v, r')"
  shows "rv_allowed v" and "dom (zlook r' t (rateKey key)) \<subseteq> {showInt t}"
proof -
  let ?k = "rateKey key"
  obtain r1 where r1: "zRemRangeByScore Z ?k 0 (t - int w * 1000) t r = Some r1" using availableD(1) [OF assms(1)] by metis
  have d1: "dom (zlook r1 t ?k) \<subseteq> {showInt t}"
    using assms(3) rem_look [OF r1, of t] by (auto simp: dom_def split: option.splits if_splits)
  obtain c where c: "zCard Z ?k t r1 = Some c" using availableD(2) [OF assms(1)] by metis
  have "c \<le> card {showInt t}" using card_look [OF c] card_mono [OF _ d1] by simp
  with assms(2) have "c < limit" by simp
  obtain r2 where r2: "zAdd Z ?k t (showInt t) t r1 = Some r2" using availableD(4) [OF assms(1)] by metis
  obtain r3 where r3: "zExpire Z ?k w t r2 = Some r3" using availableD(5) [OF assms(1)] by metis
  have v: "rv_allowed v \<and> r' = r3"
    using assms(4) \<open>c < limit\<close> by (auto simp: checkRateLimit_def Let_def r1 c r2 r3)
  then show "rv_allowed v" by simp
  show "dom (zlook r' t ?k) \<subseteq> {showInt t}"
    using v d1 add_look [OF r2] expire_look [OF r3, of t] by auto
qed

end

section \<open>Reference: a list of times\<close>

definition countIn :: "nat \<Rightarrow> date \<Rightarrow> date list \<Rightarrow> nat" where
  "countIn w t as = length (filter (\<lambda>a. t - int w * 1000 < a \<and> a \<le> t) as)"

fun windowRef :: "nat \<Rightarrow> nat \<Rightarrow> date list \<Rightarrow> date list \<Rightarrow> date list" where
  "windowRef limit w as [] = []"
| "windowRef limit w as (t # ts) =
     (if countIn w t as < limit then t # windowRef limit w (as @ [t]) ts else windowRef limit w as ts)"

lemma card_inWindow: "distinct as \<Longrightarrow> card (inWindow w t (set as)) = countIn w t as"
  by (simp add: inWindow_def countIn_def distinct_card [symmetric])

lemma countIn_snoc:
  assumes "\<forall>t. countIn w t as \<le> limit" and "\<forall>a \<in> set as. a < now" and "countIn w now as < limit"
  shows "\<forall>t. countIn w t (as @ [now]) \<le> limit"
proof
  fix t
  have "countIn w t as \<le> countIn w now as" if "now \<le> t"
  proof -
    let ?P = "\<lambda>s a. s - int w * 1000 < a \<and> a \<le> s"
    have "filter (?P t) as = filter (?P t) (filter (?P now) as)"
      using assms(2) that by (auto simp: filter_filter intro!: filter_cong)
    then have "countIn w t as = length (filter (?P t) (filter (?P now) as))" by (simp only: countIn_def)
    also have "\<dots> \<le> countIn w now as" unfolding countIn_def by (rule length_filter_le)
    finally show ?thesis .
  qed
  then have "now \<le> t \<Longrightarrow> countIn w t as < limit" using assms(3) by simp
  with assms(1) show "countIn w t (as @ [now]) \<le> limit" by (auto simp: countIn_def)
qed

lemma windowRef_bound:
  assumes "\<forall>t. countIn w t as \<le> limit" and "sorted_wrt (<) ts" and "\<forall>a \<in> set as. \<forall>t \<in> set ts. a < t"
  shows "\<forall>t. countIn w t (as @ windowRef limit w as ts) \<le> limit"
  using assms
proof (induction limit w as ts rule: windowRef.induct)
  case (2 limit w as now ts)
  show ?case
  proof (cases "countIn w now as < limit")
    case True
    with 2 countIn_snoc [of w as limit now] have "\<forall>t. countIn w t ((as @ [now]) @ windowRef limit w (as @ [now]) ts) \<le> limit"
      by auto
    with True show ?thesis by simp
  next
    case False
    with 2 show ?thesis by simp
  qed
qed simp

context sorted_sets
begin

lemma rateRun_ref:
  assumes "available Z" and "tracks (\<lambda>t. zlook r t (rateKey key)) w lst (set as)" and "distinct as"
    and "sorted_wrt (<) ts" and "\<forall>t \<in> set ts. lst < t \<and> 0 \<le> t"
  shows "fst (rateRun Z key limit w ts r) = windowRef limit w as ts"
  using assms(2-5)
proof (induction ts arbitrary: r as lst)
  case (Cons now ts)
  obtain v r1 where chk: "checkRateLimit Z key limit w now r = (v, r1)" by (cases "checkRateLimit Z key limit w now r")
  have "lst < now" "0 \<le> now" using Cons.prems by auto
  note step = check_step [OF assms(1) Cons.prems(1) this chk]
  have fresh: "now \<notin> set as" using Cons.prems(1) \<open>lst < now\<close> by (auto simp: tracks_def)
  have al: "rv_allowed v \<longleftrightarrow> countIn w now as < limit" using step(1) card_inWindow [OF Cons.prems(2)] by simp
  have tr: "tracks (\<lambda>t. zlook r1 t (rateKey key)) w now (set (if rv_allowed v then as @ [now] else as))"
    using step(2) by (cases "rv_allowed v") simp_all
  have "fst (rateRun Z key limit w ts r1) = windowRef limit w (if rv_allowed v then as @ [now] else as) ts"
    using Cons.IH [OF tr] Cons.prems fresh by (cases "rv_allowed v") simp_all
  with al chk show ?case by (simp add: case_prod_beta)
qed simp

lemma rateRun_same_ms:
  assumes "available Z" and "2 \<le> limit" and "dom (zlook r t (rateKey key)) \<subseteq> {showInt t}"
  shows "fst (rateRun Z key limit w (replicate n t) r) = replicate n t"
  using assms(3)
proof (induction n arbitrary: r)
  case (Suc n)
  obtain v r1 where chk: "checkRateLimit Z key limit w t r = (v, r1)" by (cases "checkRateLimit Z key limit w t r")
  from check_same_ms [OF assms(1,2) Suc.prems chk] Suc.IH [of r1] chk show ?case by (simp add: case_prod_beta)
qed simp

end

section \<open>Sorted sets in memory\<close>

type_synonym zstore = "string \<Rightarrow> (string \<times> int) list \<times> date option"

definition memSet :: "zstore \<Rightarrow> date \<Rightarrow> string \<Rightarrow> (string \<times> int) list" where
  "memSet r t k = (case r k of (al, None) \<Rightarrow> AList.clearjunk al | (al, Some e) \<Rightarrow> if t < e then AList.clearjunk al else [])"

definition memZ :: "zstore zredis" where
  "memZ = \<lparr>zRemRangeByScore = (\<lambda>k lo hi now r. Some (r(k := (filter (\<lambda>(m, s). \<not> (lo \<le> s \<and> s \<le> hi)) (memSet r now k), snd (r k))))),
           zCard = (\<lambda>k now r. Some (length (memSet r now k))),
           zFirst = (\<lambda>k now r. Some (map fst (take 1 (sort_key snd (memSet r now k))))),
           zAdd = (\<lambda>k s m now r. Some (r(k := (AList.update m s (memSet r now k), if memSet r now k = [] then None else snd (r k))))),
           zExpire = (\<lambda>k n now r. Some (r(k := (memSet r now k, Some (now + int n * 1000))))),
           zDel = (\<lambda>k now r. Some (r(k := ([], None))))\<rparr>"

lemma memSet_distinct [simp]: "distinct (map fst (memSet r t k))"
  by (simp add: memSet_def split: prod.splits option.splits)

lemma map_of_filter_distinct:
  "distinct (map fst al) \<Longrightarrow>
     map_of (filter (\<lambda>(m, s). P s) al) m = (case map_of al m of None \<Rightarrow> None | Some s \<Rightarrow> if P s then Some s else None)"
proof (induction al)
  case (Cons a al)
  obtain k s where a: "a = (k, s)" by (cases a)
  have "map_of al k = None" using Cons.prems by (auto simp: a map_of_eq_None_iff)
  with Cons show ?case by (cases "m = k") (simp_all add: a)
qed simp

lemma memZ_sets:
  "zRemRangeByScore memZ k lo hi now r = Some r' \<Longrightarrow> now \<le> t \<Longrightarrow>
     map_of (memSet r' t k) m = map_of (filter (\<lambda>(m, s). \<not> (lo \<le> s \<and> s \<le> hi)) (memSet r t k)) m"
  "zAdd memZ k s m now r = Some r' \<Longrightarrow> map_of (memSet r' now k) = (map_of (memSet r now k))(m \<mapsto> s)"
  "zExpire memZ k n now r = Some r' \<Longrightarrow> now \<le> t \<Longrightarrow>
     map_of (memSet r' t k) = (if t < now + int n * 1000 then map_of (memSet r now k) else Map.empty)"
  by (clarsimp simp: memZ_def memSet_def map_of_clearjunk update_conv' split_def
      simp flip: fun_upd_def split: option.split; fail)+

interpretation memz: sorted_sets memZ "\<lambda>r t k. map_of (memSet r t k)"
proof unfold_locales
  fix k lo hi now t and r r' :: zstore
  assume "zRemRangeByScore memZ k lo hi now r = Some r'" "now \<le> t"
  then show "map_of (memSet r' t k) =
      (\<lambda>m. case map_of (memSet r t k) m of None \<Rightarrow> None | Some s \<Rightarrow> if lo \<le> s \<and> s \<le> hi then None else Some s)"
    by (auto simp: memZ_sets map_of_filter_distinct fun_eq_iff split: option.split)
next
  fix k now c and r :: zstore
  assume "zCard memZ k now r = Some c"
  then have "c = length (map fst (memSet r now k))" by (simp add: memZ_def)
  then show "c = card (dom (map_of (memSet r now k)))"
    by (simp only: distinct_card [OF memSet_distinct, symmetric] dom_map_of_conv_image_fst set_map)
next
  fix k now t and r r' :: zstore
  assume "zDel memZ k now r = Some r'" "now \<le> t"
  then show "map_of (memSet r' t k) = Map.empty" by (auto simp: memZ_def memSet_def)
qed (simp_all add: memZ_sets)

lemma memZ_available: "available memZ"
  by (simp add: available_def memZ_def)

section \<open>Properties\<close>

text \<open>
  C24. The sliding window. While Redis answers, and for requests to one key in different milliseconds,
  the guard lets through exactly the requests that the list of the earlier times would, so that no
  window of the configured length ever holds more than the limit of them.
\<close>

theorem rate_limit_window:
  assumes "sorted_sets Z zlook" and "available Z" and "sorted_wrt (<) ts" and "\<forall>t \<in> set ts. 0 \<le> t"
    and "\<forall>t. zlook r t (rateKey key) = Map.empty"
  shows "fst (rateRun Z key limit w ts r) = windowRef limit w [] ts \<and>
         (\<forall>t. countIn w t (fst (rateRun Z key limit w ts r)) \<le> limit)"
proof -
  have "tracks (\<lambda>t. zlook r t (rateKey key)) w (-1) (set [])" using assms(5) by (simp add: tracks_def)
  moreover have "\<forall>t \<in> set ts. - 1 < t \<and> 0 \<le> t" using assms(4) by auto
  ultimately have "fst (rateRun Z key limit w ts r) = windowRef limit w [] ts"
    using sorted_sets.rateRun_ref [OF assms(1,2), of r key w "-1" "[]" ts limit] assms(3) by simp
  moreover have "\<forall>t. countIn w t ([] @ windowRef limit w [] ts) \<le> limit"
    using assms(3) by (intro windowRef_bound) (simp_all add: countIn_def)
  ultimately show ?thesis by simp
qed

theorem rate_limit_window_witness:
  "fst (rateRun memZ ''ip:10.0.0.1:login'' 2 60 [1000, 2000, 3000, 61000, 61001] (\<lambda>_. ([], None))) = [1000, 2000, 61000]"
  using rate_limit_window [OF memz.sorted_sets_axioms memZ_available,
      of "[1000, 2000, 3000, 61000, 61001]" "\<lambda>_. ([], None)" "''ip:10.0.0.1:login''" 2 60]
  by (simp add: memSet_def countIn_def)

text \<open>
  The window misses simultaneous requests. The member of the sorted set is the time itself, so that
  requests to one key in one millisecond collapse into one entry: with a limit of two or more, any number
  of them is let through.
\<close>

theorem rate_limit_same_millisecond:
  assumes "sorted_sets Z zlook" and "available Z" and "2 \<le> limit"
    and "zlook r t (rateKey key) = Map.empty"
  shows "fst (rateRun Z key limit w (replicate n t) r) = replicate n t"
  using sorted_sets.rateRun_same_ms [OF assms(1-3)] assms(4) by simp

theorem rate_limit_same_millisecond_witness:
  "fst (rateRun memZ ''ip:10.0.0.1:login'' 5 60 (replicate 1000 1700000000000) (\<lambda>_. ([], None))) =
     replicate 1000 1700000000000"
  by (rule rate_limit_same_millisecond [OF memz.sorted_sets_axioms memZ_available]) (simp_all add: memSet_def)

end
