(* ===== verification/Voice_Store.thy ===== *)
theory Voice_Store
  imports Json "HOL-Library.AList"
begin

text \<open>
  The data of the voice sessions (\<^verbatim>\<open>voice/entities/voice-session.entity.ts\<close>,
  \<^verbatim>\<open>voice/types\<close>) and the part of the Redis client that keeps them. A value of the store is a
  plain text, a set of strings, or the JSON text of a session; the last is represented by the session
  itself, since \<^verbatim>\<open>JSON.parse\<close> gives back what \<^verbatim>\<open>JSON.stringify\<close> was given and
  \<^verbatim>\<open>getSession\<close> turns the three kinds of dates back into dates. The client is a parameter; the locale
  \<open>voice_store\<close> states what the documentation says of its commands, with \<open>look\<close> the content of the
  store, the seconds a key has left, and \<open>adv\<close> the passage of seconds.
\<close>

section \<open>Sessions\<close>

datatype ConversationState = LISTENING | THINKING | RESPONDING | INTERRUPTED | IDLE | STALE | TERMINATED

datatype FeatureContext = ACADEMY | TRADING | GENERAL | COMMUNITY

record VoiceMessage =
  vm_id :: string
  vm_content :: string
  vm_timestamp :: date
  vm_isUser :: bool
  vm_metadata :: "json option"

record VoiceSession =
  v_id :: string
  v_userId :: string
  v_walletAddress :: "string option"
  v_context :: FeatureContext
  v_state :: ConversationState
  v_messages :: "VoiceMessage list"
  v_createdAt :: date
  v_lastActivityAt :: date
  v_lastPingAt :: "date option"
  v_ttl :: nat
  v_socketId :: "string option"
  v_metadata :: "json option"

definition newVoiceSession ::
    "string \<Rightarrow> date \<Rightarrow> string \<Rightarrow> FeatureContext \<Rightarrow> string option \<Rightarrow> json option \<Rightarrow> VoiceSession" where
  "newVoiceSession uuid now userId ctx walletAddress metadata =
     \<lparr>v_id = uuid, v_userId = userId, v_walletAddress = walletAddress, v_context = ctx, v_state = IDLE,
      v_messages = [], v_createdAt = now, v_lastActivityAt = now, v_lastPingAt = None, v_ttl = 3600,
      v_socketId = None, v_metadata = metadata\<rparr>"

section \<open>The store\<close>

datatype rval = RText string | RSession VoiceSession | RSet "string set"

type_synonym vstate = "string \<rightharpoonup> rval \<times> nat option"

record 'r vredis =
  vrText :: "string \<Rightarrow> 'r \<Rightarrow> string option"
  vrSession :: "string \<Rightarrow> 'r \<Rightarrow> VoiceSession option"
  vrSetText :: "string \<Rightarrow> nat \<Rightarrow> string \<Rightarrow> 'r \<Rightarrow> 'r"
  vrSetSession :: "string \<Rightarrow> nat \<Rightarrow> VoiceSession \<Rightarrow> 'r \<Rightarrow> 'r"
  vrDel :: "string \<Rightarrow> 'r \<Rightarrow> 'r"
  vrExpire :: "string \<Rightarrow> nat \<Rightarrow> 'r \<Rightarrow> 'r"
  vrSAdd :: "string \<Rightarrow> string \<Rightarrow> 'r \<Rightarrow> 'r"
  vrSRem :: "string \<Rightarrow> string \<Rightarrow> 'r \<Rightarrow> 'r"
  vrSMembers :: "string \<Rightarrow> 'r \<Rightarrow> string list"
  vrScan :: "string \<Rightarrow> 'r \<Rightarrow> string list"

definition textAt :: "vstate \<Rightarrow> string \<Rightarrow> string option" where
  "textAt m k = (case m k of Some (RText v, _) \<Rightarrow> Some v | _ \<Rightarrow> None)"

definition sessionAt :: "vstate \<Rightarrow> string \<Rightarrow> VoiceSession option" where
  "sessionAt m k = (case m k of Some (RSession v, _) \<Rightarrow> Some v | _ \<Rightarrow> None)"

definition setAt :: "vstate \<Rightarrow> string \<Rightarrow> string set" where
  "setAt m k = (case m k of Some (RSet v, _) \<Rightarrow> v | _ \<Rightarrow> {})"

definition leftAt :: "vstate \<Rightarrow> string \<Rightarrow> nat option" where
  "leftAt m k = Option.bind (m k) snd"

definition advEntry :: "nat \<Rightarrow> ('v \<times> nat option) option \<Rightarrow> ('v \<times> nat option) option" where
  "advEntry d e = (case e of Some (v, Some n) \<Rightarrow> (if d < n then Some (v, Some (n - d)) else None) | x \<Rightarrow> x)"

locale voice_store =
  fixes D :: "'r vredis" and look :: "'r \<Rightarrow> vstate" and adv :: "nat \<Rightarrow> 'r \<Rightarrow> 'r"
  assumes text_look: "vrText D k r = textAt (look r) k"
    and session_look: "vrSession D k r = sessionAt (look r) k"
    and setText_look: "look (vrSetText D k n t r) = (look r)(k \<mapsto> (RText t, Some n))"
    and setSession_look: "look (vrSetSession D k n s r) = (look r)(k \<mapsto> (RSession s, Some n))"
    and vdel_look: "look (vrDel D k r) = (look r)(k := None)"
    and vexpire_look: "look (vrExpire D k n r) = (look r)(k := map_option (\<lambda>(v, _). (v, Some n)) (look r k))"
    and sAdd_look: "look (vrSAdd D k x r) = (look r)(k \<mapsto> (RSet (insert x (setAt (look r) k)), leftAt (look r) k))"
    and sRem_look: "look (vrSRem D k x r) =
          (if x \<in> setAt (look r) k
           then (look r)(k := (if setAt (look r) k = {x} then None
                               else Some (RSet (setAt (look r) k - {x}), leftAt (look r) k)))
           else look r)"
    and members_look: "set (vrSMembers D k r) = setAt (look r) k \<and> distinct (vrSMembers D k r)"
    and scan_look: "set (vrScan D p r) = {k. look r k \<noteq> None \<and> startsWith p k}"
    and vadv_look: "look (adv d r) k = advEntry d (look r k)"

section \<open>The store in memory\<close>

datatype mval = MText string | MSession VoiceSession | MSet "string list"

fun valOf :: "mval \<Rightarrow> rval" where
  "valOf (MText t) = RText t"
| "valOf (MSession s) = RSession s"
| "valOf (MSet xs) = RSet (set xs)"

type_synonym mstore = "(string \<times> mval \<times> nat option) list"

definition mlook :: "mstore \<Rightarrow> vstate" where
  "mlook r k = map_option (\<lambda>(v, e). (valOf v, e)) (map_of r k)"

definition mset_at :: "mstore \<Rightarrow> string \<Rightarrow> string list" where
  "mset_at r k = (case map_of r k of Some (MSet xs, _) \<Rightarrow> remdups xs | _ \<Rightarrow> [])"

definition memVoice :: "mstore vredis" where
  "memVoice =
     \<lparr>vrText = (\<lambda>k r. case map_of r k of Some (MText t, _) \<Rightarrow> Some t | _ \<Rightarrow> None),
      vrSession = (\<lambda>k r. case map_of r k of Some (MSession s, _) \<Rightarrow> Some s | _ \<Rightarrow> None),
      vrSetText = (\<lambda>k n t r. (k, MText t, Some n) # AList.delete k r),
      vrSetSession = (\<lambda>k n s r. (k, MSession s, Some n) # AList.delete k r),
      vrDel = (\<lambda>k r. AList.delete k r),
      vrExpire = (\<lambda>k n r. case map_of r k of None \<Rightarrow> r | Some (v, _) \<Rightarrow> (k, v, Some n) # AList.delete k r),
      vrSAdd = (\<lambda>k x r. (k, MSet (x # mset_at r k), Option.bind (map_of r k) snd) # AList.delete k r),
      vrSRem = (\<lambda>k x r.
         if x \<in> set (mset_at r k)
         then (if removeAll x (mset_at r k) = [] then AList.delete k r
               else (k, MSet (removeAll x (mset_at r k)), Option.bind (map_of r k) snd) # AList.delete k r)
         else r),
      vrSMembers = (\<lambda>k r. mset_at r k),
      vrScan = (\<lambda>p r. filter (startsWith p) (map fst r))\<rparr>"

fun memTick :: "nat \<Rightarrow> mstore \<Rightarrow> mstore" where
  "memTick d [] = []"
| "memTick d ((k, e) # r) =
     (case advEntry d (Some e) of None \<Rightarrow> AList.delete k (memTick d r) | Some e' \<Rightarrow> (k, e') # memTick d r)"

lemma map_of_memTick: "map_of (memTick d r) k = advEntry d (map_of r k)"
  by (induction d r rule: memTick.induct) (auto simp: advEntry_def delete_conv' split: option.splits)

lemma advEntry_mlook:
  "advEntry d (map_option (\<lambda>(v, e). (valOf v, e)) x) = map_option (\<lambda>(v, e). (valOf v, e)) (advEntry d x)"
  by (auto simp: advEntry_def split: option.splits)

lemma set_mset_at: "set (mset_at r k) = setAt (mlook r) k"
proof (cases "map_of r k")
  case (Some ve)
  then show ?thesis by (cases ve; cases "fst ve") (auto simp: mset_at_def setAt_def mlook_def)
qed (simp add: mset_at_def setAt_def mlook_def)

lemma distinct_mset_at: "distinct (mset_at r k)"
  by (simp add: mset_at_def split: option.split mval.split)

lemma mlook_upd: "mlook ((k, v, e) # AList.delete k r) = (mlook r)(k \<mapsto> (valOf v, e))"
  by (auto simp: mlook_def delete_conv' fun_eq_iff)

lemma mlook_del: "mlook (AList.delete k r) = (mlook r)(k := None)"
  by (auto simp: mlook_def delete_conv' fun_eq_iff)

lemma mleft: "Option.bind (map_of r k) snd = leftAt (mlook r) k"
  by (cases "map_of r k") (auto simp: leftAt_def mlook_def)

lemma removeAll_empty_iff: "removeAll x xs = [] \<longleftrightarrow> set xs \<subseteq> {x}"
  by (induction xs) auto

interpretation memv: voice_store memVoice mlook memTick
proof unfold_locales
  fix k x and r :: mstore
  show "mlook (vrSRem memVoice k x r) =
      (if x \<in> setAt (mlook r) k
       then (mlook r)(k := (if setAt (mlook r) k = {x} then None else Some (RSet (setAt (mlook r) k - {x}), leftAt (mlook r) k)))
       else mlook r)"
  proof (cases "x \<in> setAt (mlook r) k")
    case True
    then have "setAt (mlook r) k = {x} \<longleftrightarrow> removeAll x (mset_at r k) = []"
      by (auto simp: removeAll_empty_iff set_mset_at)
    with True show ?thesis by (simp add: memVoice_def set_mset_at mleft mlook_upd mlook_del)
  qed (simp add: memVoice_def set_mset_at)
next
  fix k n and r :: mstore
  show "mlook (vrExpire memVoice k n r) = (mlook r)(k := map_option (\<lambda>(v, _). (v, Some n)) (mlook r k))"
    by (cases "map_of r k") (auto simp: memVoice_def mlook_upd, auto simp: mlook_def)
next
  fix p and r :: mstore
  show "set (vrScan memVoice p r) = {k. mlook r k \<noteq> None \<and> startsWith p k}"
    by (auto simp: memVoice_def mlook_def map_of_eq_None_iff)
next
  fix k d and r :: mstore
  show "mlook (memTick d r) k = advEntry d (mlook r k)"
    by (simp add: mlook_def map_of_memTick advEntry_mlook)
next
  fix k and r :: mstore
  show "vrText memVoice k r = textAt (mlook r) k" "vrSession memVoice k r = sessionAt (mlook r) k"
    by (auto simp: memVoice_def textAt_def sessionAt_def mlook_def split: option.split mval.split)
  show "set (vrSMembers memVoice k r) = setAt (mlook r) k \<and> distinct (vrSMembers memVoice k r)"
    by (simp add: memVoice_def set_mset_at distinct_mset_at)
qed (simp_all add: memVoice_def mlook_upd mlook_del mleft set_mset_at)

end
