(* ===== verification/Voice_Session.thy ===== *)
theory Voice_Session
  imports Voice_Store
begin

text \<open>
  The voice sessions: the conversation state machine
  (\<^verbatim>\<open>voice/services/conversation-state-machine.service.ts\<close>), the session service
  (\<^verbatim>\<open>voice-session.service.ts\<close>) and the scheduled cleanup (\<^verbatim>\<open>session-cleanup.service.ts\<close>). A method
  takes the time that \<^verbatim>\<open>new Date()\<close> gives and, where it creates something, the UUID. Runs of the service
  are lists of operations with the passage of seconds between them.
\<close>

section \<open>Conversation states\<close>

fun stateName :: "ConversationState \<Rightarrow> string" where
  "stateName LISTENING = ''listening''"
| "stateName THINKING = ''thinking''"
| "stateName RESPONDING = ''responding''"
| "stateName INTERRUPTED = ''interrupted''"
| "stateName IDLE = ''idle''"
| "stateName STALE = ''stale''"
| "stateName TERMINATED = ''terminated''"

fun validTransitions :: "ConversationState \<Rightarrow> ConversationState list" where
  "validTransitions IDLE = [LISTENING]"
| "validTransitions LISTENING = [THINKING, INTERRUPTED]"
| "validTransitions THINKING = [RESPONDING, INTERRUPTED]"
| "validTransitions RESPONDING = [LISTENING, INTERRUPTED, IDLE]"
| "validTransitions INTERRUPTED = [LISTENING, IDLE]"
| "validTransitions STALE = []"
| "validTransitions TERMINATED = []"

definition canTransition :: "ConversationState \<Rightarrow> ConversationState \<Rightarrow> bool" where
  "canTransition src dst \<longleftrightarrow> dst \<in> set (validTransitions src)"

definition transition :: "ConversationState \<Rightarrow> ConversationState \<Rightarrow> string + unit" where
  "transition currentState newState =
     (if \<not> canTransition currentState newState
      then Inl (''Invalid state transition from '' @ stateName currentState @ '' to '' @ stateName newState)
      else Inr ())"

definition getValidNextStates :: "ConversationState \<Rightarrow> ConversationState list" where
  "getValidNextStates currentState = validTransitions currentState"

definition isInterruptible :: "ConversationState \<Rightarrow> bool" where
  "isInterruptible state \<longleftrightarrow> state \<in> set [THINKING, RESPONDING]"

definition isTerminalState :: "ConversationState \<Rightarrow> bool" where
  "isTerminalState state \<longleftrightarrow> state = IDLE"

section \<open>Keys and constants\<close>

definition MAX_SESSIONS_PER_USER :: nat where
  "MAX_SESSIONS_PER_USER = 3"

definition HEARTBEAT_TIMEOUT_MS :: int where
  "HEARTBEAT_TIMEOUT_MS = 60000"

definition SESSION_PREFIX :: string where
  "SESSION_PREFIX = ''voice:session:''"

definition sessionKey :: "string \<Rightarrow> string" where
  "sessionKey sessionId = SESSION_PREFIX @ sessionId"

definition userSessionsKey :: "string \<Rightarrow> string" where
  "userSessionsKey userId = ''voice:user:sessions:'' @ userId"

definition userActiveKey :: "string \<Rightarrow> string" where
  "userActiveKey userId = ''voice:usersession:'' @ userId"

definition SESSION_TTL :: nat where
  "SESSION_TTL = 3600"

definition USER_SESSION_POINTER_TTL :: nat where
  "USER_SESSION_POINTER_TTL = 600"

lemma keys_apart [simp]:
  "sessionKey a = sessionKey b \<longleftrightarrow> a = b" "userSessionsKey a = userSessionsKey b \<longleftrightarrow> a = b"
  "userActiveKey a = userActiveKey b \<longleftrightarrow> a = b"
  "sessionKey a \<noteq> userSessionsKey b" "userSessionsKey b \<noteq> sessionKey a"
  "sessionKey a \<noteq> userActiveKey b" "userActiveKey b \<noteq> sessionKey a"
  "userSessionsKey a \<noteq> userActiveKey b" "userActiveKey b \<noteq> userSessionsKey a"
  by (auto simp: sessionKey_def SESSION_PREFIX_def userSessionsKey_def userActiveKey_def)

section \<open>Session service\<close>

definition saveSession :: "'r vredis \<Rightarrow> VoiceSession \<Rightarrow> 'r \<Rightarrow> 'r" where
  "saveSession D session r = vrSetSession D (sessionKey (v_id session)) (v_ttl session) session r"

definition addUserSession :: "'r vredis \<Rightarrow> string \<Rightarrow> string \<Rightarrow> 'r \<Rightarrow> 'r" where
  "addUserSession D userId sessionId r =
     vrExpire D (userSessionsKey userId) SESSION_TTL (vrSAdd D (userSessionsKey userId) sessionId r)"

definition removeUserSession :: "'r vredis \<Rightarrow> string \<Rightarrow> string \<Rightarrow> 'r \<Rightarrow> 'r" where
  "removeUserSession D userId sessionId r = vrSRem D (userSessionsKey userId) sessionId r"

definition getSession :: "'r vredis \<Rightarrow> string \<Rightarrow> 'r \<Rightarrow> VoiceSession option" where
  "getSession D sessionId r = vrSession D (sessionKey sessionId) r"

definition getUserActiveSessions :: "'r vredis \<Rightarrow> string \<Rightarrow> 'r \<Rightarrow> VoiceSession list" where
  "getUserActiveSessions D userId r =
     List.map_filter (\<lambda>sid. getSession D sid r) (vrSMembers D (userSessionsKey userId) r)"

definition limitError :: js_error where
  "limitError = Error (''Session limit reached: users may have at most '' @ showNat MAX_SESSIONS_PER_USER @ '' concurrent sessions'')"

definition createSession ::
    "'r vredis \<Rightarrow> string \<Rightarrow> date \<Rightarrow> string \<Rightarrow> FeatureContext \<Rightarrow> string option \<Rightarrow> json option \<Rightarrow> 'r \<Rightarrow>
     (js_error + VoiceSession) \<times> 'r" where
  "createSession D uuid now userId ctx walletAddress metadata r =
     (if MAX_SESSIONS_PER_USER \<le> length (getUserActiveSessions D userId r) then (Inl limitError, r)
      else let session = newVoiceSession uuid now userId ctx walletAddress metadata
           in (Inr session, addUserSession D userId (v_id session) (saveSession D session r)))"

definition updateSessionState :: "'r vredis \<Rightarrow> date \<Rightarrow> string \<Rightarrow> ConversationState \<Rightarrow> 'r \<Rightarrow> bool \<times> 'r" where
  "updateSessionState D now sessionId newState r =
     (case getSession D sessionId r of
        None \<Rightarrow> (False, r)
      | Some session \<Rightarrow>
          (case transition (v_state session) newState of
             Inl _ \<Rightarrow> (False, r)
           | Inr _ \<Rightarrow> (True, saveSession D (session\<lparr>v_state := newState, v_lastActivityAt := now\<rparr>) r)))"

definition addMessage ::
    "'r vredis \<Rightarrow> string \<Rightarrow> date \<Rightarrow> string \<Rightarrow> string \<Rightarrow> bool \<Rightarrow> json option \<Rightarrow> 'r \<Rightarrow> bool \<times> 'r" where
  "addMessage D uuid now sessionId content isUser metadata r =
     (case getSession D sessionId r of
        None \<Rightarrow> (False, r)
      | Some session \<Rightarrow>
          let message = \<lparr>vm_id = uuid, vm_content = content, vm_timestamp = now, vm_isUser = isUser, vm_metadata = metadata\<rparr>
          in (True, saveSession D (session\<lparr>v_messages := v_messages session @ [message], v_lastActivityAt := now\<rparr>) r))"

definition interruptSession :: "'r vredis \<Rightarrow> date \<Rightarrow> string \<Rightarrow> 'r \<Rightarrow> bool \<times> 'r" where
  "interruptSession D now sessionId r =
     (case getSession D sessionId r of
        None \<Rightarrow> (False, r)
      | Some session \<Rightarrow>
          if \<not> isInterruptible (v_state session) then (False, r)
          else updateSessionState D now sessionId INTERRUPTED r)"

definition resumeSession :: "'r vredis \<Rightarrow> date \<Rightarrow> string \<Rightarrow> 'r \<Rightarrow> bool \<times> 'r" where
  "resumeSession D now sessionId r =
     (case getSession D sessionId r of
        None \<Rightarrow> (False, r)
      | Some session \<Rightarrow>
          updateSessionState D now sessionId (if v_state session = INTERRUPTED then LISTENING else IDLE) r)"

definition setUserActiveSession :: "'r vredis \<Rightarrow> string \<Rightarrow> string \<Rightarrow> 'r \<Rightarrow> 'r" where
  "setUserActiveSession D userId sessionId r =
     vrSetText D (userActiveKey userId) USER_SESSION_POINTER_TTL sessionId r"

definition getUserActiveSession :: "'r vredis \<Rightarrow> string \<Rightarrow> 'r \<Rightarrow> string option" where
  "getUserActiveSession D userId r = vrText D (userActiveKey userId) r"

definition deleteUserActiveSession :: "'r vredis \<Rightarrow> string \<Rightarrow> 'r \<Rightarrow> 'r" where
  "deleteUserActiveSession D userId r = vrDel D (userActiveKey userId) r"

definition refreshUserSessionTTL :: "'r vredis \<Rightarrow> string \<Rightarrow> 'r \<Rightarrow> 'r" where
  "refreshUserSessionTTL D userId r = vrExpire D (userActiveKey userId) USER_SESSION_POINTER_TTL r"

definition clearUserActiveSessionIfMatches :: "'r vredis \<Rightarrow> string \<Rightarrow> string \<Rightarrow> 'r \<Rightarrow> 'r" where
  "clearUserActiveSessionIfMatches D userId sessionId r =
     (if getUserActiveSession D userId r = Some sessionId then deleteUserActiveSession D userId r else r)"

definition terminateSession :: "'r vredis \<Rightarrow> string \<Rightarrow> 'r \<Rightarrow> bool \<times> 'r" where
  "terminateSession D sessionId r =
     (case getSession D sessionId r of
        None \<Rightarrow> (False, r)
      | Some session \<Rightarrow>
          (True, clearUserActiveSessionIfMatches D (v_userId session) sessionId
                   (removeUserSession D (v_userId session) sessionId (vrDel D (sessionKey sessionId) r))))"

definition updateSessionSocket :: "'r vredis \<Rightarrow> date \<Rightarrow> string \<Rightarrow> string \<Rightarrow> 'r \<Rightarrow> bool \<times> 'r" where
  "updateSessionSocket D now sessionId socketId r =
     (case getSession D sessionId r of
        None \<Rightarrow> (False, r)
      | Some session \<Rightarrow> (True, saveSession D (session\<lparr>v_socketId := Some socketId, v_lastActivityAt := now\<rparr>) r))"

definition updateLastPingAt :: "'r vredis \<Rightarrow> date \<Rightarrow> string \<Rightarrow> 'r \<Rightarrow> bool \<times> 'r" where
  "updateLastPingAt D now sessionId r =
     (case getSession D sessionId r of
        None \<Rightarrow> (False, r)
      | Some session \<Rightarrow> (True, saveSession D (session\<lparr>v_lastPingAt := Some now, v_lastActivityAt := now\<rparr>) r))"

section \<open>Cleanup\<close>

definition lastPingMs :: "VoiceSession \<Rightarrow> date" where
  "lastPingMs session = (case v_lastPingAt session of Some p \<Rightarrow> p | None \<Rightarrow> v_createdAt session)"

definition staleSession :: "date \<Rightarrow> VoiceSession \<Rightarrow> bool" where
  "staleSession now session \<longleftrightarrow> \<not> (v_state session = TERMINATED \<or> v_state session = STALE) \<and>
     HEARTBEAT_TIMEOUT_MS < now - lastPingMs session"

definition expiredSession :: "date \<Rightarrow> VoiceSession \<Rightarrow> bool" where
  "expiredSession now session \<longleftrightarrow> int (v_ttl session) * 1000 < now - v_lastActivityAt session"

fun cleanupLoop :: "'r vredis \<Rightarrow> (VoiceSession \<Rightarrow> bool) \<Rightarrow> string list \<Rightarrow> 'r \<Rightarrow> nat \<times> 'r" where
  "cleanupLoop D dead [] r = (0, r)"
| "cleanupLoop D dead (key # keys) r =
     (case vrSession D key r of
        None \<Rightarrow> cleanupLoop D dead keys r
      | Some session \<Rightarrow>
          if dead session
          then (case cleanupLoop D dead keys (snd (terminateSession D (drop (length SESSION_PREFIX) key) r)) of
                  (cleanedCount, r') \<Rightarrow> (Suc cleanedCount, r'))
          else cleanupLoop D dead keys r)"

definition cleanupStaleSessions :: "'r vredis \<Rightarrow> date \<Rightarrow> 'r \<Rightarrow> nat \<times> 'r" where
  "cleanupStaleSessions D now r = cleanupLoop D (staleSession now) (vrScan D SESSION_PREFIX r) r"

definition cleanupExpiredSessions :: "'r vredis \<Rightarrow> date \<Rightarrow> 'r \<Rightarrow> nat \<times> 'r" where
  "cleanupExpiredSessions D now r = cleanupLoop D (expiredSession now) (vrScan D SESSION_PREFIX r) r"

text \<open>The two cleanups of \<^verbatim>\<open>Promise.all\<close>, in the order in which they are started.\<close>

definition triggerCleanup :: "'r vredis \<Rightarrow> date \<Rightarrow> 'r \<Rightarrow> (nat \<times> nat) \<times> 'r" where
  "triggerCleanup D now r =
     (case cleanupStaleSessions D now r of (stale, r1) \<Rightarrow>
      case cleanupExpiredSessions D now r1 of (expired, r2) \<Rightarrow> ((stale, expired), r2))"

definition performCleanup :: "'r vredis \<Rightarrow> date \<Rightarrow> 'r \<Rightarrow> 'r" where
  "performCleanup D now r = snd (triggerCleanup D now r)"

section \<open>Runs\<close>

datatype voiceOp =
    VCreate string string FeatureContext "string option" "json option"
  | VState string ConversationState
  | VMessage string string string bool "json option"
  | VInterrupt string
  | VResume string
  | VTerminate string
  | VSocket string string
  | VPing string
  | VSetActive string string
  | VDeleteActive string
  | VRefreshActive string
  | VCleanup
  | VTick nat

fun voiceStep :: "'r vredis \<Rightarrow> (nat \<Rightarrow> 'r \<Rightarrow> 'r) \<Rightarrow> voiceOp \<Rightarrow> date \<times> 'r \<Rightarrow> date \<times> 'r" where
  "voiceStep D adv (VCreate uuid u c w m) (now, r) = (now, snd (createSession D uuid now u c w m r))"
| "voiceStep D adv (VState sid st) (now, r) = (now, snd (updateSessionState D now sid st r))"
| "voiceStep D adv (VMessage uuid sid c b m) (now, r) = (now, snd (addMessage D uuid now sid c b m r))"
| "voiceStep D adv (VInterrupt sid) (now, r) = (now, snd (interruptSession D now sid r))"
| "voiceStep D adv (VResume sid) (now, r) = (now, snd (resumeSession D now sid r))"
| "voiceStep D adv (VTerminate sid) (now, r) = (now, snd (terminateSession D sid r))"
| "voiceStep D adv (VSocket sid sock) (now, r) = (now, snd (updateSessionSocket D now sid sock r))"
| "voiceStep D adv (VPing sid) (now, r) = (now, snd (updateLastPingAt D now sid r))"
| "voiceStep D adv (VSetActive u sid) (now, r) = (now, setUserActiveSession D u sid r)"
| "voiceStep D adv (VDeleteActive u) (now, r) = (now, deleteUserActiveSession D u r)"
| "voiceStep D adv (VRefreshActive u) (now, r) = (now, refreshUserSessionTTL D u r)"
| "voiceStep D adv VCleanup (now, r) = (now, performCleanup D now r)"
| "voiceStep D adv (VTick d) (now, r) = (now + 1000 * int d, adv d r)"

definition voiceRun :: "'r vredis \<Rightarrow> (nat \<Rightarrow> 'r \<Rightarrow> 'r) \<Rightarrow> voiceOp list \<Rightarrow> date \<times> 'r \<Rightarrow> date \<times> 'r" where
  "voiceRun D adv ops s = fold (voiceStep D adv) ops s"

end
