(* ===== verification/Voice_Session_Props.thy ===== *)
theory Voice_Session_Props
  imports Voice_Session
begin

text \<open>
  Properties of the voice sessions over every run of the service: the well-formedness of what is
  stored, the limit of three sessions per user and the way it is lost, and the exact effect of the
  cleanup.
\<close>

section \<open>Invariants\<close>

definition sessionOk :: "date \<Rightarrow> nat option \<Rightarrow> VoiceSession \<Rightarrow> bool" where
  "sessionOk now left s \<longleftrightarrow> v_state s \<noteq> STALE \<and> v_state s \<noteq> TERMINATED \<and> v_ttl s = 3600 \<and>
     (\<exists>n. left = Some n \<and> 0 < n \<and> n \<le> 3600 \<and> now = v_lastActivityAt s + 1000 * (3600 - int n)) \<and>
     v_createdAt s \<le> lastPingMs s \<and> lastPingMs s \<le> v_lastActivityAt s \<and>
     sorted (map vm_timestamp (v_messages s)) \<and>
     (\<forall>m \<in> set (v_messages s). v_createdAt s \<le> vm_timestamp m \<and> vm_timestamp m \<le> v_lastActivityAt s)"

definition voiceInv :: "date \<Rightarrow> vstate \<Rightarrow> bool" where
  "voiceInv now m \<longleftrightarrow> (\<forall>k s e. m k = Some (RSession s, e) \<longrightarrow> k = sessionKey (v_id s) \<and> sessionOk now e s)"

definition liveIds :: "vstate \<Rightarrow> string \<Rightarrow> string set" where
  "liveIds m u = {sid \<in> setAt m (userSessionsKey u). sessionAt m (sessionKey sid) \<noteq> None}"

text \<open>An operation that creates nothing keeps the invariant and adds no session and no index entry.\<close>

definition keeps :: "date \<Rightarrow> vstate \<Rightarrow> vstate \<Rightarrow> bool" where
  "keeps now m m' \<longleftrightarrow> voiceInv now m' \<and> (\<forall>u. liveIds m' u \<subseteq> liveIds m u) \<and>
     (\<forall>u. setAt m' (userSessionsKey u) \<subseteq> setAt m (userSessionsKey u))"

lemma keeps_refl: "voiceInv now m \<Longrightarrow> keeps now m m"
  by (simp add: keeps_def)

lemma keeps_trans: "keeps now m m' \<Longrightarrow> keeps now m' m'' \<Longrightarrow> keeps now m m''"
  unfolding keeps_def by blast

lemma keepsD: "keeps now m m' \<Longrightarrow> voiceInv now m'"
  by (simp add: keeps_def)

lemma setAt_upd: "setAt (m(k := x)) k' = (if k' = k then setAt (\<lambda>_. x) k else setAt m k')"
  by (simp add: setAt_def)

lemma setAt_const [simp]: "setAt (\<lambda>_. Some (RSet A, e)) k = A" "setAt (\<lambda>_. None) k = {}"
  by (simp_all add: setAt_def)

lemma sessionAt_upd: "sessionAt (m(k := x)) k' = (if k' = k then sessionAt (\<lambda>_. x) k else sessionAt m k')"
  by (simp add: sessionAt_def)

lemma sessionAt_Some: "sessionAt m k = Some s \<longleftrightarrow> (\<exists>e. m k = Some (RSession s, e))"
  by (auto simp: sessionAt_def split: option.splits rval.splits)

lemma keeps_upd:
  assumes "voiceInv now m"
    and "\<And>s e. x = Some (RSession s, e) \<Longrightarrow> k = sessionKey (v_id s) \<and> sessionOk now e s \<and> sessionAt m k \<noteq> None"
    and "\<And>u. k = userSessionsKey u \<Longrightarrow> setAt (\<lambda>_. x) k \<subseteq> setAt m k"
  shows "keeps now m (m(k := x))"
proof -
  have "sessionAt (\<lambda>_. x) k \<noteq> None \<Longrightarrow> sessionAt m k \<noteq> None" using assms(2) by (auto simp: sessionAt_Some)
  then have "liveIds (m(k := x)) u \<subseteq> liveIds m u" for u
    using assms(3) by (auto simp: liveIds_def setAt_upd sessionAt_upd split: if_splits)
  then show ?thesis using assms by (auto simp: keeps_def voiceInv_def setAt_upd)
qed

lemma keeps_none: "voiceInv now m \<Longrightarrow> keeps now m (m(k := None))"
  by (rule keeps_upd) simp_all

lemma keeps_set: "voiceInv now m \<Longrightarrow> A \<subseteq> setAt m k \<Longrightarrow> keeps now m (m(k \<mapsto> (RSet A, e)))"
  by (rule keeps_upd) simp_all

lemma lastPingMs_upd [simp]:
  "lastPingMs (s\<lparr>v_state := st\<rparr>) = lastPingMs s" "lastPingMs (s\<lparr>v_messages := ms\<rparr>) = lastPingMs s"
  "lastPingMs (s\<lparr>v_socketId := k\<rparr>) = lastPingMs s" "lastPingMs (s\<lparr>v_lastActivityAt := t\<rparr>) = lastPingMs s"
  "lastPingMs (s\<lparr>v_lastPingAt := Some p\<rparr>) = p"
  by (simp_all add: lastPingMs_def split: option.split)

lemma sessionOk_touch:
  assumes "sessionOk now e s"
  shows "canTransition (v_state s) st \<Longrightarrow> sessionOk now (Some 3600) (s\<lparr>v_state := st, v_lastActivityAt := now\<rparr>)"
    and "vm_timestamp msg = now \<Longrightarrow>
           sessionOk now (Some 3600) (s\<lparr>v_messages := v_messages s @ [msg], v_lastActivityAt := now\<rparr>)"
    and "sessionOk now (Some 3600) (s\<lparr>v_socketId := sock, v_lastActivityAt := now\<rparr>)"
    and "sessionOk now (Some 3600) (s\<lparr>v_lastPingAt := Some now, v_lastActivityAt := now\<rparr>)"
proof -
  have le: "v_lastActivityAt s \<le> now" using assms by (auto simp: sessionOk_def)
  have ping: "v_createdAt s \<le> lastPingMs s" "lastPingMs s \<le> now" using assms le by (simp_all add: sessionOk_def)
  have msgs: "\<forall>m \<in> set (v_messages s). v_createdAt s \<le> vm_timestamp m \<and> vm_timestamp m \<le> now"
    using assms le by (fastforce simp: sessionOk_def)
  have reach: "st \<noteq> STALE \<and> st \<noteq> TERMINATED" if "canTransition (v_state s) st"
    using that by (cases "v_state s") (auto simp: canTransition_def)
  show "canTransition (v_state s) st \<Longrightarrow> sessionOk now (Some 3600) (s\<lparr>v_state := st, v_lastActivityAt := now\<rparr>)"
    using assms ping msgs reach by (simp add: sessionOk_def)
  show "vm_timestamp msg = now \<Longrightarrow>
      sessionOk now (Some 3600) (s\<lparr>v_messages := v_messages s @ [msg], v_lastActivityAt := now\<rparr>)"
    using assms ping msgs by (simp add: sessionOk_def sorted_append)
  show "sessionOk now (Some 3600) (s\<lparr>v_socketId := sock, v_lastActivityAt := now\<rparr>)"
    "sessionOk now (Some 3600) (s\<lparr>v_lastPingAt := Some now, v_lastActivityAt := now\<rparr>)"
    using assms ping msgs by (simp_all add: sessionOk_def)
qed

section \<open>Operations\<close>

context voice_store
begin

lemma getSession_look: "getSession D sid r = Some s \<longleftrightarrow> (\<exists>e. look r (sessionKey sid) = Some (RSession s, e))"
  by (simp add: getSession_def session_look sessionAt_Some)

lemma getSession_ok:
  assumes "voiceInv now (look r)" and "getSession D sid r = Some s"
  shows "v_id s = sid" and "\<exists>e. sessionOk now e s"
proof -
  obtain e where "look r (sessionKey sid) = Some (RSession s, e)" using assms(2) by (auto simp: getSession_look)
  with assms(1) have "sessionKey sid = sessionKey (v_id s) \<and> sessionOk now e s" unfolding voiceInv_def by blast
  then show "v_id s = sid" "\<exists>e. sessionOk now e s" by auto
qed

lemma save_look: "look (saveSession D s r) = (look r)(sessionKey (v_id s) \<mapsto> (RSession s, Some (v_ttl s)))"
  by (simp add: saveSession_def setSession_look)

lemma save_keeps:
  assumes "voiceInv now (look r)" and "getSession D sid r = Some s" and "v_id s' = v_id s"
    and "sessionOk now (Some 3600) s'"
  shows "keeps now (look r) (look (saveSession D s' r))"
  unfolding save_look
  using assms getSession_ok(1) [OF assms(1,2)]
  by (intro keeps_upd) (auto simp: getSession_look sessionAt_Some sessionOk_def)

lemma touch_keeps:
  assumes "voiceInv now (look r)" and "getSession D sid r = Some s"
  shows "canTransition (v_state s) st \<Longrightarrow>
      keeps now (look r) (look (saveSession D (s\<lparr>v_state := st, v_lastActivityAt := now\<rparr>) r))"
    and "vm_timestamp msg = now \<Longrightarrow>
      keeps now (look r) (look (saveSession D (s\<lparr>v_messages := v_messages s @ [msg], v_lastActivityAt := now\<rparr>) r))"
    and "keeps now (look r) (look (saveSession D (s\<lparr>v_socketId := sock, v_lastActivityAt := now\<rparr>) r))"
    and "keeps now (look r) (look (saveSession D (s\<lparr>v_lastPingAt := Some now, v_lastActivityAt := now\<rparr>) r))"
proof -
  obtain e where "sessionOk now e s" using getSession_ok(2) [OF assms] by blast
  note ok = sessionOk_touch [OF this]
  show "canTransition (v_state s) st \<Longrightarrow>
      keeps now (look r) (look (saveSession D (s\<lparr>v_state := st, v_lastActivityAt := now\<rparr>) r))"
    by (rule save_keeps [OF assms]) (simp_all add: ok)
  show "vm_timestamp msg = now \<Longrightarrow>
      keeps now (look r) (look (saveSession D (s\<lparr>v_messages := v_messages s @ [msg], v_lastActivityAt := now\<rparr>) r))"
    by (rule save_keeps [OF assms]) (simp_all add: ok)
  show "keeps now (look r) (look (saveSession D (s\<lparr>v_socketId := sock, v_lastActivityAt := now\<rparr>) r))"
    "keeps now (look r) (look (saveSession D (s\<lparr>v_lastPingAt := Some now, v_lastActivityAt := now\<rparr>) r))"
    by (rule save_keeps [OF assms]; simp add: ok)+
qed

lemma terminate_keeps:
  assumes "voiceInv now (look r)"
  shows "keeps now (look r) (look (snd (terminateSession D sid r)))"
proof (cases "getSession D sid r")
  case (Some s)
  have del: "keeps now (look r) (look (vrDel D (sessionKey sid) r))"
    by (simp add: vdel_look keeps_none assms)
  have rem: "keeps now (look r0) (look (removeUserSession D u sid r0))" if "voiceInv now (look r0)" for r0 u
    using that by (simp add: removeUserSession_def sRem_look keeps_refl keeps_none keeps_set Diff_subset)
  have clr: "keeps now (look r0) (look (clearUserActiveSessionIfMatches D u sid r0))" if "voiceInv now (look r0)" for r0 u
    using that by (simp add: clearUserActiveSessionIfMatches_def deleteUserActiveSession_def vdel_look keeps_refl keeps_none)
  note k1 = keeps_trans [OF del rem [OF keepsD [OF del]]]
  from keeps_trans [OF k1 clr [OF keepsD [OF k1]]] Some
  show ?thesis by (simp add: terminateSession_def)
qed (simp add: terminateSession_def keeps_refl assms)

lemma updateSessionState_keeps:
  assumes "voiceInv now (look r)"
  shows "keeps now (look r) (look (snd (updateSessionState D now sid st r)))"
proof (cases "getSession D sid r")
  case (Some s)
  then show ?thesis
    by (auto simp: updateSessionState_def transition_def keeps_refl assms intro: touch_keeps(1))
qed (simp add: updateSessionState_def keeps_refl assms)

lemma cleanupLoop_keeps:
  "voiceInv now (look r) \<Longrightarrow> keeps now (look r) (look (snd (cleanupLoop D dead ks r)))"
proof (induction ks arbitrary: r)
  case (Cons k ks)
  let ?r1 = "snd (terminateSession D (drop (length SESSION_PREFIX) k) r)"
  have t: "keeps now (look r) (look ?r1)" by (rule terminate_keeps [OF Cons.prems])
  have "keeps now (look r) (look (snd (cleanupLoop D dead ks ?r1)))"
    by (rule keeps_trans [OF t Cons.IH [OF keepsD [OF t]]])
  with Cons show ?case by (auto simp: case_prod_beta split: option.splits)
qed (simp add: keeps_refl)

lemma performCleanup_keeps:
  assumes "voiceInv now (look r)"
  shows "keeps now (look r) (look (performCleanup D now r))"
proof -
  let ?r1 = "snd (cleanupStaleSessions D now r)"
  have s: "keeps now (look r) (look ?r1)" using cleanupLoop_keeps [OF assms] by (simp add: cleanupStaleSessions_def)
  from keeps_trans [OF s cleanupLoop_keeps [OF keepsD [OF s]]]
  show ?thesis by (simp add: performCleanup_def triggerCleanup_def case_prod_beta cleanupExpiredSessions_def)
qed

lemma step_keeps:
  assumes "voiceInv now (look r)" and "\<nexists>uuid u c w m. op = VCreate uuid u c w m" and "\<nexists>d. op = VTick d"
  shows "\<exists>r'. voiceStep D adv op (now, r) = (now, r') \<and> keeps now (look r) (look r')"
proof (cases op)
  case (VMessage uuid sid c b m)
  then show ?thesis
    by (cases "getSession D sid r") (simp_all add: addMessage_def keeps_refl touch_keeps(2) assms(1))
next
  case (VInterrupt sid)
  then show ?thesis using updateSessionState_keeps [OF assms(1)]
    by (auto simp: interruptSession_def keeps_refl assms split: option.split)
next
  case (VResume sid)
  then show ?thesis using updateSessionState_keeps [OF assms(1)]
    by (auto simp: resumeSession_def keeps_refl assms split: option.split)
next
  case (VSocket sid sock)
  then show ?thesis
    by (cases "getSession D sid r") (simp_all add: updateSessionSocket_def keeps_refl touch_keeps(3) assms(1))
next
  case (VPing sid)
  then show ?thesis
    by (cases "getSession D sid r") (simp_all add: updateLastPingAt_def keeps_refl touch_keeps(4) assms(1))
next
  case (VSetActive u sid)
  then show ?thesis using assms(1) by (auto simp: setUserActiveSession_def setText_look intro!: keeps_upd)
next
  case (VDeleteActive u)
  then show ?thesis using assms(1) by (simp add: deleteUserActiveSession_def vdel_look keeps_none)
next
  case (VRefreshActive u)
  have "look r (userActiveKey u) \<noteq> Some (RSession s, e)" for s e
    using assms(1) by (auto simp: voiceInv_def dest!: spec [of _ "userActiveKey u"])
  with VRefreshActive assms(1) show ?thesis
    by (auto simp: refreshUserSessionTTL_def vexpire_look intro!: keeps_upd)
qed (use assms updateSessionState_keeps [OF assms(1)] terminate_keeps [OF assms(1)] performCleanup_keeps [OF assms(1)] in auto)

lemma active_count: "length (getUserActiveSessions D u r) = card (liveIds (look r) u)"
proof -
  let ?ms = "vrSMembers D (userSessionsKey u) r"
  have "length (getUserActiveSessions D u r) = length (filter (\<lambda>sid. getSession D sid r \<noteq> None) ?ms)"
    by (simp add: getUserActiveSessions_def List.map_filter_def)
  also have "\<dots> = card (set (filter (\<lambda>sid. getSession D sid r \<noteq> None) ?ms))"
    using members_look [of "userSessionsKey u" r] by (intro distinct_card [symmetric] distinct_filter) simp
  also have "set (filter (\<lambda>sid. getSession D sid r \<noteq> None) ?ms) = liveIds (look r) u"
    using members_look [of "userSessionsKey u" r] by (auto simp: liveIds_def getSession_def session_look)
  finally show ?thesis .
qed

lemma finite_live: "finite (liveIds (look r) u)"
  using members_look [of "userSessionsKey u" r] finite_set [of "vrSMembers D (userSessionsKey u) r"]
  by (auto simp: liveIds_def)

lemma create_look:
  assumes "createSession D uuid now u c w m r = (res, r')"
  shows "(card (liveIds (look r) u) < 3 \<and> res = Inr (newVoiceSession uuid now u c w m) \<and>
          look r' = (look r)(sessionKey uuid \<mapsto> (RSession (newVoiceSession uuid now u c w m), Some 3600),
                             userSessionsKey u \<mapsto> (RSet (insert uuid (setAt (look r) (userSessionsKey u))), Some 3600))) \<or>
         (3 \<le> card (liveIds (look r) u) \<and> res = Inl limitError \<and> r' = r)"
  using assms
  by (auto simp: createSession_def active_count MAX_SESSIONS_PER_USER_def addUserSession_def save_look vexpire_look
      sAdd_look newVoiceSession_def SESSION_TTL_def setAt_upd Let_def split: if_splits)

lemma create_inv:
  assumes "voiceInv now (look r)" and "createSession D uuid now u c w m r = (res, r')"
  shows "voiceInv now (look r')"
    and "setAt (look r') (userSessionsKey u') \<subseteq> insert uuid (setAt (look r) (userSessionsKey u'))"
    and "\<lbrakk>\<And>v. uuid \<notin> setAt (look r) (userSessionsKey v); \<And>v. card (liveIds (look r) v) \<le> 3\<rbrakk> \<Longrightarrow>
         card (liveIds (look r') u') \<le> 3"
proof -
  let ?s = "newVoiceSession uuid now u c w m" and ?m = "look r" and ?m' = "look r'"
  have ok: "sessionOk now (Some 3600) ?s" by (simp add: sessionOk_def newVoiceSession_def lastPingMs_def)
  have vid: "v_id ?s = uuid" by (simp add: newVoiceSession_def)
  have cases: "?m' = ?m(sessionKey uuid \<mapsto> (RSession ?s, Some 3600),
                        userSessionsKey u \<mapsto> (RSet (insert uuid (setAt ?m (userSessionsKey u))), Some 3600)) \<and>
               card (liveIds ?m u) < 3 \<or> r' = r"
    using create_look [OF assms(2)] by auto
  then show "voiceInv now ?m'"
    using assms(1) ok vid by (auto simp: voiceInv_def split: if_splits)
  show "setAt ?m' (userSessionsKey u') \<subseteq> insert uuid (setAt ?m (userSessionsKey u'))"
    using cases by (auto simp: setAt_upd split: if_splits)
  assume fresh: "\<And>v. uuid \<notin> setAt ?m (userSessionsKey v)" and le: "\<And>v. card (liveIds ?m v) \<le> 3"
  from cases show "card (liveIds ?m' u') \<le> 3"
  proof
    assume new: "?m' = ?m(sessionKey uuid \<mapsto> (RSession ?s, Some 3600),
                          userSessionsKey u \<mapsto> (RSet (insert uuid (setAt ?m (userSessionsKey u))), Some 3600)) \<and>
                 card (liveIds ?m u) < 3"
    have "liveIds ?m' u' \<subseteq> (if u' = u then insert uuid (liveIds ?m u) else liveIds ?m u')"
      using new fresh by (auto simp: liveIds_def setAt_upd sessionAt_upd split: if_splits)
    then have "card (liveIds ?m' u') \<le> card (if u' = u then insert uuid (liveIds ?m u) else liveIds ?m u')"
      by (intro card_mono) (simp_all add: finite_live)
    also have "\<dots> \<le> 3" using new le [of u'] by (simp add: card_insert_if finite_live)
    finally show ?thesis .
  qed (simp add: le)
qed

lemma tick_inv:
  assumes "voiceInv now (look r)"
  shows "voiceInv (now + 1000 * int d) (look (adv d r))"
    and "setAt (look (adv d r)) k \<subseteq> setAt (look r) k"
    and "liveIds (look (adv d r)) u \<subseteq> liveIds (look r) u"
proof -
  show "voiceInv (now + 1000 * int d) (look (adv d r))"
    using assms by (fastforce simp: voiceInv_def vadv_look advEntry_def sessionOk_def of_nat_diff algebra_simps
        split: option.splits if_splits)
  have "setAt (look (adv d r)) k \<subseteq> setAt (look r) k" "sessionAt (look (adv d r)) k \<noteq> None \<Longrightarrow> sessionAt (look r) k \<noteq> None" for k
    by (auto simp: setAt_def sessionAt_def vadv_look advEntry_def split: option.splits if_splits)
  then show "setAt (look (adv d r)) k \<subseteq> setAt (look r) k" "liveIds (look (adv d r)) u \<subseteq> liveIds (look r) u"
    by (auto simp: liveIds_def)
qed

end

fun createdIds :: "voiceOp list \<Rightarrow> string list" where
  "createdIds [] = []"
| "createdIds (VCreate uuid u c w m # ops) = uuid # createdIds ops"
| "createdIds (_ # ops) = createdIds ops"

context voice_store
begin

lemma step_inv:
  assumes "voiceInv now (look r)" and "voiceStep D adv op (now, r) = (now', r')"
  shows "voiceInv now' (look r')"
    and "setAt (look r') (userSessionsKey u) \<subseteq> setAt (look r) (userSessionsKey u) \<union> set (createdIds [op])"
    and "\<lbrakk>\<And>v. setAt (look r) (userSessionsKey v) \<inter> set (createdIds [op]) = {}; \<And>v. card (liveIds (look r) v) \<le> 3\<rbrakk> \<Longrightarrow>
         card (liveIds (look r') u) \<le> 3"
proof -
  consider (create) uuid u c w m where "op = VCreate uuid u c w m" | (tick) d where "op = VTick d"
    | (other) "\<nexists>uuid u c w m. op = VCreate uuid u c w m" "\<nexists>d. op = VTick d" by blast
  then have "voiceInv now' (look r') \<and>
      setAt (look r') (userSessionsKey u) \<subseteq> setAt (look r) (userSessionsKey u) \<union> set (createdIds [op]) \<and>
      ((\<forall>v. setAt (look r) (userSessionsKey v) \<inter> set (createdIds [op]) = {}) \<longrightarrow> (\<forall>v. card (liveIds (look r) v) \<le> 3) \<longrightarrow>
       card (liveIds (look r') u) \<le> 3)"
  proof cases
    case create
    obtain res r1 where c: "createSession D uuid now u c w m r = (res, r1)" by (cases "createSession D uuid now u c w m r")
    from create_inv [OF assms(1) c] assms(2) create c show ?thesis by auto
  next
    case tick
    then have "now' = now + 1000 * int d" "r' = adv d r" using assms(2) by simp_all
    moreover have "card (liveIds (look (adv d r)) u) \<le> card (liveIds (look r) u)"
      by (rule card_mono [OF finite_live tick_inv(3) [OF assms(1)]])
    ultimately show ?thesis using tick_inv [OF assms(1), of d] by (auto intro: order_trans)
  next
    case other
    from step_keeps [OF assms(1) this] assms(2) have "now' = now" "keeps now (look r) (look r')" by auto
    moreover from this(2) have "card (liveIds (look r') u) \<le> card (liveIds (look r) u)"
      by (intro card_mono finite_live) (simp add: keeps_def)
    ultimately show ?thesis by (auto simp: keeps_def intro: order_trans)
  qed
  then show "voiceInv now' (look r')"
    "setAt (look r') (userSessionsKey u) \<subseteq> setAt (look r) (userSessionsKey u) \<union> set (createdIds [op])"
    "\<lbrakk>\<And>v. setAt (look r) (userSessionsKey v) \<inter> set (createdIds [op]) = {}; \<And>v. card (liveIds (look r) v) \<le> 3\<rbrakk> \<Longrightarrow>
         card (liveIds (look r') u) \<le> 3" by blast+
qed

lemma run_inv:
  "voiceInv now (look r) \<Longrightarrow> voiceInv (fst (voiceRun D adv ops (now, r))) (look (snd (voiceRun D adv ops (now, r))))"
proof (induction ops arbitrary: now r)
  case (Cons op ops)
  obtain now1 r1 where s: "voiceStep D adv op (now, r) = (now1, r1)" by (cases "voiceStep D adv op (now, r)")
  from Cons.IH [OF step_inv(1) [OF Cons.prems s]] s show ?case by (simp add: voiceRun_def)
qed (simp add: voiceRun_def)

lemma run_limit:
  assumes "voiceInv now (look r)" and "\<And>v. setAt (look r) (userSessionsKey v) \<inter> set (createdIds ops) = {}"
    and "\<And>v. card (liveIds (look r) v) \<le> 3" and "distinct (createdIds ops)"
  shows "card (liveIds (look (snd (voiceRun D adv ops (now, r)))) u) \<le> 3"
  using assms
proof (induction ops arbitrary: now r)
  case (Cons op ops)
  obtain now1 r1 where s: "voiceStep D adv op (now, r) = (now1, r1)" by (cases "voiceStep D adv op (now, r)")
  note st = step_inv [OF Cons.prems(1) s]
  have split: "createdIds (op # ops) = createdIds [op] @ createdIds ops" by (cases op) simp_all
  have "setAt (look r1) (userSessionsKey v) \<inter> set (createdIds ops) = {}" for v
    using st(2) [of v] Cons.prems(2) [of v] Cons.prems(4) unfolding split by auto
  moreover have "card (liveIds (look r1) v) \<le> 3" for v
    using Cons.prems(2,3) unfolding split by (intro st(3)) auto
  ultimately have "card (liveIds (look (snd (voiceRun D adv ops (now1, r1)))) u) \<le> 3"
    using Cons.prems(4) unfolding split by (intro Cons.IH st(1)) auto
  with s show ?case by (simp add: voiceRun_def)
qed (simp add: voiceRun_def)

lemma prefix_key: "startsWith SESSION_PREFIX k \<Longrightarrow> sessionKey (drop (length SESSION_PREFIX) k) = k"
  unfolding startsWith_def sessionKey_def by (metis append_take_drop_id)

lemma terminate_sessions:
  assumes "getSession D sid r = Some s"
  shows "sessionAt (look (snd (terminateSession D sid r))) k = (if k = sessionKey sid then None else sessionAt (look r) k)"
proof -
  have notset: "sessionAt m k0 = None" if "sid \<in> setAt m k0" for m k0
    using that by (auto simp: setAt_def sessionAt_def split: option.splits rval.splits)
  have rem: "sessionAt (look (removeUserSession D u sid r0)) k = sessionAt (look r0) k" for u r0
    using notset [of "look r0" "userSessionsKey u"]
    by (simp add: removeUserSession_def sRem_look sessionAt_upd) (simp add: sessionAt_def)
  have clr: "sessionAt (look (clearUserActiveSessionIfMatches D u sid r0)) k = sessionAt (look r0) k" for u r0
    by (simp add: clearUserActiveSessionIfMatches_def getUserActiveSession_def deleteUserActiveSession_def vdel_look
        text_look sessionAt_upd) (auto simp: textAt_def sessionAt_def split: option.splits rval.splits)
  show ?thesis using assms by (simp add: terminateSession_def clr rem vdel_look sessionAt_upd) (simp add: sessionAt_def)
qed

lemma cleanupLoop_exact:
  assumes "\<forall>k \<in> set ks. startsWith SESSION_PREFIX k"
  shows "fst (cleanupLoop D dead ks r) = card {k \<in> set ks. \<exists>s. sessionAt (look r) k = Some s \<and> dead s} \<and>
    (\<forall>k. sessionAt (look (snd (cleanupLoop D dead ks r))) k =
       (case sessionAt (look r) k of None \<Rightarrow> None | Some s \<Rightarrow> if k \<in> set ks \<and> dead s then None else Some s))"
  using assms
proof (induction ks arbitrary: r)
  case (Cons k ks)
  let ?dead = "\<lambda>r ks. {k \<in> set ks. \<exists>s. sessionAt (look r) k = Some s \<and> dead s}"
  show ?case
  proof (cases "\<exists>s. sessionAt (look r) k = Some s \<and> dead s")
    case True
    then obtain s where s: "sessionAt (look r) k = Some s" "dead s" by blast
    let ?sid = "drop (length SESSION_PREFIX) k" and ?r1 = "snd (terminateSession D (drop (length SESSION_PREFIX) k) r)"
    have k: "sessionKey ?sid = k" using Cons.prems by (simp add: prefix_key)
    have "getSession D ?sid r = Some s" using s(1) by (simp add: getSession_def session_look k)
    note t = terminate_sessions [OF this, unfolded k]
    have set: "?dead r (k # ks) = insert k (?dead ?r1 ks)" "k \<notin> ?dead ?r1 ks" using s by (auto simp: t)
    have "fst (cleanupLoop D dead (k # ks) r) = Suc (card (?dead ?r1 ks))"
      using Cons s by (simp add: session_look case_prod_beta)
    with set have "fst (cleanupLoop D dead (k # ks) r) = card (?dead r (k # ks))" by simp
    moreover have "sessionAt (look (snd (cleanupLoop D dead (k # ks) r))) k' =
        (case sessionAt (look r) k' of None \<Rightarrow> None | Some s \<Rightarrow> if k' \<in> set (k # ks) \<and> dead s then None else Some s)" for k'
      using Cons s by (simp add: session_look case_prod_beta t split: option.split)
    ultimately show ?thesis by blast
  next
    case False
    then have skip: "cleanupLoop D dead (k # ks) r = cleanupLoop D dead ks r"
      by (auto simp: session_look split: option.split)
    have "?dead r (k # ks) = ?dead r ks" using False by auto
    with Cons False show ?thesis unfolding skip by (auto split: option.split)
  qed
qed (simp split: option.split)

lemma cleanupLoop_none:
  "(\<And>k s. sessionAt (look r) k = Some s \<Longrightarrow> \<not> dead s) \<Longrightarrow> cleanupLoop D dead ks r = (0, r)"
  by (induction ks) (simp_all add: session_look split: option.split)

lemma expired_none:
  assumes "voiceInv now (look r)"
  shows "cleanupExpiredSessions D now r = (0, r)"
  unfolding cleanupExpiredSessions_def
proof (rule cleanupLoop_none)
  fix k s assume "sessionAt (look r) k = Some s"
  with assms obtain e where "sessionOk now e s" by (auto simp: sessionAt_Some voiceInv_def)
  then show "\<not> expiredSession now s" by (auto simp: sessionOk_def expiredSession_def)
qed

lemma stale_exact:
  assumes "voiceInv now (look r)"
  shows "fst (cleanupStaleSessions D now r) = card {sid. \<exists>s. getSession D sid r = Some s \<and> 60000 < now - lastPingMs s}"
    and "getSession D sid (snd (cleanupStaleSessions D now r)) =
      (case getSession D sid r of None \<Rightarrow> None | Some s \<Rightarrow> if 60000 < now - lastPingMs s then None else Some s)"
proof -
  let ?ks = "vrScan D SESSION_PREFIX r"
  have ks: "\<forall>k \<in> set ?ks. startsWith SESSION_PREFIX k" using scan_look by simp
  have key: "sessionKey sid \<in> set ?ks" if "getSession D sid r = Some s" for sid s
    using that by (auto simp: scan_look getSession_look startsWith_def sessionKey_def)
  have dead: "staleSession now s \<longleftrightarrow> 60000 < now - lastPingMs s" if "getSession D sid r = Some s" for sid s
    using getSession_ok(2) [OF assms that] by (auto simp: staleSession_def sessionOk_def HEARTBEAT_TIMEOUT_MS_def)
  have at: "sessionAt (look r) (sessionKey sid) = getSession D sid r" for sid by (simp add: getSession_def session_look)
  have "{k \<in> set ?ks. \<exists>s. sessionAt (look r) k = Some s \<and> staleSession now s} =
      sessionKey ` {sid. \<exists>s. getSession D sid r = Some s \<and> 60000 < now - lastPingMs s}"
  proof (intro equalityI subsetI)
    fix k assume "k \<in> {k \<in> set ?ks. \<exists>s. sessionAt (look r) k = Some s \<and> staleSession now s}"
    then obtain s where "k \<in> set ?ks" "sessionAt (look r) k = Some s" "staleSession now s" by blast
    moreover from this(1) obtain sid where "k = sessionKey sid" using ks prefix_key by metis
    ultimately have "k = sessionKey sid" "getSession D sid r = Some s" "staleSession now s" using at by simp_all
    with dead show "k \<in> sessionKey ` {sid. \<exists>s. getSession D sid r = Some s \<and> 60000 < now - lastPingMs s}" by auto
  qed (use key dead at in auto)
  then show "fst (cleanupStaleSessions D now r) = card {sid. \<exists>s. getSession D sid r = Some s \<and> 60000 < now - lastPingMs s}"
    using cleanupLoop_exact [OF ks] by (simp add: cleanupStaleSessions_def card_image inj_on_def)
  show "getSession D sid (snd (cleanupStaleSessions D now r)) =
      (case getSession D sid r of None \<Rightarrow> None | Some s \<Rightarrow> if 60000 < now - lastPingMs s then None else Some s)"
    using cleanupLoop_exact [OF ks, of "staleSession now" r] key dead
    by (auto simp: cleanupStaleSessions_def getSession_def session_look split: option.split)
qed

end

end
