(* ===== verification/Voice_Limits.thy ===== *)
theory Voice_Limits
  imports Voice_Session_Props
begin

text \<open>
  The properties of the voice session service, stated for every store that satisfies the laws of
  \<open>voice_store\<close>, and a run in which the limit of sessions per user is lost.
\<close>

section \<open>A user who stays connected\<close>

definition pingRound :: "string list \<Rightarrow> voiceOp list" where
  "pingRound ids = VTick 30 # map VPing ids @ [VCleanup]"

text \<open>The sessions \<open>ids\<close> of the user are the only ones, and each has just been pinged.\<close>

definition readyAt :: "string \<Rightarrow> vstate \<Rightarrow> string \<Rightarrow> bool" where
  "readyAt u m x \<longleftrightarrow> (\<exists>s e. m (sessionKey x) = Some (RSession s, e) \<and> v_id s = x \<and> v_userId s = u \<and> v_ttl s = 3600)"

definition pingedAt :: "string \<Rightarrow> date \<Rightarrow> vstate \<Rightarrow> string \<Rightarrow> bool" where
  "pingedAt u now m x \<longleftrightarrow>
     (\<exists>s. m (sessionKey x) = Some (RSession s, Some 3600) \<and> v_id s = x \<and> v_userId s = u \<and> v_ttl s = 3600 \<and>
        lastPingMs s = now \<and> v_lastActivityAt s = now)"

definition onlySessions :: "vstate \<Rightarrow> string set \<Rightarrow> bool" where
  "onlySessions m X \<longleftrightarrow> (\<forall>k s. sessionAt m k = Some s \<longrightarrow> k \<in> sessionKey ` X)"

lemma pinged_ready: "pingedAt u now m x \<Longrightarrow> readyAt u m x"
  by (auto simp: pingedAt_def readyAt_def)

context voice_store
begin

lemma ping_one:
  assumes "readyAt u (look r) x"
  obtains s' where "look (snd (updateLastPingAt D now x r)) = (look r)(sessionKey x \<mapsto> (RSession s', Some 3600))"
    and "v_id s' = x" "v_userId s' = u" "v_ttl s' = 3600" "lastPingMs s' = now" "v_lastActivityAt s' = now"
proof -
  from assms obtain s e where s: "look r (sessionKey x) = Some (RSession s, e)" "v_id s = x" "v_userId s = u" "v_ttl s = 3600"
    by (auto simp: readyAt_def)
  then have "getSession D x r = Some s" by (simp add: getSession_look)
  with s show thesis
    by (intro that [of "s\<lparr>v_lastPingAt := Some now, v_lastActivityAt := now\<rparr>"]) (simp_all add: updateLastPingAt_def save_look)
qed

lemma pings:
  assumes "\<And>x. x \<in> X \<Longrightarrow> readyAt u (look r) x" and "set ps \<subseteq> X" and "onlySessions (look r) X"
  shows "\<exists>r'. fold (voiceStep D adv) (map VPing ps) (now, r) = (now, r') \<and> look r' (userSessionsKey u) = look r (userSessionsKey u) \<and>
     onlySessions (look r') X \<and> (\<forall>x \<in> X. readyAt u (look r') x) \<and>
     (\<forall>x. x \<in> set ps \<or> pingedAt u now (look r) x \<longrightarrow> pingedAt u now (look r') x)"
  using assms
proof (induction ps arbitrary: r)
  case (Cons p ps)
  let ?r1 = "snd (updateLastPingAt D now p r)"
  obtain s' where s': "look ?r1 = (look r)(sessionKey p \<mapsto> (RSession s', Some 3600))"
    "v_id s' = p" "v_userId s' = u" "v_ttl s' = 3600" "lastPingMs s' = now" "v_lastActivityAt s' = now"
    using Cons.prems(1,2) ping_one [of u r p now] by auto
  have r: "\<And>x. x \<in> X \<Longrightarrow> readyAt u (look ?r1) x" using Cons.prems(1) s' by (auto simp: readyAt_def)
  have o: "onlySessions (look ?r1) X" using Cons.prems(2,3) s'(1) by (auto simp: onlySessions_def sessionAt_upd split: if_splits)
  have p: "pingedAt u now (look ?r1) p" "\<And>x. pingedAt u now (look r) x \<Longrightarrow> pingedAt u now (look ?r1) x"
    using s' by (auto simp: pingedAt_def)
  have i: "look ?r1 (userSessionsKey u) = look r (userSessionsKey u)" using s'(1) by simp
  have "set ps \<subseteq> X" using Cons.prems(2) by simp
  from Cons.IH [OF r this o] p i show ?case by auto
qed (use assms in auto)

lemma pingRound_step:
  assumes "\<And>x. x \<in> set ids \<Longrightarrow> pingedAt u now (look r) x" and "onlySessions (look r) (set ids)"
  shows "\<exists>r'. voiceRun D adv (pingRound ids) (now, r) = (now + 30000, r') \<and>
     look r' (userSessionsKey u) = advEntry 30 (look r (userSessionsKey u)) \<and>
     onlySessions (look r') (set ids) \<and> (\<forall>x \<in> set ids. pingedAt u (now + 30000) (look r') x)"
proof -
  let ?r1 = "adv 30 r" and ?now = "now + 30000"
  have r1: "readyAt u (look ?r1) x" if "x \<in> set ids" for x
    using assms(1) [OF that] by (auto simp: pingedAt_def readyAt_def vadv_look advEntry_def)
  have o1: "onlySessions (look ?r1) (set ids)"
    unfolding onlySessions_def
  proof (intro allI impI)
    fix k s assume "sessionAt (look ?r1) k = Some s"
    then have "sessionAt (look r) k = Some s"
      by (auto simp: sessionAt_def vadv_look advEntry_def split: option.splits if_splits)
    with assms(2) show "k \<in> sessionKey ` set ids" by (auto simp: onlySessions_def)
  qed
  obtain r2 where r2: "fold (voiceStep D adv) (map VPing ids) (?now, ?r1) = (?now, r2)"
    "look r2 (userSessionsKey u) = look ?r1 (userSessionsKey u)" "onlySessions (look r2) (set ids)"
    "\<forall>x \<in> set ids. pingedAt u ?now (look r2) x"
    using pings [of "set ids" u ?r1 ids ?now] r1 o1 by auto
  have idle: "\<not> staleSession ?now s \<and> \<not> expiredSession ?now s" if s: "sessionAt (look r2) k = Some s" for k s
  proof -
    from r2(3) s obtain x where "x \<in> set ids" "k = sessionKey x" by (auto simp: onlySessions_def)
    with r2(4) s have "lastPingMs s = ?now" "v_lastActivityAt s = ?now" by (auto simp: pingedAt_def sessionAt_def)
    then show ?thesis by (simp add: staleSession_def expiredSession_def HEARTBEAT_TIMEOUT_MS_def)
  qed
  have "cleanupStaleSessions D ?now r2 = (0, r2)" "cleanupExpiredSessions D ?now r2 = (0, r2)"
    unfolding cleanupStaleSessions_def cleanupExpiredSessions_def using idle by (auto intro: cleanupLoop_none)
  then have "performCleanup D ?now r2 = r2" by (simp add: performCleanup_def triggerCleanup_def)
  then have "voiceRun D adv (pingRound ids) (now, r) = (?now, r2)" using r2(1) by (simp add: voiceRun_def pingRound_def)
  with r2 show ?thesis by (simp add: vadv_look)
qed

lemma voiceRun_append: "voiceRun D adv (xs @ ys) s = voiceRun D adv ys (voiceRun D adv xs s)"
  by (simp add: voiceRun_def)

text \<open>After \<open>n\<close> rounds the index has lost \<open>30 n\<close> seconds, and the sessions none.\<close>

lemma pingRounds:
  assumes "\<And>x. x \<in> set ids \<Longrightarrow> pingedAt u now (look r) x" and "onlySessions (look r) (set ids)"
    and "look r (userSessionsKey u) = Some (RSet A, Some 3600)" and "n \<le> 120"
  shows "\<exists>r'. voiceRun D adv (concat (replicate n (pingRound ids))) (now, r) = (now + 30000 * int n, r') \<and>
     look r' (userSessionsKey u) = (if n < 120 then Some (RSet A, Some (3600 - 30 * n)) else None) \<and>
     onlySessions (look r') (set ids) \<and> (\<forall>x \<in> set ids. pingedAt u (now + 30000 * int n) (look r') x)"
  using assms(4)
proof (induction n)
  case 0
  then show ?case using assms by (simp add: voiceRun_def)
next
  case (Suc n)
  then obtain r1 where r1: "voiceRun D adv (concat (replicate n (pingRound ids))) (now, r) = (now + 30000 * int n, r1)"
    "look r1 (userSessionsKey u) = Some (RSet A, Some (3600 - 30 * n))" "onlySessions (look r1) (set ids)"
    "\<forall>x \<in> set ids. pingedAt u (now + 30000 * int n) (look r1) x" by auto
  obtain r2 where r2: "voiceRun D adv (pingRound ids) (now + 30000 * int n, r1) = (now + 30000 * int (Suc n), r2)"
    "look r2 (userSessionsKey u) = advEntry 30 (look r1 (userSessionsKey u))"
    "onlySessions (look r2) (set ids)" "\<forall>x \<in> set ids. pingedAt u (now + 30000 * int (Suc n)) (look r2) x"
    using pingRound_step [of ids u "now + 30000 * int n" r1] r1(3,4) by (auto simp: algebra_simps)
  have "concat (replicate (Suc n) (pingRound ids)) = concat (replicate n (pingRound ids)) @ pingRound ids"
    by (induction n) simp_all
  with r1 r2 Suc.prems show ?case by (auto simp: voiceRun_append advEntry_def)
qed

lemma create_new:
  assumes "look r (userSessionsKey u) = None \<or> (\<exists>A e. look r (userSessionsKey u) = Some (RSet A, e) \<and> finite A \<and> card A < 3)"
  shows "\<exists>r'. voiceStep D adv (VCreate x u c w m) (now, r) = (now, r') \<and>
     look r' = (look r)(sessionKey x \<mapsto> (RSession (newVoiceSession x now u c w m), Some 3600),
        userSessionsKey u \<mapsto> (RSet (insert x (setAt (look r) (userSessionsKey u))), Some 3600))"
proof -
  obtain res r' where c: "createSession D x now u c w m r = (res, r')" by (cases "createSession D x now u c w m r")
  have "liveIds (look r) u \<subseteq> setAt (look r) (userSessionsKey u)" by (auto simp: liveIds_def)
  moreover have "finite (setAt (look r) (userSessionsKey u))" "card (setAt (look r) (userSessionsKey u)) < 3"
    using assms by (auto simp: setAt_def)
  ultimately have "card (liveIds (look r) u) < 3" using card_mono le_less_trans by blast
  with create_look [OF c] c show ?thesis by auto
qed

lemma creates_three:
  assumes "\<And>k. look r k = None" and "distinct [a, b, d]"
  shows "\<exists>r'. voiceRun D adv [VCreate a u c w m, VCreate b u c w m, VCreate d u c w m] (now, r) = (now, r') \<and>
     look r' (userSessionsKey u) = Some (RSet {a, b, d}, Some 3600) \<and> onlySessions (look r') (set [a, b, d]) \<and>
     (\<forall>x \<in> set [a, b, d]. pingedAt u now (look r') x)"
proof -
  obtain r1 where r1: "voiceStep D adv (VCreate a u c w m) (now, r) = (now, r1)"
    "look r1 = [sessionKey a \<mapsto> (RSession (newVoiceSession a now u c w m), Some 3600), userSessionsKey u \<mapsto> (RSet {a}, Some 3600)]"
    using create_new [of r u a c w m now] assms(1) by (auto simp: setAt_def fun_eq_iff)
  obtain r2 where r2: "voiceStep D adv (VCreate b u c w m) (now, r1) = (now, r2)"
    "look r2 = (look r1)(sessionKey b \<mapsto> (RSession (newVoiceSession b now u c w m), Some 3600),
       userSessionsKey u \<mapsto> (RSet {b, a}, Some 3600))"
    using create_new [of r1 u b c w m now] r1(2) by (auto simp: setAt_def)
  obtain r3 where r3: "voiceStep D adv (VCreate d u c w m) (now, r2) = (now, r3)"
    "look r3 = (look r2)(sessionKey d \<mapsto> (RSession (newVoiceSession d now u c w m), Some 3600),
       userSessionsKey u \<mapsto> (RSet {d, b, a}, Some 3600))"
    using create_new [of r2 u d c w m now] r2(2) assms(2) by (auto simp: setAt_def)
  have "onlySessions (look r3) {a, b, d}"
    using r1(2) r2(2) r3(2) by (auto simp: onlySessions_def sessionAt_def split: if_splits option.splits rval.splits)
  moreover have "\<forall>x \<in> {a, b, d}. pingedAt u now (look r3) x"
    using r1(2) r2(2) r3(2) assms(2) by (auto simp: pingedAt_def newVoiceSession_def lastPingMs_def)
  ultimately show ?thesis using r1(1) r2(1) r3 by (auto simp: voiceRun_def)
qed

end

section \<open>Properties\<close>

definition emptyVoice :: "('r \<Rightarrow> vstate) \<Rightarrow> 'r \<Rightarrow> bool" where
  "emptyVoice look r \<longleftrightarrow> (\<forall>k. look r k = None)"

lemma emptyVoice_inv: "emptyVoice look r \<Longrightarrow> voiceInv now (look r)"
  by (simp add: emptyVoice_def voiceInv_def)

lemma memVoice_empty: "emptyVoice mlook []"
  by (simp add: emptyVoice_def mlook_def)

text \<open>
  C25. The stored sessions are well formed. In every run that starts from an empty store, the session
  found under an id has that id, is in none of the states STALE and TERMINATED, its dates are in order,
  its messages are in the order of their times and fall between its creation and its last activity,
  and its last activity is less than an hour ago; the cleanup of expired sessions therefore finds
  nothing and changes nothing.
\<close>

theorem voice_sessions_wf:
  assumes "voice_store D look adv" and "emptyVoice look r0" and "voiceRun D adv ops (t0, r0) = (now, r)"
    and "getSession D sid r = Some s"
  shows "v_id s = sid \<and> v_state s \<noteq> STALE \<and> v_state s \<noteq> TERMINATED \<and>
    v_createdAt s \<le> lastPingMs s \<and> lastPingMs s \<le> v_lastActivityAt s \<and>
    v_lastActivityAt s \<le> now \<and> now < v_lastActivityAt s + 3600000 \<and>
    sorted (map vm_timestamp (v_messages s)) \<and>
    (\<forall>m \<in> set (v_messages s). v_createdAt s \<le> vm_timestamp m \<and> vm_timestamp m \<le> v_lastActivityAt s) \<and>
    cleanupExpiredSessions D now r = (0, r)"
proof -
  have inv: "voiceInv now (look r)"
    using voice_store.run_inv [OF assms(1) emptyVoice_inv [OF assms(2)], of ops t0] assms(3) by simp
  obtain e where "sessionOk now e s" using voice_store.getSession_ok(2) [OF assms(1) inv assms(4)] by blast
  then show ?thesis
    using voice_store.getSession_ok(1) [OF assms(1) inv assms(4)] voice_store.expired_none [OF assms(1) inv]
    by (auto simp: sessionOk_def)
qed

theorem voice_sessions_wf_witness:
  "\<exists>now r s. voiceRun memVoice memTick [VCreate ''s1'' ''alice'' GENERAL None None, VTick 10, VState ''s1'' LISTENING,
       VMessage ''m1'' ''s1'' ''hello'' True None, VTick 5, VPing ''s1''] (0, []) = (now, r) \<and>
     getSession memVoice ''s1'' r = Some s \<and> length (v_messages s) = 1 \<and> v_lastActivityAt s \<le> now"
proof -
  let ?ops = "[VCreate ''s1'' ''alice'' GENERAL None None, VTick 10, VState ''s1'' LISTENING,
       VMessage ''m1'' ''s1'' ''hello'' True None, VTick 5, VPing ''s1'']"
  obtain now r where run: "voiceRun memVoice memTick ?ops (0, []) = (now, r)" by (cases "voiceRun memVoice memTick ?ops (0, [])")
  have "case voiceRun memVoice memTick ?ops (0, []) of (now, r) \<Rightarrow>
      (case getSession memVoice ''s1'' r of None \<Rightarrow> False | Some s \<Rightarrow> length (v_messages s) = 1)" by code_simp
  with run obtain s where s: "getSession memVoice ''s1'' r = Some s" "length (v_messages s) = 1"
    by (auto split: option.splits)
  from voice_sessions_wf [OF memv.voice_store_axioms memVoice_empty run s(1)] run s show ?thesis by blast
qed

text \<open>
  C26. The limit of sessions. In every run that starts from an empty store and creates each session
  under a new id, a user never has more than three sessions that the index of the user names.
\<close>

theorem session_limit:
  assumes "voice_store D look adv" and "emptyVoice look r0" and "distinct (createdIds ops)"
  shows "length (getUserActiveSessions D u (snd (voiceRun D adv ops (t0, r0)))) \<le> MAX_SESSIONS_PER_USER"
  using voice_store.run_limit [OF assms(1) emptyVoice_inv [OF assms(2)], of ops t0 u] assms(2,3)
  by (simp add: voice_store.active_count [OF assms(1)] MAX_SESSIONS_PER_USER_def emptyVoice_def liveIds_def setAt_def)

theorem session_limit_witness:
  "length (getUserActiveSessions memVoice ''alice'' (snd (voiceRun memVoice memTick
     [VCreate ''a'' ''alice'' GENERAL None None, VCreate ''b'' ''alice'' GENERAL None None,
      VCreate ''c'' ''alice'' TRADING None None, VCreate ''d'' ''alice'' TRADING None None] (0, [])))) \<le> MAX_SESSIONS_PER_USER"
  by (rule session_limit [OF memv.voice_store_axioms memVoice_empty]) simp

text \<open>
  The index expires before the sessions. It is only refreshed when a session is created, while every
  ping gives a session another hour: three sessions that are pinged every half minute, with the cleanup
  running as often, are all alive after an hour, but the index has gone, so that a fourth session
  is created and the user has four.
\<close>

theorem session_limit_escapes:
  assumes "voice_store D look adv" and "emptyVoice look r0" and "distinct [a, b, c, d]"
    and "r = snd (voiceRun D adv ([VCreate a u ctx w m, VCreate b u ctx w m, VCreate c u ctx w m] @
               concat (replicate 120 (pingRound [a, b, c])) @ [VCreate d u ctx w m]) (t0, r0))"
  shows "\<forall>x \<in> {a, b, c, d}. \<exists>s. getSession D x r = Some s \<and> v_userId s = u"
proof -
  have empty: "\<And>k. look r0 k = None" using assms(2) by (simp add: emptyVoice_def)
  have abc: "distinct [a, b, c]" using assms(3) by auto
  obtain r1 where r1: "voiceRun D adv [VCreate a u ctx w m, VCreate b u ctx w m, VCreate c u ctx w m] (t0, r0) = (t0, r1)"
    "look r1 (userSessionsKey u) = Some (RSet {a, b, c}, Some 3600)" "onlySessions (look r1) (set [a, b, c])"
    "\<forall>x \<in> set [a, b, c]. pingedAt u t0 (look r1) x"
    using voice_store.creates_three [OF assms(1), of r0 a b c u ctx w m t0] empty abc by blast
  obtain r2 where r2: "voiceRun D adv (concat (replicate 120 (pingRound [a, b, c]))) (t0, r1) = (t0 + 3600000, r2)"
    "look r2 (userSessionsKey u) = None" "\<forall>x \<in> set [a, b, c]. pingedAt u (t0 + 3600000) (look r2) x"
    using voice_store.pingRounds [OF assms(1), of "[a, b, c]" u t0 r1 "{a, b, c}" 120] r1 by auto
  obtain r3 where r3: "voiceStep D adv (VCreate d u ctx w m) (t0 + 3600000, r2) = (t0 + 3600000, r3)"
    "look r3 = (look r2)(sessionKey d \<mapsto> (RSession (newVoiceSession d (t0 + 3600000) u ctx w m), Some 3600),
        userSessionsKey u \<mapsto> (RSet (insert d (setAt (look r2) (userSessionsKey u))), Some 3600))"
    using voice_store.create_new [OF assms(1), of r2 u d ctx w m "t0 + 3600000"] r2(2) by blast
  have "r = r3" using assms(4) r1(1) r2(1) r3(1) by (simp add: voice_store.voiceRun_append [OF assms(1)] voiceRun_def)
  then show ?thesis
    using r2(3) r3(2) assms(3)
    by (auto simp: voice_store.getSession_look [OF assms(1)] pingedAt_def newVoiceSession_def)
qed

theorem session_limit_escapes_witness:
  "\<exists>s. getSession memVoice ''d''
     (snd (voiceRun memVoice memTick
       ([VCreate ''a'' ''u'' GENERAL None None, VCreate ''b'' ''u'' GENERAL None None, VCreate ''c'' ''u'' GENERAL None None] @
        concat (replicate 120 (pingRound [''a'', ''b'', ''c''])) @ [VCreate ''d'' ''u'' GENERAL None None]) (0, []))) = Some s \<and>
     v_userId s = ''u''"
  by (rule bspec [OF session_limit_escapes [OF memv.voice_store_axioms memVoice_empty _ refl]]) simp_all

text \<open>
  C27. The heartbeat cleanup is exact: in every run it ends the sessions that have not been pinged, or
  not been created, within the last minute, reports how many they are, and leaves the others as they
  are.
\<close>

theorem stale_cleanup_exact:
  assumes "voice_store D look adv" and "emptyVoice look r0" and "voiceRun D adv ops (t0, r0) = (now, r)"
  shows "fst (cleanupStaleSessions D now r) = card {sid. \<exists>s. getSession D sid r = Some s \<and> 60000 < now - lastPingMs s} \<and>
    getSession D sid (snd (cleanupStaleSessions D now r)) =
      (case getSession D sid r of None \<Rightarrow> None | Some s \<Rightarrow> if 60000 < now - lastPingMs s then None else Some s)"
proof -
  have "voiceInv now (look r)"
    using voice_store.run_inv [OF assms(1) emptyVoice_inv [OF assms(2)], of ops t0] assms(3) by simp
  from voice_store.stale_exact [OF assms(1) this] show ?thesis by blast
qed

theorem stale_cleanup_exact_witness:
  "\<exists>now r. voiceRun memVoice memTick [VCreate ''a'' ''alice'' GENERAL None None, VCreate ''b'' ''alice'' GENERAL None None,
       VTick 50, VPing ''b'', VTick 20] (0, []) = (now, r) \<and> getSession memVoice ''a'' r \<noteq> None \<and>
     getSession memVoice ''a'' (snd (cleanupStaleSessions memVoice now r)) = None"
proof -
  let ?ops = "[VCreate ''a'' ''alice'' GENERAL None None, VCreate ''b'' ''alice'' GENERAL None None,
       VTick 50, VPing ''b'', VTick 20]"
  obtain now r where run: "voiceRun memVoice memTick ?ops (0, []) = (now, r)" by (cases "voiceRun memVoice memTick ?ops (0, [])")
  have "case voiceRun memVoice memTick ?ops (0, []) of (now, r) \<Rightarrow>
      (case getSession memVoice ''a'' r of None \<Rightarrow> False | Some s \<Rightarrow> 60000 < now - lastPingMs s)" by code_simp
  with run obtain s where s: "getSession memVoice ''a'' r = Some s" "60000 < now - lastPingMs s"
    by (auto split: option.splits)
  from stale_cleanup_exact [OF memv.voice_store_axioms memVoice_empty run, of "''a''"] run s show ?thesis by auto
qed

end
