(* ===== verification/Redis_Keys.thy ===== *)
theory Redis_Keys
  imports Redis "HOL-Library.AList"
begin

text \<open>
  The \<^verbatim>\<open>KEYS\<close> command of Redis beside the operations of \<open>redis_kv\<close>: the locale \<open>redis_keys\<close> extends that interface
  by a listing of the keys that match a glob pattern. Patterns use \<^verbatim>\<open>*\<close> and \<^verbatim>\<open>?\<close>; nothing is said of patterns with
  brackets or backslashes. The association-list store satisfies the laws.
\<close>

fun globMatch :: "string \<Rightarrow> string \<Rightarrow> bool" where
  "globMatch [] s = (s = [])"
| "globMatch (c # p) [] = (c = CHR ''*'' \<and> globMatch p [])"
| "globMatch (c # p) (x # s) =
     (if c = CHR ''*'' then globMatch p (x # s) \<or> globMatch (c # p) s
      else (c = CHR ''?'' \<or> c = x) \<and> globMatch p s)"

definition plainPattern :: "string \<Rightarrow> bool" where
  "plainPattern p \<longleftrightarrow> CHR ''['' \<notin> set p \<and> CHR 0x5C \<notin> set p"

definition literalPart :: "string \<Rightarrow> bool" where
  "literalPart p \<longleftrightarrow> CHR ''*'' \<notin> set p \<and> CHR ''?'' \<notin> set p"

lemma globMatch_star: "globMatch ''*'' s"
  by (induction s) auto

lemma globMatch_prefix: "literalPart p \<Longrightarrow> globMatch (p @ ''*'') s \<longleftrightarrow> startsWith p s"
proof (induction p arbitrary: s)
  case Nil
  show ?case by (simp add: globMatch_star startsWith_def)
next
  case (Cons c p)
  then show ?case by (cases s) (auto simp: literalPart_def startsWith_def)
qed

locale redis_keys = redis_kv D look adv
  for D :: "'r redis" and look :: "'r \<Rightarrow> kvstate" and adv :: "nat \<Rightarrow> 'r \<Rightarrow> 'r" +
  fixes keysOf :: "string \<Rightarrow> 'r \<Rightarrow> string list"
  assumes keys_look: "plainPattern p \<Longrightarrow> set (keysOf p r) = {k. look r k \<noteq> None \<and> globMatch p k} \<and> distinct (keysOf p r)"

definition delAll :: "'r redis \<Rightarrow> string list \<Rightarrow> 'r \<Rightarrow> 'r" where
  "delAll D keys r = fold (rdDel D) keys r"

context redis_kv
begin

lemma delAll_look: "look (delAll D ks r) k = (if k \<in> set ks then None else look r k)"
  unfolding delAll_def by (induction ks arbitrary: r) (auto simp: del_look)

end

section \<open>The store as a list\<close>

type_synonym kvlist = "(string \<times> string \<times> nat option) list"

definition listRedis :: "kvlist redis" where
  "listRedis =
     \<lparr>rdGet = (\<lambda>k r. map_option fst (map_of r k)),
      rdSetEx = (\<lambda>k n v r. (k, v, Some n) # AList.delete k r),
      rdSetNX = (\<lambda>k v n r. if map_of r k = None then (True, (k, v, Some n) # AList.delete k r) else (False, r)),
      rdDel = (\<lambda>k r. AList.delete k r),
      rdIncr = (\<lambda>k r. (Suc (numAt (map_of r) k),
                       (k, showNat (Suc (numAt (map_of r) k)), expiryAt (map_of r) k) # AList.delete k r)),
      rdExpire = (\<lambda>k n r. case map_of r k of None \<Rightarrow> r | Some (v, _) \<Rightarrow> (k, v, Some n) # AList.delete k r),
      rdTtl = (\<lambda>k r. case map_of r k of None \<Rightarrow> -2 | Some (_, None) \<Rightarrow> -1 | Some (_, Some n) \<Rightarrow> int n)\<rparr>"

fun listAdv :: "nat \<Rightarrow> kvlist \<Rightarrow> kvlist" where
  "listAdv d [] = []"
| "listAdv d ((k, e) # r) =
     (case advKey d (Some e) of None \<Rightarrow> AList.delete k (listAdv d r) | Some e' \<Rightarrow> (k, e') # listAdv d r)"

definition listKeys :: "string \<Rightarrow> kvlist \<Rightarrow> string list" where
  "listKeys p r = remdups (filter (globMatch p) (map fst r))"

lemma map_of_upd_delete: "map_of ((k, e) # AList.delete k r) = (map_of r)(k \<mapsto> e)"
  by (auto simp: delete_conv' fun_eq_iff)

lemma map_of_listAdv: "map_of (listAdv d r) k = advKey d (map_of r k)"
  by (induction d r rule: listAdv.induct) (auto simp: advKey_def delete_conv' split: option.splits)

interpretation lkv: redis_keys listRedis map_of listAdv listKeys
proof unfold_locales
  fix p and r :: kvlist
  show "set (listKeys p r) = {k. map_of r k \<noteq> None \<and> globMatch p k} \<and> distinct (listKeys p r)"
    by (auto simp: listKeys_def map_of_eq_None_iff)
qed (auto simp: listRedis_def map_of_upd_delete [simplified] delete_conv' map_of_listAdv fun_eq_iff split: option.splits)

end
