(* ===== verification/Voice_Llm.thy ===== *)
theory Voice_Llm
  imports Redis_Keys Complex_Main
begin

text \<open>
  The language-model pipeline of the voice module: the quotas (\<^verbatim>\<open>voice/services/quota.service.ts\<close>), the
  answer cache (\<^verbatim>\<open>llm-cache.service.ts\<close>) and the service that joins them (\<^verbatim>\<open>llm.service.ts\<close>). Redis and
  SHA-256 are parameters; \<open>le_keys\<close> is the \<^verbatim>\<open>KEYS\<close> command and \<open>le_tz\<close> the offset of the server's time
  zone, which \<^verbatim>\<open>new Date(y, m, 1)\<close> uses. The random choice of the mocked provider is an argument.
\<close>

record 'r llmEnv =
  le_redis :: "'r redis"
  le_keys :: "string \<Rightarrow> 'r \<Rightarrow> string list"
  le_sha256 :: "string \<Rightarrow> string"
  le_tz :: int

section \<open>Quotas\<close>

record QuotaConfig =
  qc_monthlyLimit :: nat
  qc_perSessionLimit :: nat
  qc_requestsPerMinute :: nat

record PartialQuotaConfig =
  pq_monthlyLimit :: "nat option"
  pq_perSessionLimit :: "nat option"
  pq_requestsPerMinute :: "nat option"

record QuotaStatus =
  qs_monthlyUsage :: nat
  qs_monthlyLimit :: nat
  qs_sessionUsage :: nat
  qs_sessionLimit :: nat
  qs_requestsThisMinute :: nat
  qs_requestsPerMinuteLimit :: nat

definition defaultConfig :: QuotaConfig where
  "defaultConfig = \<lparr>qc_monthlyLimit = 1000, qc_perSessionLimit = 100, qc_requestsPerMinute = 20\<rparr>"

definition noConfig :: PartialQuotaConfig where
  "noConfig = \<lparr>pq_monthlyLimit = None, pq_perSessionLimit = None, pq_requestsPerMinute = None\<rparr>"

definition mergeConfig :: "PartialQuotaConfig \<Rightarrow> QuotaConfig" where
  "mergeConfig config =
     \<lparr>qc_monthlyLimit = (case pq_monthlyLimit config of Some n \<Rightarrow> n | None \<Rightarrow> qc_monthlyLimit defaultConfig),
      qc_perSessionLimit = (case pq_perSessionLimit config of Some n \<Rightarrow> n | None \<Rightarrow> qc_perSessionLimit defaultConfig),
      qc_requestsPerMinute = (case pq_requestsPerMinute config of Some n \<Rightarrow> n | None \<Rightarrow> qc_requestsPerMinute defaultConfig)\<rparr>"

definition limitKey :: "string \<Rightarrow> string" where
  "limitKey userId = ''quota:monthly:'' @ userId @ '':limit''"

definition getMonthKey :: "string \<Rightarrow> date \<Rightarrow> string" where
  "getMonthKey userId now =
     (case civilFromDays (now div 86400000) of (year, month, _) \<Rightarrow>
        ''quota:monthly:'' @ userId @ '':'' @ showInt year @ ''-'' @ showInt month)"

definition getSessionKey :: "string \<Rightarrow> string" where
  "getSessionKey sessionId = ''quota:session:'' @ sessionId"

definition getRpmKey :: "string \<Rightarrow> date \<Rightarrow> string" where
  "getRpmKey userId now = ''quota:rpm:'' @ userId @ '':'' @ showInt (now div 60000)"

text \<open>
  The first day of the next month by the server's clock, in days since the epoch; days are found by
  counting from the current day, since a month has at most 31.
\<close>

fun daysToNextMonth :: "nat \<Rightarrow> int \<Rightarrow> int \<Rightarrow> int" where
  "daysToNextMonth 0 m day = day"
| "daysToNextMonth (Suc f) m day =
     (if fst (snd (civilFromDays day)) \<noteq> m then day else daysToNextMonth f m (day + 1))"

definition getMonthExpiry :: "'r llmEnv \<Rightarrow> date \<Rightarrow> int" where
  "getMonthExpiry env now =
     (let today = now div 86400000;
          nextMonth = daysToNextMonth 31 (fst (snd (civilFromDays today))) today * 86400000 - le_tz env;
          ttlMs = nextMonth - now
      in - ((- ttlMs) div 1000))"

definition usageAt :: "'r llmEnv \<Rightarrow> string \<Rightarrow> 'r \<Rightarrow> nat" where
  "usageAt env key r = parseInt10 (strOr (rdGet (le_redis env) key r) ''0'')"

definition tooMany :: "string \<Rightarrow> js_error" where
  "tooMany msg = HttpException msg 429"

definition checkMonthlyQuota :: "'r llmEnv \<Rightarrow> string \<Rightarrow> date \<Rightarrow> nat \<Rightarrow> 'r \<Rightarrow> js_error + unit" where
  "checkMonthlyQuota env userId now limit r =
     (let customLimit = rdGet (le_redis env) (limitKey userId) r;
          effectiveLimit = (if strTruthy customLimit then parseInt10 (the customLimit) else limit);
          usage = usageAt env (getMonthKey userId now) r
      in if effectiveLimit \<le> usage
         then Inl (tooMany (''Monthly LLM quota exceeded ('' @ showNat usage @ ''/'' @ showNat effectiveLimit @
                            ''). Please try again next month or contact support.''))
         else Inr ())"

definition checkSessionQuota :: "'r llmEnv \<Rightarrow> string \<Rightarrow> nat \<Rightarrow> 'r \<Rightarrow> js_error + unit" where
  "checkSessionQuota env sessionId limit r =
     (let usage = usageAt env (getSessionKey sessionId) r
      in if limit \<le> usage
         then Inl (tooMany (''Session LLM quota exceeded ('' @ showNat usage @ ''/'' @ showNat limit @
                            ''). Please start a new session.''))
         else Inr ())"

definition checkRequestsPerMinute :: "'r llmEnv \<Rightarrow> string \<Rightarrow> date \<Rightarrow> nat \<Rightarrow> 'r \<Rightarrow> js_error + unit" where
  "checkRequestsPerMinute env userId now limit r =
     (if limit \<le> usageAt env (getRpmKey userId now) r
      then Inl (tooMany (''Rate limit exceeded. Maximum '' @ showNat limit @ '' requests per minute.''))
      else Inr ())"

definition getQuotaStatus ::
    "'r llmEnv \<Rightarrow> string \<Rightarrow> string \<Rightarrow> date \<Rightarrow> QuotaConfig \<Rightarrow> 'r \<Rightarrow> QuotaStatus" where
  "getQuotaStatus env userId sessionId now mergedConfig r =
     \<lparr>qs_monthlyUsage = usageAt env (getMonthKey userId now) r, qs_monthlyLimit = qc_monthlyLimit mergedConfig,
      qs_sessionUsage = usageAt env (getSessionKey sessionId) r, qs_sessionLimit = qc_perSessionLimit mergedConfig,
      qs_requestsThisMinute = usageAt env (getRpmKey userId now) r,
      qs_requestsPerMinuteLimit = qc_requestsPerMinute mergedConfig\<rparr>"

definition enforceQuota ::
    "'r llmEnv \<Rightarrow> string \<Rightarrow> string \<Rightarrow> PartialQuotaConfig \<Rightarrow> date \<Rightarrow> 'r \<Rightarrow> js_error + QuotaStatus" where
  "enforceQuota env userId sessionId config now r =
     (let mergedConfig = mergeConfig config
      in case checkMonthlyQuota env userId now (qc_monthlyLimit mergedConfig) r of
           Inl e \<Rightarrow> Inl e
         | Inr _ \<Rightarrow>
             (case checkSessionQuota env sessionId (qc_perSessionLimit mergedConfig) r of
                Inl e \<Rightarrow> Inl e
              | Inr _ \<Rightarrow>
                  (case checkRequestsPerMinute env userId now (qc_requestsPerMinute mergedConfig) r of
                     Inl e \<Rightarrow> Inl e
                   | Inr _ \<Rightarrow> Inr (getQuotaStatus env userId sessionId now mergedConfig r))))"

text \<open>\<^verbatim>\<open>EXPIRE\<close> with a time that is not positive deletes the key.\<close>

definition expireIn :: "'r redis \<Rightarrow> string \<Rightarrow> int \<Rightarrow> 'r \<Rightarrow> 'r" where
  "expireIn D key ttl r = (if ttl \<le> 0 then rdDel D key r else rdExpire D key (nat ttl) r)"

definition incrementWithExpiry :: "'r redis \<Rightarrow> string \<Rightarrow> int \<Rightarrow> 'r \<Rightarrow> 'r" where
  "incrementWithExpiry D key ttlSeconds r =
     (case rdIncr D key r of (newValue, r1) \<Rightarrow> if newValue = 1 then expireIn D key ttlSeconds r1 else r1)"

definition recordRequest :: "'r llmEnv \<Rightarrow> string \<Rightarrow> string \<Rightarrow> date \<Rightarrow> 'r \<Rightarrow> 'r" where
  "recordRequest env userId sessionId now r =
     incrementWithExpiry (le_redis env) (getRpmKey userId now) 60
       (incrementWithExpiry (le_redis env) (getSessionKey sessionId) 604800
         (incrementWithExpiry (le_redis env) (getMonthKey userId now) (getMonthExpiry env now) r))"

definition resetUserQuota :: "'r llmEnv \<Rightarrow> string \<Rightarrow> 'r \<Rightarrow> 'r" where
  "resetUserQuota env userId r =
     (let keys = le_keys env (''quota:monthly:'' @ userId @ '':*'') r
      in if 0 < length keys then delAll (le_redis env) keys r else r)"

definition resetSessionQuota :: "'r llmEnv \<Rightarrow> string \<Rightarrow> 'r \<Rightarrow> 'r" where
  "resetSessionQuota env sessionId r = rdDel (le_redis env) (getSessionKey sessionId) r"

text \<open>\<^verbatim>\<open>SET\<close> with a time to live that is not positive is refused, which the method only logs.\<close>

definition setUserMonthlyQuota :: "'r llmEnv \<Rightarrow> string \<Rightarrow> nat \<Rightarrow> date \<Rightarrow> 'r \<Rightarrow> 'r" where
  "setUserMonthlyQuota env userId limit now r =
     (if getMonthExpiry env now \<le> 0 then r
      else rdSetEx (le_redis env) (limitKey userId) (nat (getMonthExpiry env now)) (showNat limit) r)"

definition getUserMonthlyQuota :: "'r llmEnv \<Rightarrow> string \<Rightarrow> 'r \<Rightarrow> nat" where
  "getUserMonthlyQuota env userId r =
     (let customLimit = rdGet (le_redis env) (limitKey userId) r
      in if strTruthy customLimit then parseInt10 (the customLimit) else qc_monthlyLimit defaultConfig)"

section \<open>Answer cache\<close>

definition normalizedPrompt :: "string \<Rightarrow> string" where
  "normalizedPrompt prompt = toLowerCase (trim prompt)"

definition CACHE_PREFIX :: string where
  "CACHE_PREFIX = ''llm:cache:''"

definition generateCacheKey :: "'r llmEnv \<Rightarrow> string \<Rightarrow> string \<Rightarrow> string" where
  "generateCacheKey env prompt model =
     CACHE_PREFIX @ ''v1:'' @ model @ '':'' @ le_sha256 env (normalizedPrompt prompt)"

definition generateStatsKey :: "string \<Rightarrow> string" where
  "generateStatsKey cacheKey = cacheKey @ '':stats''"

definition totalHitsKey :: string where
  "totalHitsKey = CACHE_PREFIX @ ''total-hits''"

definition totalEntriesKey :: string where
  "totalEntriesKey = CACHE_PREFIX @ ''total-entries''"

definition DEFAULT_TTL :: nat where
  "DEFAULT_TTL = 86400"

definition cacheGet :: "'r llmEnv \<Rightarrow> string \<Rightarrow> string \<Rightarrow> 'r \<Rightarrow> string option \<times> 'r" where
  "cacheGet env prompt model r =
     (let cacheKey = generateCacheKey env prompt model;
          cached = rdGet (le_redis env) cacheKey r
      in if strTruthy cached
         then (cached, snd (rdIncr (le_redis env) totalHitsKey
                         (snd (rdIncr (le_redis env) (generateStatsKey cacheKey @ '':hits'') r))))
         else (None, r))"

definition cacheSet :: "'r llmEnv \<Rightarrow> string \<Rightarrow> string \<Rightarrow> string \<Rightarrow> nat option \<Rightarrow> date \<Rightarrow> 'r \<Rightarrow> 'r" where
  "cacheSet env prompt response model ttl now r =
     (let D = le_redis env;
          cacheKey = generateCacheKey env prompt model;
          effectiveTtl = numOr ttl DEFAULT_TTL;
          statsKey = generateStatsKey cacheKey;
          r1 = rdSetEx D cacheKey effectiveTtl response r;
          r2 = rdSetEx D (statsKey @ '':created'') effectiveTtl (showInt now) r1;
          r3 = rdSetEx D (statsKey @ '':model'') effectiveTtl model r2;
          r4 = rdSetEx D (statsKey @ '':ttl'') effectiveTtl (showNat effectiveTtl) r3
      in snd (rdIncr D totalEntriesKey r4))"

definition invalidate :: "'r llmEnv \<Rightarrow> string \<Rightarrow> string option \<Rightarrow> 'r \<Rightarrow> nat \<times> 'r" where
  "invalidate env prompt model r =
     (let keys = (if strTruthy model then [generateCacheKey env prompt (the model)]
                  else le_keys env (CACHE_PREFIX @ ''v1:*:'' @ le_sha256 env (normalizedPrompt prompt)) r)
      in if length keys = 0 then (0, r)
         else (length keys, delAll (le_redis env) (keys @ map generateStatsKey keys) r))"

definition invalidateAll :: "'r llmEnv \<Rightarrow> 'r \<Rightarrow> nat \<times> 'r" where
  "invalidateAll env r =
     (let keys = le_keys env (CACHE_PREFIX @ ''*'') r
      in if length keys = 0 then (0, r) else (length keys, delAll (le_redis env) keys r))"

record CacheStats =
  cs_totalEntries :: nat
  cs_totalHits :: nat
  cs_hitRate :: rat
  cs_oldestEntry :: "(string \<times> int) option"

text \<open>The time at which an entry was made, for the keys that have one.\<close>

definition createdAtKey :: "'r llmEnv \<Rightarrow> string \<Rightarrow> 'r \<Rightarrow> nat option" where
  "createdAtKey env key r =
     (let createdStr = rdGet (le_redis env) (generateStatsKey key @ '':created'') r
      in if strTruthy createdStr then Some (parseInt10 (the createdStr)) else None)"

fun oldestOf :: "'r llmEnv \<Rightarrow> date \<Rightarrow> string list \<Rightarrow> 'r \<Rightarrow> (nat \<times> string \<times> int) option \<Rightarrow> (nat \<times> string \<times> int) option" where
  "oldestOf env now [] r best = best"
| "oldestOf env now (key # keys) r best =
     oldestOf env now keys r
       (case createdAtKey env key r of
          None \<Rightarrow> best
        | Some created \<Rightarrow>
            if (case best of None \<Rightarrow> True | Some (oldestTime, _) \<Rightarrow> created < oldestTime)
            then Some (created, drop (length CACHE_PREFIX) key, (now - int created) div 1000)
            else best)"

definition getStats :: "'r llmEnv \<Rightarrow> date \<Rightarrow> 'r \<Rightarrow> CacheStats" where
  "getStats env now r =
     (let totalEntries = usageAt env totalEntriesKey r;
          totalHits = usageAt env totalHitsKey r
      in \<lparr>cs_totalEntries = totalEntries, cs_totalHits = totalHits,
          cs_hitRate = (if 0 < totalEntries then of_nat totalHits / of_nat totalEntries else 0),
          cs_oldestEntry = map_option snd (oldestOf env now (le_keys env (CACHE_PREFIX @ ''*'') r) r None)\<rparr>)"

definition pruneOldEntries :: "'r llmEnv \<Rightarrow> nat \<Rightarrow> date \<Rightarrow> 'r \<Rightarrow> nat \<times> 'r" where
  "pruneOldEntries env maxAgeSeconds now r =
     (let old = filter (\<lambda>key. case createdAtKey env key r of
                   None \<Rightarrow> False
                 | Some created \<Rightarrow> int maxAgeSeconds * 1000 < now - int created)
                 (le_keys env (CACHE_PREFIX @ ''*'') r)
      in if 0 < length old
         then (length old, delAll (le_redis env) (concat (map (\<lambda>key. [key, generateStatsKey key]) old)) r)
         else (0, r))"

record warmEntry =
  we_prompt :: string
  we_response :: string
  we_model :: string
  we_ttl :: "nat option"

definition warmCache :: "'r llmEnv \<Rightarrow> warmEntry list \<Rightarrow> date \<Rightarrow> 'r \<Rightarrow> nat \<times> 'r" where
  "warmCache env entries now r =
     (length entries,
      fold (\<lambda>e. cacheSet env (we_prompt e) (we_response e) (we_model e) (we_ttl e) now) entries r)"

section \<open>The pipeline\<close>

record LlmResponseOptions =
  lo_model :: "string option"
  lo_useCache :: "bool option"
  lo_recordQuota :: "bool option"
  lo_cacheTtl :: "nat option"

record LlmResponse =
  lr_content :: string
  lr_cached :: bool
  lr_quotaStatus :: "QuotaStatus option"
  lr_model :: string

definition FALLBACK_MESSAGE :: string where
  "FALLBACK_MESSAGE = ''I'' @ [char_of (39 :: nat)] @ ''m sorry, I'' @ [char_of (39 :: nat)] @
     ''m having trouble processing your request right now. Please try again in a moment.''"

definition DEFAULT_MODEL :: string where
  "DEFAULT_MODEL = ''gpt-3.5-turbo''"

definition mockResponses :: "string \<Rightarrow> string list" where
  "mockResponses prompt =
     [''I understand your question about '' @ prompt @ ''. Let me help you with that.'',
      ''That'' @ [char_of (39 :: nat)] @ ''s an interesting point. Based on what you'' @ [char_of (39 :: nat)] @
        ''ve said, I think the best approach would be to consider multiple factors.'',
      ''I can definitely help you with that. Here'' @ [char_of (39 :: nat)] @ ''s what I recommend based on your situation.'',
      ''Thanks for sharing that with me. Let me provide you with some guidance on this topic.'']"

text \<open>\<open>pick\<close> stands for \<^verbatim>\<open>Math.random\<close>: the index it selects.\<close>

definition callLlmWithFallback :: "nat \<Rightarrow> string \<Rightarrow> string" where
  "callLlmWithFallback pick prompt =
     (if strIncludes ''force-fail'' (toLowerCase prompt) then FALLBACK_MESSAGE
      else mockResponses prompt ! (pick mod length (mockResponses prompt)))"

text \<open>
  \<open>now\<close> is the time of the request and \<open>later\<close> the time after the provider has answered, when the answer is
  cached and the request recorded.
\<close>

definition generateResponse ::
    "'r llmEnv \<Rightarrow> nat \<Rightarrow> date \<Rightarrow> date \<Rightarrow> string \<Rightarrow> string \<Rightarrow> string \<Rightarrow> LlmResponseOptions \<Rightarrow> 'r \<Rightarrow>
     (js_error + LlmResponse) \<times> 'r" where
  "generateResponse env pick now later userId sessionId prompt options r =
     (let model = strOr (lo_model options) DEFAULT_MODEL;
          useCache = lo_useCache options \<noteq> Some False;
          recordQuota = lo_recordQuota options \<noteq> Some False
      in case enforceQuota env userId sessionId noConfig now r of
           Inl e \<Rightarrow> (Inl e, r)
         | Inr quotaStatus \<Rightarrow>
             (case (if useCache then cacheGet env prompt model r else (None, r)) of
                (Some cachedResponse, r1) \<Rightarrow>
                  (Inr \<lparr>lr_content = cachedResponse, lr_cached = True, lr_quotaStatus = Some quotaStatus, lr_model = model\<rparr>, r1)
              | (None, r1) \<Rightarrow>
                  let response = callLlmWithFallback pick prompt;
                      r2 = (if useCache then cacheSet env prompt response model (lo_cacheTtl options) later r1 else r1);
                      r3 = (if recordQuota then recordRequest env userId sessionId later r2 else r2)
                  in (Inr \<lparr>lr_content = response, lr_cached = False, lr_quotaStatus = Some quotaStatus, lr_model = model\<rparr>, r3)))"

definition generateResponseWithFallback ::
    "'r llmEnv \<Rightarrow> nat \<Rightarrow> date \<Rightarrow> date \<Rightarrow> string \<Rightarrow> string \<Rightarrow> string \<Rightarrow> LlmResponseOptions \<Rightarrow> 'r \<Rightarrow> LlmResponse \<times> 'r" where
  "generateResponseWithFallback env pick now later userId sessionId prompt options r =
     (case generateResponse env pick now later userId sessionId prompt options r of
        (Inr resp, r1) \<Rightarrow> (resp, r1)
      | (Inl _, r1) \<Rightarrow>
          (\<lparr>lr_content = FALLBACK_MESSAGE, lr_cached = False,
            lr_quotaStatus = Some (getQuotaStatus env userId sessionId later (mergeConfig noConfig) r1),
            lr_model = strOr (lo_model options) DEFAULT_MODEL\<rparr>, r1))"

end
