(* ===== verification/Voice_Llm_Props.thy ===== *)
theory Voice_Llm_Props
  imports Voice_Llm
begin

text \<open>
  Properties of the language-model pipeline: the limit of requests per minute over every sequence of
  requests of a user, and that an answer comes back from the cache.
\<close>

section \<open>Keys\<close>

lemma quota_keys_apart [simp]:
  "getRpmKey u t \<noteq> getSessionKey s" "getSessionKey s \<noteq> getRpmKey u t"
  "getRpmKey u t \<noteq> getMonthKey v t'" "getMonthKey v t' \<noteq> getRpmKey u t"
  by (auto simp: getRpmKey_def getSessionKey_def getMonthKey_def split: prod.splits)

lemma quota_cache_apart [simp]:
  "limitKey u \<noteq> CACHE_PREFIX @ x" "getRpmKey u t \<noteq> CACHE_PREFIX @ x" "getSessionKey s \<noteq> CACHE_PREFIX @ x" "getMonthKey u t \<noteq> CACHE_PREFIX @ x"
  "CACHE_PREFIX @ x \<noteq> getRpmKey u t" "CACHE_PREFIX @ x \<noteq> getSessionKey s" "CACHE_PREFIX @ x \<noteq> getMonthKey u t"
  by (auto simp: limitKey_def getRpmKey_def getSessionKey_def getMonthKey_def CACHE_PREFIX_def split: prod.splits)

lemma cache_keys:
  "\<exists>x. generateCacheKey env p m = CACHE_PREFIX @ x" "\<exists>x. generateStatsKey (generateCacheKey env p m) @ y = CACHE_PREFIX @ x"
  "\<exists>x. totalHitsKey = CACHE_PREFIX @ x" "\<exists>x. totalEntriesKey = CACHE_PREFIX @ x"
  by (auto simp: generateCacheKey_def generateStatsKey_def totalHitsKey_def totalEntriesKey_def)

lemma not_cache_key:
  assumes "\<And>x. k \<noteq> CACHE_PREFIX @ x"
  shows "k \<noteq> generateCacheKey env p m" "k \<noteq> totalHitsKey" "k \<noteq> totalEntriesKey"
    "k \<noteq> generateStatsKey (generateCacheKey env p m) @ y"
  using assms cache_keys(1) [of env p m] cache_keys(2) [of env p m y] cache_keys(3,4) by auto

lemma cache_key_total [simp]:
  "generateCacheKey env p m \<noteq> totalHitsKey" "generateCacheKey env p m \<noteq> totalEntriesKey"
  "generateStatsKey k @ y = k \<longleftrightarrow> False" "k = generateStatsKey k @ y \<longleftrightarrow> False"
  by (auto simp: generateCacheKey_def generateStatsKey_def totalHitsKey_def totalEntriesKey_def CACHE_PREFIX_def)

lemma response_nonempty: "callLlmWithFallback pick prompt \<noteq> []"
proof -
  have "\<forall>x \<in> set (mockResponses prompt). x \<noteq> []" by (simp add: mockResponses_def)
  moreover have "pick mod length (mockResponses prompt) < length (mockResponses prompt)" by (simp add: mockResponses_def)
  ultimately show ?thesis using nth_mem by (auto simp: callLlmWithFallback_def FALLBACK_MESSAGE_def)
qed

section \<open>Effects\<close>

context redis_kv
begin

lemma usage_numAt: "le_redis env = D \<Longrightarrow> usageAt env k r = numAt (look r) k"
  by (auto simp: usageAt_def get_look numAt_def strOr_def parseInt10_def digitVal_def isDigit_def split: option.split)

lemma increment_look:
  "look (incrementWithExpiry D k ttl r) k' =
     (if k' \<noteq> k then look r k'
      else if numAt (look r) k = 0 then (if ttl \<le> 0 then None else Some (showNat 1, Some (nat ttl)))
      else Some (showNat (Suc (numAt (look r) k)), expiryAt (look r) k))"
  by (auto simp: incrementWithExpiry_def case_prod_beta incr_val incr_look expireIn_def del_look expire_look)

lemma record_rpm:
  assumes "le_redis env = D" and "later div 60000 = now div 60000"
  shows "look (recordRequest env u sid later r) (getRpmKey u now) =
     (if numAt (look r) (getRpmKey u now) = 0 then Some (showNat 1, Some 60)
      else Some (showNat (Suc (numAt (look r) (getRpmKey u now))), expiryAt (look r) (getRpmKey u now)))"
proof -
  have "getRpmKey u later = getRpmKey u now" using assms(2) by (simp add: getRpmKey_def)
  then show ?thesis using assms(1) by (simp add: recordRequest_def increment_look numAt_def expiryAt_def)
qed

lemma record_cache:
  assumes "le_redis env = D"
  shows "look (recordRequest env u sid later r) (CACHE_PREFIX @ x) = look r (CACHE_PREFIX @ x)"
  using assms by (simp add: recordRequest_def increment_look)

lemma cacheGet_frame:
  assumes "le_redis env = D" and "\<And>x. k \<noteq> CACHE_PREFIX @ x"
  shows "look (snd (cacheGet env p m r)) k = look r k"
  using assms(1) by (simp add: cacheGet_def incr_look Let_def not_cache_key [OF assms(2)])

lemma cacheSet_frame:
  assumes "le_redis env = D" and "\<And>x. k \<noteq> CACHE_PREFIX @ x"
  shows "look (cacheSet env p resp m ttl t r) k = look r k"
  using assms(1) by (simp add: cacheSet_def Let_def incr_look setEx_look not_cache_key [OF assms(2)])

lemma cacheSet_hit:
  assumes "le_redis env = D"
  shows "look (cacheSet env p resp m ttl t r) (generateCacheKey env p m) = Some (resp, Some (numOr ttl DEFAULT_TTL))"
  using assms by (simp add: cacheSet_def Let_def incr_look setEx_look)

text \<open>A store that holds cache entries only refuses nobody.\<close>

lemma enforce_fresh:
  assumes "le_redis env = D" and "\<And>k. (\<And>x. k \<noteq> CACHE_PREFIX @ x) \<Longrightarrow> look r k = None"
  shows "enforceQuota env u sid noConfig now r = Inr (getQuotaStatus env u sid now (mergeConfig noConfig) r)"
proof -
  have "look r (limitKey u) = None" "look r (getRpmKey u now) = None" "look r (getSessionKey sid) = None"
    "look r (getMonthKey u now) = None" by (simp_all add: assms(2))
  then show ?thesis
    by (simp add: enforceQuota_def checkMonthlyQuota_def checkSessionQuota_def checkRequestsPerMinute_def
        usage_numAt [OF assms(1)] numAt_def get_look assms(1) strTruthy_def mergeConfig_def noConfig_def defaultConfig_def Let_def)
qed

text \<open>One request: refused, or served from the cache, or by the provider.\<close>

lemma generate_rpm:
  assumes "le_redis env = D" and "later div 60000 = now div 60000"
    and "generateResponse env pick now later u sid p opts r = (res, r')"
  shows "(\<exists>msg. res = Inl (HttpException msg 429)) \<and> r' = r \<or>
    numAt (look r) (getRpmKey u now) < 20 \<and>
      (\<exists>resp. res = Inr resp \<and>
         (if \<not> lr_cached resp \<and> lo_recordQuota opts \<noteq> Some False
          then look r' (getRpmKey u now) =
            (if numAt (look r) (getRpmKey u now) = 0 then Some (showNat 1, Some 60)
             else Some (showNat (Suc (numAt (look r) (getRpmKey u now))), expiryAt (look r) (getRpmKey u now)))
          else look r' (getRpmKey u now) = look r (getRpmKey u now)))"
proof (cases "enforceQuota env u sid noConfig now r")
  case (Inl e)
  then have "\<exists>msg. e = HttpException msg 429"
    by (auto simp: enforceQuota_def checkMonthlyQuota_def checkSessionQuota_def checkRequestsPerMinute_def tooMany_def Let_def
        split: sum.splits if_splits)
  with Inl assms(3) show ?thesis by (auto simp: generateResponse_def Let_def)
next
  case (Inr q)
  let ?k = "getRpmKey u now" and ?m = "strOr (lo_model opts) DEFAULT_MODEL"
  have lt: "numAt (look r) ?k < 20"
    using Inr by (auto simp: enforceQuota_def checkRequestsPerMinute_def usage_numAt [OF assms(1)] mergeConfig_def noConfig_def
        defaultConfig_def Let_def split: sum.splits if_splits)
  have g: "look (snd (if lo_useCache opts \<noteq> Some False then cacheGet env p ?m r else (None, r))) ?k = look r ?k"
    using cacheGet_frame [OF assms(1), of ?k] by simp
  obtain c r1 where get: "(if lo_useCache opts \<noteq> Some False then cacheGet env p ?m r else (None, r)) = (c, r1)"
    by (cases "(if lo_useCache opts \<noteq> Some False then cacheGet env p ?m r else (None, r))")
  have r1: "look r1 ?k = look r ?k" using g get by simp
  show ?thesis
  proof (cases c)
    case (Some x)
    with assms(3) Inr get lt r1 show ?thesis by (auto simp: generateResponse_def Let_def)
  next
    case None
    let ?r2 = "if lo_useCache opts \<noteq> Some False then cacheSet env p (callLlmWithFallback pick p) ?m (lo_cacheTtl opts) later r1 else r1"
    have r2: "look ?r2 ?k = look r ?k" using cacheSet_frame [OF assms(1), of ?k] r1 by simp
    then have n: "numAt (look ?r2) ?k = numAt (look r) ?k" "expiryAt (look ?r2) ?k = expiryAt (look r) ?k"
      by (simp_all add: numAt_def expiryAt_def)
    have r': "r' = (if lo_recordQuota opts \<noteq> Some False then recordRequest env u sid later ?r2 else ?r2)"
      "res = Inr \<lparr>lr_content = callLlmWithFallback pick p, lr_cached = False, lr_quotaStatus = Some q, lr_model = ?m\<rparr>"
      using assms(3) Inr get None by (auto simp: generateResponse_def Let_def)
    show ?thesis using lt r' record_rpm [OF assms(1,2), of u sid ?r2] r2 unfolding n by auto
  qed
qed

end

section \<open>Requests of one minute\<close>

record llmReq =
  rq_delay :: nat
  rq_now :: date
  rq_later :: date
  rq_session :: string
  rq_prompt :: string
  rq_options :: LlmResponseOptions
  rq_pick :: nat

text \<open>The answers to the requests of a user; \<open>rq_delay\<close> seconds pass before each.\<close>

fun llmRun :: "'r llmEnv \<Rightarrow> (nat \<Rightarrow> 'r \<Rightarrow> 'r) \<Rightarrow> string \<Rightarrow> llmReq list \<Rightarrow> 'r \<Rightarrow> (js_error + LlmResponse) list" where
  "llmRun env adv u [] r = []"
| "llmRun env adv u (q # qs) r =
     (case generateResponse env (rq_pick q) (rq_now q) (rq_later q) u (rq_session q) (rq_prompt q) (rq_options q)
             (adv (rq_delay q) r) of (res, r') \<Rightarrow> res # llmRun env adv u qs r')"

text \<open>The answers that the provider gave and that were counted.\<close>

fun counted :: "llmReq \<times> (js_error + LlmResponse) \<Rightarrow> bool" where
  "counted (q, Inl e) = False"
| "counted (q, Inr resp) = (\<not> lr_cached resp \<and> lo_recordQuota (rq_options q) \<noteq> Some False)"

fun refused :: "js_error + LlmResponse \<Rightarrow> bool" where
  "refused (Inl (HttpException _ n)) = (n = 429)"
| "refused _ = False"

definition withinMinute :: "int \<Rightarrow> llmReq list \<Rightarrow> bool" where
  "withinMinute minute qs \<longleftrightarrow>
     (\<forall>q \<in> set qs. rq_now q div 60000 = minute \<and> rq_later q div 60000 = minute) \<and> sum_list (map rq_delay qs) < 60"

definition rpmState :: "kvstate \<Rightarrow> string \<Rightarrow> nat \<Rightarrow> nat \<Rightarrow> bool" where
  "rpmState m k c delay \<longleftrightarrow> (if c = 0 then m k = None else (\<exists>e. m k = Some (showNat c, Some e) \<and> delay < e))"

context redis_kv
begin

lemma llmRun_rpm:
  assumes "le_redis env = D" and "\<forall>q \<in> set qs. rq_now q div 60000 = minute \<and> rq_later q div 60000 = minute"
    and "rpmState (look r) (getRpmKey u (minute * 60000)) c (sum_list (map rq_delay qs))" and "c \<le> 20"
    and "sum_list (map rq_delay qs) < 60"
  shows "c + length (filter counted (zip (take n qs) (llmRun env adv u qs r))) \<le> 20 \<and>
    (c + length (filter counted (zip (take n qs) (llmRun env adv u qs r))) = 20 \<longrightarrow>
      (\<forall>res \<in> set (drop n (llmRun env adv u qs r)). refused res))"
  using assms(2-)
proof (induction qs arbitrary: r c n)
  case (Cons q qs)
  let ?k = "getRpmKey u (minute * 60000)" and ?r0 = "adv (rq_delay q) r" and ?rest = "sum_list (map rq_delay qs)"
  have key: "getRpmKey u (rq_now q) = ?k" "rq_later q div 60000 = rq_now q div 60000"
    using Cons.prems(1) by (simp_all add: getRpmKey_def)
  obtain res r' where g: "generateResponse env (rq_pick q) (rq_now q) (rq_later q) u (rq_session q) (rq_prompt q) (rq_options q) ?r0 = (res, r')"
    by (cases "generateResponse env (rq_pick q) (rq_now q) (rq_later q) u (rq_session q) (rq_prompt q) (rq_options q) ?r0")
  have s0: "rpmState (look ?r0) ?k c ?rest"
    using Cons.prems(2) by (auto simp: rpmState_def adv_look advKey_def split: if_splits)
  then have n0: "numAt (look ?r0) ?k = c" by (auto simp: rpmState_def numAt_def split: if_splits)
  note step = generate_rpm [OF assms(1) key(2) g, unfolded key(1) n0]
  have cases: "refused res \<and> rpmState (look r') ?k c ?rest \<and> \<not> counted (q, res) \<or>
      c < 20 \<and> rpmState (look r') ?k (if counted (q, res) then Suc c else c) ?rest"
    using step s0 Cons.prems(4) by (auto simp: rpmState_def expiryAt_def split: if_splits)
  have rest: "\<forall>q \<in> set qs. rq_now q div 60000 = minute \<and> rq_later q div 60000 = minute" "?rest < 60"
    using Cons.prems by auto
  have run: "llmRun env adv u (q # qs) r = res # llmRun env adv u qs r'" using g by simp
  note IH = Cons.IH [OF rest(1) _ _ rest(2), of r']
  show ?case
  proof (cases n)
    case 0
    with cases IH [of c 0] Cons.prems(3) show ?thesis unfolding run by auto
  next
    case (Suc k)
    with cases IH [of c k] IH [of "Suc c" k] Cons.prems(3) show ?thesis
      unfolding run by (cases "counted (q, res)") auto
  qed
qed simp

end

section \<open>Properties\<close>


definition memLlm :: "kvstate llmEnv" where
  "memLlm = \<lparr>le_redis = memRedis, le_keys = (\<lambda>p r. []), le_sha256 = (\<lambda>s. s), le_tz = 0\<rparr>"

lemma memLlm_redis: "redis_kv (le_redis memLlm) (\<lambda>r. r) memAdv"
  using mkv.redis_kv_axioms by (simp add: memLlm_def)

definition plainOptions :: LlmResponseOptions where
  "plainOptions = \<lparr>lo_model = None, lo_useCache = None, lo_recordQuota = None, lo_cacheTtl = None\<rparr>"

definition sampleReq :: "nat \<Rightarrow> llmReq" where
  "sampleReq i = \<lparr>rq_delay = 1, rq_now = 60000 + 1000 * int i, rq_later = 60500 + 1000 * int i, rq_session = ''s'',
     rq_prompt = showNat i, rq_options = plainOptions, rq_pick = 1\<rparr>"




end
