(* ===== verification/Voice_Gateway.thy ===== *)
theory Voice_Gateway
  imports Voice_Session Voice_Llm
begin

text \<open>
  The streamed answers (\<^verbatim>\<open>voice/services/streaming-response.service.ts\<close>) and the WebSocket gateway
  (\<^verbatim>\<open>voice/voice.gateway.ts\<close>). The state joins the session store, the store of the language-model pipeline,
  the map of active streams, the timers that \<^verbatim>\<open>setTimeout\<close> has set, the answers that are being sent word by word, what
  has been sent to rooms and clients, and the rejections that no caller handles. An answer is sent in steps,
  one per word, because other messages can be handled while it waits between two words.
\<close>

section \<open>State\<close>

record StreamingChunk =
  sc_id :: string
  sc_content :: string
  sc_isComplete :: bool
  sc_isPartial :: bool

record StreamingResponse =
  sr_id :: string
  sr_sessionId :: string
  sr_chunks :: "StreamingChunk list"
  sr_startTime :: date
  sr_endTime :: "date option"
  sr_isInterrupted :: bool

datatype voiceEvent =
    EvError "string option" string
  | EvResumed string ConversationState
  | EvCreated VoiceSession
  | EvThinking string string
  | EvResponding string string
  | EvChunk string string StreamingChunk
  | EvInterrupted string string
  | EvComplete string string string
  | EvInterruptAcknowledged string "string option"
  | EvStateUpdated string ConversationState
  | EvTerminated string
  | EvPong date

datatype emission =
    ToRoom string voiceEvent
  | ToClient string voiceEvent
  | Joined string string
  | Left string string
  | Disconnected string

record wordJob =
  wj_sessionId :: string
  wj_streamId :: string
  wj_room :: string
  wj_words :: "string list"
  wj_index :: nat
  wj_currentText :: string
  wj_fullResponse :: string

record ('r, 'q) voiceState =
  vo_redis :: 'r
  vo_llm :: 'q
  vo_streams :: "(string \<times> StreamingResponse) list"
  vo_timers :: "(string \<times> string \<times> string) list"
  vo_jobs :: "wordJob list"
  vo_out :: "emission list"
  vo_unhandled :: "js_error list"

record ('r, 'q) voiceEnv =
  ve_store :: "'r vredis"
  ve_llm :: "'q llmEnv"

definition emit :: "emission \<Rightarrow> ('r, 'q) voiceState \<Rightarrow> ('r, 'q) voiceState" where
  "emit e st = st\<lparr>vo_out := vo_out st @ [e]\<rparr>"

definition sess :: "('r \<Rightarrow> bool \<times> 'r) \<Rightarrow> ('r, 'q) voiceState \<Rightarrow> bool \<times> ('r, 'q) voiceState" where
  "sess f st = (case f (vo_redis st) of (b, r) \<Rightarrow> (b, st\<lparr>vo_redis := r\<rparr>))"

text \<open>\<^verbatim>\<open>session.socketId || sessionId\<close>\<close>

definition roomOf :: "VoiceSession \<Rightarrow> string \<Rightarrow> string" where
  "roomOf session sessionId = strOr (v_socketId session) sessionId"

section \<open>Streamed answers\<close>

definition startStreamingResponse ::
    "('r, 'q) voiceEnv \<Rightarrow> string \<Rightarrow> string \<Rightarrow> date \<Rightarrow> string \<Rightarrow> string \<Rightarrow> (('r, 'q) voiceState, string) action" where
  "startStreamingResponse env streamId messageId now sessionId userMessage st =
     (case getSession (ve_store env) sessionId (vo_redis st) of
        None \<Rightarrow> (Inl (Error (''Session '' @ sessionId @ '' not found'')), st)
      | Some session \<Rightarrow>
          let st1 = snd (sess (addMessage (ve_store env) messageId now sessionId userMessage True None) st);
              st2 = snd (sess (updateSessionState (ve_store env) now sessionId THINKING) st1);
              streamingResponse = \<lparr>sr_id = streamId, sr_sessionId = sessionId, sr_chunks = [], sr_startTime = now,
                                   sr_endTime = None, sr_isInterrupted = False\<rparr>;
              st3 = emit (ToRoom (roomOf session sessionId) (EvThinking sessionId streamId))
                      (st2\<lparr>vo_streams := AList.update streamId streamingResponse (vo_streams st2)\<rparr>)
          in (Inr streamId, st3\<lparr>vo_timers := vo_timers st3 @ [(sessionId, streamId, userMessage)]\<rparr>))"

definition completeStreamingResponse ::
    "('r, 'q) voiceEnv \<Rightarrow> string \<Rightarrow> date \<Rightarrow> string \<Rightarrow> string \<Rightarrow> string \<Rightarrow> ('r, 'q) voiceState \<Rightarrow> ('r, 'q) voiceState" where
  "completeStreamingResponse env messageId now sessionId streamId fullResponse st =
     (case getSession (ve_store env) sessionId (vo_redis st) of
        None \<Rightarrow> st
      | Some session \<Rightarrow>
          (case map_of (vo_streams st) streamId of
             None \<Rightarrow> st
           | Some _ \<Rightarrow>
               let st1 = snd (sess (addMessage (ve_store env) messageId now sessionId fullResponse False None) st);
                   st2 = emit (ToRoom (roomOf session sessionId) (EvComplete sessionId streamId fullResponse)) st1;
                   st3 = snd (sess (updateSessionState (ve_store env) now sessionId LISTENING) st2)
               in st3\<lparr>vo_streams := AList.delete streamId (vo_streams st3)\<rparr>))"

text \<open>
  One round of the loop over the words; the round of the last word also completes the stream. An answer of
  no words, which \<^verbatim>\<open>split\<close> never gives, would be completed at once.
\<close>

definition sendWord ::
    "('r, 'q) voiceEnv \<Rightarrow> string \<Rightarrow> string \<Rightarrow> date \<Rightarrow> wordJob \<Rightarrow> ('r, 'q) voiceState \<Rightarrow> ('r, 'q) voiceState" where
  "sendWord env chunkId messageId now job st =
     (if length (wj_words job) \<le> wj_index job
      then completeStreamingResponse env messageId now (wj_sessionId job) (wj_streamId job) (wj_fullResponse job) st
      else (case map_of (vo_streams st) (wj_streamId job) of
              None \<Rightarrow> st
            | Some streamingResponse \<Rightarrow>
                if sr_isInterrupted streamingResponse then st
                else let i = wj_index job;
                         final = (i = length (wj_words job) - 1);
                         currentText = wj_currentText job @ (if 0 < i then '' '' else []) @ wj_words job ! i;
                         chunk = \<lparr>sc_id = chunkId, sc_content = currentText, sc_isComplete = final, sc_isPartial = \<not> final\<rparr>;
                         st1 = st\<lparr>vo_streams := AList.update (wj_streamId job)
                                   (streamingResponse\<lparr>sr_chunks := sr_chunks streamingResponse @ [chunk]\<rparr>) (vo_streams st)\<rparr>;
                         st2 = emit (ToRoom (wj_room job) (EvChunk (wj_sessionId job) (wj_streamId job) chunk)) st1
                     in if final
                        then completeStreamingResponse env messageId now (wj_sessionId job) (wj_streamId job) (wj_fullResponse job) st2
                        else st2\<lparr>vo_jobs := vo_jobs st2 @ [job\<lparr>wj_index := Suc i, wj_currentText := currentText\<rparr>]\<rparr>))"

definition generateStreamingResponse ::
    "('r, 'q) voiceEnv \<Rightarrow> nat \<Rightarrow> string \<Rightarrow> string \<Rightarrow> date \<Rightarrow> date \<Rightarrow> string \<Rightarrow> string \<Rightarrow> string \<Rightarrow> ('r, 'q) voiceState \<Rightarrow> ('r, 'q) voiceState" where
  "generateStreamingResponse env pick chunkId messageId now later sessionId streamId userMessage st =
     (case getSession (ve_store env) sessionId (vo_redis st) of
        None \<Rightarrow> st
      | Some session \<Rightarrow>
          (case map_of (vo_streams st) streamId of
             None \<Rightarrow> st
           | Some streamingResponse \<Rightarrow>
               if sr_isInterrupted streamingResponse then st
               else let st1 = snd (sess (updateSessionState (ve_store env) now sessionId RESPONDING) st)
                    in case generateResponse (ve_llm env) pick now later (strOr (Some (v_userId session)) ''anonymous'') sessionId userMessage
                              \<lparr>lo_model = None, lo_useCache = None, lo_recordQuota = None, lo_cacheTtl = None\<rparr> (vo_llm st1) of
                         (Inl e, q) \<Rightarrow> st1\<lparr>vo_llm := q, vo_unhandled := vo_unhandled st1 @ [e]\<rparr>
                       | (Inr resp, q) \<Rightarrow>
                           let st2 = emit (ToRoom (roomOf session sessionId) (EvResponding sessionId streamId)) (st1\<lparr>vo_llm := q\<rparr>)
                           in sendWord env chunkId messageId later
                                \<lparr>wj_sessionId = sessionId, wj_streamId = streamId, wj_room = roomOf session sessionId,
                                 wj_words = splitOn (CHR '' '') (lr_content resp), wj_index = 0, wj_currentText = [],
                                 wj_fullResponse = lr_content resp\<rparr> st2))"

text \<open>The first timer fires; the first waiting answer sends its next word.\<close>

definition fireTimer ::
    "('r, 'q) voiceEnv \<Rightarrow> nat \<Rightarrow> string \<Rightarrow> string \<Rightarrow> date \<Rightarrow> date \<Rightarrow> ('r, 'q) voiceState \<Rightarrow> ('r, 'q) voiceState" where
  "fireTimer env pick chunkId messageId now later st =
     (case vo_timers st of
        [] \<Rightarrow> st
      | (sessionId, streamId, userMessage) # rest \<Rightarrow>
          generateStreamingResponse env pick chunkId messageId now later sessionId streamId userMessage (st\<lparr>vo_timers := rest\<rparr>))"

definition fireWord :: "('r, 'q) voiceEnv \<Rightarrow> string \<Rightarrow> string \<Rightarrow> date \<Rightarrow> ('r, 'q) voiceState \<Rightarrow> ('r, 'q) voiceState" where
  "fireWord env chunkId messageId now st =
     (case vo_jobs st of [] \<Rightarrow> st | job # rest \<Rightarrow> sendWord env chunkId messageId now job (st\<lparr>vo_jobs := rest\<rparr>))"

definition interruptStream ::
    "('r, 'q) voiceEnv \<Rightarrow> date \<Rightarrow> string \<Rightarrow> string option \<Rightarrow> ('r, 'q) voiceState \<Rightarrow> bool \<times> ('r, 'q) voiceState" where
  "interruptStream env now sessionId streamId st =
     (case getSession (ve_store env) sessionId (vo_redis st) of
        None \<Rightarrow> (False, st)
      | Some session \<Rightarrow>
          let st1 =
                (if strTruthy streamId
                 then (case map_of (vo_streams st) (the streamId) of
                         None \<Rightarrow> st
                       | Some _ \<Rightarrow>
                           (emit (ToRoom (roomOf session sessionId) (EvInterrupted sessionId (the streamId))) st)
                             \<lparr>vo_streams := AList.delete (the streamId) (vo_streams st)\<rparr>)
                 else (fold (\<lambda>(i, response). emit (ToRoom (roomOf session sessionId) (EvInterrupted sessionId i)))
                         (filter (\<lambda>(_, response). sr_sessionId response = sessionId) (vo_streams st)) st)
                        \<lparr>vo_streams := filter (\<lambda>(_, response). sr_sessionId response \<noteq> sessionId) (vo_streams st)\<rparr>)
          in (True, snd (sess (interruptSession (ve_store env) now sessionId) st1)))"

definition getActiveStreamCount :: "('r, 'q) voiceState \<Rightarrow> nat" where
  "getActiveStreamCount st = length (vo_streams st)"

definition getActiveStreamsForSession :: "string \<Rightarrow> ('r, 'q) voiceState \<Rightarrow> StreamingResponse list" where
  "getActiveStreamsForSession sessionId st = filter (\<lambda>s. sr_sessionId s = sessionId) (map snd (vo_streams st))"

section \<open>Gateway\<close>

text \<open>A socket with the user id of its token, if a guard has put one there, and the session id of its handshake.\<close>

record voiceClient =
  cl_id :: string
  cl_user :: "string option"
  cl_sessionId :: "string option"

text \<open>An absent user id is printed into a key as \<^verbatim>\<open>undefined\<close>.\<close>

definition userIdOf :: "voiceClient \<Rightarrow> string" where
  "userIdOf client = (case cl_user client of None \<Rightarrow> ''undefined'' | Some u \<Rightarrow> u)"

abbreviation voiceError :: "voiceClient \<Rightarrow> string \<Rightarrow> ('r, 'q) voiceState \<Rightarrow> ('r, 'q) voiceState" where
  "voiceError client msg st \<equiv> emit (ToClient (cl_id client) (EvError None msg)) st"

definition handleConnection :: "('r, 'q) voiceEnv \<Rightarrow> date \<Rightarrow> voiceClient \<Rightarrow> ('r, 'q) voiceState \<Rightarrow> ('r, 'q) voiceState" where
  "handleConnection env now client st =
     (if \<not> strTruthy (cl_user client)
      then emit (Disconnected (cl_id client)) (voiceError client ''Authentication failed'' st)
      else if \<not> strTruthy (cl_sessionId client) then st
      else let userId = the (cl_user client); sessionId = the (cl_sessionId client)
           in case getSession (ve_store env) sessionId (vo_redis st) of
                Some session \<Rightarrow>
                  if v_userId session = userId
                  then let st1 = snd (sess (updateSessionSocket (ve_store env) now sessionId (cl_id client)) st);
                           st2 = snd (sess (resumeSession (ve_store env) now sessionId) st1);
                           st3 = emit (Joined (cl_id client) sessionId) st2;
                           st4 = st3\<lparr>vo_redis := setUserActiveSession (ve_store env) userId sessionId (vo_redis st3)\<rparr>
                       in emit (ToClient (cl_id client) (EvResumed sessionId (v_state session))) st4
                  else emit (Disconnected (cl_id client)) (voiceError client ''Invalid session'' st)
              | None \<Rightarrow> emit (Disconnected (cl_id client)) (voiceError client ''Invalid session'' st))"

definition handleDisconnect :: "('r, 'q) voiceEnv \<Rightarrow> date \<Rightarrow> voiceClient \<Rightarrow> ('r, 'q) voiceState \<Rightarrow> ('r, 'q) voiceState" where
  "handleDisconnect env now client st =
     (if strTruthy (cl_user client) \<and> strTruthy (cl_sessionId client)
      then let st1 = snd (sess (updateSessionState (ve_store env) now (the (cl_sessionId client)) IDLE) st)
           in st1\<lparr>vo_redis := deleteUserActiveSession (ve_store env) (the (cl_user client)) (vo_redis st1)\<rparr>
      else st)"

record CreateSessionDto =
  cd_userId :: string
  cd_walletAddress :: "string option"
  cd_context :: FeatureContext
  cd_metadata :: "json option"

definition attachSession ::
    "('r, 'q) voiceEnv \<Rightarrow> date \<Rightarrow> voiceClient \<Rightarrow> VoiceSession \<Rightarrow> ('r, 'q) voiceState \<Rightarrow> ('r, 'q) voiceState" where
  "attachSession env now client session st =
     (let st1 = snd (sess (updateSessionSocket (ve_store env) now (v_id session) (cl_id client)) st);
          st2 = emit (Joined (cl_id client) (v_id session)) st1;
          st3 = st2\<lparr>vo_redis := setUserActiveSession (ve_store env) (the (cl_user client)) (v_id session) (vo_redis st2)\<rparr>
      in emit (ToClient (cl_id client) (EvCreated session)) st3)"

definition handleCreateSession ::
    "('r, 'q) voiceEnv \<Rightarrow> string \<Rightarrow> date \<Rightarrow> voiceClient \<Rightarrow> CreateSessionDto \<Rightarrow> ('r, 'q) voiceState \<Rightarrow> ('r, 'q) voiceState" where
  "handleCreateSession env uuid now client dto st =
     (if \<not> strTruthy (cl_user client) then voiceError client ''Authentication required'' st
      else case getUserActiveSessions (ve_store env) (the (cl_user client)) (vo_redis st) of
             existingSession # _ \<Rightarrow> attachSession env now client existingSession st
           | [] \<Rightarrow>
               (case createSession (ve_store env) uuid now (cd_userId dto) (cd_context dto) (cd_walletAddress dto)
                       (cd_metadata dto) (vo_redis st) of
                  (Inl err, r) \<Rightarrow>
                    if strIncludes ''Session limit reached'' (message err)
                    then emit (ToClient (cl_id client) (EvError (Some ''SESSION_LIMIT_REACHED'') (message err))) (st\<lparr>vo_redis := r\<rparr>)
                    else voiceError client ''Failed to create session'' (st\<lparr>vo_redis := r\<rparr>)
                | (Inr session, r) \<Rightarrow> attachSession env now client session (st\<lparr>vo_redis := r\<rparr>)))"

definition handleMessage ::
    "('r, 'q) voiceEnv \<Rightarrow> string \<Rightarrow> string \<Rightarrow> date \<Rightarrow> voiceClient \<Rightarrow> string \<Rightarrow> ('r, 'q) voiceState \<Rightarrow> ('r, 'q) voiceState" where
  "handleMessage env streamId messageId now client content st =
     (let sessionId = getUserActiveSession (ve_store env) (userIdOf client) (vo_redis st)
      in if \<not> strTruthy sessionId then voiceError client ''No active session'' st
         else case getSession (ve_store env) (the sessionId) (vo_redis st) of
                None \<Rightarrow> voiceError client ''Invalid session'' st
              | Some session \<Rightarrow>
                  if Some (v_userId session) \<noteq> cl_user client then voiceError client ''Invalid session'' st
                  else (case startStreamingResponse env streamId messageId now (the sessionId) content st of
                          (Inl _, st1) \<Rightarrow> voiceError client ''Failed to process message'' st1
                        | (Inr _, st1) \<Rightarrow> st1))"

definition handleInterrupt ::
    "('r, 'q) voiceEnv \<Rightarrow> date \<Rightarrow> voiceClient \<Rightarrow> string option \<Rightarrow> ('r, 'q) voiceState \<Rightarrow> ('r, 'q) voiceState" where
  "handleInterrupt env now client streamId st =
     (let sessionId = getUserActiveSession (ve_store env) (userIdOf client) (vo_redis st)
      in if \<not> strTruthy sessionId then voiceError client ''No active session'' st
         else case interruptStream env now (the sessionId) streamId st of
                (success, st1) \<Rightarrow>
                  if success then emit (ToClient (cl_id client) (EvInterruptAcknowledged (the sessionId) streamId)) st1
                  else voiceError client ''Failed to interrupt'' st1)"

definition handleSessionAction ::
    "('r, 'q) voiceEnv \<Rightarrow> date \<Rightarrow> voiceClient \<Rightarrow> ConversationState option \<Rightarrow> bool \<Rightarrow> ('r, 'q) voiceState \<Rightarrow> ('r, 'q) voiceState" where
  "handleSessionAction env now client state interrupt st =
     (let sessionId = getUserActiveSession (ve_store env) (userIdOf client) (vo_redis st)
      in if \<not> strTruthy sessionId then voiceError client ''No active session'' st
         else let st1 = (if interrupt then snd (interruptStream env now (the sessionId) None st) else st)
              in case state of
                   None \<Rightarrow> st1
                 | Some newState \<Rightarrow>
                     (case sess (updateSessionState (ve_store env) now (the sessionId) newState) st1 of
                        (success, st2) \<Rightarrow>
                          if success then emit (ToClient (cl_id client) (EvStateUpdated (the sessionId) newState)) st2
                          else voiceError client ''Invalid state transition'' st2))"

definition handleTerminate :: "('r, 'q) voiceEnv \<Rightarrow> date \<Rightarrow> voiceClient \<Rightarrow> ('r, 'q) voiceState \<Rightarrow> ('r, 'q) voiceState" where
  "handleTerminate env now client st =
     (let sessionId = getUserActiveSession (ve_store env) (userIdOf client) (vo_redis st)
      in if \<not> strTruthy sessionId then voiceError client ''No active session'' st
         else let st1 = snd (interruptStream env now (the sessionId) None st)
              in case sess (terminateSession (ve_store env) (the sessionId)) st1 of
                   (success, st2) \<Rightarrow>
                     if success
                     then let st3 = emit (Left (cl_id client) (the sessionId)) st2;
                              st4 = st3\<lparr>vo_redis := deleteUserActiveSession (ve_store env) (userIdOf client) (vo_redis st3)\<rparr>
                          in emit (ToClient (cl_id client) (EvTerminated (the sessionId))) st4
                     else voiceError client ''Failed to terminate session'' st2)"

definition handlePing :: "('r, 'q) voiceEnv \<Rightarrow> date \<Rightarrow> voiceClient \<Rightarrow> ('r, 'q) voiceState \<Rightarrow> ('r, 'q) voiceState" where
  "handlePing env now client st =
     (let sessionId = getUserActiveSession (ve_store env) (userIdOf client) (vo_redis st);
          st3 = (if strTruthy sessionId
                 then let st1 = snd (sess (updateSessionSocket (ve_store env) now (the sessionId) (cl_id client)) st);
                          st2 = snd (sess (updateLastPingAt (ve_store env) now (the sessionId)) st1)
                      in st2\<lparr>vo_redis := refreshUserSessionTTL (ve_store env) (userIdOf client) (vo_redis st2)\<rparr>
                 else st)
      in emit (ToClient (cl_id client) (EvPong now)) st3)"

end
