(* ===== verification/Voice_Gateway_Props.thy ===== *)
theory Voice_Gateway_Props
  imports Voice_Gateway Voice_Limits Voice_Llm_Props
begin

text \<open>
  Properties of the voice gateway: an answer that is not interrupted is delivered word by word and completely,
  a refused quota is handled by nobody, and a session created in another user's name gives its creator the
  answers of that user.
\<close>

section \<open>What the session operations keep\<close>

text \<open>The session \<open>sid\<close> of \<open>owner\<close> with the socket to which its answers go.\<close>

definition heldBy :: "vstate \<Rightarrow> string \<Rightarrow> string \<Rightarrow> string option \<Rightarrow> bool" where
  "heldBy m sid owner sock \<longleftrightarrow>
     (\<exists>s e. m (sessionKey sid) = Some (RSession s, e) \<and> v_id s = sid \<and> v_userId s = owner \<and> v_socketId s = sock)"

definition sameBut :: "string \<Rightarrow> vstate \<Rightarrow> vstate \<Rightarrow> bool" where
  "sameBut k m m' \<longleftrightarrow> (\<forall>k'. k' \<noteq> k \<longrightarrow> m' k' = m k')"

lemma sameBut_trans: "sameBut k m m' \<Longrightarrow> sameBut k m' m'' \<Longrightarrow> sameBut k m m''"
  by (simp add: sameBut_def)

lemma sameBut_refl [simp]: "sameBut k m m"
  by (simp add: sameBut_def)

context voice_store
begin

lemma heldBy_get:
  assumes "heldBy (look r) sid owner sock"
  obtains s where "getSession D sid r = Some s" "v_id s = sid" "v_userId s = owner" "v_socketId s = sock"
  using assms by (auto simp: heldBy_def getSession_look)

lemma save_get: "v_id s' = sid \<Longrightarrow> getSession D sid (saveSession D s' r) = Some s'"
  by (auto simp: getSession_look save_look)

lemma save_held:
  assumes "v_id s' = sid" and "v_userId s' = owner" and "v_socketId s' = sock"
  shows "heldBy (look (saveSession D s' r)) sid owner sock" and "sameBut (sessionKey sid) (look r) (look (saveSession D s' r))"
  using assms by (auto simp: heldBy_def sameBut_def save_look)

lemma ops_held:
  assumes "heldBy (look r) sid owner sock"
  shows "heldBy (look (snd (updateSessionSocket D now sid k r))) sid owner (Some k)"
    and "sameBut (sessionKey sid) (look r) (look (snd (updateSessionSocket D now sid k r)))"
    and "heldBy (look (snd (updateLastPingAt D now sid r))) sid owner sock"
    and "sameBut (sessionKey sid) (look r) (look (snd (updateLastPingAt D now sid r)))"
    and "heldBy (look (snd (addMessage D i now sid c b m r))) sid owner sock"
    and "sameBut (sessionKey sid) (look r) (look (snd (addMessage D i now sid c b m r)))"
    and "heldBy (look (snd (updateSessionState D now sid st r))) sid owner sock"
    and "sameBut (sessionKey sid) (look r) (look (snd (updateSessionState D now sid st r)))"
proof -
  obtain s where s: "getSession D sid r = Some s" "v_id s = sid" "v_userId s = owner" "v_socketId s = sock"
    using heldBy_get [OF assms] .
  show "heldBy (look (snd (updateSessionSocket D now sid k r))) sid owner (Some k)"
    "sameBut (sessionKey sid) (look r) (look (snd (updateSessionSocket D now sid k r)))"
    "heldBy (look (snd (updateLastPingAt D now sid r))) sid owner sock"
    "sameBut (sessionKey sid) (look r) (look (snd (updateLastPingAt D now sid r)))"
    "heldBy (look (snd (addMessage D i now sid c b m r))) sid owner sock"
    "sameBut (sessionKey sid) (look r) (look (snd (addMessage D i now sid c b m r)))"
    using s by (simp_all add: updateSessionSocket_def updateLastPingAt_def addMessage_def Let_def save_held)
  show "heldBy (look (snd (updateSessionState D now sid st r))) sid owner sock"
    "sameBut (sessionKey sid) (look r) (look (snd (updateSessionState D now sid st r)))"
    using s assms by (simp_all add: updateSessionState_def transition_def save_held)
qed

end

section \<open>Delivery of an answer\<close>

fun sendRest :: "('r, 'q) voiceEnv \<Rightarrow> (nat \<Rightarrow> string) \<Rightarrow> string \<Rightarrow> date \<Rightarrow> nat \<Rightarrow> nat \<Rightarrow> ('r, 'q) voiceState \<Rightarrow> ('r, 'q) voiceState" where
  "sendRest env ids mid now k 0 st = st"
| "sendRest env ids mid now k (Suc n) st = sendRest env ids mid now (Suc k) n (fireWord env (ids k) mid now st)"

definition chunkOf :: "(nat \<Rightarrow> string) \<Rightarrow> string list \<Rightarrow> nat \<Rightarrow> StreamingChunk" where
  "chunkOf ids ws k = \<lparr>sc_id = ids k, sc_content = joinWith (CHR '' '') (take (Suc k) ws),
     sc_isComplete = (k = length ws - 1), sc_isPartial = (k \<noteq> length ws - 1)\<rparr>"

definition jobAt :: "string \<Rightarrow> string \<Rightarrow> string \<Rightarrow> string \<Rightarrow> nat \<Rightarrow> wordJob" where
  "jobAt sid stream room full k =
     \<lparr>wj_sessionId = sid, wj_streamId = stream, wj_room = room, wj_words = splitOn (CHR '' '') full, wj_index = k,
      wj_currentText = joinWith (CHR '' '') (take k (splitOn (CHR '' '') full)), wj_fullResponse = full\<rparr>"

definition streaming :: "('r \<Rightarrow> vstate) \<Rightarrow> string \<Rightarrow> string \<Rightarrow> string \<Rightarrow> string option \<Rightarrow> ('r, 'q) voiceState \<Rightarrow> bool" where
  "streaming look sid stream owner sock st \<longleftrightarrow> heldBy (look (vo_redis st)) sid owner sock \<and>
     (\<exists>sr. map_of (vo_streams st) stream = Some sr \<and> \<not> sr_isInterrupted sr)"

lemma joinWith_take_Suc:
  assumes "k < length ws"
  shows "joinWith c (take (Suc k) ws) = joinWith c (take k ws) @ (if 0 < k then [c] else []) @ ws ! k"
  using assms
proof (induction ws arbitrary: k)
  case (Cons w ws)
  show ?case
  proof (cases k)
    case (Suc j)
    with Cons.prems have j: "j < length ws" by simp
    then obtain v vs where v: "take (Suc j) ws = v # vs" by (cases ws) auto
    show ?thesis
    proof (cases "take j ws")
      case Nil
      with j have "j = 0" by auto
      with v Suc j show ?thesis by (cases ws) auto
    next
      case (Cons u us)
      with j have "0 < j" by (cases j) auto
      with Cons.IH [OF j] v Cons Suc show ?thesis by simp
    qed
  qed simp
qed simp

lemma emit_simps [simp]:
  "vo_redis (emit e st) = vo_redis st" "vo_llm (emit e st) = vo_llm st" "vo_streams (emit e st) = vo_streams st"
  "vo_timers (emit e st) = vo_timers st" "vo_jobs (emit e st) = vo_jobs st" "vo_out (emit e st) = vo_out st @ [e]"
  "vo_unhandled (emit e st) = vo_unhandled st"
  by (simp_all add: emit_def)

lemma sess_simps [simp]:
  "fst (sess f st) = fst (f (vo_redis st))" "vo_redis (snd (sess f st)) = snd (f (vo_redis st))"
  "vo_llm (snd (sess f st)) = vo_llm st" "vo_streams (snd (sess f st)) = vo_streams st" "vo_timers (snd (sess f st)) = vo_timers st"
  "vo_jobs (snd (sess f st)) = vo_jobs st" "vo_out (snd (sess f st)) = vo_out st" "vo_unhandled (snd (sess f st)) = vo_unhandled st"
  by (simp_all add: sess_def case_prod_beta)

context voice_store
begin

lemma complete_stream:
  assumes "ve_store env = D" and "streaming look sid stream owner sock st"
  shows "vo_out (completeStreamingResponse env mid now sid stream full st) =
      vo_out st @ [ToRoom (strOr sock sid) (EvComplete sid stream full)]"
    and "map_of (vo_streams (completeStreamingResponse env mid now sid stream full st)) stream = None"
    and "vo_jobs (completeStreamingResponse env mid now sid stream full st) = vo_jobs st"
    and "\<exists>s. getSession D sid (vo_redis (completeStreamingResponse env mid now sid stream full st)) = Some s \<and>
      v_messages s \<noteq> [] \<and> vm_content (last (v_messages s)) = full \<and> \<not> vm_isUser (last (v_messages s))"
proof -
  obtain s where s: "getSession D sid (vo_redis st) = Some s" "v_id s = sid" "v_socketId s = sock"
    using assms(2) heldBy_get [of "vo_redis st" sid owner sock] by (auto simp: streaming_def)
  obtain sr where sr: "map_of (vo_streams st) stream = Some sr" using assms(2) by (auto simp: streaming_def)
  let ?msg = "\<lparr>vm_id = mid, vm_content = full, vm_timestamp = now, vm_isUser = False, vm_metadata = None\<rparr>"
  let ?s1 = "s\<lparr>v_messages := v_messages s @ [?msg], v_lastActivityAt := now\<rparr>"
  let ?r1 = "snd (addMessage D mid now sid full False None (vo_redis st))"
  have r1: "?r1 = saveSession D ?s1 (vo_redis st)" using s(1) by (simp add: addMessage_def)
  have g1: "getSession D sid ?r1 = Some ?s1" unfolding r1 by (rule save_get) (simp add: s(2))
  have "\<exists>s2. getSession D sid (snd (updateSessionState D now sid LISTENING ?r1)) = Some s2 \<and> v_messages s2 = v_messages ?s1"
  proof (cases "transition (v_state ?s1) LISTENING")
    case (Inl e)
    with g1 show ?thesis by (simp add: updateSessionState_def)
  next
    case (Inr u)
    let ?s2 = "?s1\<lparr>v_state := LISTENING, v_lastActivityAt := now\<rparr>"
    have "getSession D sid (saveSession D ?s2 ?r1) = Some ?s2" by (rule save_get) (simp add: s(2))
    with g1 Inr show ?thesis by (simp add: updateSessionState_def)
  qed
  then show "\<exists>s. getSession D sid (vo_redis (completeStreamingResponse env mid now sid stream full st)) = Some s \<and>
      v_messages s \<noteq> [] \<and> vm_content (last (v_messages s)) = full \<and> \<not> vm_isUser (last (v_messages s))"
    using assms(1) s sr by (auto simp: completeStreamingResponse_def Let_def)
  show "vo_out (completeStreamingResponse env mid now sid stream full st) =
      vo_out st @ [ToRoom (strOr sock sid) (EvComplete sid stream full)]"
    "map_of (vo_streams (completeStreamingResponse env mid now sid stream full st)) stream = None"
    "vo_jobs (completeStreamingResponse env mid now sid stream full st) = vo_jobs st"
    using assms(1) s sr by (simp_all add: completeStreamingResponse_def Let_def roomOf_def delete_conv')
qed

lemma complete_unhandled:
  "vo_unhandled (completeStreamingResponse env mid now sid stream full st) = vo_unhandled st"
  by (simp add: completeStreamingResponse_def Let_def split: option.split)

lemma send_next:
  assumes "streaming look sid stream owner sock st" and "Suc k < length (splitOn (CHR '' '') full)"
    and st'_def: "st' = sendWord env (ids k) mid now (jobAt sid stream room full k) st"
  shows "streaming look sid stream owner sock st' \<and> vo_jobs st' = vo_jobs st @ [jobAt sid stream room full (Suc k)] \<and>
    vo_unhandled st' = vo_unhandled st \<and>
    vo_out st' = vo_out st @ [ToRoom room (EvChunk sid stream (chunkOf ids (splitOn (CHR '' '') full) k))]"
proof -
  obtain sr where sr: "map_of (vo_streams st) stream = Some sr" "\<not> sr_isInterrupted sr"
    using assms(1) by (auto simp: streaming_def)
  let ?ws = "splitOn (CHR '' '') full"
  let ?ch = "chunkOf ids ?ws k"
  have k: "k < length ?ws" "k \<noteq> length ?ws - 1" using assms(2) by simp_all
  note j = joinWith_take_Suc [OF k(1), of "CHR '' ''", symmetric]
  have "st' = (emit (ToRoom room (EvChunk sid stream ?ch))
      (st\<lparr>vo_streams := AList.update stream (sr\<lparr>sr_chunks := sr_chunks sr @ [?ch]\<rparr>) (vo_streams st)\<rparr>))
        \<lparr>vo_jobs := vo_jobs st @ [jobAt sid stream room full (Suc k)]\<rparr>"
    using sr k unfolding st'_def
    by (simp add: sendWord_def jobAt_def Let_def chunkOf_def j del: append.simps split del: if_split)
  with assms(1) sr(2) show ?thesis by (simp add: streaming_def update_conv')
qed

lemma send_last:
  assumes "ve_store env = D" and "streaming look sid stream owner sock st" and "Suc k = length (splitOn (CHR '' '') full)"
    and st'_def: "st' = sendWord env (ids k) mid now (jobAt sid stream room full k) st"
  shows "vo_jobs st' = vo_jobs st \<and> map_of (vo_streams st') stream = None \<and> vo_unhandled st' = vo_unhandled st \<and>
    vo_out st' = vo_out st @ [ToRoom room (EvChunk sid stream (chunkOf ids (splitOn (CHR '' '') full) k)),
      ToRoom (strOr sock sid) (EvComplete sid stream full)] \<and>
    (\<exists>s. getSession D sid (vo_redis st') = Some s \<and>
      v_messages s \<noteq> [] \<and> vm_content (last (v_messages s)) = full \<and> \<not> vm_isUser (last (v_messages s)))"
proof -
  obtain sr where sr: "map_of (vo_streams st) stream = Some sr" "\<not> sr_isInterrupted sr"
    using assms(2) by (auto simp: streaming_def)
  have k: "k < length (splitOn (CHR '' '') full)" using assms(3) by simp
  have j: "joinWith (CHR '' '') (take k (splitOn (CHR '' '') full)) @ (if 0 < k then '' '' else []) @ splitOn (CHR '' '') full ! k = full"
    using joinWith_take_Suc [OF k, of "CHR '' ''"] assms(3) by simp
  let ?ch = "chunkOf ids (splitOn (CHR '' '') full) k"
  let ?st1 = "emit (ToRoom room (EvChunk sid stream ?ch))
     (st\<lparr>vo_streams := AList.update stream (sr\<lparr>sr_chunks := sr_chunks sr @ [?ch]\<rparr>) (vo_streams st)\<rparr>)"
  have st': "st' = completeStreamingResponse env mid now sid stream full ?st1"
    using sr k assms(3) [symmetric] unfolding st'_def
    by (simp add: sendWord_def jobAt_def Let_def chunkOf_def j del: append.simps split del: if_split)
  have "streaming look sid stream owner sock ?st1"
    using assms(2) sr(2) by (simp add: streaming_def update_conv')
  from complete_stream [OF assms(1) this, of mid now full] show ?thesis
    unfolding st' complete_unhandled by simp
qed

lemma send_rest:
  assumes "ve_store env = D" and "streaming look sid stream owner sock st" and "vo_jobs st = [jobAt sid stream room full k]"
    and "length (splitOn (CHR '' '') full) = k + Suc n"
  shows "let st' = sendRest env ids mid now k (Suc n) st in
    vo_jobs st' = [] \<and> map_of (vo_streams st') stream = None \<and> vo_unhandled st' = vo_unhandled st \<and>
    vo_out st' = vo_out st @ map (\<lambda>i. ToRoom room (EvChunk sid stream (chunkOf ids (splitOn (CHR '' '') full) i))) [k..<k + Suc n] @
      [ToRoom (strOr sock sid) (EvComplete sid stream full)] \<and>
    (\<exists>s. getSession D sid (vo_redis st') = Some s \<and>
      v_messages s \<noteq> [] \<and> vm_content (last (v_messages s)) = full \<and> \<not> vm_isUser (last (v_messages s)))"
  using assms(2-4)
proof (induction n arbitrary: k st)
  case 0
  have "streaming look sid stream owner sock (st\<lparr>vo_jobs := []\<rparr>)" using "0.prems"(1) by (simp add: streaming_def)
  from send_last [OF assms(1) this _ refl, of k full ids mid now room] "0.prems"(2,3) show ?case by (simp add: fireWord_def)
next
  case (Suc n)
  let ?st1 = "fireWord env (ids k) mid now st"
  have "streaming look sid stream owner sock (st\<lparr>vo_jobs := []\<rparr>)" using Suc.prems(1) by (simp add: streaming_def)
  note step = send_next [OF this _ refl, of k full env ids mid now room]
  have st1: "streaming look sid stream owner sock ?st1" "vo_jobs ?st1 = [jobAt sid stream room full (Suc k)]"
    "vo_unhandled ?st1 = vo_unhandled st"
    "vo_out ?st1 = vo_out st @ [ToRoom room (EvChunk sid stream (chunkOf ids (splitOn (CHR '' '') full) k))]"
    using step Suc.prems(2,3) by (simp_all add: fireWord_def)
  have up: "[k..<k + Suc (Suc n)] = k # [Suc k..<Suc k + Suc n]" by (simp add: upt_conv_Cons)
  from Suc.IH [OF st1(1,2)] Suc.prems(3) show ?case unfolding up by (simp add: st1(3,4) Let_def)
qed

lemma fire_start:
  assumes "ve_store env = D" and "streaming look sid stream owner sock st" and "vo_timers st = (sid, stream, text) # rest"
  obtains r1 where "heldBy (look r1) sid owner sock"
    and "fireTimer env pick cid mid now later st =
      (case generateResponse (ve_llm env) pick now later (strOr (Some owner) ''anonymous'') sid text plainOptions (vo_llm st) of
         (Inl e, q) \<Rightarrow> st\<lparr>vo_timers := rest, vo_redis := r1, vo_llm := q, vo_unhandled := vo_unhandled st @ [e]\<rparr>
       | (Inr resp, q) \<Rightarrow>
           sendWord env cid mid later (jobAt sid stream (strOr sock sid) (lr_content resp) 0)
             (emit (ToRoom (strOr sock sid) (EvResponding sid stream)) (st\<lparr>vo_timers := rest, vo_redis := r1, vo_llm := q\<rparr>)))"
    and "r1 = snd (updateSessionState D now sid RESPONDING (vo_redis st))"
proof -
  obtain s where s: "getSession D sid (vo_redis st) = Some s" "v_userId s = owner" "v_socketId s = sock"
    using assms(2) heldBy_get [of "vo_redis st" sid owner sock] by (auto simp: streaming_def)
  obtain sr where sr: "map_of (vo_streams st) stream = Some sr" "\<not> sr_isInterrupted sr"
    using assms(2) by (auto simp: streaming_def)
  let ?r1 = "snd (updateSessionState D now sid RESPONDING (vo_redis st))"
  have h: "heldBy (look ?r1) sid owner sock" using assms(2) ops_held(7) by (simp add: streaming_def)
  show thesis
    using s sr assms(1,3)
    by (intro that [OF h _ refl])
      (simp add: fireTimer_def generateStreamingResponse_def sess_def case_prod_beta roomOf_def jobAt_def plainOptions_def Let_def
        split: sum.split)
qed

lemma delivers:
  assumes "ve_store env = D" and "streaming look sid stream owner sock st"
    and "vo_timers st = [(sid, stream, text)]" and "vo_jobs st = []"
    and "generateResponse (ve_llm env) pick now later (strOr (Some owner) ''anonymous'') sid text plainOptions (vo_llm st) = (Inr resp, q)"
    and "ws = splitOn (CHR '' '') (lr_content resp)"
    and "st' = sendRest env ids mid later 1 (length ws - 1) (fireTimer env pick (ids 0) mid now later st)"
  shows "vo_out st' = vo_out st @ [ToRoom (strOr sock sid) (EvResponding sid stream)] @
      map (\<lambda>i. ToRoom (strOr sock sid) (EvChunk sid stream (chunkOf ids ws i))) [0..<length ws] @
      [ToRoom (strOr sock sid) (EvComplete sid stream (lr_content resp))] \<and>
    sc_content (chunkOf ids ws (length ws - 1)) = lr_content resp \<and>
    vo_jobs st' = [] \<and> map_of (vo_streams st') stream = None \<and> vo_unhandled st' = vo_unhandled st \<and>
    (\<exists>s. getSession D sid (vo_redis st') = Some s \<and> v_messages s \<noteq> [] \<and>
      vm_content (last (v_messages s)) = lr_content resp \<and> \<not> vm_isUser (last (v_messages s)))"
proof -
  let ?room = "strOr sock sid" and ?full = "lr_content resp"
  obtain r1 where r1: "heldBy (look r1) sid owner sock"
    and f: "fireTimer env pick (ids 0) mid now later st = sendWord env (ids 0) mid later (jobAt sid stream ?room ?full 0)
      (emit (ToRoom ?room (EvResponding sid stream)) (st\<lparr>vo_timers := [], vo_redis := r1, vo_llm := q\<rparr>))"
    by (rule fire_start [OF assms(1-3), of pick "ids 0" mid now later]) (simp add: assms(5))
  let ?st1 = "emit (ToRoom ?room (EvResponding sid stream)) (st\<lparr>vo_timers := [], vo_redis := r1, vo_llm := q\<rparr>)"
  have h: "streaming look sid stream owner sock (?st1\<lparr>vo_jobs := [jobAt sid stream ?room ?full 0]\<rparr>)"
    using assms(2) r1 by (simp add: streaming_def)
  have len: "length (splitOn (CHR '' '') ?full) = 0 + Suc (length ws - 1)"
    using assms(6) splitOn_neq_Nil [of "CHR '' ''" ?full] by (cases ws) auto
  have r: "let st' = sendRest env ids mid later 0 (Suc (length ws - 1)) (?st1\<lparr>vo_jobs := [jobAt sid stream ?room ?full 0]\<rparr>) in
      vo_jobs st' = [] \<and> map_of (vo_streams st') stream = None \<and> vo_unhandled st' = vo_unhandled (?st1\<lparr>vo_jobs := [jobAt sid stream ?room ?full 0]\<rparr>) \<and>
      vo_out st' = vo_out (?st1\<lparr>vo_jobs := [jobAt sid stream ?room ?full 0]\<rparr>) @ map (\<lambda>i. ToRoom ?room (EvChunk sid stream (chunkOf ids ws i))) [0..<0 + Suc (length ws - 1)] @
        [ToRoom ?room (EvComplete sid stream ?full)] \<and>
      (\<exists>s. getSession D sid (vo_redis st') = Some s \<and> v_messages s \<noteq> [] \<and>
        vm_content (last (v_messages s)) = ?full \<and> \<not> vm_isUser (last (v_messages s)))"
    unfolding assms(6) by (rule send_rest [OF assms(1) h _ len [unfolded assms(6)]]) simp
  have "?st1\<lparr>vo_jobs := []\<rparr> = ?st1" using assms(4) by (simp add: emit_def)
  then have "sendRest env ids mid later 0 (Suc (length ws - 1)) (?st1\<lparr>vo_jobs := [jobAt sid stream ?room ?full 0]\<rparr>) = st'"
    by (simp add: assms(7) f fireWord_def)
  note r = r [unfolded this]
  have up: "[0..<0 + Suc (length ws - 1)] = [0..<length ws]" using len assms(6) by simp
  have "sc_content (chunkOf ids ws (length ws - 1)) = ?full" using len by (simp add: chunkOf_def assms(6))
  with r show ?thesis unfolding up Let_def by simp
qed

end


text \<open>
  A refused quota is handled by nobody. The timer's callback awaits nothing and has no handler, so when the quota is
  used up the user is sent nothing at all, the stream stays active, the session that was thinking stays in the responding
  state, and the error is an unhandled rejection.
\<close>

theorem voice_quota_unhandled:
  assumes "voice_store D look adv" and "ve_store env = D" and "streaming look sid stream owner sock st"
    and "vo_timers st = (sid, stream, text) # rest"
    and "enforceQuota (ve_llm env) (strOr (Some owner) ''anonymous'') sid noConfig now (vo_llm st) = Inl e"
    and "getSession D sid (vo_redis st) = Some s" and "v_state s = THINKING"
    and "st' = fireTimer env pick cid mid now later st"
  shows "vo_out st' = vo_out st \<and> vo_jobs st' = vo_jobs st \<and> vo_timers st' = rest \<and> vo_streams st' = vo_streams st \<and>
    vo_llm st' = vo_llm st \<and> vo_unhandled st' = vo_unhandled st @ [e] \<and>
    (\<exists>s'. getSession D sid (vo_redis st') = Some s' \<and> v_state s' = RESPONDING)"
proof -
  have g: "generateResponse (ve_llm env) pick now later (strOr (Some owner) ''anonymous'') sid text plainOptions (vo_llm st) = (Inl e, vo_llm st)"
    using assms(5) by (simp add: generateResponse_def Let_def)
  obtain r1 where f: "st' = st\<lparr>vo_timers := rest, vo_redis := r1, vo_llm := vo_llm st, vo_unhandled := vo_unhandled st @ [e]\<rparr>"
    and r1: "r1 = snd (updateSessionState D now sid RESPONDING (vo_redis st))"
    by (rule voice_store.fire_start [OF assms(1-4), of pick cid mid now later]) (simp add: g assms(8))
  have "v_id s = sid" using assms(3,6) voice_store.getSession_look [OF assms(1)] by (auto simp: streaming_def heldBy_def)
  then have "getSession D sid r1 = Some (s\<lparr>v_state := RESPONDING, v_lastActivityAt := now\<rparr>)"
    using assms(6,7) voice_store.save_get [OF assms(1), of "s\<lparr>v_state := RESPONDING, v_lastActivityAt := now\<rparr>" sid]
    by (simp add: r1 updateSessionState_def transition_def canTransition_def)
  then show ?thesis by (simp add: f)
qed

section \<open>A session in another user's name\<close>

context voice_store
begin

lemma sole_active:
  assumes "setAt (look r) (userSessionsKey u) = insert sid A" and "\<And>x. x \<in> A \<Longrightarrow> x \<noteq> sid \<Longrightarrow> getSession D x r = None"
    and "getSession D sid r = Some s"
  obtains rest where "getUserActiveSessions D u r = s # rest"
proof -
  have m: "set (vrSMembers D (userSessionsKey u) r) = insert sid A" using members_look assms(1) by simp
  have "set (getUserActiveSessions D u r) = {s}"
    using assms(2,3)
    by (auto simp: getUserActiveSessions_def List.map_filter_def m image_iff) (metis option.distinct(1) option.inject, metis option.sel)
  then show thesis using that by (cases "getUserActiveSessions D u r") auto
qed

lemma active_none:
  assumes "getUserActiveSessions D u r = []" and "x \<in> setAt (look r) (userSessionsKey u)"
  shows "getSession D x r = None"
  using assms members_look [of "userSessionsKey u" r]
  by (auto simp: getUserActiveSessions_def List.map_filter_def filter_empty_conv)

text \<open>What \<^verbatim>\<open>attachSession\<close> does to the store, and that it leaves the rest alone.\<close>

lemma attach:
  assumes "ve_store env = D" and "heldBy (look (vo_redis st)) (v_id s) owner sock" and "cl_user client = Some u"
    and "st' = attachSession env now client s st"
  shows "heldBy (look (vo_redis st')) (v_id s) owner (Some (cl_id client))"
    and "k \<noteq> sessionKey (v_id s) \<Longrightarrow> k \<noteq> userActiveKey u \<Longrightarrow> look (vo_redis st') k = look (vo_redis st) k"
    and "getUserActiveSession D u (vo_redis st') = Some (v_id s)"
    and "vo_timers st' = vo_timers st" "vo_jobs st' = vo_jobs st" "vo_llm st' = vo_llm st"
proof -
  note h = ops_held(1,2) [OF assms(2), of now "cl_id client"]
  show "heldBy (look (vo_redis st')) (v_id s) owner (Some (cl_id client))"
    using h(1) by (simp add: assms(1,3,4) attachSession_def Let_def setUserActiveSession_def setText_look heldBy_def)
  show "k \<noteq> sessionKey (v_id s) \<Longrightarrow> k \<noteq> userActiveKey u \<Longrightarrow> look (vo_redis st') k = look (vo_redis st) k"
    using h(2) by (simp add: assms(1,3,4) attachSession_def Let_def setUserActiveSession_def setText_look sameBut_def)
  show "getUserActiveSession D u (vo_redis st') = Some (v_id s)"
    by (simp add: assms(1,3,4) attachSession_def Let_def setUserActiveSession_def setText_look getUserActiveSession_def text_look textAt_def)
  show "vo_timers st' = vo_timers st" "vo_jobs st' = vo_jobs st" "vo_llm st' = vo_llm st"
    by (simp_all add: assms(1,3,4) attachSession_def Let_def)
qed

lemma active_pointer: "look r' (userActiveKey u) = look r (userActiveKey u) \<Longrightarrow> getUserActiveSession D u r' = getUserActiveSession D u r"
  by (simp add: getUserActiveSession_def text_look textAt_def)

text \<open>The first session created in the name of \<open>v\<close> by a client of another user.\<close>

lemma create_for_other:
  assumes "ve_store env = D" and "cl_user client = Some a" "a \<noteq> []" and "cd_userId dto = v"
    and "getUserActiveSessions D a (vo_redis st) = []" and "getUserActiveSessions D v (vo_redis st) = []"
    and "st' = handleCreateSession env uuid now client dto st"
  shows "heldBy (look (vo_redis st')) uuid v (Some (cl_id client))" and "getUserActiveSession D a (vo_redis st') = Some uuid"
    and "setAt (look (vo_redis st')) (userSessionsKey v) = insert uuid (setAt (look (vo_redis st)) (userSessionsKey v))"
    and "\<And>x. x \<in> setAt (look (vo_redis st)) (userSessionsKey v) \<Longrightarrow> x \<noteq> uuid \<Longrightarrow> getSession D x (vo_redis st') = None"
    and "vo_timers st' = vo_timers st" "vo_jobs st' = vo_jobs st" "vo_llm st' = vo_llm st"
proof -
  let ?s = "newVoiceSession uuid now v (cd_context dto) (cd_walletAddress dto) (cd_metadata dto)" and ?r = "vo_redis st"
  obtain res r1 where c: "createSession D uuid now v (cd_context dto) (cd_walletAddress dto) (cd_metadata dto) ?r = (res, r1)"
    by (cases "createSession D uuid now v (cd_context dto) (cd_walletAddress dto) (cd_metadata dto) ?r")
  have "card (liveIds (look ?r) v) = 0" using active_count [of v ?r] assms(6) by simp
  with create_look [OF c] have res: "res = Inr ?s"
    and r1: "look r1 = (look ?r)(sessionKey uuid \<mapsto> (RSession ?s, Some 3600),
        userSessionsKey v \<mapsto> (RSet (insert uuid (setAt (look ?r) (userSessionsKey v))), Some 3600))" by auto
  have id: "v_id ?s = uuid" by (simp add: newVoiceSession_def)
  have st': "st' = attachSession env now client ?s (st\<lparr>vo_redis := r1\<rparr>)"
    using assms(1-5) c res by (simp add: assms(7) handleCreateSession_def strTruthy_def)
  have h: "heldBy (look (vo_redis (st\<lparr>vo_redis := r1\<rparr>))) (v_id ?s) v None" by (simp add: heldBy_def r1 newVoiceSession_def)
  note att = attach [OF assms(1) h assms(2) st', unfolded id]
  show "heldBy (look (vo_redis st')) uuid v (Some (cl_id client))" "getUserActiveSession D a (vo_redis st') = Some uuid"
    "vo_timers st' = vo_timers st" "vo_jobs st' = vo_jobs st" "vo_llm st' = vo_llm st"
    using att(1,3-6) by simp_all
  show "setAt (look (vo_redis st')) (userSessionsKey v) = insert uuid (setAt (look ?r) (userSessionsKey v))"
    using att(2) [of "userSessionsKey v"] by (simp add: setAt_def [of "look (vo_redis st')"] r1)
  fix x assume x: "x \<in> setAt (look ?r) (userSessionsKey v)" "x \<noteq> uuid"
  have "getSession D x ?r = None" by (rule active_none [OF assms(6) x(1)])
  then show "getSession D x (vo_redis st') = None"
    using att(2) [of "sessionKey x"] x(2) by (simp add: getSession_def session_look sessionAt_def r1)
qed

lemma message_held:
  assumes "ve_store env = D" and "heldBy (look (vo_redis st)) sid u sock" and "cl_user client = Some u" and "sid \<noteq> []"
    and "getUserActiveSession D u (vo_redis st) = Some sid" and "st' = handleMessage env stream mid now client text st"
  shows "streaming look sid stream u sock st'" and "look (vo_redis st') (userActiveKey a) = look (vo_redis st) (userActiveKey a)"
    and "vo_timers st' = vo_timers st @ [(sid, stream, text)]" "vo_jobs st' = vo_jobs st" "vo_llm st' = vo_llm st"
proof -
  let ?r1 = "snd (addMessage D mid now sid text True None (vo_redis st))"
  let ?r2 = "snd (updateSessionState D now sid THINKING ?r1)"
  obtain s where s: "getSession D sid (vo_redis st) = Some s" "v_userId s = u" using heldBy_get [OF assms(2)] by metis
  note h1 = ops_held(5,6) [OF assms(2), of mid now "text" True None]
  note h2 = ops_held(7,8) [OF h1(1), of now THINKING]
  note msg = handleMessage_def startStreamingResponse_def strTruthy_def userIdOf_def Let_def
  have r: "vo_redis st' = ?r2" using s assms by (simp add: msg)
  show "streaming look sid stream u sock st'" unfolding streaming_def r
    using h2(1) s assms by (simp add: msg update_conv')
  show "look (vo_redis st') (userActiveKey a) = look (vo_redis st) (userActiveKey a)"
    using sameBut_trans [OF h1(2) h2(2)] by (simp add: r sameBut_def)
  show "vo_timers st' = vo_timers st @ [(sid, stream, text)]" "vo_jobs st' = vo_jobs st" "vo_llm st' = vo_llm st"
    using s assms by (simp_all add: msg)
qed

lemma ping_takes_over:
  assumes "ve_store env = D" and "streaming look sid stream owner sock st" and "cl_user client = Some a" and "sid \<noteq> []"
    and "getUserActiveSession D a (vo_redis st) = Some sid" and "st' = handlePing env now client st"
  shows "streaming look sid stream owner (Some (cl_id client)) st'"
    and "vo_timers st' = vo_timers st" "vo_jobs st' = vo_jobs st" "vo_llm st' = vo_llm st"
proof -
  have h: "heldBy (look (vo_redis st)) sid owner sock" using assms(2) by (simp add: streaming_def)
  note h1 = ops_held(1) [OF h, of now "cl_id client"]
  note h2 = ops_held(3) [OF h1, of now]
  show "streaming look sid stream owner (Some (cl_id client)) st'"
    using h2 assms(1-5)
    by (simp add: assms(6) handlePing_def Let_def strTruthy_def userIdOf_def streaming_def refreshUserSessionTTL_def vexpire_look heldBy_def)
  show "vo_timers st' = vo_timers st" "vo_jobs st' = vo_jobs st" "vo_llm st' = vo_llm st"
    using assms(1-5) by (simp_all add: assms(6) handlePing_def Let_def strTruthy_def userIdOf_def)
qed

end

text \<open>
  A session created in another user's name listens in. The gateway takes the owner of a new session from the
  request and not from the token, and a ping does not ask whose session it is: when \<open>a\<close> creates the first session of \<open>v\<close>, the
  user \<open>v\<close> is attached to it, and a ping of \<open>a\<close> after a message of \<open>v\<close> makes the whole answer go to the socket of \<open>a\<close>.
\<close>

theorem voice_session_hijack:
  assumes "voice_store D look adv" and "ve_store env = D"
    and "cl_user attacker = Some a" and "cl_user victim = Some v" and "a \<noteq> v" and "a \<noteq> []" and "v \<noteq> []" and "uuid \<noteq> []"
    and "cl_id attacker \<noteq> []" and "cd_userId dto = v"
    and "getUserActiveSessions D a (vo_redis st) = []" and "getUserActiveSessions D v (vo_redis st) = []"
    and "vo_timers st = []" and "vo_jobs st = []"
    and "st1 = handleCreateSession env uuid t1 attacker dto st"
    and "st2 = handleCreateSession env uuid2 t2 victim dto2 st1"
    and "st3 = handleMessage env stream mid t3 victim text st2"
    and "st4 = handlePing env t4 attacker st3"
    and "generateResponse (ve_llm env) pick t5 t6 v uuid text plainOptions (vo_llm st) = (Inr resp, q)"
    and "ws = splitOn (CHR '' '') (lr_content resp)"
    and "st5 = sendRest env ids mid2 t6 1 (length ws - 1) (fireTimer env pick (ids 0) mid2 t5 t6 st4)"
  shows "vo_out st5 = vo_out st4 @ map (ToRoom (cl_id attacker))
    (EvResponding uuid stream # map (\<lambda>i. EvChunk uuid stream (chunkOf ids ws i)) [0..<length ws] @
     [EvComplete uuid stream (lr_content resp)])"
proof -
  note c = voice_store.create_for_other [OF assms(1,2,3,6,10,11,12,15)]
  obtain s where s: "getSession D uuid (vo_redis st1) = Some s" "v_id s = uuid"
    using voice_store.heldBy_get [OF assms(1) c(1)] by metis
  obtain rest where "getUserActiveSessions D v (vo_redis st1) = s # rest"
    using voice_store.sole_active [OF assms(1) c(3) c(4) s(1)] by metis
  then have st2: "st2 = attachSession env t2 victim s st1"
    using assms(2,4,7) by (simp add: assms(16) handleCreateSession_def strTruthy_def)
  note att = voice_store.attach [OF assms(1,2) c(1) [folded s(2)] assms(4) st2, unfolded s(2)]
  have a2: "getUserActiveSession D a (vo_redis st2) = Some uuid"
    using voice_store.active_pointer [OF assms(1) att(2) [of "userActiveKey a"]] c(2) assms(5) by simp
  note msg = voice_store.message_held [OF assms(1,2) att(1) assms(4,8) att(3) assms(17)]
  have a3: "getUserActiveSession D a (vo_redis st3) = Some uuid"
    using voice_store.active_pointer [OF assms(1) msg(2)] a2 by simp
  note ping = voice_store.ping_takes_over [OF assms(1,2) msg(1) assms(3,8) a3 assms(18)]
  have g: "generateResponse (ve_llm env) pick t5 t6 (strOr (Some v) ''anonymous'') uuid text plainOptions (vo_llm st4) = (Inr resp, q)"
    using assms(7,19) ping(4) msg(5) att(6) c(7) by (simp add: strOr_def)
  have "vo_timers st4 = [(uuid, stream, text)]" "vo_jobs st4 = []" using ping(2,3) msg(3,4) att(4,5) c(5,6) assms(13,14) by simp_all
  from voice_store.delivers [OF assms(1,2) ping(1) this g assms(20,21)] assms(9) show ?thesis by (simp add: strOr_def)
qed

section \<open>Concrete runs\<close>

definition memEnv :: "(mstore, kvstate) voiceEnv" where
  "memEnv = \<lparr>ve_store = memVoice, ve_llm = memLlm\<rparr>"

definition freshVoice :: "(mstore, kvstate) voiceState" where
  "freshVoice = \<lparr>vo_redis = [], vo_llm = Map.empty, vo_streams = [], vo_timers = [], vo_jobs = [], vo_out = [], vo_unhandled = []\<rparr>"

text \<open>Alice has sent a message that waits for its timer; \<open>llm\<close> is the store of the quotas and of the cache.\<close>

definition aliceSession :: VoiceSession where
  "aliceSession = (newVoiceSession ''s'' 0 ''alice'' GENERAL None None)\<lparr>v_state := THINKING\<rparr>"

definition aliceWaits :: "kvstate \<Rightarrow> (mstore, kvstate) voiceState" where
  "aliceWaits llm = freshVoice\<lparr>vo_redis := [(sessionKey ''s'', MSession aliceSession, Some 3600)], vo_llm := llm,
     vo_streams := [(''t'', \<lparr>sr_id = ''t'', sr_sessionId = ''s'', sr_chunks = [], sr_startTime = 0, sr_endTime = None,
       sr_isInterrupted = False\<rparr>)], vo_timers := [(''s'', ''t'', ''hello'')]\<rparr>"

lemma aliceWaits_streaming: "streaming mlook ''s'' ''t'' ''alice'' None (aliceWaits llm)"
  by (simp add: streaming_def aliceWaits_def heldBy_def mlook_def aliceSession_def newVoiceSession_def)

lemma memEnv_store: "ve_store memEnv = memVoice"
  by (simp add: memEnv_def)

lemma answer_fresh: "\<exists>resp q. generateResponse (ve_llm memEnv) 1 now later u sid p plainOptions Map.empty = (Inr resp, q)"
proof -
  have D: "le_redis memLlm = memRedis" by (simp add: memLlm_def)
  have q: "enforceQuota memLlm u sid noConfig now Map.empty = Inr (getQuotaStatus memLlm u sid now (mergeConfig noConfig) Map.empty)"
    by (rule mkv.enforce_fresh [OF D]) simp
  have miss: "cacheGet memLlm p DEFAULT_MODEL Map.empty = (None, Map.empty)"
    by (simp add: cacheGet_def Let_def memLlm_def memRedis_def strTruthy_def)
  show ?thesis by (simp add: memEnv_def generateResponse_def Let_def q miss plainOptions_def strOr_def)
qed


theorem voice_quota_unhandled_witness:
  "\<exists>e. enforceQuota memLlm ''alice'' ''s'' noConfig 0 [limitKey ''alice'' \<mapsto> (''0'', None)] = Inl e \<and>
    vo_out (fireTimer memEnv 1 ''c'' ''m'' 0 500 (aliceWaits [limitKey ''alice'' \<mapsto> (''0'', None)])) = [] \<and>
    vo_unhandled (fireTimer memEnv 1 ''c'' ''m'' 0 500 (aliceWaits [limitKey ''alice'' \<mapsto> (''0'', None)])) = [e]"
proof -
  let ?st = "aliceWaits [limitKey ''alice'' \<mapsto> (''0'', None)]"
  obtain e where e: "enforceQuota memLlm ''alice'' ''s'' noConfig 0 [limitKey ''alice'' \<mapsto> (''0'', None)] = Inl e"
    by (simp add: enforceQuota_def checkMonthlyQuota_def Let_def memLlm_def memRedis_def strTruthy_def parseInt10_def digitVal_def isDigit_def)
  have w: "vo_timers ?st = (''s'', ''t'', ''hello'') # []" "vo_llm ?st = [limitKey ''alice'' \<mapsto> (''0'', None)]" "vo_out ?st = []"
    "vo_unhandled ?st = []" "strOr (Some ''alice'') ''anonymous'' = ''alice''" "ve_llm memEnv = memLlm"
    by (simp_all add: aliceWaits_def freshVoice_def strOr_def memEnv_def)
  have g: "getSession memVoice ''s'' (vo_redis ?st) = Some aliceSession" "v_state aliceSession = THINKING"
    by (simp_all add: aliceWaits_def getSession_def memVoice_def aliceSession_def)
  have e': "enforceQuota (ve_llm memEnv) (strOr (Some ''alice'') ''anonymous'') ''s'' noConfig 0 (vo_llm ?st) = Inl e"
    using e by (simp only: w(2,5,6))
  note u = voice_quota_unhandled [OF memv.voice_store_axioms memEnv_store aliceWaits_streaming w(1) e' g refl, of 1 "''c''" "''m''" 500]
  have "vo_out (fireTimer memEnv 1 ''c'' ''m'' 0 500 ?st) = []" "vo_unhandled (fireTimer memEnv 1 ''c'' ''m'' 0 500 ?st) = [e]"
    using u unfolding w(3,4) by simp_all
  with e show ?thesis by blast
qed

theorem voice_session_hijack_witness:
  "\<exists>resp q st4 st5. generateResponse (ve_llm memEnv) 1 50 550 ''victim'' ''s'' ''secret'' plainOptions Map.empty = (Inr resp, q) \<and>
    st4 = handlePing memEnv 40 \<lparr>cl_id = ''sockA'', cl_user = Some ''attacker'', cl_sessionId = None\<rparr>
      (handleMessage memEnv ''t'' ''m'' 30 \<lparr>cl_id = ''sockV'', cl_user = Some ''victim'', cl_sessionId = None\<rparr> ''secret''
        (handleCreateSession memEnv ''s2'' 20 \<lparr>cl_id = ''sockV'', cl_user = Some ''victim'', cl_sessionId = None\<rparr>
            \<lparr>cd_userId = ''victim'', cd_walletAddress = None, cd_context = GENERAL, cd_metadata = None\<rparr>
          (handleCreateSession memEnv ''s'' 10 \<lparr>cl_id = ''sockA'', cl_user = Some ''attacker'', cl_sessionId = None\<rparr>
            \<lparr>cd_userId = ''victim'', cd_walletAddress = None, cd_context = GENERAL, cd_metadata = None\<rparr> freshVoice))) \<and>
    st5 = sendRest memEnv showNat ''m2'' 550 1 (length (splitOn (CHR '' '') (lr_content resp)) - 1)
      (fireTimer memEnv 1 (showNat 0) ''m2'' 50 550 st4) \<and>
    vo_out st5 = vo_out st4 @ map (ToRoom ''sockA'')
      (EvResponding ''s'' ''t'' # map (\<lambda>i. EvChunk ''s'' ''t'' (chunkOf showNat (splitOn (CHR '' '') (lr_content resp)) i))
         [0..<length (splitOn (CHR '' '') (lr_content resp))] @ [EvComplete ''s'' ''t'' (lr_content resp)])"
proof -
  obtain resp q where g0: "generateResponse (ve_llm memEnv) 1 50 550 ''victim'' ''s'' ''secret'' plainOptions Map.empty = (Inr resp, q)"
    using answer_fresh by blast
  then have g: "generateResponse (ve_llm memEnv) 1 50 550 ''victim'' ''s'' ''secret'' plainOptions (vo_llm freshVoice) = (Inr resp, q)"
    by (simp add: freshVoice_def)
  let ?A = "\<lparr>cl_id = ''sockA'', cl_user = Some ''attacker'', cl_sessionId = None\<rparr>"
  let ?V = "\<lparr>cl_id = ''sockV'', cl_user = Some ''victim'', cl_sessionId = None\<rparr>"
  let ?d = "\<lparr>cd_userId = ''victim'', cd_walletAddress = None, cd_context = GENERAL, cd_metadata = None\<rparr>"
  have none: "getUserActiveSessions memVoice u (vo_redis freshVoice) = []" for u
    by (simp add: getUserActiveSessions_def memVoice_def mset_at_def freshVoice_def List.map_filter_def)
  have start: "cl_user ?A = Some ''attacker''" "cl_user ?V = Some ''victim''" "''attacker'' \<noteq> ''victim''" "''attacker'' \<noteq> []"
    "''victim'' \<noteq> []" "''s'' \<noteq> []" "cl_id ?A \<noteq> []" "cd_userId ?d = ''victim''" "vo_timers freshVoice = []" "vo_jobs freshVoice = []"
    by (simp_all add: freshVoice_def)
  let ?st4 = "handlePing memEnv 40 ?A (handleMessage memEnv ''t'' ''m'' 30 ?V ''secret'' (handleCreateSession memEnv ''s2'' 20 ?V ?d
      (handleCreateSession memEnv ''s'' 10 ?A ?d freshVoice)))"
  let ?ws = "splitOn (CHR '' '') (lr_content resp)"
  let ?st5 = "sendRest memEnv showNat ''m2'' 550 1 (length ?ws - 1) (fireTimer memEnv 1 (showNat 0) ''m2'' 50 550 ?st4)"
  have "vo_out ?st5 = vo_out ?st4 @ map (ToRoom (cl_id ?A))
      (EvResponding ''s'' ''t'' # map (\<lambda>i. EvChunk ''s'' ''t'' (chunkOf showNat ?ws i)) [0..<length ?ws] @ [EvComplete ''s'' ''t'' (lr_content resp)])"
    by (rule voice_session_hijack [OF memv.voice_store_axioms memEnv_store start(1-8) none none start(9,10) refl refl refl refl g refl refl])
  then have "vo_out ?st5 = vo_out ?st4 @ map (ToRoom ''sockA'')
      (EvResponding ''s'' ''t'' # map (\<lambda>i. EvChunk ''s'' ''t'' (chunkOf showNat ?ws i)) [0..<length ?ws] @ [EvComplete ''s'' ''t'' (lr_content resp)])"
    unfolding voiceClient.select_convs .
  with g0 show ?thesis by blast
qed

end
