(* ===== verification/Market_Data.thy ===== *)
theory Market_Data
  imports Redis_Keys Json Complex_Main "HOL-Library.Countable" "HOL-Library.List_Lexorder" "HOL-Library.Char_ord"
begin

text \<open>
  Market data and news behind a Redis cache (\<^verbatim>\<open>market-data/\<close>): the cache service, the price and news
  services with their mocked sources, the invalidation on events, the cache statistics and the controller.
  Redis, SHA-256 and the JSON text of a cached value are parameters; a cached value is one of the four DTOs,
  and a date in it is read back as the same moment.
\<close>

section \<open>Data\<close>

datatype AssetPriceDto =
  AssetPriceDto (ap_code: string) (ap_issuer: string) (ap_priceUSD: rat) (ap_change24h: rat) (ap_volume24h: rat) (ap_marketCap: rat)

datatype MarketSnapshotDto =
  MarketSnapshotDto (ms_assets: "AssetPriceDto list") (ms_timestamp: date) (ms_source: string) (ms_cached: bool)

datatype NewsCategory = MARKET | TECHNOLOGY | REGULATION | STELLAR | DEFI | NFT

datatype NewsArticleDto =
  NewsArticleDto (na_id: string) (na_title: string) (na_summary: string) (na_url: string) (na_publishedAt: date)
    (na_source: string) (na_imageUrl: "string option") (na_category: "NewsCategory option") (na_tags: "string list")

datatype NewsResponseDto =
  NewsResponseDto (nr_articles: "NewsArticleDto list") (nr_total: nat) (nr_timestamp: date) (nr_cached: bool)

datatype cacheData =
    CSnapshot MarketSnapshotDto
  | CPrice AssetPriceDto
  | CNews NewsResponseDto
  | CArticle NewsArticleDto

instance AssetPriceDto :: countable
  by countable_datatype

instance MarketSnapshotDto :: countable
  by countable_datatype

instance NewsCategory :: countable
  by countable_datatype

instance NewsArticleDto :: countable
  by countable_datatype

instance NewsResponseDto :: countable
  by countable_datatype

instance cacheData :: countable
  by countable_datatype

fun categoryName :: "NewsCategory \<Rightarrow> string" where
  "categoryName MARKET = ''market''"
| "categoryName TECHNOLOGY = ''technology''"
| "categoryName REGULATION = ''regulation''"
| "categoryName STELLAR = ''stellar''"
| "categoryName DEFI = ''defi''"
| "categoryName NFT = ''nft''"

section \<open>Namespaces\<close>

text \<open>A namespace is its string, since the controller casts any string to one.\<close>

definition MARKET_SNAPSHOT :: string where
  "MARKET_SNAPSHOT = ''market:snapshot''"

definition NEWS :: string where
  "NEWS = ''news''"

definition ASSET_DATA :: string where
  "ASSET_DATA = ''asset:data''"

definition PRICE_DATA :: string where
  "PRICE_DATA = ''price:data''"

definition cacheNamespaces :: "string list" where
  "cacheNamespaces = [MARKET_SNAPSHOT, NEWS, ASSET_DATA, PRICE_DATA]"

definition getTtlForNamespace :: "string \<Rightarrow> nat" where
  "getTtlForNamespace namespace =
     (if namespace = MARKET_SNAPSHOT then 300
      else if namespace = NEWS then 900
      else if namespace = ASSET_DATA then 600
      else if namespace = PRICE_DATA then 60
      else 300)"

section \<open>Cache service\<close>

record 'r marketEnv =
  me_redis :: "'r redis"
  me_keys :: "string \<Rightarrow> 'r \<Rightarrow> string list"
  me_sha256 :: "string \<Rightarrow> string"
  me_json :: "cacheData \<Rightarrow> string"
  me_parse :: "string \<Rightarrow> cacheData"

definition marketKey :: "'r marketEnv \<Rightarrow> string \<Rightarrow> string \<Rightarrow> string" where
  "marketKey env key namespace = namespace @ '':'' @ take 16 (me_sha256 env key)"

definition statsKey :: "string \<Rightarrow> string \<Rightarrow> string" where
  "statsKey namespace counter = namespace @ '':stats:'' @ counter"

definition totalKey :: "string \<Rightarrow> string" where
  "totalKey counter = ''market:cache:total-'' @ counter"

definition metadataKey :: "string \<Rightarrow> string" where
  "metadataKey cacheKey = cacheKey @ '':metadata''"

definition marketGet :: "'r marketEnv \<Rightarrow> string \<Rightarrow> string \<Rightarrow> 'r \<Rightarrow> cacheData option \<times> 'r" where
  "marketGet env key namespace r =
     (let D = me_redis env;
          cached = rdGet D (marketKey env key namespace) r;
          outcome = (if strTruthy cached then ''hits'' else ''misses'')
      in (if strTruthy cached then Some (me_parse env (the cached)) else None,
          snd (rdIncr D (totalKey outcome) (snd (rdIncr D (statsKey namespace outcome) r)))))"

definition marketSet :: "'r marketEnv \<Rightarrow> string \<Rightarrow> cacheData \<Rightarrow> string \<Rightarrow> nat option \<Rightarrow> date \<Rightarrow> 'r \<Rightarrow> 'r" where
  "marketSet env key v namespace customTtl now r =
     (let D = me_redis env;
          cacheKey = marketKey env key namespace;
          ttl = numOr customTtl (getTtlForNamespace namespace);
          r1 = rdSetEx D cacheKey ttl (me_json env v) r;
          r2 = rdSetEx D (metadataKey cacheKey) ttl
                 (stringify None (JObj [(''createdAt'', JNum now), (''ttl'', JNum (int ttl)), (''namespace'', JStr namespace)])) r1
      in snd (rdIncr D (statsKey namespace ''total-entries'') r2))"

definition marketInvalidate :: "'r marketEnv \<Rightarrow> string list \<Rightarrow> string \<Rightarrow> 'r \<Rightarrow> nat \<times> 'r" where
  "marketInvalidate env keys namespace r =
     (if length keys = 0 then (0, r)
      else let cacheKeys = map (\<lambda>key. marketKey env key namespace) keys
           in (length keys, delAll (me_redis env) (cacheKeys @ map metadataKey cacheKeys) r))"

definition invalidateByPattern :: "'r marketEnv \<Rightarrow> string \<Rightarrow> string \<Rightarrow> 'r \<Rightarrow> nat \<times> 'r" where
  "invalidateByPattern env pattern namespace r =
     (let keys = me_keys env (namespace @ '':'' @ pattern @ ''*'') r
      in if length keys = 0 then (0, r) else (length keys, delAll (me_redis env) keys r))"

definition invalidateNamespace :: "'r marketEnv \<Rightarrow> string \<Rightarrow> 'r \<Rightarrow> nat \<times> 'r" where
  "invalidateNamespace env namespace r =
     (let keys = me_keys env (namespace @ '':*'') r
      in if length keys = 0 then (0, r)
         else (length keys,
               delAll (me_redis env) (keys @ map (statsKey namespace) [''hits'', ''misses'', ''total-entries'']) r))"

record CacheMetrics =
  cm_hits :: nat
  cm_misses :: nat
  cm_hitRate :: rat
  cm_totalKeys :: nat
  cm_namespace :: string

definition counterAt :: "'r marketEnv \<Rightarrow> string \<Rightarrow> 'r \<Rightarrow> nat" where
  "counterAt env key r = parseInt10 (strOr (rdGet (me_redis env) key r) ''0'')"

definition rateOf :: "nat \<Rightarrow> nat \<Rightarrow> rat" where
  "rateOf hits misses = (let total = hits + misses in if 0 < total then of_nat hits / of_nat total else 0)"

definition marketGetStats :: "'r marketEnv \<Rightarrow> string \<Rightarrow> 'r \<Rightarrow> CacheMetrics" where
  "marketGetStats env namespace r =
     (let hits = counterAt env (statsKey namespace ''hits'') r;
          misses = counterAt env (statsKey namespace ''misses'') r
      in \<lparr>cm_hits = hits, cm_misses = misses, cm_hitRate = rateOf hits misses,
          cm_totalKeys = length (filter (\<lambda>k. \<not> strIncludes '':stats:'' k \<and> \<not> strIncludes '':metadata'' k)
                                  (me_keys env (namespace @ '':*'') r)),
          cm_namespace = namespace\<rparr>)"

record overallStats =
  os_totalHits :: nat
  os_totalMisses :: nat
  os_hitRate :: rat
  os_namespaces :: "CacheMetrics list"

definition getOverallStats :: "'r marketEnv \<Rightarrow> 'r \<Rightarrow> overallStats" where
  "getOverallStats env r =
     (let totalHits = counterAt env (totalKey ''hits'') r; totalMisses = counterAt env (totalKey ''misses'') r
      in \<lparr>os_totalHits = totalHits, os_totalMisses = totalMisses, os_hitRate = rateOf totalHits totalMisses,
          os_namespaces = map (\<lambda>ns. marketGetStats env ns r) cacheNamespaces\<rparr>)"

definition marketHas :: "'r marketEnv \<Rightarrow> string \<Rightarrow> string \<Rightarrow> 'r \<Rightarrow> bool" where
  "marketHas env key namespace r = (rdGet (me_redis env) (marketKey env key namespace) r \<noteq> None)"

definition getTtl :: "'r marketEnv \<Rightarrow> string \<Rightarrow> string \<Rightarrow> 'r \<Rightarrow> int" where
  "getTtl env key namespace r = rdTtl (me_redis env) (marketKey env key namespace) r"

section \<open>Prices\<close>

definition usdcIssuer :: string where
  "usdcIssuer = ''GA5ZSEJYB37JRC5AVCIA5MOP4RHTM335X2KGX3IHOJAPP5RE34K4KZVN''"

definition xlmPrice :: AssetPriceDto where
  "xlmPrice = AssetPriceDto ''XLM'' ''native'' (125/1000) (25/10) 125000000 3500000000"

definition usdcPrice :: AssetPriceDto where
  "usdcPrice = AssetPriceDto ''USDC'' usdcIssuer 1 (1/100) 50000000 45000000000"

definition mockAssets :: "AssetPriceDto list" where
  "mockAssets =
     [xlmPrice, usdcPrice,
      AssetPriceDto ''AQUA'' ''GBNZILSTVQZ4R7IKQDGHYGY2QXL5QOFJYQMXPKWRRM5PAV7Y4M67AQUA'' (45/1000) (-12/10) 8000000 180000000,
      AssetPriceDto ''yXLM'' ''GARDNV3Q7YGT4AKSDF25LT32YSCCW4EV22Y2TV3I2PU2MMXJTEDL5T55'' (13/100) (28/10) 12000000 26000000]"

definition fetchMarketSnapshot :: "string list option \<Rightarrow> date \<Rightarrow> MarketSnapshotDto" where
  "fetchMarketSnapshot assetFilter now =
     MarketSnapshotDto
       (case assetFilter of
          None \<Rightarrow> mockAssets
        | Some codes \<Rightarrow> if 0 < length codes then filter (\<lambda>asset. toUpperCase (ap_code asset) \<in> set codes) mockAssets else mockAssets)
       now ''Stellar DEX / CoinGecko'' False"

definition fetchAssetPrice :: "string \<Rightarrow> string \<Rightarrow> AssetPriceDto option" where
  "fetchAssetPrice assetCode issuer =
     (let key = assetCode @ '':'' @ issuer
      in if key = ''XLM:native'' then Some xlmPrice
         else if key = ''USDC:'' @ usdcIssuer then Some usdcPrice
         else None)"

definition generateMarketSnapshotKey :: "string list option \<Rightarrow> string" where
  "generateMarketSnapshotKey assetFilter =
     (case assetFilter of
        None \<Rightarrow> ''all-assets''
      | Some codes \<Rightarrow> if length codes = 0 then ''all-assets'' else ''assets:'' @ joinWith (CHR '','') (sort codes))"

text \<open>\<^verbatim>\<open>{...value, cached: flag}\<close>: the value and the flag that replaces its own.\<close>

type_synonym served = "cacheData \<times> bool"

definition getMarketSnapshot :: "'r marketEnv \<Rightarrow> string list option \<Rightarrow> bool \<Rightarrow> date \<Rightarrow> 'r \<Rightarrow> served \<times> 'r" where
  "getMarketSnapshot env assetFilter bypassCache now r =
     (let cacheKey = generateMarketSnapshotKey assetFilter
      in case (if bypassCache then (None, r) else marketGet env cacheKey MARKET_SNAPSHOT r) of
           (Some cached, r1) \<Rightarrow> ((cached, True), r1)
         | (None, r1) \<Rightarrow>
             let snapshot = CSnapshot (fetchMarketSnapshot assetFilter now)
             in ((snapshot, False), marketSet env cacheKey snapshot MARKET_SNAPSHOT None now r1))"

definition getAssetPrice :: "'r marketEnv \<Rightarrow> string \<Rightarrow> string \<Rightarrow> date \<Rightarrow> 'r \<Rightarrow> cacheData option \<times> 'r" where
  "getAssetPrice env assetCode issuer now r =
     (let cacheKey = assetCode @ '':'' @ issuer
      in case marketGet env cacheKey PRICE_DATA r of
           (Some cached, r1) \<Rightarrow> (Some cached, r1)
         | (None, r1) \<Rightarrow>
             (case fetchAssetPrice assetCode issuer of
                None \<Rightarrow> (None, r1)
              | Some priceData \<Rightarrow>
                  (Some (CPrice priceData), marketSet env cacheKey (CPrice priceData) PRICE_DATA None now r1)))"

definition invalidateMarketCache :: "'r marketEnv \<Rightarrow> string option \<Rightarrow> 'r \<Rightarrow> nat \<times> 'r" where
  "invalidateMarketCache env assetCode r =
     (if strTruthy assetCode then invalidateByPattern env (the assetCode) PRICE_DATA r
      else invalidateNamespace env MARKET_SNAPSHOT r)"

section \<open>News\<close>

definition mockArticle :: "nat \<Rightarrow> string \<Rightarrow> string \<Rightarrow> string \<Rightarrow> date \<Rightarrow> string \<Rightarrow> string \<Rightarrow> NewsCategory \<Rightarrow> string list \<Rightarrow> NewsArticleDto" where
  "mockArticle n title summary url publishedAt source img category tags =
     NewsArticleDto (''news-'' @ showNat n) title summary url publishedAt source (Some (''https://example.com/'' @ img)) (Some category) tags"

definition firstArticle :: "date \<Rightarrow> NewsArticleDto" where
  "firstArticle now = mockArticle 1 ''Stellar Network Processes Record Transaction Volume''
     ''The Stellar blockchain has achieved a new milestone, processing over 10 million transactions in a single day...''
     ''https://stellar.org/blog/record-transaction-volume'' (now - 3600000) ''Stellar Blog'' ''stellar-news-1.jpg'' STELLAR
     [''stellar'', ''blockchain'', ''transactions'']"

definition mockArticles :: "date \<Rightarrow> NewsArticleDto list" where
  "mockArticles now =
     [firstArticle now,
      mockArticle 2 ''Bitcoin Surges Past $50,000 Mark''
        ''Bitcoin has broken through the $50,000 resistance level amid growing institutional adoption...''
        ''https://example.com/bitcoin-50k'' (now - 7200000) ''CryptoNews'' ''bitcoin-news.jpg'' MARKET
        [''bitcoin'', ''market'', ''price''],
      mockArticle 3 ''New DeFi Protocol Launches on Stellar''
        ''A new decentralized finance protocol has launched on Stellar, offering yield farming opportunities...''
        ''https://example.com/stellar-defi'' (now - 10800000) ''DeFi Pulse'' ''defi-news.jpg'' DEFI
        [''stellar'', ''defi'', ''yield-farming''],
      mockArticle 4 ''SEC Announces New Cryptocurrency Regulations''
        ''The Securities and Exchange Commission has unveiled new regulatory framework for digital assets...''
        ''https://example.com/sec-regulations'' (now - 14400000) ''Regulatory News'' ''regulation-news.jpg'' REGULATION
        [''regulation'', ''sec'', ''compliance''],
      mockArticle 5 ''Soroban Smart Contracts Gain Traction''
        ''Developers are increasingly adopting Soroban for building decentralized applications on Stellar...''
        ''https://example.com/soroban-adoption'' (now - 18000000) ''Stellar Developers'' ''soroban-news.jpg'' TECHNOLOGY
        [''stellar'', ''soroban'', ''smart-contracts''],
      mockArticle 6 ''Major Bank Partners with Stellar for Cross-Border Payments''
        ''A leading international bank has announced partnership with Stellar to facilitate faster cross-border transactions...''
        ''https://example.com/bank-stellar-partnership'' (now - 21600000) ''Financial Times'' ''partnership-news.jpg'' STELLAR
        [''stellar'', ''banking'', ''partnerships'']]"

definition fetchNews :: "NewsCategory option \<Rightarrow> nat \<Rightarrow> date \<Rightarrow> NewsResponseDto" where
  "fetchNews category limit now =
     (let filteredArticles = (case category of None \<Rightarrow> mockArticles now
                              | Some c \<Rightarrow> filter (\<lambda>a. na_category a = Some c) (mockArticles now));
          limitedArticles = take limit filteredArticles
      in NewsResponseDto limitedArticles (length limitedArticles) now False)"

definition fetchArticleById :: "string \<Rightarrow> date \<Rightarrow> NewsArticleDto option" where
  "fetchArticleById articleId now = (if articleId = ''news-1'' then Some (firstArticle now) else None)"

definition generateNewsKey :: "NewsCategory option \<Rightarrow> nat \<Rightarrow> string" where
  "generateNewsKey category limit =
     joinWith (CHR '':'')
       ([''news''] @ (case category of None \<Rightarrow> [] | Some c \<Rightarrow> [categoryName c]) @
        (if limit = 0 then [] else [''limit:'' @ showNat limit]))"

definition getNews :: "'r marketEnv \<Rightarrow> NewsCategory option \<Rightarrow> nat \<Rightarrow> bool \<Rightarrow> date \<Rightarrow> 'r \<Rightarrow> served \<times> 'r" where
  "getNews env category limit bypassCache now r =
     (let cacheKey = generateNewsKey category limit
      in case (if bypassCache then (None, r) else marketGet env cacheKey NEWS r) of
           (Some cached, r1) \<Rightarrow> ((cached, True), r1)
         | (None, r1) \<Rightarrow>
             let news = CNews (fetchNews category limit now)
             in ((news, False), marketSet env cacheKey news NEWS None now r1))"

definition getArticleById :: "'r marketEnv \<Rightarrow> string \<Rightarrow> date \<Rightarrow> 'r \<Rightarrow> cacheData option \<times> 'r" where
  "getArticleById env articleId now r =
     (let cacheKey = ''article:'' @ articleId
      in case marketGet env cacheKey NEWS r of
           (Some cached, r1) \<Rightarrow> (Some cached, r1)
         | (None, r1) \<Rightarrow>
             (case fetchArticleById articleId now of
                None \<Rightarrow> (None, r1)
              | Some article \<Rightarrow> (Some (CArticle article), marketSet env cacheKey (CArticle article) NEWS (Some 3600) now r1)))"

definition invalidateNewsCache :: "'r marketEnv \<Rightarrow> NewsCategory option \<Rightarrow> 'r \<Rightarrow> nat \<times> 'r" where
  "invalidateNewsCache env category r =
     (case category of
        Some c \<Rightarrow> invalidateByPattern env (''news:'' @ categoryName c) NEWS r
      | None \<Rightarrow> invalidateNamespace env NEWS r)"

section \<open>Invalidation on events\<close>

record CacheInvalidationEvent =
  ie_namespace :: "string option"
  ie_keys :: "string list option"
  ie_pattern :: "string option"
  ie_reason :: string

text \<open>The handlers return the event that they emit.\<close>

definition handleAssetUpdate :: "'r marketEnv \<Rightarrow> string \<Rightarrow> string \<Rightarrow> 'r \<Rightarrow> CacheInvalidationEvent \<times> 'r" where
  "handleAssetUpdate env assetCode updateType r =
     (\<lparr>ie_namespace = Some PRICE_DATA, ie_keys = None, ie_pattern = Some assetCode, ie_reason = ''Asset update: '' @ updateType\<rparr>,
      snd (invalidateNamespace env MARKET_SNAPSHOT (snd (invalidateByPattern env assetCode PRICE_DATA r))))"

definition handleNewsPublished :: "'r marketEnv \<Rightarrow> 'r \<Rightarrow> CacheInvalidationEvent \<times> 'r" where
  "handleNewsPublished env r =
     (\<lparr>ie_namespace = Some NEWS, ie_keys = None, ie_pattern = None, ie_reason = ''New article published''\<rparr>,
      snd (invalidateNamespace env NEWS r))"

text \<open>The second and third branch of the source ask for a namespace again and are never taken.\<close>

definition handleManualInvalidation ::
    "'r marketEnv \<Rightarrow> string option \<Rightarrow> string list option \<Rightarrow> string option \<Rightarrow> 'r \<Rightarrow> CacheInvalidationEvent \<times> 'r" where
  "handleManualInvalidation env namespace keys pattern r =
     (\<lparr>ie_namespace = namespace, ie_keys = keys, ie_pattern = pattern, ie_reason = ''Manual invalidation''\<rparr>,
      if strTruthy namespace then snd (invalidateNamespace env (the namespace) r)
      else if strTruthy pattern \<and> strTruthy namespace then snd (invalidateByPattern env (the pattern) (the namespace) r)
      else if keys \<noteq> None \<and> strTruthy namespace then snd (marketInvalidate env (the keys) (the namespace) r)
      else r)"

section \<open>Controller\<close>

datatype queryFlag = FBool bool | FString string

definition flagSet :: "queryFlag option \<Rightarrow> bool" where
  "flagSet f \<longleftrightarrow> f = Some (FBool True) \<or> f = Some (FString ''true'')"

definition snapshotRoute :: "'r marketEnv \<Rightarrow> string option \<Rightarrow> queryFlag option \<Rightarrow> date \<Rightarrow> 'r \<Rightarrow> served \<times> 'r" where
  "snapshotRoute env assets bypass now r =
     getMarketSnapshot env
       (if strTruthy assets then Some (map (\<lambda>a. toUpperCase (trim a)) (splitOn (CHR '','') (the assets))) else None)
       (flagSet bypass) now r"

definition newsRoute :: "'r marketEnv \<Rightarrow> NewsCategory option \<Rightarrow> nat option \<Rightarrow> queryFlag option \<Rightarrow> date \<Rightarrow> 'r \<Rightarrow> served \<times> 'r" where
  "newsRoute env category limit bypass now r = getNews env category (numOr limit 20) (flagSet bypass) now r"

record CacheInvalidateDto =
  id_keys :: "string list option"
  id_pattern :: "string option"
  id_namespace :: "string option"

definition invalidateCacheRoute :: "'r marketEnv \<Rightarrow> CacheInvalidateDto \<Rightarrow> 'r \<Rightarrow> (nat \<times> string) \<times> 'r" where
  "invalidateCacheRoute env dto r =
     (case (if strTruthy (id_namespace dto) then invalidateNamespace env (the (id_namespace dto)) r
            else if strTruthy (id_pattern dto) then invalidateByPattern env (the (id_pattern dto)) MARKET_SNAPSHOT r
            else (case id_keys dto of
                    Some keys \<Rightarrow> if 0 < length keys then marketInvalidate env keys MARKET_SNAPSHOT r else (0, r)
                  | None \<Rightarrow> (0, r))) of
        (invalidatedCount, r1) \<Rightarrow>
          ((invalidatedCount, ''Successfully invalidated '' @ showNat invalidatedCount @ '' cache entries''), r1))"

definition invalidateMarketRoute :: "'r marketEnv \<Rightarrow> 'r \<Rightarrow> (nat \<times> string) \<times> 'r" where
  "invalidateMarketRoute env r =
     (case invalidateMarketCache env None r of (cnt, r1) \<Rightarrow>
        ((cnt, ''Invalidated '' @ showNat cnt @ '' market data cache entries''), r1))"

definition invalidateNewsRoute :: "'r marketEnv \<Rightarrow> 'r \<Rightarrow> (nat \<times> string) \<times> 'r" where
  "invalidateNewsRoute env r =
     (case invalidateNewsCache env None r of (cnt, r1) \<Rightarrow>
        ((cnt, ''Invalidated '' @ showNat cnt @ '' news cache entries''), r1))"

section \<open>Statistics\<close>

definition getNamespaceStats :: "'r marketEnv \<Rightarrow> string \<Rightarrow> date \<Rightarrow> 'r \<Rightarrow> CacheMetrics \<times> date" where
  "getNamespaceStats env namespace now r = (marketGetStats env namespace r, now)"

definition metricsOverall :: "'r marketEnv \<Rightarrow> date \<Rightarrow> 'r \<Rightarrow> overallStats \<times> date" where
  "metricsOverall env now r = (getOverallStats env r, now)"

end
