(* ===== verification/Market_Props.thy ===== *)
theory Market_Props
  imports Market_Data
begin

text \<open>
  Properties of the market data cache: the age of what it serves over every run, and what the invalidation
  on an asset update removes and leaves.
\<close>

section \<open>Keys\<close>

definition hexOnly :: "string \<Rightarrow> bool" where
  "hexOnly h \<longleftrightarrow> set h \<subseteq> set ''0123456789abcdef''"

text \<open>What the code relies on: a digest is printed in hexadecimal, and JSON reads back what it printed.\<close>

definition hexDigest :: "'r marketEnv \<Rightarrow> bool" where
  "hexDigest env \<longleftrightarrow> (\<forall>s. hexOnly (me_sha256 env s))"

definition jsonReads :: "'r marketEnv \<Rightarrow> bool" where
  "jsonReads env \<longleftrightarrow> (\<forall>v. me_parse env (me_json env v) = v \<and> me_json env v \<noteq> [])"

definition dataKey :: "string \<Rightarrow> string \<Rightarrow> string" where
  "dataKey namespace h = namespace @ '':'' @ h"

lemma hexOnly_take: "hexOnly h \<Longrightarrow> hexOnly (take n h)"
  unfolding hexOnly_def by (rule order_trans [OF set_take_subset])

lemma marketKey_data: "hexDigest env \<Longrightarrow> \<exists>h. hexOnly h \<and> marketKey env key ns = dataKey ns h"
  by (intro exI [of _ "take 16 (me_sha256 env key)"] conjI)
    (simp_all add: hexOnly_take hexDigest_def marketKey_def dataKey_def)

lemma dataKey_apart [simp]:
  "dataKey MARKET_SNAPSHOT h \<noteq> dataKey PRICE_DATA h'" "dataKey MARKET_SNAPSHOT h \<noteq> dataKey NEWS h'"
  "dataKey PRICE_DATA h \<noteq> dataKey MARKET_SNAPSHOT h'" "dataKey MARKET_SNAPSHOT h = dataKey MARKET_SNAPSHOT h' \<longleftrightarrow> h = h'"
  by (auto simp: dataKey_def MARKET_SNAPSHOT_def PRICE_DATA_def NEWS_def)

lemma dataKey_stats:
  assumes "hexOnly h" and "ns \<in> {MARKET_SNAPSHOT, PRICE_DATA, NEWS}" and "ns' \<in> {MARKET_SNAPSHOT, PRICE_DATA, NEWS}"
  shows "dataKey ns h \<noteq> statsKey ns' c"
  using assms by (auto simp: dataKey_def statsKey_def hexOnly_def MARKET_SNAPSHOT_def PRICE_DATA_def NEWS_def)

lemma dataKey_total:
  assumes "ns \<in> {MARKET_SNAPSHOT, PRICE_DATA, NEWS}"
  shows "dataKey ns h \<noteq> totalKey c"
  using assms by (auto simp: dataKey_def totalKey_def MARKET_SNAPSHOT_def PRICE_DATA_def NEWS_def)

lemma dataKey_metadata:
  assumes "hexOnly h"
  shows "dataKey MARKET_SNAPSHOT h \<noteq> metadataKey (dataKey MARKET_SNAPSHOT h')"
    and "dataKey MARKET_SNAPSHOT h \<noteq> metadataKey (dataKey PRICE_DATA h')"
    and "dataKey MARKET_SNAPSHOT h \<noteq> metadataKey (dataKey NEWS h')"
  using assms by (auto simp: dataKey_def metadataKey_def hexOnly_def MARKET_SNAPSHOT_def PRICE_DATA_def NEWS_def)

section \<open>Age of a snapshot\<close>

datatype marketOp =
    MSnapshot "string list option" bool
  | MPrice string string
  | MNews "NewsCategory option" nat bool
  | MArticle string
  | MAssetUpdate string string
  | MNewsPublished
  | MManual "string option" "string list option" "string option"
  | MRoute CacheInvalidateDto
  | MTick nat

fun marketStep :: "'r marketEnv \<Rightarrow> (nat \<Rightarrow> 'r \<Rightarrow> 'r) \<Rightarrow> marketOp \<Rightarrow> date \<times> 'r \<Rightarrow> date \<times> 'r" where
  "marketStep env adv (MSnapshot f b) (now, r) = (now, snd (getMarketSnapshot env f b now r))"
| "marketStep env adv (MPrice c i) (now, r) = (now, snd (getAssetPrice env c i now r))"
| "marketStep env adv (MNews c n b) (now, r) = (now, snd (getNews env c n b now r))"
| "marketStep env adv (MArticle a) (now, r) = (now, snd (getArticleById env a now r))"
| "marketStep env adv (MAssetUpdate c t) (now, r) = (now, snd (handleAssetUpdate env c t r))"
| "marketStep env adv MNewsPublished (now, r) = (now, snd (handleNewsPublished env r))"
| "marketStep env adv (MManual ns ks p) (now, r) = (now, snd (handleManualInvalidation env ns ks p r))"
| "marketStep env adv (MRoute dto) (now, r) = (now, snd (invalidateCacheRoute env dto r))"
| "marketStep env adv (MTick d) (now, r) = (now + 1000 * int d, adv d r)"

definition freshEntry :: "'r marketEnv \<Rightarrow> date \<Rightarrow> (string \<times> nat option) option \<Rightarrow> bool" where
  "freshEntry env now x \<longleftrightarrow> (case x of None \<Rightarrow> True | Some (v, e) \<Rightarrow>
     \<exists>s n. v = me_json env (CSnapshot s) \<and> e = Some n \<and> 0 < n \<and> n \<le> 300 \<and> now = ms_timestamp s + 1000 * (300 - int n))"

definition marketInv :: "'r marketEnv \<Rightarrow> date \<Rightarrow> kvstate \<Rightarrow> bool" where
  "marketInv env now m \<longleftrightarrow> (\<forall>h. hexOnly h \<longrightarrow> freshEntry env now (m (dataKey MARKET_SNAPSHOT h)))"

definition sameOrGone :: "kvstate \<Rightarrow> kvstate \<Rightarrow> bool" where
  "sameOrGone m m' \<longleftrightarrow> (\<forall>h. hexOnly h \<longrightarrow>
     m' (dataKey MARKET_SNAPSHOT h) = m (dataKey MARKET_SNAPSHOT h) \<or> m' (dataKey MARKET_SNAPSHOT h) = None)"

lemma sameOrGone_inv: "marketInv env now m \<Longrightarrow> sameOrGone m m' \<Longrightarrow> marketInv env now m'"
  by (auto simp: marketInv_def sameOrGone_def freshEntry_def)

lemma sameOrGone_refl [simp]: "sameOrGone m m"
  by (simp add: sameOrGone_def)

lemma sameOrGone_trans: "sameOrGone m m' \<Longrightarrow> sameOrGone m' m'' \<Longrightarrow> sameOrGone m m''"
  unfolding sameOrGone_def by metis

context redis_kv
begin

lemma delAll_sameOrGone: "sameOrGone (look r) (look (delAll D ks r))"
  by (simp add: sameOrGone_def delAll_look)

lemma invalidate_sameOrGone:
  assumes "me_redis env = D"
  shows "sameOrGone (look r) (look (snd (invalidateNamespace env ns r)))"
    and "sameOrGone (look r) (look (snd (invalidateByPattern env p ns r)))"
    and "sameOrGone (look r) (look (snd (marketInvalidate env ks ns r)))"
  using assms delAll_sameOrGone
  by (simp_all add: invalidateNamespace_def invalidateByPattern_def marketInvalidate_def Let_def)

lemma marketGet_same:
  assumes "me_redis env = D" and "hexOnly h" and "ns \<in> {MARKET_SNAPSHOT, PRICE_DATA, NEWS}"
  shows "look (snd (marketGet env key ns r)) (dataKey MARKET_SNAPSHOT h) = look r (dataKey MARKET_SNAPSHOT h)"
  using assms(1) dataKey_stats [OF assms(2) _ assms(3), of MARKET_SNAPSHOT] dataKey_total [of MARKET_SNAPSHOT h]
  by (simp add: marketGet_def Let_def incr_look)

lemma marketSet_other:
  assumes "me_redis env = D" and "hexDigest env" and "hexOnly h" and "ns = PRICE_DATA \<or> ns = NEWS"
  shows "look (marketSet env key v ns ttl now r) (dataKey MARKET_SNAPSHOT h) = look r (dataKey MARKET_SNAPSHOT h)"
proof -
  obtain h' where "marketKey env key ns = dataKey ns h'" using marketKey_data [OF assms(2)] by blast
  moreover have "dataKey MARKET_SNAPSHOT h \<noteq> dataKey ns h'" "dataKey MARKET_SNAPSHOT h \<noteq> metadataKey (dataKey ns h')"
    using assms(4) dataKey_metadata [OF assms(3)] by auto
  moreover have "dataKey MARKET_SNAPSHOT h \<noteq> statsKey ns ''total-entries''"
    using dataKey_stats [OF assms(3), of MARKET_SNAPSHOT ns] assms(4) by auto
  ultimately show ?thesis using assms(1) by (simp add: marketSet_def Let_def incr_look setEx_look)
qed

lemma marketSet_snapshot:
  assumes "me_redis env = D" and "hexDigest env" and "hexOnly h"
  shows "look (marketSet env key v MARKET_SNAPSHOT None now r) (dataKey MARKET_SNAPSHOT h) =
     (if dataKey MARKET_SNAPSHOT h = marketKey env key MARKET_SNAPSHOT then Some (me_json env v, Some 300)
      else look r (dataKey MARKET_SNAPSHOT h))"
proof -
  obtain h' where "marketKey env key MARKET_SNAPSHOT = dataKey MARKET_SNAPSHOT h'" using marketKey_data [OF assms(2)] by blast
  moreover have "dataKey MARKET_SNAPSHOT h \<noteq> statsKey MARKET_SNAPSHOT ''total-entries''"
    using dataKey_stats [OF assms(3), of MARKET_SNAPSHOT MARKET_SNAPSHOT] by auto
  ultimately show ?thesis
    using assms(1) dataKey_metadata(1) [OF assms(3), of h']
    by (simp add: marketSet_def Let_def incr_look setEx_look numOr_def getTtlForNamespace_def)
qed

lemma marketGet_sameOrGone:
  assumes "me_redis env = D" and "ns \<in> {MARKET_SNAPSHOT, PRICE_DATA, NEWS}"
  shows "sameOrGone (look r) (look (snd (marketGet env key ns r)))"
  using marketGet_same [OF assms(1) _ assms(2)] by (simp add: sameOrGone_def)

lemma marketSet_sameOrGone:
  assumes "me_redis env = D" and "hexDigest env" and "ns = PRICE_DATA \<or> ns = NEWS"
  shows "sameOrGone (look r) (look (marketSet env key v ns ttl now r))"
  using marketSet_other [OF assms(1,2) _ assms(3)] by (simp add: sameOrGone_def)

text \<open>A snapshot is served from a fresh entry or fetched now.\<close>

lemma getMarketSnapshot_fresh:
  assumes "me_redis env = D" and "hexDigest env" and "jsonReads env" and "marketInv env now (look r)"
    and "getMarketSnapshot env f b now r = ((v, c), r')"
  shows "marketInv env now (look r')" and "\<exists>s. v = CSnapshot s \<and> now - 300000 < ms_timestamp s \<and> ms_timestamp s \<le> now"
proof -
  let ?key = "generateMarketSnapshotKey f" and ?new = "CSnapshot (fetchMarketSnapshot f now)"
  obtain h where h: "hexOnly h" "marketKey env ?key MARKET_SNAPSHOT = dataKey MARKET_SNAPSHOT h"
    using marketKey_data [OF assms(2)] by blast
  obtain x r1 where g: "(if b then (None, r) else marketGet env ?key MARKET_SNAPSHOT r) = (x, r1)"
    by (cases "if b then (None, r) else marketGet env ?key MARKET_SNAPSHOT r")
  have "sameOrGone (look r) (look r1)"
    using g marketGet_sameOrGone [OF assms(1), of MARKET_SNAPSHOT r ?key] by (cases b) auto
  then have inv1: "marketInv env now (look r1)" by (rule sameOrGone_inv [OF assms(4)])
  have ts: "ms_timestamp (fetchMarketSnapshot f now) = now" by (simp add: fetchMarketSnapshot_def)
  have "freshEntry env now (Some (me_json env ?new, Some 300))" by (auto simp: freshEntry_def ts intro!: exI [of _ "fetchMarketSnapshot f now"])
  then have inv2: "marketInv env now (look (marketSet env ?key ?new MARKET_SNAPSHOT None now r1))"
    using inv1 marketSet_snapshot [OF assms(1,2)] by (auto simp: marketInv_def)
  show "marketInv env now (look r')"
    using assms(5) g inv1 inv2 by (auto simp: getMarketSnapshot_def Let_def split: option.splits)
  show "\<exists>s. v = CSnapshot s \<and> now - 300000 < ms_timestamp s \<and> ms_timestamp s \<le> now"
  proof (cases x)
    case None
    with assms(5) g ts show ?thesis by (auto simp: getMarketSnapshot_def Let_def)
  next
    case (Some y)
    then have "\<not> b" using g by (cases b) auto
    with g Some obtain body where body: "rdGet D (dataKey MARKET_SNAPSHOT h) r = Some body" "y = me_parse env body"
      using assms(1) h(2) by (auto simp: marketGet_def Let_def strTruthy_def split: if_splits option.splits)
    then obtain e where "look r (dataKey MARKET_SNAPSHOT h) = Some (body, e)" by (auto simp: get_look)
    with assms(4) h(1) have "freshEntry env now (Some (body, e))" unfolding marketInv_def by metis
    then obtain s n where "body = me_json env (CSnapshot s)" "0 < n" "n \<le> 300" "now = ms_timestamp s + 1000 * (300 - int n)"
      by (auto simp: freshEntry_def)
    moreover have "v = y" using assms(5) g Some by (auto simp: getMarketSnapshot_def Let_def)
    ultimately show ?thesis using body(2) assms(3) by (auto simp: jsonReads_def)
  qed
qed

lemma tick_market: "marketInv env now (look r) \<Longrightarrow> marketInv env (now + 1000 * int d) (look (adv d r))"
  by (fastforce simp: marketInv_def freshEntry_def adv_look advKey_def of_nat_diff split: option.splits)

lemma cached_sameOrGone:
  assumes "me_redis env = D" and "hexDigest env"
  shows "sameOrGone (look r) (look (snd (getAssetPrice env code issuer now r)))"
    and "sameOrGone (look r) (look (snd (getNews env cat n b now r)))"
    and "sameOrGone (look r) (look (snd (getArticleById env a now r)))"
proof -
  note g = marketGet_sameOrGone [OF assms(1)] and s = marketSet_sameOrGone [OF assms]
  have step: "sameOrGone (look r) (look (marketSet env key v ns ttl now r1))"
    if "sameOrGone (look r) (look r1)" "ns = PRICE_DATA \<or> ns = NEWS" for key v ns ttl r1
    by (rule sameOrGone_trans [OF that(1) s [OF that(2)]])
  show "sameOrGone (look r) (look (snd (getAssetPrice env code issuer now r)))"
    using g [of PRICE_DATA r "code @ '':'' @ issuer"] step
    by (auto simp: getAssetPrice_def Let_def split: prod.splits option.splits)
  show "sameOrGone (look r) (look (snd (getNews env cat n b now r)))"
    using g [of NEWS r "generateNewsKey cat n"] step
    by (cases b) (auto simp: getNews_def Let_def split: prod.splits option.splits)
  show "sameOrGone (look r) (look (snd (getArticleById env a now r)))"
    using g [of NEWS r "''article:'' @ a"] step
    by (auto simp: getArticleById_def Let_def split: prod.splits option.splits)
qed

lemma marketStep_inv:
  assumes "me_redis env = D" and "hexDigest env" and "jsonReads env" and "marketInv env now (look r)"
    and "marketStep env adv op (now, r) = (now', r')"
  shows "marketInv env now' (look r')"
proof -
  note inval = invalidate_sameOrGone [OF assms(1)]
  have keep: "marketInv env now (look r1)" if "sameOrGone (look r) (look r1)" for r1
    by (rule sameOrGone_inv [OF assms(4) that])
  show ?thesis
  proof (cases op)
    case (MSnapshot f b)
    then show ?thesis
      using getMarketSnapshot_fresh(1) [OF assms(1-4), of f b] assms(5) by (cases "getMarketSnapshot env f b now r") auto
  next
    case (MAssetUpdate c t)
    have "sameOrGone (look r) (look (snd (handleAssetUpdate env c t r)))"
      unfolding handleAssetUpdate_def snd_conv by (rule sameOrGone_trans [OF inval(2) inval(1)])
    with MAssetUpdate assms(5) keep show ?thesis by auto
  next
    case (MTick d)
    with assms(5) tick_market [OF assms(4), of d] show ?thesis by auto
  next
    case (MRoute dto)
    have "sameOrGone (look r) (look (snd (invalidateCacheRoute env dto r)))"
      using inval by (auto simp: invalidateCacheRoute_def case_prod_beta split: option.split)
    with MRoute assms(5) keep show ?thesis by auto
  qed (use assms(5) keep inval cached_sameOrGone [OF assms(1,2)] in \<open>auto simp: handleNewsPublished_def handleManualInvalidation_def\<close>)
qed

lemma marketRun_inv:
  assumes "me_redis env = D" and "hexDigest env" and "jsonReads env" and "marketInv env now (look r)"
  shows "marketInv env (fst (fold (marketStep env adv) ops (now, r))) (look (snd (fold (marketStep env adv) ops (now, r))))"
  using assms(4)
proof (induction ops arbitrary: now r)
  case (Cons op ops)
  obtain now1 r1 where s: "marketStep env adv op (now, r) = (now1, r1)" by (cases "marketStep env adv op (now, r)")
  from Cons.IH [OF marketStep_inv [OF assms(1-3) Cons.prems s]] s show ?case by simp
qed simp

end

section \<open>Asset updates\<close>

lemma startsWith_data:
  assumes "hexOnly h" and "c \<in> set pattern" and "c \<notin> set ''0123456789abcdef''"
  shows "\<not> startsWith (ns @ '':'' @ pattern) (dataKey ns h)"
proof
  assume "startsWith (ns @ '':'' @ pattern) (dataKey ns h)"
  then have "take (length pattern) h = pattern" by (simp add: startsWith_def dataKey_def)
  then have "set pattern \<subseteq> set h" by (metis set_take_subset)
  with assms show False unfolding hexOnly_def by blast
qed

context redis_keys
begin

lemma pattern_misses:
  assumes "me_redis env = D" and "me_keys env = keysOf" and "hexOnly h" and "plainPattern code" and "literalPart code"
    and "c \<in> set code" and "c \<notin> set ''0123456789abcdef''"
  shows "look (snd (invalidateByPattern env code PRICE_DATA r)) (dataKey PRICE_DATA h) = look r (dataKey PRICE_DATA h)"
proof -
  have lit: "literalPart (PRICE_DATA @ '':'' @ code)" and plain: "plainPattern (PRICE_DATA @ '':'' @ code @ ''*'')"
    using assms(4,5) by (auto simp: literalPart_def plainPattern_def PRICE_DATA_def)
  have "\<not> globMatch (PRICE_DATA @ '':'' @ code @ ''*'') (dataKey PRICE_DATA h)"
    using globMatch_prefix [OF lit, of "dataKey PRICE_DATA h"] startsWith_data [OF assms(3,6,7), of PRICE_DATA] by simp
  then have "dataKey PRICE_DATA h \<notin> set (keysOf (PRICE_DATA @ '':'' @ code @ ''*'') r)" using keys_look [OF plain] by simp
  then show ?thesis using assms(1,2) by (simp add: invalidateByPattern_def Let_def delAll_look)
qed

lemma namespace_effect:
  assumes "me_redis env = D" and "me_keys env = keysOf" and "hexOnly h"
  shows "look (snd (invalidateNamespace env MARKET_SNAPSHOT r)) (dataKey MARKET_SNAPSHOT h) = None"
    and "look (snd (invalidateNamespace env MARKET_SNAPSHOT r)) (dataKey PRICE_DATA h) = look r (dataKey PRICE_DATA h)"
proof -
  let ?p = "MARKET_SNAPSHOT @ '':*''"
  have lit: "literalPart (MARKET_SNAPSHOT @ '':'')" and plain: "plainPattern ?p"
    by (simp_all add: literalPart_def plainPattern_def MARKET_SNAPSHOT_def)
  have m: "globMatch ?p k \<longleftrightarrow> startsWith (MARKET_SNAPSHOT @ '':'') k" for k using globMatch_prefix [OF lit, of k] by simp
  have keys: "set (keysOf ?p r) = {k. look r k \<noteq> None \<and> startsWith (MARKET_SNAPSHOT @ '':'') k}"
    using keys_look [OF plain, of r] m by simp
  have snap: "startsWith (MARKET_SNAPSHOT @ '':'') (dataKey MARKET_SNAPSHOT h)" by (simp add: startsWith_def dataKey_def)
  have price: "\<not> startsWith (MARKET_SNAPSHOT @ '':'') (dataKey PRICE_DATA h)"
    by (simp add: startsWith_def dataKey_def MARKET_SNAPSHOT_def PRICE_DATA_def)
  have st: "dataKey PRICE_DATA h \<notin> set (map (statsKey MARKET_SNAPSHOT) [''hits'', ''misses'', ''total-entries''])"
    using dataKey_stats [OF assms(3), of PRICE_DATA MARKET_SNAPSHOT] by auto
  let ?k = "dataKey MARKET_SNAPSHOT h" and ?ks = "keysOf ?p r"
  have "look r ?k = None" if "?ks = []" using keys snap that by (auto simp del: not_None_eq)
  moreover have "look r ?k = None" if "?k \<notin> set ?ks" using keys snap that by (auto simp del: not_None_eq)
  ultimately show "look (snd (invalidateNamespace env MARKET_SNAPSHOT r)) ?k = None"
    using assms(1,2) by (simp add: invalidateNamespace_def Let_def delAll_look)
  show "look (snd (invalidateNamespace env MARKET_SNAPSHOT r)) (dataKey PRICE_DATA h) = look r (dataKey PRICE_DATA h)"
    using assms(1,2) keys price st by (simp add: invalidateNamespace_def Let_def delAll_look)
qed

end

section \<open>Properties\<close>

definition memMarket :: "kvlist marketEnv" where
  "memMarket = \<lparr>me_redis = listRedis, me_keys = listKeys, me_sha256 = (\<lambda>s. ''0''),
     me_json = (\<lambda>v. showNat (to_nat v)), me_parse = (\<lambda>s. from_nat (parseInt10 s))\<rparr>"

lemma memMarket_ok: "hexDigest memMarket" "jsonReads memMarket" "redis_keys (me_redis memMarket) map_of listAdv (me_keys memMarket)"
  "redis_kv (me_redis memMarket) map_of listAdv"
  using lkv.redis_keys_axioms lkv.redis_kv_axioms
  by (simp_all add: hexDigest_def hexOnly_def jsonReads_def memMarket_def)

text \<open>
  C31. A snapshot is at most five minutes old. In every run of requests, invalidations and passing time that
  starts from an empty store, a request for a market snapshot is answered with a snapshot whose time lies
  within the last 300 seconds, whether it comes from the cache or not.
\<close>

theorem market_snapshot_fresh:
  assumes "redis_kv (me_redis env) look adv" and "hexDigest env" and "jsonReads env" and "\<forall>k. look r0 k = None"
    and "fold (marketStep env adv) ops (t0, r0) = (now, r)"
    and "getMarketSnapshot env assetFilter bypass now r = ((v, cached), r')"
  shows "\<exists>s. v = CSnapshot s \<and> now - 300000 < ms_timestamp s \<and> ms_timestamp s \<le> now"
proof -
  have "marketInv env t0 (look r0)" using assms(4) by (simp add: marketInv_def freshEntry_def)
  from redis_kv.marketRun_inv [OF assms(1) refl assms(2,3) this, of ops] have "marketInv env now (look r)"
    using assms(5) by simp
  from redis_kv.getMarketSnapshot_fresh(2) [OF assms(1) refl assms(2,3) this assms(6)] show ?thesis .
qed

theorem market_snapshot_fresh_witness:
  "\<exists>now r v c r' s. fold (marketStep memMarket listAdv) [MSnapshot None False, MTick 200] (0, []) = (now, r) \<and>
     getMarketSnapshot memMarket None False now r = ((v, c), r') \<and> v = CSnapshot s \<and> now - 300000 < ms_timestamp s"
proof -
  obtain now r where run: "fold (marketStep memMarket listAdv) [MSnapshot None False, MTick 200] (0, []) = (now, r)"
    by (cases "fold (marketStep memMarket listAdv) [MSnapshot None False, MTick 200] (0, [])")
  obtain v c r' where g: "getMarketSnapshot memMarket None False now r = ((v, c), r')"
    by (cases "getMarketSnapshot memMarket None False now r") auto
  have "\<forall>k. map_of ([] :: kvlist) k = None" by simp
  from market_snapshot_fresh [OF memMarket_ok(4,1,2) this run g] run g show ?thesis by blast
qed

text \<open>
  An asset update evicts every snapshot and no price. The prices are stored under hashes, so that the
  pattern made from the asset code matches none of them as soon as the code has a character that is not
  a hexadecimal digit: every cached price, that of the updated asset included, stays as it was.
\<close>

theorem asset_update_keeps_prices:
  assumes "redis_keys (me_redis env) look adv (me_keys env)" and "hexDigest env"
    and "plainPattern assetCode" and "literalPart assetCode"
    and "c \<in> set assetCode" and "c \<notin> set ''0123456789abcdef''"
  shows "look (snd (handleAssetUpdate env assetCode updateType r)) (marketKey env key PRICE_DATA) =
           look r (marketKey env key PRICE_DATA) \<and>
         look (snd (handleAssetUpdate env assetCode updateType r)) (marketKey env key MARKET_SNAPSHOT) = None"
proof -
  obtain h where h: "hexOnly h" "marketKey env key PRICE_DATA = dataKey PRICE_DATA h" using marketKey_data [OF assms(2)] by blast
  obtain h' where h': "hexOnly h'" "marketKey env key MARKET_SNAPSHOT = dataKey MARKET_SNAPSHOT h'"
    using marketKey_data [OF assms(2)] by blast
  show ?thesis
    using redis_keys.pattern_misses [OF assms(1) refl refl h(1) assms(3-6)]
      redis_keys.namespace_effect [OF assms(1) refl refl h(1)] redis_keys.namespace_effect [OF assms(1) refl refl h'(1)]
    by (simp add: handleAssetUpdate_def h(2) h'(2))
qed

theorem asset_update_keeps_prices_witness:
  "map_of (snd (handleAssetUpdate memMarket ''XLM'' ''price'' [(''price:data:0'', ''7'', Some 60), (''market:snapshot:0'', ''8'', Some 300)]))
     (marketKey memMarket ''XLM:native'' PRICE_DATA) = Some (''7'', Some 60)"
proof -
  have k: "marketKey memMarket ''XLM:native'' PRICE_DATA = ''price:data:0''" by (simp add: marketKey_def memMarket_def PRICE_DATA_def)
  have p: "plainPattern ''XLM''" "literalPart ''XLM''" "CHR ''X'' \<in> set ''XLM''" "CHR ''X'' \<notin> set ''0123456789abcdef''"
    by (simp_all add: plainPattern_def literalPart_def)
  from asset_update_keeps_prices [OF memMarket_ok(3,1) p, of "''price''"
      "[(''price:data:0'', ''7'', Some 60), (''market:snapshot:0'', ''8'', Some 300)]" "''XLM:native''"]
  show ?thesis by (simp add: k)
qed

end
