(* ===== verification/Ai.thy ===== *)
theory Ai
  imports Redis "HOL-Library.AList"
begin

text \<open>
  The AI module (\<^verbatim>\<open>ai/\<close>): the OpenAI provider with its circuit breaker, the fallback provider, the answer cache,
  the monthly quota and the service that joins them. The HTTP call is an argument: the error it fails with or
  the reply it gets. The state keeps the prompts that were posted, in order. \<open>now\<close> is the time of the request and
  \<open>later\<close> the time when the HTTP call has ended.
\<close>

section \<open>Circuit breaker\<close>

datatype circuit = Closed | Open | HalfOpen

record CircuitBreakerState =
  cb_failures :: nat
  cb_openedAt :: "date option"
  cb_state :: circuit

definition newCircuit :: CircuitBreakerState where
  "newCircuit = \<lparr>cb_failures = 0, cb_openedAt = None, cb_state = Closed\<rparr>"

definition FAILURE_THRESHOLD :: nat where
  "FAILURE_THRESHOLD = 5"

definition HALF_OPEN_AFTER_MS :: int where
  "HALF_OPEN_AFTER_MS = 60000"

definition checkCircuit :: "date \<Rightarrow> (CircuitBreakerState, unit) action" where
  "checkCircuit now cb =
     (if cb_state cb = Open
      then let elapsed = now - (case cb_openedAt cb of None \<Rightarrow> 0 | Some t \<Rightarrow> t)
           in if HALF_OPEN_AFTER_MS \<le> elapsed then (Inr (), cb\<lparr>cb_state := HalfOpen\<rparr>)
              else (Inl (Error ''Circuit breaker is open''), cb)
      else (Inr (), cb))"

definition recordSuccess :: "CircuitBreakerState \<Rightarrow> CircuitBreakerState" where
  "recordSuccess cb = cb\<lparr>cb_failures := 0, cb_state := Closed, cb_openedAt := None\<rparr>"

definition recordFailure :: "date \<Rightarrow> CircuitBreakerState \<Rightarrow> CircuitBreakerState" where
  "recordFailure now cb =
     (let cb1 = cb\<lparr>cb_failures := cb_failures cb + 1\<rparr>
      in if FAILURE_THRESHOLD \<le> cb_failures cb1 then cb1\<lparr>cb_state := Open, cb_openedAt := Some now\<rparr> else cb1)"

definition getCircuitState :: "CircuitBreakerState \<Rightarrow> circuit" where
  "getCircuitState cb = cb_state cb"

section \<open>State\<close>

record QuotaRecord =
  qr_requestCount :: nat
  qr_tokenCount :: nat

record 'r aiState =
  ai_cb :: CircuitBreakerState
  ai_posted :: "string list"
  ai_mem :: "(string \<times> string) list"
  ai_redis :: 'r
  ai_quotas :: "(string \<times> QuotaRecord) list"

text \<open>\<open>REDIS_CLIENT\<close> is \<^verbatim>\<open>null\<close> in \<^verbatim>\<open>ai.module.ts\<close>; the cache service handles both cases.\<close>

record 'r aiEnv =
  ae_redis :: "'r redis option"
  ae_sha256 :: "string \<Rightarrow> string"

section \<open>Providers\<close>

record AiResult =
  rs_response :: string
  rs_tokensUsed :: nat

text \<open>A reply of the API: without a choice, reading its first one throws a \<^verbatim>\<open>TypeError\<close>.\<close>

datatype chatReply = NoChoice | Choice string "nat option"

type_synonym chatOutcome = "js_error + chatReply"

definition openAiGenerate :: "date \<Rightarrow> date \<Rightarrow> chatOutcome \<Rightarrow> string \<Rightarrow> ('r aiState, AiResult) action" where
  "openAiGenerate now later outcome prompt st =
     (case checkCircuit now (ai_cb st) of
        (Inl e, cb) \<Rightarrow> (Inl e, st\<lparr>ai_cb := cb\<rparr>)
      | (Inr _, cb) \<Rightarrow>
          let st1 = st\<lparr>ai_posted := ai_posted st @ [prompt]\<rparr>
          in case outcome of
               Inl err \<Rightarrow> (Inl err, st1\<lparr>ai_cb := recordFailure later cb\<rparr>)
             | Inr NoChoice \<Rightarrow> (Inl (Error ''TypeError''), st1\<lparr>ai_cb := recordFailure later (recordSuccess cb)\<rparr>)
             | Inr (Choice content tokens) \<Rightarrow>
                 (Inr \<lparr>rs_response = content, rs_tokensUsed = (case tokens of None \<Rightarrow> 0 | Some n \<Rightarrow> n)\<rparr>,
                  st1\<lparr>ai_cb := recordSuccess cb\<rparr>))"

definition AI_CACHE_TTL :: nat where
  "AI_CACHE_TTL = 3600"

definition aiCacheGet :: "'r aiEnv \<Rightarrow> string \<Rightarrow> 'r aiState \<Rightarrow> string option" where
  "aiCacheGet env key st =
     (case ae_redis env of
        Some D \<Rightarrow> rdGet D key (ai_redis st)
      | None \<Rightarrow> let v = map_of (ai_mem st) key in if strTruthy v then v else None)"

definition aiCacheSet :: "'r aiEnv \<Rightarrow> string \<Rightarrow> string \<Rightarrow> 'r aiState \<Rightarrow> 'r aiState" where
  "aiCacheSet env key v st =
     (case ae_redis env of
        Some D \<Rightarrow> st\<lparr>ai_redis := rdSetEx D key AI_CACHE_TTL v (ai_redis st)\<rparr>
      | None \<Rightarrow> st\<lparr>ai_mem := AList.update key v (ai_mem st)\<rparr>)"

definition buildKey :: "'r aiEnv \<Rightarrow> string \<Rightarrow> string \<Rightarrow> string" where
  "buildKey env inp model = ''ai:'' @ model @ '':'' @ ae_sha256 env inp"

definition UNAVAILABLE :: string where
  "UNAVAILABLE = ''AI service is temporarily unavailable. Please try again later.''"

definition fallbackGenerate :: "'r aiEnv \<Rightarrow> date \<Rightarrow> date \<Rightarrow> chatOutcome \<Rightarrow> string \<Rightarrow> ('r aiState, AiResult) action" where
  "fallbackGenerate env now later outcome prompt st =
     (case openAiGenerate now later outcome prompt st of
        (Inr result, st1) \<Rightarrow> (Inr result, st1)
      | (Inl _, st1) \<Rightarrow>
          let cached = aiCacheGet env (buildKey env prompt ''fallback'') st1
          in if strTruthy cached then (Inr \<lparr>rs_response = the cached, rs_tokensUsed = 0\<rparr>, st1)
             else (Inr \<lparr>rs_response = UNAVAILABLE, rs_tokensUsed = 0\<rparr>, st1))"

section \<open>Quota\<close>

definition MAX_REQUESTS :: nat where
  "MAX_REQUESTS = 1000"

definition aiQuotaKey :: "string \<Rightarrow> date \<Rightarrow> string" where
  "aiQuotaKey userId now = userId @ '':'' @ take 7 (toISOString now)"

definition assertQuota :: "string \<Rightarrow> date \<Rightarrow> ('r aiState, unit) action" where
  "assertQuota userId now st =
     (case map_of (ai_quotas st) (aiQuotaKey userId now) of
        None \<Rightarrow> (Inr (), st)
      | Some quota \<Rightarrow>
          if MAX_REQUESTS \<le> qr_requestCount quota
          then (Inl (ForbiddenException ''Monthly AI usage quota exceeded''), st)
          else (Inr (), st))"

definition recordUsage :: "string \<Rightarrow> nat \<Rightarrow> date \<Rightarrow> 'r aiState \<Rightarrow> 'r aiState" where
  "recordUsage userId tokens now st =
     (let key = aiQuotaKey userId now;
          existing = (case map_of (ai_quotas st) key of None \<Rightarrow> \<lparr>qr_requestCount = 0, qr_tokenCount = 0\<rparr> | Some q \<Rightarrow> q)
      in st\<lparr>ai_quotas := AList.update key
             \<lparr>qr_requestCount = qr_requestCount existing + 1, qr_tokenCount = qr_tokenCount existing + tokens\<rparr> (ai_quotas st)\<rparr>)"

section \<open>The service\<close>

record AiRequestDto =
  rq_text :: string
  rq_userId :: "string option"

record AiReply =
  rp_response :: string
  rp_cached :: "bool option"
  rp_degraded :: "bool option"

definition handlePrompt :: "'r aiEnv \<Rightarrow> date \<Rightarrow> date \<Rightarrow> chatOutcome \<Rightarrow> AiRequestDto \<Rightarrow> ('r aiState, AiReply) action" where
  "handlePrompt env now later outcome dto st =
     (case (if strTruthy (rq_userId dto) then assertQuota (the (rq_userId dto)) now st else (Inr (), st)) of
        (Inl e, st1) \<Rightarrow> (Inl e, st1)
      | (Inr _, st1) \<Rightarrow>
          let cacheKey = buildKey env (rq_text dto) ''gpt-4''; cached = aiCacheGet env cacheKey st1
          in if strTruthy cached then (Inr \<lparr>rp_response = the cached, rp_cached = Some True, rp_degraded = None\<rparr>, st1)
             else case fallbackGenerate env now later outcome (rq_text dto) st1 of
                    (Inl _, st2) \<Rightarrow> (Inr \<lparr>rp_response = UNAVAILABLE, rp_cached = None, rp_degraded = Some True\<rparr>, st2)
                  | (Inr result, st2) \<Rightarrow>
                      let st3 = aiCacheSet env cacheKey (rs_response result) st2;
                          st4 = (if strTruthy (rq_userId dto)
                                 then recordUsage (the (rq_userId dto)) (rs_tokensUsed result) later st3 else st3)
                      in (Inr \<lparr>rp_response = rs_response result, rp_cached = Some False, rp_degraded = None\<rparr>, st4))"

section \<open>The circuit under interleaved requests\<close>

text \<open>
  Requests run concurrently: between the check of the circuit and the end of the HTTP call other requests can
  check it and end. A state is the time, the number of calls under way and the circuit. A reply without a choice
  counts as a success and then as a failure.
\<close>

inductive circuitReach :: "date \<Rightarrow> nat \<Rightarrow> CircuitBreakerState \<Rightarrow> bool" where
  created: "circuitReach t 0 newCircuit"
| passes: "circuitReach t n cb \<Longrightarrow> t \<le> t' \<Longrightarrow> circuitReach t' n cb"
| refused: "circuitReach t n cb \<Longrightarrow> checkCircuit t cb = (Inl e, cb') \<Longrightarrow> circuitReach t n cb'"
| posted: "circuitReach t n cb \<Longrightarrow> checkCircuit t cb = (Inr (), cb') \<Longrightarrow> circuitReach t (Suc n) cb'"
| succeeded: "circuitReach t (Suc n) cb \<Longrightarrow> circuitReach t n (recordSuccess cb)"
| failed: "circuitReach t (Suc n) cb \<Longrightarrow> circuitReach t n (recordFailure t cb)"
| malformed: "circuitReach t (Suc n) cb \<Longrightarrow> circuitReach t n (recordFailure t (recordSuccess cb))"

definition circuitOk :: "date \<Rightarrow> CircuitBreakerState \<Rightarrow> bool" where
  "circuitOk t cb \<longleftrightarrow>
     (if cb_failures cb < FAILURE_THRESHOLD then cb_state cb = Closed \<and> cb_openedAt cb = None
      else cb_state cb \<noteq> Closed \<and> (\<exists>opened. cb_openedAt cb = Some opened \<and> opened \<le> t))"

lemma circuitOk_ops:
  assumes "circuitOk t cb"
  shows "checkCircuit t cb = (res, cb') \<Longrightarrow> circuitOk t cb'" and "circuitOk t (recordSuccess cb)"
    and "circuitOk t (recordFailure t cb)"
  using assms
  by (auto simp: circuitOk_def checkCircuit_def recordSuccess_def recordFailure_def Let_def FAILURE_THRESHOLD_def split: if_splits)

lemma circuitReach_ok: "circuitReach t n cb \<Longrightarrow> circuitOk t cb"
proof (induction rule: circuitReach.induct)
  case (created t)
  show ?case by (simp add: circuitOk_def newCircuit_def FAILURE_THRESHOLD_def)
next
  case (passes t n cb t')
  then show ?case by (auto simp: circuitOk_def split: if_splits intro: order_trans)
qed (auto intro: circuitOk_ops)

text \<open>
  C32. The circuit breaker, however requests interleave. It is closed exactly while fewer than five failures have been
  counted since the last success. While it is open it refuses every request for a minute after it opened and then lets
  the next one through; a success closes it, and a failure that comes while it is not closed opens it again at that moment.
\<close>

theorem circuit_breaker:
  assumes "circuitReach t n cb"
  shows "(cb_state cb = Closed \<longleftrightarrow> cb_failures cb < 5) \<and>
    (cb_state cb = Closed \<longrightarrow> checkCircuit t cb = (Inr (), cb)) \<and>
    (cb_state cb = Open \<longrightarrow> (\<exists>opened \<le> t. cb_openedAt cb = Some opened \<and>
       checkCircuit t cb = (if t < opened + 60000 then (Inl (Error ''Circuit breaker is open''), cb)
                            else (Inr (), cb\<lparr>cb_state := HalfOpen\<rparr>)))) \<and>
    cb_state (recordSuccess cb) = Closed \<and>
    (cb_state cb \<noteq> Closed \<longrightarrow> cb_state (recordFailure t cb) = Open \<and> cb_openedAt (recordFailure t cb) = Some t)"
proof -
  note ok = circuitReach_ok [OF assms]
  have "\<exists>opened \<le> t. cb_openedAt cb = Some opened \<and>
       checkCircuit t cb = (if t < opened + 60000 then (Inl (Error ''Circuit breaker is open''), cb)
                            else (Inr (), cb\<lparr>cb_state := HalfOpen\<rparr>))" if "cb_state cb = Open"
  proof -
    from ok that obtain opened where o: "cb_openedAt cb = Some opened" "opened \<le> t"
      by (auto simp: circuitOk_def split: if_splits)
    with that show ?thesis by (intro exI [of _ opened]) (simp add: checkCircuit_def Let_def HALF_OPEN_AFTER_MS_def)
  qed
  then show ?thesis
    using ok by (auto simp: circuitOk_def checkCircuit_def recordSuccess_def recordFailure_def Let_def FAILURE_THRESHOLD_def split: if_splits)
qed

theorem circuit_breaker_witness:
  "let cb = fold recordFailure [10, 20, 30, 40, 50] newCircuit
   in circuitReach 50 0 cb \<and> cb_state cb = Open \<and> cb_failures cb = 5"
proof -
  define cb where "cb = fold recordFailure [10, 20, 30, 40, 50] newCircuit"
  have step: "circuitReach t' 0 (recordFailure t' c)"
    if "circuitReach t 0 c" and "cb_state c = Closed" and "t \<le> t'" for t t' c
    using that by (auto intro!: failed posted [OF passes [OF that(1,3)]] simp: checkCircuit_def)
  have "circuitReach 10 0 (recordFailure 10 newCircuit)"
    by (rule step [OF created [of 10]]) (simp_all add: newCircuit_def)
  then have "circuitReach 20 0 (fold recordFailure [10, 20] newCircuit)"
    using step [of 10 "recordFailure 10 newCircuit" 20] by (simp add: newCircuit_def recordFailure_def FAILURE_THRESHOLD_def)
  then have "circuitReach 30 0 (fold recordFailure [10, 20, 30] newCircuit)"
    using step [of 20 "fold recordFailure [10, 20] newCircuit" 30] by (simp add: newCircuit_def recordFailure_def FAILURE_THRESHOLD_def)
  then have "circuitReach 40 0 (fold recordFailure [10, 20, 30, 40] newCircuit)"
    using step [of 30 "fold recordFailure [10, 20, 30] newCircuit" 40] by (simp add: newCircuit_def recordFailure_def FAILURE_THRESHOLD_def)
  then have r: "circuitReach 50 0 cb"
    using step [of 40 "fold recordFailure [10, 20, 30, 40] newCircuit" 50] by (simp add: cb_def newCircuit_def recordFailure_def FAILURE_THRESHOLD_def)
  have "cb_failures cb = 5" by (simp add: cb_def newCircuit_def recordFailure_def FAILURE_THRESHOLD_def)
  moreover have "cb_state cb \<noteq> HalfOpen" by (simp add: cb_def newCircuit_def recordFailure_def FAILURE_THRESHOLD_def)
  moreover note circuit_breaker [OF r]
  ultimately have "cb_state cb = Open" by (cases "cb_state cb") auto
  then show ?thesis using r \<open>cb_failures cb = 5\<close> by (simp add: cb_def)
qed

section \<open>An outage\<close>

record aiCall =
  ac_now :: date
  ac_later :: date
  ac_outcome :: chatOutcome
  ac_dto :: AiRequestDto

definition aiStep :: "'r aiEnv \<Rightarrow> aiCall \<Rightarrow> 'r aiState \<Rightarrow> 'r aiState" where
  "aiStep env c st = snd (handlePrompt env (ac_now c) (ac_later c) (ac_outcome c) (ac_dto c) st)"

definition aiRun :: "'r aiEnv \<Rightarrow> aiCall list \<Rightarrow> 'r aiState \<Rightarrow> 'r aiState" where
  "aiRun env cs st = fold (aiStep env) cs st"

text \<open>The calls follow one another, and no call gets an answer.\<close>

fun outage :: "date \<Rightarrow> aiCall list \<Rightarrow> bool" where
  "outage t [] = True"
| "outage t (c # cs) = (t \<le> ac_now c \<and> ac_now c \<le> ac_later c \<and> (\<exists>e. ac_outcome c = Inl e) \<and> outage (ac_later c) cs)"

fun lastTime :: "date \<Rightarrow> aiCall list \<Rightarrow> date" where
  "lastTime t [] = t"
| "lastTime t (c # cs) = lastTime (ac_later c) cs"

text \<open>After \<open>k\<close> posts of an outage that began at \<open>t0\<close> the circuit has been open for that many minutes.\<close>

definition outageOk :: "date \<Rightarrow> date \<Rightarrow> nat \<Rightarrow> CircuitBreakerState \<Rightarrow> bool" where
  "outageOk t0 t k cb \<longleftrightarrow>
     (if cb_failures cb < 5 then k = cb_failures cb \<and> cb_state cb = Closed
      else cb_state cb = Open \<and> (\<exists>opened. cb_openedAt cb = Some opened \<and> opened \<le> t \<and> 60000 * (int k - 5) \<le> opened - t0))"

lemma provider_step:
  assumes "outageOk t0 t (length (ai_posted st)) (ai_cb st)" and "t0 \<le> t" and "t \<le> now" and "now \<le> later"
    and "openAiGenerate now later (Inl err) p st = (res, st')"
  shows "outageOk t0 later (length (ai_posted st')) (ai_cb st')"
  using assms
  by (auto simp: outageOk_def openAiGenerate_def checkCircuit_def recordFailure_def Let_def FAILURE_THRESHOLD_def
      HALF_OPEN_AFTER_MS_def split: if_splits)

lemma frame_simps [simp]:
  "ai_cb (aiCacheSet env k v st) = ai_cb st" "ai_posted (aiCacheSet env k v st) = ai_posted st"
  "ai_cb (recordUsage u n t st) = ai_cb st" "ai_posted (recordUsage u n t st) = ai_posted st"
  "ai_mem (recordUsage u n t st) = ai_mem st" "snd (assertQuota u t st) = st"
  by (simp_all add: aiCacheSet_def recordUsage_def assertQuota_def Let_def split: option.split)

lemma fallback_answers: "\<exists>result st2. fallbackGenerate env now later outcome p st = (Inr result, st2)"
  by (cases "openAiGenerate now later outcome p st"; cases "fst (openAiGenerate now later outcome p st)")
    (simp_all add: fallbackGenerate_def Let_def)

text \<open>What \<^verbatim>\<open>handlePrompt\<close> comes to: a refusal, an answer from the cache, or a new answer that is cached.\<close>

lemma handlePrompt_cases:
  obtains (refused) e where "handlePrompt env now later outcome dto st = (Inl e, st)"
    | (cached) v where "aiCacheGet env (buildKey env (rq_text dto) ''gpt-4'') st = Some v" "v \<noteq> []"
        "handlePrompt env now later outcome dto st = (Inr \<lparr>rp_response = v, rp_cached = Some True, rp_degraded = None\<rparr>, st)"
    | (answered) result st2 st3 where "\<not> strTruthy (aiCacheGet env (buildKey env (rq_text dto) ''gpt-4'') st)"
        "fallbackGenerate env now later outcome (rq_text dto) st = (Inr result, st2)"
        "st3 = aiCacheSet env (buildKey env (rq_text dto) ''gpt-4'') (rs_response result) st2"
        "handlePrompt env now later outcome dto st = (Inr \<lparr>rp_response = rs_response result, rp_cached = Some False, rp_degraded = None\<rparr>,
           if strTruthy (rq_userId dto) then recordUsage (the (rq_userId dto)) (rs_tokensUsed result) later st3 else st3)"
proof -
  define chk where "chk = (if strTruthy (rq_userId dto) then assertQuota (the (rq_userId dto)) now st else (Inr (), st))"
  have snd_chk: "snd chk = st" by (simp add: chk_def)
  obtain r where chk: "chk = (r, st)" using snd_chk by (cases chk) auto
  let ?key = "buildKey env (rq_text dto) ''gpt-4''"
  show thesis
  proof (cases r)
    case (Inl e)
    with chk have "handlePrompt env now later outcome dto st = (Inl e, st)" by (simp add: handlePrompt_def chk_def [symmetric])
    then show thesis by (rule refused)
  next
    case (Inr u)
    show thesis
    proof (cases "strTruthy (aiCacheGet env ?key st)")
      case True
      then obtain v where v: "aiCacheGet env ?key st = Some v" "v \<noteq> []" by (auto simp: strTruthy_def split: option.splits)
      have "strTruthy (Some v)" using v(2) by (simp add: strTruthy_def)
      with chk Inr v show thesis by (intro cached [OF v]) (simp add: handlePrompt_def chk_def [symmetric])
    next
      case False
      obtain result st2 where f: "fallbackGenerate env now later outcome (rq_text dto) st = (Inr result, st2)"
        using fallback_answers by metis
      show thesis
        by (rule answered [OF False f refl]) (simp add: handlePrompt_def chk_def [symmetric] chk Inr False f Let_def)
    qed
  qed
qed

lemma fallback_provider:
  assumes "fallbackGenerate env now later outcome p st = (res, st')"
  shows "snd (openAiGenerate now later outcome p st) = st'"
  using assms by (auto simp: fallbackGenerate_def Let_def split: prod.splits sum.splits if_splits)

lemma outage_step:
  assumes "outageOk t0 t (length (ai_posted st)) (ai_cb st)" and "t0 \<le> t" and "t \<le> ac_now c" and "ac_now c \<le> ac_later c"
    and "ac_outcome c = Inl err"
  shows "outageOk t0 (ac_later c) (length (ai_posted (aiStep env c st))) (ai_cb (aiStep env c st))"
proof -
  have wait: "outageOk t0 (ac_later c) (length (ai_posted st)) (ai_cb st)"
    using assms(1,3,4) by (auto simp: outageOk_def split: if_splits)
  show ?thesis
  proof (rule handlePrompt_cases [of env "ac_now c" "ac_later c" "ac_outcome c" "ac_dto c" st])
    fix result st2 st3
    assume f: "fallbackGenerate env (ac_now c) (ac_later c) (ac_outcome c) (rq_text (ac_dto c)) st = (Inr result, st2)"
      and st3: "st3 = aiCacheSet env (buildKey env (rq_text (ac_dto c)) ''gpt-4'') (rs_response result) st2"
      and h: "handlePrompt env (ac_now c) (ac_later c) (ac_outcome c) (ac_dto c) st =
        (Inr \<lparr>rp_response = rs_response result, rp_cached = Some False, rp_degraded = None\<rparr>,
         if strTruthy (rq_userId (ac_dto c)) then recordUsage (the (rq_userId (ac_dto c))) (rs_tokensUsed result) (ac_later c) st3 else st3)"
    have "outageOk t0 (ac_later c) (length (ai_posted st2)) (ai_cb st2)"
      using provider_step [OF assms(1-4)] fallback_provider [OF f] assms(5) by (metis prod.collapse)
    then show ?thesis by (simp add: aiStep_def h st3)
  qed (use wait in \<open>simp_all add: aiStep_def\<close>)
qed

lemma outage_run:
  "outageOk t0 t (length (ai_posted st)) (ai_cb st) \<Longrightarrow> t0 \<le> t \<Longrightarrow> outage t cs \<Longrightarrow>
   outageOk t0 (lastTime t cs) (length (ai_posted (aiRun env cs st))) (ai_cb (aiRun env cs st))"
proof (induction cs arbitrary: t st)
  case (Cons c cs)
  then obtain err where c: "t \<le> ac_now c" "ac_now c \<le> ac_later c" "ac_outcome c = Inl err" "outage (ac_later c) cs" by auto
  note s = outage_step [OF Cons.prems(1,2) c(1-3), of env]
  from Cons.IH [OF s _ c(4)] c Cons.prems(2) show ?case by (simp add: aiRun_def)
qed (simp add: aiRun_def)


definition memAi :: "unit aiEnv" where
  "memAi = \<lparr>ae_redis = None, ae_sha256 = (\<lambda>s. s)\<rparr>"

definition freshAi :: "unit aiState" where
  "freshAi = \<lparr>ai_cb = newCircuit, ai_posted = [], ai_mem = [], ai_redis = (), ai_quotas = []\<rparr>"

definition sampleCall :: "nat \<Rightarrow> aiCall" where
  "sampleCall i = \<lparr>ac_now = 1000 * int i, ac_later = 1000 * int i + 500, ac_outcome = Inl (Error ''timeout''),
     ac_dto = \<lparr>rq_text = showNat i, rq_userId = None\<rparr>\<rparr>"

lemma sample_outage: "t \<le> 1000 * int m \<Longrightarrow> outage t (map sampleCall [m..<n])"
proof (induction "n - m" arbitrary: m t)
  case (Suc k)
  then have "[m..<n] = m # [Suc m..<n]" by (simp add: upt_conv_Cons)
  moreover have "outage (ac_later (sampleCall m)) (map sampleCall [Suc m..<n])"
    using Suc by (intro Suc.hyps(1)) (auto simp: sampleCall_def)
  ultimately show ?case using Suc.prems by (simp add: sampleCall_def)
qed simp


section \<open>The cache in memory\<close>

lemma keys_differ [simp]: "buildKey env a ''gpt-4'' \<noteq> buildKey env b ''fallback''" "buildKey env b ''fallback'' \<noteq> buildKey env a ''gpt-4''"
  by (simp_all add: buildKey_def)

lemma mem_get: "ae_redis env = None \<Longrightarrow> aiCacheGet env k st = (case map_of (ai_mem st) k of None \<Rightarrow> None | Some v \<Rightarrow> if v = [] then None else Some v)"
  by (simp add: aiCacheGet_def Let_def strTruthy_def split: option.split)

lemma generate_mem: "ai_mem (snd (openAiGenerate now later outcome p st)) = ai_mem st"
  by (cases "checkCircuit now (ai_cb st)") (simp add: openAiGenerate_def Let_def split: sum.split chatReply.split)

text \<open>A step changes no entry with a text, and none of the entries that the fallback provider looks for.\<close>

lemma step_mem:
  assumes "ae_redis env = None"
  shows "map_of (ai_mem st) k = Some v \<Longrightarrow> v \<noteq> [] \<Longrightarrow> map_of (ai_mem (aiStep env c st)) k = Some v"
    and "map_of (ai_mem (aiStep env c st)) (buildKey env p ''fallback'') = map_of (ai_mem st) (buildKey env p ''fallback'')"
proof -
  have "ai_mem (aiStep env c st) = ai_mem st \<or>
      (\<exists>v. ai_mem (aiStep env c st) = AList.update (buildKey env (rq_text (ac_dto c)) ''gpt-4'') v (ai_mem st) \<and>
         \<not> strTruthy (aiCacheGet env (buildKey env (rq_text (ac_dto c)) ''gpt-4'') st))"
  proof (rule handlePrompt_cases [of env "ac_now c" "ac_later c" "ac_outcome c" "ac_dto c" st])
    fix result st2 st3
    assume t: "\<not> strTruthy (aiCacheGet env (buildKey env (rq_text (ac_dto c)) ''gpt-4'') st)"
      and f: "fallbackGenerate env (ac_now c) (ac_later c) (ac_outcome c) (rq_text (ac_dto c)) st = (Inr result, st2)"
      and st3: "st3 = aiCacheSet env (buildKey env (rq_text (ac_dto c)) ''gpt-4'') (rs_response result) st2"
      and h: "handlePrompt env (ac_now c) (ac_later c) (ac_outcome c) (ac_dto c) st =
        (Inr \<lparr>rp_response = rs_response result, rp_cached = Some False, rp_degraded = None\<rparr>,
         if strTruthy (rq_userId (ac_dto c)) then recordUsage (the (rq_userId (ac_dto c))) (rs_tokensUsed result) (ac_later c) st3 else st3)"
    have "ai_mem st2 = ai_mem st" using fallback_provider [OF f] generate_mem by metis
    with t st3 h assms show ?thesis by (auto simp: aiStep_def aiCacheSet_def)
  qed (simp_all add: aiStep_def)
  then show "map_of (ai_mem st) k = Some v \<Longrightarrow> v \<noteq> [] \<Longrightarrow> map_of (ai_mem (aiStep env c st)) k = Some v"
    and "map_of (ai_mem (aiStep env c st)) (buildKey env p ''fallback'') = map_of (ai_mem st) (buildKey env p ''fallback'')"
    by (auto simp: update_conv' mem_get [OF assms] strTruthy_def split: option.splits)
qed

lemma run_mem:
  assumes "ae_redis env = None"
  shows "map_of (ai_mem st) k = Some v \<Longrightarrow> v \<noteq> [] \<Longrightarrow> map_of (ai_mem (aiRun env cs st)) k = Some v"
    and "map_of (ai_mem (aiRun env cs st)) (buildKey env p ''fallback'') = map_of (ai_mem st) (buildKey env p ''fallback'')"
  by (induction cs arbitrary: st) (simp_all add: aiRun_def step_mem [OF assms])

text \<open>
  One failure silences a prompt for good. The module gives the cache no Redis, so its entries never expire, and the
  service caches whatever the fallback provider returns: after a call that fails (or that the open circuit
  refuses) the text saying that the service is temporarily unavailable is the answer to that prompt, marked as cached,
  to every user whose quota allows it, whatever happens in between and however the API has recovered. The
  second line of the fallback, an earlier answer, is never found.
\<close>

theorem ai_outage_cached_forever:
  assumes "ae_redis env = None" and "ai_mem st0 = []" and "st = aiRun env cs st0"
    and "handlePrompt env now later (Inl err) dto st = (Inr reply, st1)" and "rp_cached reply = Some False"
    and "st2 = aiRun env cs' st1" and "rq_text dto' = rq_text dto"
    and "strTruthy (rq_userId dto') \<longrightarrow> fst (assertQuota (the (rq_userId dto')) now' st2) = Inr ()"
  shows "rp_response reply = UNAVAILABLE \<and>
    handlePrompt env now' later' outcome dto' st2 = (Inr \<lparr>rp_response = UNAVAILABLE, rp_cached = Some True, rp_degraded = None\<rparr>, st2)"
proof -
  let ?k = "buildKey env (rq_text dto) ''gpt-4''"
  have "aiCacheGet env (buildKey env (rq_text dto) ''fallback'') (snd (openAiGenerate now later (Inl err) (rq_text dto) st)) = None"
    using run_mem(2) [OF assms(1), of cs st0 "rq_text dto"] assms(2,3) by (simp add: mem_get [OF assms(1)] generate_mem)
  moreover have "\<exists>e. fst (openAiGenerate now later (Inl err) (rq_text dto) st) = Inl e"
    by (cases "checkCircuit now (ai_cb st)") (simp add: openAiGenerate_def Let_def split: sum.split)
  ultimately have fb: "fallbackGenerate env now later (Inl err) (rq_text dto) st =
      (Inr \<lparr>rs_response = UNAVAILABLE, rs_tokensUsed = 0\<rparr>, snd (openAiGenerate now later (Inl err) (rq_text dto) st))"
    by (cases "openAiGenerate now later (Inl err) (rq_text dto) st") (auto simp: fallbackGenerate_def strTruthy_def)
  have "rp_response reply = UNAVAILABLE \<and> map_of (ai_mem st1) ?k = Some UNAVAILABLE"
    using assms(1,4,5) fb
    by (cases rule: handlePrompt_cases [of env now later "Inl err" dto st])
      (auto simp: aiCacheSet_def update_conv' split: if_splits)
  moreover have "UNAVAILABLE \<noteq> []" by (simp add: UNAVAILABLE_def)
  ultimately have r: "rp_response reply = UNAVAILABLE" "map_of (ai_mem st2) ?k = Some UNAVAILABLE"
    using run_mem(1) [OF assms(1)] assms(6) by auto
  moreover have "aiCacheGet env ?k st2 = Some UNAVAILABLE" "strTruthy (Some UNAVAILABLE)"
    using r(2) by (simp_all add: mem_get [OF assms(1)] UNAVAILABLE_def strTruthy_def)
  moreover have "(if strTruthy (rq_userId dto') then assertQuota (the (rq_userId dto')) now' st2 else (Inr (), st2)) = (Inr (), st2)"
    using assms(8) frame_simps(6) [of "the (rq_userId dto')" now' st2] by (metis prod.collapse)
  ultimately show ?thesis using assms(7) unfolding handlePrompt_def by simp
qed

theorem ai_outage_cached_forever_witness:
  "\<exists>st2. handlePrompt memAi 90000 90500 (Inr (Choice ''Paris'' (Some 7))) \<lparr>rq_text = ''capital of France?'', rq_userId = Some ''bob''\<rparr> st2 =
     (Inr \<lparr>rp_response = UNAVAILABLE, rp_cached = Some True, rp_degraded = None\<rparr>, st2)"
proof -
  let ?dto = "\<lparr>rq_text = ''capital of France?'', rq_userId = None\<rparr>"
  let ?dto2 = "\<lparr>rq_text = ''capital of France?'', rq_userId = Some ''bob''\<rparr>"
  obtain reply st1 where h: "handlePrompt memAi 0 500 (Inl (Error ''timeout'')) ?dto freshAi = (Inr reply, st1)"
    and c: "rp_cached reply = Some False" and q: "ai_quotas st1 = []"
    by (simp add: handlePrompt_def fallbackGenerate_def openAiGenerate_def checkCircuit_def aiCacheGet_def aiCacheSet_def memAi_def
        freshAi_def newCircuit_def strTruthy_def Let_def)
  have m: "ae_redis memAi = None" "ai_mem freshAi = []" "freshAi = aiRun memAi [] freshAi" "st1 = aiRun memAi [] st1"
    by (simp_all add: memAi_def freshAi_def aiRun_def)
  have "strTruthy (rq_userId ?dto2) \<longrightarrow> fst (assertQuota (the (rq_userId ?dto2)) 90000 st1) = Inr ()" by (simp add: assertQuota_def q)
  from ai_outage_cached_forever [OF m(1-3) h c m(4) _ this] show ?thesis by simp blast
qed

end
