(* ===== verification/Job_Queue.thy ===== *)
theory Job_Queue
  imports Json Complex_Main
begin

text \<open>
  The job queues (\<^verbatim>\<open>queue/\<close>): the queue service with its dead-letter lists, the three processors and the admin
  controller. Bull and Redis are parameters: \<open>bull\<close> holds the operations of a Bull queue that the code calls, with the
  laws of the locale \<open>bull_queue\<close>, and \<open>redisList\<close> the three list commands, with the laws of \<open>redis_lists\<close>. An element of a
  dead-letter list is the JSON text of an entry, represented by the entry, or a text that is no JSON.
\<close>

section \<open>Jobs\<close>

record JobOptions =
  jo_attempts :: "nat option"
  jo_backoff :: "json option"
  jo_removeOnComplete :: "bool option"
  jo_removeOnFail :: "bool option"

text \<open>The progress of a job is a number or any other value that a processor has set.\<close>

record Job =
  j_id :: string
  j_name :: string
  j_data :: json
  j_opts :: JobOptions
  j_attemptsMade :: nat
  j_progress :: json
  j_returnvalue :: "json option"
  j_failedReason :: "string option"
  j_timestamp :: date
  j_processedOn :: "date option"
  j_finishedOn :: "date option"
  j_state :: string

datatype JobStatus = PENDING_JOB | ACTIVE_JOB | COMPLETED_JOB | FAILED_JOB | DELAYED_JOB

record JobResult =
  jr_success :: bool
  jr_data :: json

record JobInfo =
  ji_id :: string
  ji_name :: string
  ji_status :: JobStatus
  ji_progress :: int
  ji_attempts :: nat
  ji_maxAttempts :: nat
  ji_data :: json
  ji_result :: "JobResult option"
  ji_error :: "string option"
  ji_createdAt :: date
  ji_processedAt :: "date option"
  ji_completedAt :: "date option"

section \<open>Bull and the Redis lists\<close>

record 'q bull =
  bqAdd :: "string \<Rightarrow> json \<Rightarrow> JobOptions \<Rightarrow> 'q \<Rightarrow> (js_error + Job) \<times> 'q"
  bqGetJob :: "string \<Rightarrow> 'q \<Rightarrow> Job option"
  bqGetJobs :: "string \<Rightarrow> 'q \<Rightarrow> Job list"
  bqClean :: "string \<Rightarrow> 'q \<Rightarrow> string list \<times> 'q"
  bqCounts :: "string \<Rightarrow> 'q \<Rightarrow> nat"
  bqProgress :: "string \<Rightarrow> int \<Rightarrow> 'q \<Rightarrow> 'q"

text \<open>\<open>jobs\<close> are the jobs of a queue in the order in which they were added.\<close>

locale bull_queue =
  fixes B :: "'q bull" and jobs :: "'q \<Rightarrow> Job list"
  assumes getJob_find: "bqGetJob B i q = find (\<lambda>j. j_id j = i) (jobs q)"
    and getJobs_mset: "mset (bqGetJobs B s q) = mset (filter (\<lambda>j. j_state j = s) (jobs q))"
    and add_job: "bqAdd B n d opts q = (Inr j, q') \<Longrightarrow>
          jobs q' = jobs q @ [j] \<and> j_id j \<notin> j_id ` set (jobs q) \<and> j_name j = n \<and> j_data j = d \<and> j_attemptsMade j = 0 \<and>
          (\<forall>a. jo_attempts opts = Some a \<longrightarrow> jo_attempts (j_opts j) = Some a)"
    and add_error: "bqAdd B n d opts q = (Inl e, q') \<Longrightarrow> jobs q' = jobs q"
    and clean_jobs: "bqClean B s q = (cleaned, q') \<Longrightarrow>
          jobs q' = filter (\<lambda>j. j_state j \<noteq> s) (jobs q) \<and> mset cleaned = mset (map j_id (filter (\<lambda>j. j_state j = s) (jobs q)))"
    and counts_jobs: "bqCounts B s q = length (filter (\<lambda>j. j_state j = s) (jobs q))"
    and progress_jobs: "jobs (bqProgress B i p q) = map (\<lambda>j. if j_id j = i then j\<lparr>j_progress := JNum p\<rparr> else j) (jobs q)"

text \<open>\<^verbatim>\<open>LRANGE\<close>: both ends are included, and a negative index counts from the end.\<close>

definition listRange :: "int \<Rightarrow> int \<Rightarrow> 'v list \<Rightarrow> 'v list" where
  "listRange start stop xs =
     (let n = int (length xs);
          first = (if start < 0 then max 0 (n + start) else start);
          final = (if stop < 0 then n + stop else stop)
      in if final < first then [] else take (nat (final - first + 1)) (drop (nat first) xs))"

record ('r, 'v) redisList =
  rlRange :: "string \<Rightarrow> int \<Rightarrow> int \<Rightarrow> 'r \<Rightarrow> 'v list"
  rlTrim :: "string \<Rightarrow> int \<Rightarrow> int \<Rightarrow> 'r \<Rightarrow> 'r"
  rlPush :: "string \<Rightarrow> 'v \<Rightarrow> 'r \<Rightarrow> 'r"

locale redis_lists =
  fixes L :: "('r, 'v) redisList" and items :: "'r \<Rightarrow> string \<Rightarrow> 'v list"
  assumes range_items: "rlRange L k a b r = listRange a b (items r k)"
    and trim_items: "items (rlTrim L k a b r) = (items r)(k := listRange a b (items r k))"
    and push_items: "items (rlPush L k v r) = (items r)(k := items r k @ [v])"

section \<open>Queue service\<close>

record DlqEntry =
  dq_id :: string
  dq_name :: string
  dq_data :: json
  dq_error :: string
  dq_attempts :: nat
  dq_maxAttempts :: nat
  dq_failedAt :: string

datatype dlqItem = Entry DlqEntry | Garbage string

record ('q, 'r) queueEnv =
  qe_bull :: "'q bull"
  qe_lists :: "('r, dlqItem) redisList"

record ('q, 'r) queueState =
  qs_deployContract :: 'q
  qs_processTts :: 'q
  qs_indexMarketNews :: 'q
  qs_redis :: 'r

definition dlqKey :: "string \<Rightarrow> string" where
  "dlqKey queueName = ''queue:dlq:'' @ queueName"

definition getQueueByName :: "string \<Rightarrow> ('q, 'r) queueState \<Rightarrow> js_error + 'q" where
  "getQueueByName queueName st =
     (if queueName = ''deploy-contract'' then Inr (qs_deployContract st)
      else if queueName = ''process-tts'' then Inr (qs_processTts st)
      else if queueName = ''index-market-news'' then Inr (qs_indexMarketNews st)
      else Inl (Error (''Unknown queue: '' @ queueName)))"

definition setQueue :: "string \<Rightarrow> 'q \<Rightarrow> ('q, 'r) queueState \<Rightarrow> ('q, 'r) queueState" where
  "setQueue queueName q st =
     (if queueName = ''deploy-contract'' then st\<lparr>qs_deployContract := q\<rparr>
      else if queueName = ''process-tts'' then st\<lparr>qs_processTts := q\<rparr>
      else if queueName = ''index-market-news'' then st\<lparr>qs_indexMarketNews := q\<rparr>
      else st)"

definition queueAdd :: "('q, 'r) queueEnv \<Rightarrow> string \<Rightarrow> string \<Rightarrow> json \<Rightarrow> JobOptions \<Rightarrow> (('q, 'r) queueState, Job) action" where
  "queueAdd env queueName jobName data options st =
     (case getQueueByName queueName st of
        Inl e \<Rightarrow> (Inl e, st)
      | Inr q \<Rightarrow> (case bqAdd (qe_bull env) jobName data options q of (res, q') \<Rightarrow> (res, setQueue queueName q' st)))"

text \<open>The options of the caller override the two that \<^verbatim>\<open>addJob\<close> sets.\<close>

definition addJob :: "('q, 'r) queueEnv \<Rightarrow> string \<Rightarrow> string \<Rightarrow> json \<Rightarrow> JobOptions \<Rightarrow> (('q, 'r) queueState, Job) action" where
  "addJob env queueName jobName data options st =
     queueAdd env queueName jobName data
       (options\<lparr>jo_removeOnComplete := (case jo_removeOnComplete options of None \<Rightarrow> Some False | x \<Rightarrow> x),
                jo_removeOnFail := (case jo_removeOnFail options of None \<Rightarrow> Some False | x \<Rightarrow> x)\<rparr>) st"

definition mapJobState :: "string \<Rightarrow> JobStatus" where
  "mapJobState state =
     (if state = ''pending'' then PENDING_JOB
      else if state = ''active'' then ACTIVE_JOB
      else if state = ''completed'' then COMPLETED_JOB
      else if state = ''failed'' then FAILED_JOB
      else if state = ''delayed'' then DELAYED_JOB
      else PENDING_JOB)"

definition dateOr :: "date option \<Rightarrow> date option" where
  "dateOr d = (if d = Some 0 then None else d)"

definition jobInfo :: "Job \<Rightarrow> JobInfo" where
  "jobInfo job =
     \<lparr>ji_id = j_id job, ji_name = j_name job, ji_status = mapJobState (j_state job),
      ji_progress = (case j_progress job of JNum p \<Rightarrow> p | _ \<Rightarrow> 0), ji_attempts = j_attemptsMade job,
      ji_maxAttempts = numOr (jo_attempts (j_opts job)) 1, ji_data = j_data job,
      ji_result = (case j_returnvalue job of Some v \<Rightarrow> if truthy v then Some \<lparr>jr_success = True, jr_data = v\<rparr> else None | None \<Rightarrow> None),
      ji_error = (if strTruthy (j_failedReason job) then j_failedReason job else None), ji_createdAt = j_timestamp job,
      ji_processedAt = dateOr (j_processedOn job), ji_completedAt = dateOr (j_finishedOn job)\<rparr>"

definition getJobInfo :: "('q, 'r) queueEnv \<Rightarrow> string \<Rightarrow> string \<Rightarrow> ('q, 'r) queueState \<Rightarrow> js_error + JobInfo option" where
  "getJobInfo env queueName jobId st =
     (case getQueueByName queueName st of
        Inl e \<Rightarrow> Inl e
      | Inr q \<Rightarrow> Inr (map_option jobInfo (bqGetJob (qe_bull env) jobId q)))"

definition defaultStatuses :: "string list" where
  "defaultStatuses = [''active'', ''completed'', ''failed'', ''delayed'']"

definition getQueueJobs :: "('q, 'r) queueEnv \<Rightarrow> string \<Rightarrow> string list option \<Rightarrow> ('q, 'r) queueState \<Rightarrow> js_error + JobInfo list" where
  "getQueueJobs env queueName statuses st =
     (case getQueueByName queueName st of
        Inl e \<Rightarrow> Inl e
      | Inr q \<Rightarrow> Inr (map jobInfo (concat (map (\<lambda>status. bqGetJobs (qe_bull env) status q)
                        (case statuses of None \<Rightarrow> defaultStatuses | Some s \<Rightarrow> s)))))"

definition getDeadLetterQueue :: "('q, 'r) queueEnv \<Rightarrow> string \<Rightarrow> int \<Rightarrow> ('q, 'r) queueState \<Rightarrow> dlqItem list" where
  "getDeadLetterQueue env queueName limit st = rlRange (qe_lists env) (dlqKey queueName) 0 (limit - 1) (qs_redis st)"

definition keptOptions :: "nat \<Rightarrow> json option \<Rightarrow> JobOptions" where
  "keptOptions attempts backoff =
     \<lparr>jo_attempts = Some attempts, jo_backoff = backoff, jo_removeOnComplete = Some False, jo_removeOnFail = Some False\<rparr>"

definition requeueJob :: "('q, 'r) queueEnv \<Rightarrow> string \<Rightarrow> string \<Rightarrow> (('q, 'r) queueState, Job) action" where
  "requeueJob env queueName jobId st =
     (case getQueueByName queueName st of
        Inl e \<Rightarrow> (Inl e, st)
      | Inr q \<Rightarrow>
          (case bqGetJob (qe_bull env) jobId q of
             None \<Rightarrow> (Inl (Error (''Job '' @ jobId @ '' not found in queue '' @ queueName)), st)
           | Some job \<Rightarrow>
               queueAdd env queueName (j_name job) (j_data job)
                 (keptOptions (numOr (jo_attempts (j_opts job)) 3) (jo_backoff (j_opts job))) st))"

fun requeueItems :: "('q, 'r) queueEnv \<Rightarrow> string \<Rightarrow> dlqItem list \<Rightarrow> ('q, 'r) queueState \<Rightarrow> Job list \<times> ('q, 'r) queueState" where
  "requeueItems env queueName [] st = ([], st)"
| "requeueItems env queueName (Garbage _ # items) st = requeueItems env queueName items st"
| "requeueItems env queueName (Entry e # items) st =
     (case queueAdd env queueName (dq_name e) (dq_data e) (keptOptions (numOr (Some (dq_maxAttempts e)) 3) None) st of
        (Inl _, st1) \<Rightarrow> requeueItems env queueName items st1
      | (Inr newJob, st1) \<Rightarrow> (case requeueItems env queueName items st1 of (js, st2) \<Rightarrow> (newJob # js, st2)))"

definition requeueFromDLQ :: "('q, 'r) queueEnv \<Rightarrow> string \<Rightarrow> int \<Rightarrow> ('q, 'r) queueState \<Rightarrow> Job list \<times> ('q, 'r) queueState" where
  "requeueFromDLQ env queueName limit st =
     (let dlqData = rlRange (qe_lists env) (dlqKey queueName) 0 (limit - 1) (qs_redis st)
      in case requeueItems env queueName dlqData st of
           (requeuedJobs, st1) \<Rightarrow>
             (requeuedJobs,
              if 0 < length requeuedJobs
              then st1\<lparr>qs_redis := rlTrim (qe_lists env) (dlqKey queueName) (int (length requeuedJobs)) (- 1) (qs_redis st1)\<rparr>
              else st1))"

definition purgeQueue :: "('q, 'r) queueEnv \<Rightarrow> string \<Rightarrow> (('q, 'r) queueState, nat) action" where
  "purgeQueue env queueName st =
     (case getQueueByName queueName st of
        Inl e \<Rightarrow> (Inl e, st)
      | Inr q \<Rightarrow> (case bqClean (qe_bull env) ''failed'' q of (cleaned, q') \<Rightarrow> (Inr (length cleaned), setQueue queueName q' st)))"

record queueStats =
  st_active :: nat
  st_completed :: nat
  st_failed :: nat
  st_delayed :: nat
  st_waiting :: nat

definition getQueueStats :: "('q, 'r) queueEnv \<Rightarrow> string \<Rightarrow> ('q, 'r) queueState \<Rightarrow> js_error + queueStats" where
  "getQueueStats env queueName st =
     (case getQueueByName queueName st of
        Inl e \<Rightarrow> Inl e
      | Inr q \<Rightarrow>
          let counts = (\<lambda>s. bqCounts (qe_bull env) s q)
          in Inr \<lparr>st_active = counts ''active'', st_completed = counts ''completed'', st_failed = counts ''failed'',
                  st_delayed = counts ''delayed'', st_waiting = counts ''waiting''\<rparr>)"

definition updateJobProgress :: "('q, 'r) queueEnv \<Rightarrow> string \<Rightarrow> string \<Rightarrow> int \<Rightarrow> (('q, 'r) queueState, unit) action" where
  "updateJobProgress env queueName jobId progress st =
     (case getQueueByName queueName st of
        Inl e \<Rightarrow> (Inl e, st)
      | Inr q \<Rightarrow>
          (case bqGetJob (qe_bull env) jobId q of
             None \<Rightarrow> (Inl (Error (''Job '' @ jobId @ '' not found'')), st)
           | Some _ \<Rightarrow> (Inr (), setQueue queueName (bqProgress (qe_bull env) jobId progress q) st)))"

definition dlqEntry :: "Job \<Rightarrow> string \<Rightarrow> date \<Rightarrow> DlqEntry" where
  "dlqEntry job err now =
     \<lparr>dq_id = j_id job, dq_name = j_name job, dq_data = j_data job, dq_error = err, dq_attempts = j_attemptsMade job,
      dq_maxAttempts = numOr (jo_attempts (j_opts job)) 1, dq_failedAt = toISOString now\<rparr>"

definition handleJobFailure :: "('q, 'r) queueEnv \<Rightarrow> string \<Rightarrow> Job \<Rightarrow> string \<Rightarrow> date \<Rightarrow> ('q, 'r) queueState \<Rightarrow> ('q, 'r) queueState" where
  "handleJobFailure env queueName job err now st =
     (let maxAttempts = numOr (jo_attempts (j_opts job)) 1
      in if maxAttempts \<le> j_attemptsMade job
         then st\<lparr>qs_redis := rlPush (qe_lists env) (dlqKey queueName) (Entry (dlqEntry job err now)) (qs_redis st)\<rparr>
         else st)"

section \<open>Admin controller\<close>

definition validQueues :: "string list" where
  "validQueues = [''deploy-contract'', ''process-tts'', ''index-market-news'']"

definition invalidQueue :: js_error where
  "invalidQueue = BadRequestException (''Invalid queue name. Valid options: deploy-contract, process-tts, index-market-news'')"

fun sequence :: "(js_error + 'a) list \<Rightarrow> js_error + 'a list" where
  "sequence [] = Inr []"
| "sequence (Inl e # rest) = Inl e"
| "sequence (Inr a # rest) = (case sequence rest of Inl e \<Rightarrow> Inl e | Inr as \<Rightarrow> Inr (a # as))"

definition getAllQueueStats :: "('q, 'r) queueEnv \<Rightarrow> ('q, 'r) queueState \<Rightarrow> js_error + (string \<times> queueStats) list" where
  "getAllQueueStats env st =
     sequence (map (\<lambda>queue. case getQueueStats env queue st of Inl e \<Rightarrow> Inl e | Inr s \<Rightarrow> Inr (queue, s)) validQueues)"

definition queueStatsRoute :: "('q, 'r) queueEnv \<Rightarrow> string \<Rightarrow> ('q, 'r) queueState \<Rightarrow> js_error + queueStats" where
  "queueStatsRoute env queueName st = (if queueName \<notin> set validQueues then Inl invalidQueue else getQueueStats env queueName st)"

definition queueJobsRoute :: "('q, 'r) queueEnv \<Rightarrow> string \<Rightarrow> string option \<Rightarrow> ('q, 'r) queueState \<Rightarrow> js_error + (nat \<times> JobInfo list)" where
  "queueJobsRoute env queueName statusQuery st =
     (if queueName \<notin> set validQueues then Inl invalidQueue
      else case getQueueJobs env queueName (if strTruthy statusQuery then Some (splitOn (CHR '','') (the statusQuery)) else None) st of
             Inl e \<Rightarrow> Inl e
           | Inr js \<Rightarrow> Inr (length js, js))"

definition jobRoute :: "('q, 'r) queueEnv \<Rightarrow> string \<Rightarrow> string \<Rightarrow> ('q, 'r) queueState \<Rightarrow> js_error + JobInfo" where
  "jobRoute env queueName jobId st =
     (if queueName \<notin> set validQueues then Inl invalidQueue
      else case getJobInfo env queueName jobId st of
             Inl e \<Rightarrow> Inl e
           | Inr None \<Rightarrow> Inl (BadRequestException (''Job '' @ jobId @ '' not found in queue '' @ queueName))
           | Inr (Some job) \<Rightarrow> Inr job)"

definition dlqRoute :: "('q, 'r) queueEnv \<Rightarrow> string \<Rightarrow> int option \<Rightarrow> ('q, 'r) queueState \<Rightarrow> js_error + (nat \<times> dlqItem list)" where
  "dlqRoute env queueName limit st =
     (if queueName \<notin> set validQueues then Inl invalidQueue
      else let items = getDeadLetterQueue env queueName (case limit of None \<Rightarrow> 50 | Some n \<Rightarrow> n) st in Inr (length items, items))"

definition requeueJobRoute :: "('q, 'r) queueEnv \<Rightarrow> string \<Rightarrow> string \<Rightarrow> (('q, 'r) queueState, string \<times> string) action" where
  "requeueJobRoute env queueName jobId st =
     (if queueName \<notin> set validQueues then (Inl invalidQueue, st)
      else case requeueJob env queueName jobId st of
             (Inl e, st1) \<Rightarrow> (Inl (BadRequestException (message e)), st1)
           | (Inr requeuedJob, st1) \<Rightarrow> (Inr (jobId, j_id requeuedJob), st1))"

definition requeueDlqRoute :: "('q, 'r) queueEnv \<Rightarrow> string \<Rightarrow> int option \<Rightarrow> (('q, 'r) queueState, nat \<times> string list) action" where
  "requeueDlqRoute env queueName limit st =
     (if queueName \<notin> set validQueues then (Inl invalidQueue, st)
      else case requeueFromDLQ env queueName (case limit of None \<Rightarrow> 10 | Some n \<Rightarrow> n) st of
             (js, st1) \<Rightarrow> (Inr (length js, map j_id js), st1))"

definition purgeRoute :: "('q, 'r) queueEnv \<Rightarrow> string \<Rightarrow> (('q, 'r) queueState, nat) action" where
  "purgeRoute env queueName st = (if queueName \<notin> set validQueues then (Inl invalidQueue, st) else purgeQueue env queueName st)"

section \<open>A queue and lists in memory\<close>

definition memBull :: "Job list bull" where
  "memBull =
     \<lparr>bqAdd = (\<lambda>n d opts q.
        let j = \<lparr>j_id = concat (map j_id q) @ ''j'', j_name = n, j_data = d, j_opts = opts, j_attemptsMade = 0, j_progress = JNum 0,
                 j_returnvalue = None, j_failedReason = None, j_timestamp = 0, j_processedOn = None, j_finishedOn = None,
                 j_state = ''waiting''\<rparr>
        in (Inr j, q @ [j])),
      bqGetJob = (\<lambda>i q. find (\<lambda>j. j_id j = i) q),
      bqGetJobs = (\<lambda>s q. filter (\<lambda>j. j_state j = s) q),
      bqClean = (\<lambda>s q. (map j_id (filter (\<lambda>j. j_state j = s) q), filter (\<lambda>j. j_state j \<noteq> s) q)),
      bqCounts = (\<lambda>s q. length (filter (\<lambda>j. j_state j = s) q)),
      bqProgress = (\<lambda>i p q. map (\<lambda>j. if j_id j = i then j\<lparr>j_progress := JNum p\<rparr> else j) q)\<rparr>"

lemma concat_fresh: "concat xs @ ''j'' \<notin> set xs"
proof
  assume "concat xs @ ''j'' \<in> set xs"
  then have "length (concat xs @ ''j'') \<le> length (concat xs)" by (metis concat_append length_append le_add1 le_add2 split_list_first concat.simps(2) trans_le_add2)
  then show False by simp
qed

interpretation mbull: bull_queue memBull "\<lambda>q. q"
proof unfold_locales
  fix n d opts q j q'
  assume "bqAdd memBull n d opts q = (Inr j, q')"
  then show "q' = q @ [j] \<and> j_id j \<notin> j_id ` set q \<and> j_name j = n \<and> j_data j = d \<and> j_attemptsMade j = 0 \<and>
      (\<forall>a. jo_attempts opts = Some a \<longrightarrow> jo_attempts (j_opts j) = Some a)"
    using concat_fresh [of "map j_id q"] by (auto simp: memBull_def Let_def image_iff)
qed (auto simp: memBull_def Let_def)

definition memLists :: "(string \<Rightarrow> 'v list, 'v) redisList" where
  "memLists =
     \<lparr>rlRange = (\<lambda>k a b r. listRange a b (r k)),
      rlTrim = (\<lambda>k a b r. r(k := listRange a b (r k))),
      rlPush = (\<lambda>k v r. r(k := r k @ [v]))\<rparr>"

interpretation mlists: redis_lists memLists "\<lambda>r. r"
  by unfold_locales (simp_all add: memLists_def)

end
