(* ===== verification/Job_Queue_Props.thy ===== *)
theory Job_Queue_Props
  imports Job_Queue
begin

text \<open>
  Properties of the dead-letter lists: a job that fails for good is recorded once and comes back with its name, data and
  attempts, and what goes wrong when an element of the list cannot be requeued.
\<close>

section \<open>Ranges and queues\<close>

lemma listRange_first: "0 < limit \<Longrightarrow> listRange 0 (limit - 1) xs = take (nat limit) xs"
  by (simp add: listRange_def Let_def)

lemma listRange_rest: "listRange (int n) (- 1) xs = drop n xs"
  by (auto simp: listRange_def Let_def nat_diff_distrib)

lemma listRange_all: "listRange 0 (- 1) xs = xs"
  using listRange_rest [of 0 xs] by simp

lemma setQueue_simps [simp]:
  "name \<in> set validQueues \<Longrightarrow> getQueueByName name (setQueue name q st) = Inr q"
  "qs_redis (setQueue name q st) = qs_redis st"
  by (auto simp: validQueues_def getQueueByName_def setQueue_def)

lemma queue_known: "name \<in> set validQueues \<Longrightarrow> \<exists>q. getQueueByName name st = Inr q"
  by (auto simp: validQueues_def getQueueByName_def)

lemma getQueue_redis [simp]: "getQueueByName name (st\<lparr>qs_redis := r\<rparr>) = getQueueByName name st"
  by (simp add: getQueueByName_def)

text \<open>The jobs of a queue, and what a requeued job keeps.\<close>

definition jobsOf :: "('q \<Rightarrow> Job list) \<Rightarrow> string \<Rightarrow> ('q, 'r) queueState \<Rightarrow> Job list" where
  "jobsOf jobs name st = (case getQueueByName name st of Inl _ \<Rightarrow> [] | Inr q \<Rightarrow> jobs q)"

definition jobWork :: "Job \<Rightarrow> string \<times> json \<times> nat option" where
  "jobWork j = (j_name j, j_data j, jo_attempts (j_opts j))"

definition entryWork :: "DlqEntry \<Rightarrow> string \<times> json \<times> nat option" where
  "entryWork e = (dq_name e, dq_data e, Some (numOr (Some (dq_maxAttempts e)) 3))"

fun entries :: "dlqItem list \<Rightarrow> DlqEntry list" where
  "entries [] = []"
| "entries (Entry e # xs) = e # entries xs"
| "entries (Garbage s # xs) = entries xs"

lemma entries_map [simp]: "entries (map Entry es) = es"
  by (induction es) simp_all

text \<open>A queue that takes every job.\<close>

definition accepting :: "'q bull \<Rightarrow> bool" where
  "accepting B \<longleftrightarrow> (\<forall>n d opts q. \<exists>j q'. bqAdd B n d opts q = (Inr j, q'))"

locale job_service = bull_queue B jobs + redis_lists L items
  for B :: "'q bull" and jobs and L :: "('r, dlqItem) redisList" and items
begin

lemma queueAdd_accepts:
  assumes "qe_bull env = B" and "accepting B" and "name \<in> set validQueues"
  obtains j st' where "queueAdd env name n d (keptOptions a b) st = (Inr j, st')" and "jobWork j = (n, d, Some a)"
    and "jobsOf jobs name st' = jobsOf jobs name st @ [j]" and "qs_redis st' = qs_redis st"
proof -
  obtain q where q: "getQueueByName name st = Inr q" using queue_known [OF assms(3), of st] by (elim exE)
  obtain j q' where j: "bqAdd B n d (keptOptions a b) q = (Inr j, q')" using assms(2) unfolding accepting_def by metis
  show thesis
  proof (rule that)
    show "queueAdd env name n d (keptOptions a b) st = (Inr j, setQueue name q' st)" using q j assms(1) by (simp add: queueAdd_def)
    have "jo_attempts (keptOptions a b) = Some a" by (simp add: keptOptions_def)
    then show "jobWork j = (n, d, Some a)" using add_job [OF j] unfolding jobWork_def by blast
    show "jobsOf jobs name (setQueue name q' st) = jobsOf jobs name st @ [j]"
      using add_job [OF j] q assms(3) by (simp add: jobsOf_def)
  qed simp
qed

lemma requeueItems_all:
  assumes "qe_bull env = B" and "accepting B" and "name \<in> set validQueues"
  shows "\<exists>js st'. requeueItems env name xs st = (js, st') \<and> map jobWork js = map entryWork (entries xs) \<and>
    jobsOf jobs name st' = jobsOf jobs name st @ js \<and> qs_redis st' = qs_redis st"
proof (induction xs arbitrary: st)
  case (Cons x xs)
  show ?case
  proof (cases x)
    case (Entry e)
    obtain j st1 where a: "queueAdd env name (dq_name e) (dq_data e) (keptOptions (numOr (Some (dq_maxAttempts e)) 3) None) st = (Inr j, st1)"
      "jobWork j = (dq_name e, dq_data e, Some (numOr (Some (dq_maxAttempts e)) 3))"
      "jobsOf jobs name st1 = jobsOf jobs name st @ [j]" "qs_redis st1 = qs_redis st"
      by (rule queueAdd_accepts [OF assms])
    obtain js st2 where r: "requeueItems env name xs st1 = (js, st2)" "map jobWork js = map entryWork (entries xs)"
      "jobsOf jobs name st2 = jobsOf jobs name st1 @ js" "qs_redis st2 = qs_redis st1"
      using Cons.IH by blast
    show ?thesis using a r Entry by (simp add: entryWork_def)
  next
    case (Garbage s)
    with Cons.IH [of st] show ?thesis by simp
  qed
qed simp

lemma requeue_outcome:
  assumes "qe_bull env = B" and "qe_lists env = L" and "accepting B" and "name \<in> set validQueues" and "0 < limit"
    and "requeueFromDLQ env name limit st = (js, st')"
  shows "map jobWork js = map entryWork (entries (take (nat limit) (items (qs_redis st) (dlqKey name))))"
    and "jobsOf jobs name st' = jobsOf jobs name st @ js"
    and "items (qs_redis st') (dlqKey name) = drop (length js) (items (qs_redis st) (dlqKey name))"
proof -
  let ?xs = "take (nat limit) (items (qs_redis st) (dlqKey name))"
  have range: "rlRange (qe_lists env) (dlqKey name) 0 (limit - 1) (qs_redis st) = ?xs"
    by (simp add: assms(2) range_items listRange_first [OF assms(5)])
  obtain js1 st1 where r: "requeueItems env name ?xs st = (js1, st1)" "map jobWork js1 = map entryWork (entries ?xs)"
    "jobsOf jobs name st1 = jobsOf jobs name st @ js1" "qs_redis st1 = qs_redis st"
    using requeueItems_all [OF assms(1,3,4)] by blast
  have js: "js = js1" using assms(6) r(1) by (simp add: requeueFromDLQ_def range)
  then show "map jobWork js = map entryWork (entries ?xs)" using r(2) by simp
  show "jobsOf jobs name st' = jobsOf jobs name st @ js"
    using assms(6) r(1,3) js by (auto simp: requeueFromDLQ_def range jobsOf_def split: if_splits)
  show "items (qs_redis st') (dlqKey name) = drop (length js) (items (qs_redis st) (dlqKey name))"
    using assms(6) r(1,4) js by (auto simp: requeueFromDLQ_def range [unfolded assms(2)] assms(2) trim_items listRange_rest split: if_splits)
qed

text \<open>Every failure but the last leaves the dead-letter list alone.\<close>

lemma failures_once:
  assumes "qe_lists env = L" and "n \<le> numOr (jo_attempts (j_opts job)) 1"
  shows "fold (\<lambda>i. handleJobFailure env name (job\<lparr>j_attemptsMade := i\<rparr>) err (atTime i)) [1..<Suc n] st =
    (if n = numOr (jo_attempts (j_opts job)) 1
     then st\<lparr>qs_redis := rlPush L (dlqKey name) (Entry (dlqEntry (job\<lparr>j_attemptsMade := n\<rparr>) err (atTime n))) (qs_redis st)\<rparr> else st)"
  using assms(2)
proof (induction n)
  case 0
  then show ?case using numOr_pos [of 1 "jo_attempts (j_opts job)"] by simp
next
  case (Suc n)
  then show ?case by (simp add: handleJobFailure_def assms(1))
qed

end

interpretation mjobs: job_service memBull "\<lambda>q. q" memLists "\<lambda>r. r"
  by unfold_locales

section \<open>Properties\<close>

text \<open>
  C34. The dead-letter list loses nothing. A job all of whose attempts fail is put on the list of its queue once, after the
  last attempt; requeueing from the list gives the queue exactly one new job, with the name, the data and the
  number of attempts of the failed one, and leaves the list as it was before.
\<close>

theorem dlq_roundtrip:
  assumes "bull_queue B jobs" and "redis_lists L items" and "qe_bull env = B" and "qe_lists env = L" and "accepting B"
    and "name \<in> set validQueues" and "items (qs_redis st) (dlqKey name) = []"
    and "attempts = numOr (jo_attempts (j_opts job)) 1"
    and "st1 = fold (\<lambda>i. handleJobFailure env name (job\<lparr>j_attemptsMade := i\<rparr>) err (atTime i)) [1..<Suc attempts] st"
    and "0 < limit" and "requeueFromDLQ env name limit st1 = (js, st2)"
  shows "items (qs_redis st1) (dlqKey name) = [Entry (dlqEntry (job\<lparr>j_attemptsMade := attempts\<rparr>) err (atTime attempts))] \<and>
    map jobWork js = [(j_name job, j_data job, Some attempts)] \<and>
    jobsOf jobs name st2 = jobsOf jobs name st @ js \<and> items (qs_redis st2) (dlqKey name) = []"
proof -
  have loc: "job_service B jobs L items" using assms(1,2) by (simp add: job_service_def)
  let ?e = "dlqEntry (job\<lparr>j_attemptsMade := attempts\<rparr>) err (atTime attempts)"
  have st1: "st1 = st\<lparr>qs_redis := rlPush L (dlqKey name) (Entry ?e) (qs_redis st)\<rparr>"
    using job_service.failures_once [OF loc assms(4) order_refl, where job = job and name = name and err = err and atTime = atTime and st = st] by (simp add: assms(8,9))
  then have list: "items (qs_redis st1) (dlqKey name) = [Entry ?e]"
    by (simp add: redis_lists.push_items [OF assms(2)] assms(7))
  note r = job_service.requeue_outcome [OF loc assms(3,4,5,6,10,11), unfolded list]
  have "0 < attempts" using numOr_pos [of 1 "jo_attempts (j_opts job)"] assms(8) by simp
  then have "numOr (Some attempts) 3 = attempts" by (simp add: numOr_def)
  then have work: "map jobWork js = [(j_name job, j_data job, Some attempts)]"
    using r(1) assms(10) by (simp add: dlqEntry_def entryWork_def assms(8))
  then have "length js = 1" by (auto simp: map_eq_Cons_conv)
  moreover have "jobsOf jobs name st1 = jobsOf jobs name st" by (simp add: st1 jobsOf_def)
  ultimately show ?thesis using list r(2,3) work by simp
qed

definition sampleJob :: Job where
  "sampleJob = \<lparr>j_id = ''7'', j_name = ''deploy'', j_data = JObj [(''contractName'', JStr ''token'')],
     j_opts = \<lparr>jo_attempts = Some 3, jo_backoff = None, jo_removeOnComplete = None, jo_removeOnFail = None\<rparr>,
     j_attemptsMade = 0, j_progress = JNum 10, j_returnvalue = None, j_failedReason = None, j_timestamp = 0,
     j_processedOn = None, j_finishedOn = None, j_state = ''active''\<rparr>"

definition memJobEnv :: "(Job list, string \<Rightarrow> dlqItem list) queueEnv" where
  "memJobEnv = \<lparr>qe_bull = memBull, qe_lists = memLists\<rparr>"

definition emptyQueues :: "(Job list, string \<Rightarrow> dlqItem list) queueState" where
  "emptyQueues = \<lparr>qs_deployContract = [], qs_processTts = [], qs_indexMarketNews = [], qs_redis = (\<lambda>_. [])\<rparr>"

lemma memJobEnv_simps: "qe_bull memJobEnv = memBull" "qe_lists memJobEnv = memLists"
  by (simp_all add: memJobEnv_def)

lemma memBull_accepting: "accepting memBull"
  by (simp add: accepting_def memBull_def Let_def)

theorem dlq_roundtrip_witness:
  "\<exists>js st2. requeueFromDLQ memJobEnv ''deploy-contract'' 10
       (fold (\<lambda>i. handleJobFailure memJobEnv ''deploy-contract'' (sampleJob\<lparr>j_attemptsMade := i\<rparr>) ''boom'' (1000 * int i)) [1..<Suc 3] emptyQueues) =
     (js, st2) \<and> map jobWork js = [(''deploy'', JObj [(''contractName'', JStr ''token'')], Some 3)]"
proof -
  let ?st1 = "fold (\<lambda>i. handleJobFailure memJobEnv ''deploy-contract'' (sampleJob\<lparr>j_attemptsMade := i\<rparr>) ''boom'' (1000 * int i)) [1..<Suc 3] emptyQueues"
  obtain js st2 where r: "requeueFromDLQ memJobEnv ''deploy-contract'' 10 ?st1 = (js, st2)"
    by (cases "requeueFromDLQ memJobEnv ''deploy-contract'' 10 ?st1")
  have h: "''deploy-contract'' \<in> set validQueues" "qs_redis emptyQueues (dlqKey ''deploy-contract'') = []"
    "3 = numOr (jo_attempts (j_opts sampleJob)) 1" "(0 :: int) < 10"
    by (simp_all add: validQueues_def emptyQueues_def sampleJob_def numOr_def)
  from dlq_roundtrip [OF mbull.bull_queue_axioms mlists.redis_lists_axioms memJobEnv_simps memBull_accepting h(1,2,3) refl h(4) r] r
  show ?thesis by (auto simp: sampleJob_def)
qed

text \<open>
  One element that cannot be requeued makes the list forget it and repeat another. The list is cut by the number of
  jobs requeued, counted from its head: when the first element is no JSON and the second is, the first is dropped although it
  was not requeued and the second stays although it was, so that the next call queues its work a second time.
\<close>

theorem dlq_requeue_repeats:
  assumes "bull_queue B jobs" and "redis_lists L items" and "qe_bull env = B" and "qe_lists env = L" and "accepting B"
    and "name \<in> set validQueues" and "items (qs_redis st) (dlqKey name) = Garbage s # Entry e # rest"
    and "requeueFromDLQ env name 2 st = (js, st1)" and "requeueFromDLQ env name 1 st1 = (js', st2)"
  shows "items (qs_redis st1) (dlqKey name) = Entry e # rest \<and> items (qs_redis st2) (dlqKey name) = rest \<and>
    map jobWork (jobsOf jobs name st2) = map jobWork (jobsOf jobs name st) @ [entryWork e, entryWork e]"
proof -
  have loc: "job_service B jobs L items" using assms(1,2) by (simp add: job_service_def)
  note r1 = job_service.requeue_outcome [OF loc assms(3-6) _ assms(8)]
  have w1: "map jobWork js = [entryWork e]" using r1(1) by (simp add: assms(7) numeral_2_eq_2)
  then have "length js = 1" by (auto simp: map_eq_Cons_conv)
  then have i1: "items (qs_redis st1) (dlqKey name) = Entry e # rest" using r1(3) by (simp add: assms(7))
  note r2 = job_service.requeue_outcome [OF loc assms(3-6) _ assms(9)]
  have w2: "map jobWork js' = [entryWork e]" using r2(1) by (simp add: i1)
  then have "length js' = 1" by (auto simp: map_eq_Cons_conv)
  then show ?thesis using i1 r1(2) r2(2,3) w1 w2 by simp
qed

theorem dlq_requeue_repeats_witness:
  "\<exists>js st1 js' st2. requeueFromDLQ memJobEnv ''process-tts'' 2
       (emptyQueues\<lparr>qs_redis := (\<lambda>_. [])(dlqKey ''process-tts'' := [Garbage ''broken'', Entry (dlqEntry sampleJob ''boom'' 0)])\<rparr>) = (js, st1) \<and>
     requeueFromDLQ memJobEnv ''process-tts'' 1 st1 = (js', st2) \<and>
     map jobWork (qs_processTts st2) = [entryWork (dlqEntry sampleJob ''boom'' 0), entryWork (dlqEntry sampleJob ''boom'' 0)]"
proof -
  let ?e = "dlqEntry sampleJob ''boom'' 0"
  let ?st = "emptyQueues\<lparr>qs_redis := (\<lambda>_. [])(dlqKey ''process-tts'' := [Garbage ''broken'', Entry ?e])\<rparr>"
  obtain js st1 where r1: "requeueFromDLQ memJobEnv ''process-tts'' 2 ?st = (js, st1)"
    by (cases "requeueFromDLQ memJobEnv ''process-tts'' 2 ?st")
  obtain js' st2 where r2: "requeueFromDLQ memJobEnv ''process-tts'' 1 st1 = (js', st2)"
    by (cases "requeueFromDLQ memJobEnv ''process-tts'' 1 st1")
  have h: "''process-tts'' \<in> set validQueues" "qs_redis ?st (dlqKey ''process-tts'') = Garbage ''broken'' # Entry ?e # []"
    by (simp_all add: validQueues_def)
  have "jobsOf (\<lambda>q. q) ''process-tts'' ?st = []" "jobsOf (\<lambda>q. q) ''process-tts'' st2 = qs_processTts st2"
    by (simp_all add: jobsOf_def getQueueByName_def emptyQueues_def)
  with dlq_requeue_repeats [OF mbull.bull_queue_axioms mlists.redis_lists_axioms memJobEnv_simps memBull_accepting h r1 r2]
  have "map jobWork (qs_processTts st2) = [entryWork ?e, entryWork ?e]" by simp
  with r1 r2 show ?thesis by (intro exI conjI)
qed

text \<open>A limit of zero asks for the whole list, since \<^verbatim>\<open>limit - 1\<close> is then its last element.\<close>

lemma dlq_limit_zero:
  assumes "redis_lists L items" and "qe_lists env = L"
  shows "getDeadLetterQueue env name 0 st = items (qs_redis st) (dlqKey name)"
  using listRange_all by (simp add: getDeadLetterQueue_def assms(2) redis_lists.range_items [OF assms(1)])

end
