(* ===== verification/Job_Processors.thy ===== *)
theory Job_Processors
  imports Job_Queue
begin

text \<open>
  The processors of the three job queues (\<^verbatim>\<open>queue/processors/\<close>): deployment of a contract, speech synthesis and the
  indexing of news, with the simulated work that the code does. The state is the list of progress values that a
  processor has reported. The digits of \<^verbatim>\<open>Math.random\<close> and the dates it is used for are arguments.
\<close>

definition report :: "nat \<Rightarrow> nat list \<Rightarrow> nat list" where
  "report p progress = progress @ [p]"

section \<open>Deployment\<close>

record DeployContractData =
  dc_contractName :: "string option"
  dc_contractCode :: "string option"
  dc_network :: "string option"
  dc_initializer :: "string option"

record DeployResult =
  dr_contractAddress :: string
  dr_transactionHash :: string
  dr_network :: string
  dr_contractName :: string
  dr_deployedAt :: string

text \<open>\<^verbatim>\<open>Buffer.from(s).toString('base64')\<close> over the UTF-8 bytes of the text.\<close>

definition base64Char :: "nat \<Rightarrow> char" where
  "base64Char n =
     (if n < 26 then char_of (65 + n) else if n < 52 then char_of (71 + n) else if n < 62 then char_of (n - 4)
      else if n = 62 then CHR ''+'' else CHR ''/'')"

fun base64 :: "nat list \<Rightarrow> string" where
  "base64 [] = []"
| "base64 [a] = [base64Char (a div 4), base64Char (a mod 4 * 16), CHR ''='', CHR ''='']"
| "base64 [a, b] = [base64Char (a div 4), base64Char (a mod 4 * 16 + b div 16), base64Char (b mod 16 * 4), CHR ''='']"
| "base64 (a # b # c # rest) =
     base64Char (a div 4) # base64Char (a mod 4 * 16 + b div 16) # base64Char (b mod 16 * 4 + c div 64) #
     base64Char (c mod 64) # base64 rest"

definition compileContract :: "string \<Rightarrow> string + string" where
  "compileContract contractCode = (if length contractCode = 0 then Inl ''Empty contract code'' else Inr (base64 (utf8 contractCode)))"

definition padEnd :: "nat \<Rightarrow> string \<Rightarrow> string" where
  "padEnd n s = s @ replicate (n - length s) (CHR ''0'')"

text \<open>The address and the transaction hash; the bytecode, the network and the initializer are not used.\<close>

definition deployToNetwork :: "string \<Rightarrow> string \<Rightarrow> string \<times> string" where
  "deployToNetwork random1 random2 = (''0x'' @ padEnd 40 random1, ''0x'' @ padEnd 64 random2)"

definition handleDeployContract :: "string \<Rightarrow> string \<Rightarrow> date \<Rightarrow> DeployContractData \<Rightarrow> (nat list, DeployResult) action" where
  "handleDeployContract random1 random2 now data progress =
     (if \<not> strTruthy (dc_contractName data) \<or> \<not> strTruthy (dc_contractCode data) \<or> \<not> strTruthy (dc_network data)
      then (Inl (Error ''Missing required fields: contractName, contractCode, network''), report 10 progress)
      else let p30 = report 30 (report 10 progress)
           in case compileContract (the (dc_contractCode data)) of
                Inl e \<Rightarrow> (Inl (Error (''Compilation failed: '' @ e)), p30)
              | Inr bytecode \<Rightarrow>
                  case deployToNetwork random1 random2 of (contractAddress, transactionHash) \<Rightarrow>
                    (Inr \<lparr>dr_contractAddress = contractAddress, dr_transactionHash = transactionHash,
                          dr_network = the (dc_network data), dr_contractName = the (dc_contractName data),
                          dr_deployedAt = toISOString now\<rparr>, report 100 (report 90 (report 50 p30))))"

section \<open>Speech\<close>

record ProcessTtsData =
  pt_text :: "string option"
  pt_voiceId :: "string option"
  pt_language :: "string option"
  pt_speed :: "rat option"
  pt_sessionId :: "string option"

record TtsResult =
  tr_audioUrl :: string
  tr_duration :: rat
  tr_voiceId :: string
  tr_language :: string
  tr_speed :: rat
  tr_sessionId :: "string option"
  tr_processedAt :: string

text \<open>\<^verbatim>\<open>replace(/\s+/g, ' ')\<close>\<close>

fun collapseSpaces :: "string \<Rightarrow> string" where
  "collapseSpaces [] = []"
| "collapseSpaces (c # cs) =
     (if isSpace c then (case cs of [] \<Rightarrow> '' '' | d # _ \<Rightarrow> if isSpace d then collapseSpaces cs else CHR '' '' # collapseSpaces cs)
      else c # collapseSpaces cs)"

definition wordChar :: "char \<Rightarrow> bool" where
  "wordChar c \<longleftrightarrow> (let n = (of_char c :: nat) in (48 \<le> n \<and> n \<le> 57) \<or> (65 \<le> n \<and> n \<le> 90) \<or> n = 95 \<or> (97 \<le> n \<and> n \<le> 122))"

definition preprocessText :: "string \<Rightarrow> string" where
  "preprocessText txt' =
     filter (\<lambda>c. wordChar c \<or> isSpace c \<or> c \<in> set ''.,!?-'') (collapseSpaces (trim txt'))"

text \<open>The lengths of the two buffers; \<^verbatim>\<open>Math.round\<close> rounds halves up.\<close>

definition synthesizeAudio :: "string \<Rightarrow> nat" where
  "synthesizeAudio txt' = length (splitOn (CHR '' '') txt') * 100 * 48000 div 1000"

definition encodeAudio :: "nat \<Rightarrow> nat" where
  "encodeAudio audioLength = (3 * audioLength + 5) div 10"

text \<open>The length of the text is logged first, which throws when there is no text.\<close>

definition handleProcessTts :: "string \<Rightarrow> date \<Rightarrow> ProcessTtsData \<Rightarrow> (nat list, TtsResult) action" where
  "handleProcessTts jobId now data progress =
     (case pt_text data of
        None \<Rightarrow> (Inl (Error ''TypeError''), progress)
      | Some t \<Rightarrow>
          if t = [] \<or> \<not> strTruthy (pt_voiceId data)
          then (Inl (Error ''Missing required fields: text, voiceId''), report 10 progress)
          else if 5000 < length t then (Inl (Error ''Text exceeds maximum length of 5000 characters''), report 10 progress)
          else let audioLength = synthesizeAudio (preprocessText t)
               in (Inr \<lparr>tr_audioUrl = ''/audio/'' @ jobId @ ''.mp3'', tr_duration = of_nat audioLength / 48000,
                        tr_voiceId = the (pt_voiceId data),
                        tr_language = (case pt_language data of None \<Rightarrow> ''en'' | Some l \<Rightarrow> l),
                        tr_speed = (case pt_speed data of None \<Rightarrow> 1 | Some s \<Rightarrow> s),
                        tr_sessionId = pt_sessionId data, tr_processedAt = toISOString now\<rparr>,
                   report 100 (report 80 (report 50 (report 30 (report 10 progress))))))"

section \<open>News\<close>

record IndexMarketNewsData =
  in_source :: "string option"
  in_limit :: "nat option"

record NewsItem =
  ni_id :: string
  ni_title :: string
  ni_content :: string
  ni_source :: string
  ni_publishedAt :: string
  ni_tags :: "string list"

record IndexResult =
  ir_source :: string
  ir_indexedCount :: nat
  ir_failedCount :: nat
  ir_lastIndexedAt :: string
  ir_itemsProcessed :: nat

text \<open>\<open>published i\<close> is the random time in the last day that item \<open>i\<close> gets.\<close>

definition fetchNewsItems :: "date \<Rightarrow> (nat \<Rightarrow> date) \<Rightarrow> string \<Rightarrow> nat option \<Rightarrow> NewsItem list" where
  "fetchNewsItems now published source limit =
     map (\<lambda>i. \<lparr>ni_id = ''news-'' @ showInt now @ ''-'' @ showNat i, ni_title = ''Market News '' @ showNat (i + 1) @ '' from '' @ source,
               ni_content = ''This is a sample news article about market trends and opportunities from '' @ source @ ''.'',
               ni_source = source, ni_publishedAt = toISOString (published i),
               ni_tags = [''market'', ''crypto'', toLowerCase source]\<rparr>) [0..<numOr limit 10]"

definition enrichNews :: "NewsItem list \<Rightarrow> NewsItem list" where
  "enrichNews newsItems = map (\<lambda>item. item\<lparr>ni_tags := ni_tags item @ [''enriched'', ''indexed'']\<rparr>) newsItems"

definition indexNews :: "NewsItem list \<Rightarrow> nat \<times> nat" where
  "indexNews newsItems = (let failedCount = length newsItems * 5 div 100 in (length newsItems - failedCount, failedCount))"

definition handleIndexMarketNews :: "date \<Rightarrow> (nat \<Rightarrow> date) \<Rightarrow> date \<Rightarrow> IndexMarketNewsData \<Rightarrow> (nat list, IndexResult) action" where
  "handleIndexMarketNews now published later data progress =
     (if \<not> strTruthy (in_source data) then (Inl (Error ''Missing required field: source''), report 10 progress)
      else let enrichedNews = enrichNews (fetchNewsItems now published (the (in_source data))
                                (Some (case in_limit data of None \<Rightarrow> 100 | Some n \<Rightarrow> n)))
           in case indexNews enrichedNews of (indexedCount, failedCount) \<Rightarrow>
                (Inr \<lparr>ir_source = the (in_source data), ir_indexedCount = indexedCount, ir_failedCount = failedCount,
                      ir_lastIndexedAt = toISOString later, ir_itemsProcessed = length enrichedNews\<rparr>,
                 report 100 (report 75 (report 50 (report 20 (report 10 progress))))))"

section \<open>Behaviour\<close>

text \<open>Every processor reports an increasing progress, and 100 exactly when it returns.\<close>

lemma processors_progress:
  shows "\<exists>ps. snd (handleDeployContract x y now d []) = ps \<and> sorted ps \<and>
      (100 \<in> set ps \<longleftrightarrow> (\<exists>res. fst (handleDeployContract x y now d []) = Inr res))"
    and "\<exists>ps. snd (handleProcessTts i now t []) = ps \<and> sorted ps \<and>
      (100 \<in> set ps \<longleftrightarrow> (\<exists>res. fst (handleProcessTts i now t []) = Inr res))"
    and "\<exists>ps. snd (handleIndexMarketNews now p later n []) = ps \<and> sorted ps \<and>
      (100 \<in> set ps \<longleftrightarrow> (\<exists>res. fst (handleIndexMarketNews now p later n []) = Inr res))"
  by (simp_all add: handleDeployContract_def handleProcessTts_def handleIndexMarketNews_def deployToNetwork_def indexNews_def report_def
      Let_def split: sum.split option.split)

text \<open>A spoken word lasts a tenth of a second, and every item of an index run is either indexed or failed.\<close>

lemma tts_duration:
  "handleProcessTts i now d progress = (Inr res, progress') \<Longrightarrow>
   tr_duration res = of_nat (length (splitOn (CHR '' '') (preprocessText (the (pt_text d))))) / 10"
  by (auto simp: handleProcessTts_def synthesizeAudio_def Let_def split: option.splits if_splits)

lemma index_counts:
  "handleIndexMarketNews now p later d progress = (Inr res, progress') \<Longrightarrow>
   ir_indexedCount res + ir_failedCount res = ir_itemsProcessed res \<and> 20 * ir_failedCount res \<le> ir_itemsProcessed res \<and>
   0 < ir_itemsProcessed res"
  using numOr_pos [of 10 "Some (case in_limit d of None \<Rightarrow> 100 | Some n \<Rightarrow> n)"]
  by (auto simp: handleIndexMarketNews_def indexNews_def enrichNews_def fetchNewsItems_def Let_def split: if_splits)

lemma compile_length: "compileContract code = Inr b \<Longrightarrow> 4 dvd length b"
proof -
  have "4 dvd length (base64 xs)" for xs by (induction xs rule: base64.induct) (simp_all, presburger+)
  then show "compileContract code = Inr b \<Longrightarrow> 4 dvd length b" by (auto simp: compileContract_def split: if_splits)
qed

end
