(* ===== verification/Voice_Jobs.thy ===== *)
theory Voice_Jobs
  imports Job_Queue Repository
begin

text \<open>
  Speech jobs (\<^verbatim>\<open>voice/services/voice.service.ts\<close>, \<^verbatim>\<open>voice.processor.ts\<close>, \<^verbatim>\<open>voice.controller.ts\<close>): a table of jobs, found
  again by the hash of their input, and a Bull queue whose processor works them off with retries. The table, Bull
  and SHA-256 are parameters, the file system is the list of files written and, for a spoken text, whether writing
  succeeds.
\<close>

datatype VoiceJobStatus = VPENDING | VPROCESSING | VCOMPLETED | VFAILED

datatype JobType = STT | TTS

record VoiceJob =
  vj_id :: string
  vj_type :: JobType
  vj_status :: VoiceJobStatus
  vj_audioUrl :: "string option"
  vj_audioHash :: "string option"
  vj_transcribedText :: "string option"
  vj_generatedAudioUrl :: "string option"
  vj_inputText :: "string option"
  vj_errorMessage :: "string option"
  vj_retryCount :: nat
  vj_maxRetries :: nat
  vj_createdAt :: date
  vj_updatedAt :: date

record ('t, 'q) voiceJobEnv =
  vje_repo :: "('t, VoiceJob) repo"
  vje_bull :: "'q bull"
  vje_sha256 :: "string \<Rightarrow> string"
  vje_cwd :: string

record ('t, 'q) voiceJobState =
  vjs_table :: 't
  vjs_queue :: 'q
  vjs_files :: "string list"

section \<open>Service\<close>

abbreviation findJob :: "('t, 'q) voiceJobEnv \<Rightarrow> string \<Rightarrow> ('t, 'q) voiceJobState \<Rightarrow> VoiceJob option" where
  "findJob env i st \<equiv> rGet (vje_repo env) vj_id i (vjs_table st)"

definition noJobOptions :: JobOptions where
  "noJobOptions = \<lparr>jo_attempts = None, jo_backoff = None, jo_removeOnComplete = None, jo_removeOnFail = None\<rparr>"

text \<open>\<^verbatim>\<open>voiceQueue.add(name, \{ jobId \})\<close> after the row is saved: a rejection leaves the row.\<close>

definition saveAndQueue :: "('t, 'q) voiceJobEnv \<Rightarrow> string \<Rightarrow> VoiceJob \<Rightarrow> (('t, 'q) voiceJobState, string) action" where
  "saveAndQueue env jobName job st =
     (let st1 = st\<lparr>vjs_table := rSave (vje_repo env) job (vjs_table st)\<rparr>
      in case bqAdd (vje_bull env) jobName (JObj [(''jobId'', JStr (vj_id job))]) noJobOptions (vjs_queue st1) of
           (Inl e, q) \<Rightarrow> (Inl e, st1\<lparr>vjs_queue := q\<rparr>)
         | (Inr _, q) \<Rightarrow> (Inr (vj_id job), st1\<lparr>vjs_queue := q\<rparr>))"

definition newVoiceJob :: "string \<Rightarrow> date \<Rightarrow> JobType \<Rightarrow> string \<Rightarrow> VoiceJob" where
  "newVoiceJob uuid now ty audioHash =
     \<lparr>vj_id = uuid, vj_type = ty, vj_status = VPENDING, vj_audioUrl = None, vj_audioHash = Some audioHash, vj_transcribedText = None,
      vj_generatedAudioUrl = None, vj_inputText = None, vj_errorMessage = None, vj_retryCount = 0, vj_maxRetries = 3,
      vj_createdAt = now, vj_updatedAt = now\<rparr>"

definition completedJob :: "('t, 'q) voiceJobEnv \<Rightarrow> string \<Rightarrow> JobType \<Rightarrow> ('t, 'q) voiceJobState \<Rightarrow> VoiceJob option" where
  "completedJob env audioHash ty st =
     rFindOne (vje_repo env) (\<lambda>j. vj_audioHash j = Some audioHash \<and> vj_type j = ty \<and> vj_status j = VCOMPLETED) (vjs_table st)"

definition processSTT :: "('t, 'q) voiceJobEnv \<Rightarrow> string \<Rightarrow> date \<Rightarrow> string \<Rightarrow> string \<Rightarrow> (('t, 'q) voiceJobState, string) action" where
  "processSTT env uuid now buffer originalname st =
     (let audioHash = vje_sha256 env buffer
      in case completedJob env audioHash STT st of
           Some existingJob \<Rightarrow> (Inr (vj_id existingJob), st)
         | None \<Rightarrow>
             let filePath = vje_cwd env @ ''/uploads/audio/'' @ showInt now @ ''-'' @ originalname
             in saveAndQueue env ''process-stt'' ((newVoiceJob uuid now STT audioHash)\<lparr>vj_audioUrl := Some filePath\<rparr>)
                  (st\<lparr>vjs_files := vjs_files st @ [filePath]\<rparr>))"

definition processTTS :: "('t, 'q) voiceJobEnv \<Rightarrow> string \<Rightarrow> date \<Rightarrow> string \<Rightarrow> (('t, 'q) voiceJobState, string) action" where
  "processTTS env uuid now txt' st =
     (let audioHash = vje_sha256 env txt'
      in case completedJob env audioHash TTS st of
           Some existingJob \<Rightarrow> (Inr (vj_id existingJob), st)
         | None \<Rightarrow> saveAndQueue env ''process-tts'' ((newVoiceJob uuid now TTS audioHash)\<lparr>vj_inputText := Some txt'\<rparr>) st)"

record jobStatusReply =
  js_id :: string
  js_type :: JobType
  js_status :: VoiceJobStatus
  js_text :: "string option"
  js_audioUrl :: "string option"
  js_resultAudioUrl :: "string option"
  js_errorMessage :: "string option"
  js_createdAt :: date
  js_updatedAt :: date

text \<open>\<^verbatim>\<open>job.inputText || job.transcribedText\<close>\<close>

definition jobText :: "VoiceJob \<Rightarrow> string option" where
  "jobText job = (if strTruthy (vj_inputText job) then vj_inputText job else vj_transcribedText job)"

definition getJobStatus :: "('t, 'q) voiceJobEnv \<Rightarrow> string \<Rightarrow> ('t, 'q) voiceJobState \<Rightarrow> js_error + jobStatusReply" where
  "getJobStatus env i st =
     (case findJob env i st of
        None \<Rightarrow> Inl (NotFoundException ''Job not found'')
      | Some job \<Rightarrow>
          Inr \<lparr>js_id = vj_id job, js_type = vj_type job, js_status = vj_status job, js_text = jobText job, js_audioUrl = vj_audioUrl job,
               js_resultAudioUrl = vj_generatedAudioUrl job, js_errorMessage = vj_errorMessage job,
               js_createdAt = vj_createdAt job, js_updatedAt = vj_updatedAt job\<rparr>)"

datatype jobResultReply =
    NotCompleted VoiceJobStatus
  | Completed JobType "string option" "string option"

definition getJobResult :: "('t, 'q) voiceJobEnv \<Rightarrow> string \<Rightarrow> ('t, 'q) voiceJobState \<Rightarrow> js_error + jobResultReply" where
  "getJobResult env i st =
     (case findJob env i st of
        None \<Rightarrow> Inl (NotFoundException ''Job not found'')
      | Some job \<Rightarrow>
          if vj_status job \<noteq> VCOMPLETED then Inr (NotCompleted (vj_status job))
          else Inr (Completed (vj_type job) (jobText job) (vj_generatedAudioUrl job)))"

definition updateJobStatus ::
    "('t, 'q) voiceJobEnv \<Rightarrow> date \<Rightarrow> string \<Rightarrow> VoiceJobStatus \<Rightarrow> (VoiceJob \<Rightarrow> VoiceJob) \<Rightarrow> ('t, 'q) voiceJobState \<Rightarrow> ('t, 'q) voiceJobState" where
  "updateJobStatus env now i status updates st =
     st\<lparr>vjs_table := rUpdate (vje_repo env) (\<lambda>j. vj_id j = i) (\<lambda>j. updates (j\<lparr>vj_status := status, vj_updatedAt := now\<rparr>)) (vjs_table st)\<rparr>"

definition incrementRetry :: "('t, 'q) voiceJobEnv \<Rightarrow> date \<Rightarrow> string \<Rightarrow> ('t, 'q) voiceJobState \<Rightarrow> bool \<times> ('t, 'q) voiceJobState" where
  "incrementRetry env now i st =
     (case findJob env i st of
        None \<Rightarrow> (False, st)
      | Some job \<Rightarrow>
          let newRetryCount = vj_retryCount job + 1
          in (newRetryCount < vj_maxRetries job,
              st\<lparr>vjs_table := rUpdate (vje_repo env) (\<lambda>j. vj_id j = i)
                   (\<lambda>j. j\<lparr>vj_retryCount := newRetryCount, vj_updatedAt := now\<rparr>) (vjs_table st)\<rparr>))"

section \<open>Processor\<close>

text \<open>The \<^verbatim>\<open>catch\<close> clause of both handlers: a retry is left to Bull by throwing again.\<close>

definition failOrRetry :: "('t, 'q) voiceJobEnv \<Rightarrow> date \<Rightarrow> string \<Rightarrow> js_error \<Rightarrow> (('t, 'q) voiceJobState, unit) action" where
  "failOrRetry env now jobId error st =
     (case incrementRetry env now jobId st of
        (canRetry, st1) \<Rightarrow>
          if canRetry then (Inl error, updateJobStatus env now jobId VPENDING (\<lambda>j. j) st1)
          else (Inr (), updateJobStatus env now jobId VFAILED (\<lambda>j. j\<lparr>vj_errorMessage := Some (message error)\<rparr>) st1))"

definition transcribeAudio :: "string option \<Rightarrow> string" where
  "transcribeAudio audioPath = ''Transcribed text from audio''"

text \<open>\<open>written\<close> tells whether the directory and the file could be written.\<close>

definition generateSpeech :: "('t, 'q) voiceJobEnv \<Rightarrow> date \<Rightarrow> js_error + unit \<Rightarrow> (('t, 'q) voiceJobState, string) action" where
  "generateSpeech env now written st =
     (let filePath = vje_cwd env @ ''/uploads/tts/'' @ showInt now @ ''-speech.mp3''
      in case written of Inl e \<Rightarrow> (Inl e, st) | Inr _ \<Rightarrow> (Inr filePath, st\<lparr>vjs_files := vjs_files st @ [filePath]\<rparr>))"

definition handleSTT :: "('t, 'q) voiceJobEnv \<Rightarrow> date \<Rightarrow> string \<Rightarrow> (('t, 'q) voiceJobState, unit) action" where
  "handleSTT env now jobId st =
     (case findJob env jobId st of
        None \<Rightarrow> failOrRetry env now jobId (Error ''Job not found'') st
      | Some voiceJob \<Rightarrow>
          let st1 = updateJobStatus env now jobId VPROCESSING (\<lambda>j. j) st;
              transcribedText = transcribeAudio (vj_audioUrl voiceJob)
          in (Inr (), updateJobStatus env now jobId VCOMPLETED (\<lambda>j. j\<lparr>vj_transcribedText := Some transcribedText\<rparr>) st1))"

definition handleTTS :: "('t, 'q) voiceJobEnv \<Rightarrow> date \<Rightarrow> js_error + unit \<Rightarrow> string \<Rightarrow> (('t, 'q) voiceJobState, unit) action" where
  "handleTTS env now written jobId st =
     (case findJob env jobId st of
        None \<Rightarrow> failOrRetry env now jobId (Error ''Job not found'') st
      | Some voiceJob \<Rightarrow>
          let st1 = updateJobStatus env now jobId VPROCESSING (\<lambda>j. j) st
          in case generateSpeech env now written st1 of
               (Inl error, st2) \<Rightarrow> failOrRetry env now jobId error st2
             | (Inr audioPath, st2) \<Rightarrow>
                 (Inr (), updateJobStatus env now jobId VCOMPLETED (\<lambda>j. j\<lparr>vj_generatedAudioUrl := Some audioPath\<rparr>) st2))"

section \<open>Controller\<close>

definition uploadAudio ::
    "('t, 'q) voiceJobEnv \<Rightarrow> string \<Rightarrow> date \<Rightarrow> (string \<times> string) option \<Rightarrow> (('t, 'q) voiceJobState, string) action" where
  "uploadAudio env uuid now file st =
     (case file of
        None \<Rightarrow> (Inl (BadRequestException ''No audio file provided''), st)
      | Some (buffer, originalname) \<Rightarrow> processSTT env uuid now buffer originalname st)"

definition generateTTS :: "('t, 'q) voiceJobEnv \<Rightarrow> string \<Rightarrow> date \<Rightarrow> string \<Rightarrow> (('t, 'q) voiceJobState, string) action" where
  "generateTTS env uuid now txt' st = processTTS env uuid now txt' st"

section \<open>Lifecycle\<close>

context repository
begin

lemma get_update_id:
  assumes "\<And>r. key (f r) = key r" and "rGet R key i t = Some r"
  shows "rGet R key k (rUpdate R (\<lambda>j. key j = i) f t) = (if k = i then Some (f r) else rGet R key k t)"
proof -
  note gu = get_update [of f, OF assms(1)]
  show ?thesis
  proof (cases "k = i")
    case True
    with assms(2) get_key [OF assms(2)] show ?thesis by (simp add: gu)
  next
    case False
    show ?thesis
    proof (cases "rGet R key k t")
      case (Some r')
      with get_key [OF Some] False show ?thesis by (simp add: gu)
    qed (simp add: gu False)
  qed
qed

end

text \<open>Bull runs the handler again while it throws, as often as the options of the job say.\<close>

fun workOff ::
    "('t, 'q) voiceJobEnv \<Rightarrow> (nat \<Rightarrow> date) \<Rightarrow> (nat \<Rightarrow> js_error + unit) \<Rightarrow> string \<Rightarrow> nat \<Rightarrow> nat \<Rightarrow> ('t, 'q) voiceJobState \<Rightarrow>
     nat \<times> ('t, 'q) voiceJobState" where
  "workOff env ats written jobId 0 i st = (i, st)"
| "workOff env ats written jobId (Suc a) i st =
     (case handleTTS env (ats i) (written i) jobId st of
        (Inl _, st1) \<Rightarrow> workOff env ats written jobId a (Suc i) st1
      | (Inr _, st1) \<Rightarrow> (Suc i, st1))"

lemma updateJobStatus_get:
  assumes "repository (vje_repo env) vj_id" and "findJob env i st = Some j" and "\<And>r. vj_id (upd r) = vj_id r"
  shows "findJob env k (updateJobStatus env now i status upd st) =
    (if k = i then Some (upd (j\<lparr>vj_status := status, vj_updatedAt := now\<rparr>)) else findJob env k st)"
  using repository.get_update_id [OF assms(1) _ assms(2), of "\<lambda>j. upd (j\<lparr>vj_status := status, vj_updatedAt := now\<rparr>)" k] assms(3)
  by (simp add: updateJobStatus_def)

lemma incrementRetry_get:
  assumes "repository (vje_repo env) vj_id" and "findJob env i st = Some j"
  shows "fst (incrementRetry env now i st) = (vj_retryCount j + 1 < vj_maxRetries j)"
    and "findJob env k (snd (incrementRetry env now i st)) =
      (if k = i then Some (j\<lparr>vj_retryCount := vj_retryCount j + 1, vj_updatedAt := now\<rparr>) else findJob env k st)"
  using repository.get_update_id [OF assms(1) _ assms(2), of "\<lambda>r. r\<lparr>vj_retryCount := vj_retryCount j + 1, vj_updatedAt := now\<rparr>" k] assms(2)
  by (simp_all add: incrementRetry_def Let_def)

text \<open>One attempt that cannot write its file.\<close>

lemma tts_fails:
  assumes "repository (vje_repo env) vj_id" and "findJob env i st = Some j" and "handleTTS env now (Inl e) i st = (res, st')"
  shows "res = (if vj_retryCount j + 1 < vj_maxRetries j then Inl e else Inr ())"
    and "\<exists>j'. findJob env i st' = Some j' \<and> vj_retryCount j' = vj_retryCount j + 1 \<and> vj_maxRetries j' = vj_maxRetries j \<and>
      vj_status j' = (if vj_retryCount j + 1 < vj_maxRetries j then VPENDING else VFAILED)"
    and "k \<noteq> i \<Longrightarrow> findJob env k st' = findJob env k st"
proof -
  let ?st1 = "updateJobStatus env now i VPROCESSING (\<lambda>j. j) st"
  let ?j1 = "j\<lparr>vj_status := VPROCESSING, vj_updatedAt := now\<rparr>"
  have g1: "findJob env k ?st1 = (if k = i then Some ?j1 else findJob env k st)" for k
    by (rule updateJobStatus_get [OF assms(1,2)]) simp
  then have g1i: "findJob env i ?st1 = Some ?j1" by simp
  note inc = incrementRetry_get [OF assms(1) g1i, where now = now]
  let ?st2 = "snd (incrementRetry env now i ?st1)"
  have g2i: "findJob env i ?st2 = Some (?j1\<lparr>vj_retryCount := vj_retryCount j + 1, vj_updatedAt := now\<rparr>)" using inc(2) by simp
  have h: "handleTTS env now (Inl e) i st = failOrRetry env now i e ?st1"
    using assms(2) by (simp add: handleTTS_def generateSpeech_def Let_def)
  have f: "(res, st') = (if vj_retryCount j + 1 < vj_maxRetries j then (Inl e, updateJobStatus env now i VPENDING (\<lambda>j. j) ?st2)
      else (Inr (), updateJobStatus env now i VFAILED (\<lambda>j. j\<lparr>vj_errorMessage := Some (message e)\<rparr>) ?st2))"
    using h assms(3) inc(1) by (simp add: failOrRetry_def case_prod_beta)
  show "res = (if vj_retryCount j + 1 < vj_maxRetries j then Inl e else Inr ())" using f by (simp split: if_splits)
  show "\<exists>j'. findJob env i st' = Some j' \<and> vj_retryCount j' = vj_retryCount j + 1 \<and> vj_maxRetries j' = vj_maxRetries j \<and>
      vj_status j' = (if vj_retryCount j + 1 < vj_maxRetries j then VPENDING else VFAILED)"
    using f by (simp add: updateJobStatus_get [OF assms(1) g2i] split: if_splits)
  show "k \<noteq> i \<Longrightarrow> findJob env k st' = findJob env k st"
    using f g1 inc(2) by (simp add: updateJobStatus_get [OF assms(1) g2i] split: if_splits)
qed

text \<open>
  C35. A speech job that never succeeds ends. Bull gives it \<open>a\<close> attempts and the row allows \<open>m\<close> retries in all: it is tried
  the smaller number of times, and then it is marked as failed if the row's limit was reached first, and otherwise
  left pending with nobody to take it up again. No other row is touched.
\<close>

theorem tts_attempts:
  assumes "repository (vje_repo env) vj_id" and "findJob env i st = Some j" and "vj_retryCount j < vj_maxRetries j" and "0 < a"
    and "\<forall>n. \<exists>e. written n = Inl e" and "workOff env ats written i a n0 st = (n, st')"
  shows "n = n0 + min a (vj_maxRetries j - vj_retryCount j) \<and>
    (\<exists>j'. findJob env i st' = Some j' \<and>
       vj_status j' = (if vj_maxRetries j - vj_retryCount j \<le> a then VFAILED else VPENDING) \<and>
       vj_retryCount j' = vj_retryCount j + min a (vj_maxRetries j - vj_retryCount j)) \<and>
    (\<forall>k. k \<noteq> i \<longrightarrow> findJob env k st' = findJob env k st)"
  using assms(2-4,6)
proof (induction a arbitrary: st j n0)
  case (Suc a)
  obtain e where e: "written n0 = Inl e" using assms(5) by blast
  obtain res st1 where h: "handleTTS env (ats n0) (Inl e) i st = (res, st1)" by (cases "handleTTS env (ats n0) (Inl e) i st")
  note t = tts_fails [OF assms(1) Suc.prems(1) h]
  obtain j' where j': "findJob env i st1 = Some j'" "vj_retryCount j' = vj_retryCount j + 1" "vj_maxRetries j' = vj_maxRetries j"
    "vj_status j' = (if vj_retryCount j + 1 < vj_maxRetries j then VPENDING else VFAILED)" using t(2) by metis
  show ?case
  proof (cases "vj_retryCount j + 1 < vj_maxRetries j \<and> 0 < a")
    case True
    then have w: "workOff env ats written i a (Suc n0) st1 = (n, st')" using Suc.prems(4) e h t(1) by simp
    from Suc.IH [OF j'(1) _ _ w] True j'(2,3) t(3) show ?thesis by auto
  next
    case False
    then have "n = Suc n0 \<and> st' = st1" using Suc.prems(4) e h t(1) by (cases a) (auto split: if_splits)
    with False j' t(3) Suc.prems(2) show ?thesis by auto
  qed
qed simp

definition memVoiceJobs :: "(VoiceJob list, Job list) voiceJobEnv" where
  "memVoiceJobs = \<lparr>vje_repo = memRepo vj_id, vje_bull = memBull, vje_sha256 = (\<lambda>s. s), vje_cwd = ''/app''\<rparr>"

lemma memVoiceJobs_repository: "repository (vje_repo memVoiceJobs) vj_id"
  by (simp add: memVoiceJobs_def mem_repository)

theorem tts_attempts_witness:
  "\<exists>st' j'. workOff memVoiceJobs int (\<lambda>n. Inl (Error ''disk full'')) ''j'' 3 0
      \<lparr>vjs_table = [newVoiceJob ''j'' 0 TTS ''h''], vjs_queue = [], vjs_files = []\<rparr> = (3, st') \<and>
    findJob memVoiceJobs ''j'' st' = Some j' \<and> vj_status j' = VFAILED"
proof -
  let ?st = "\<lparr>vjs_table = [newVoiceJob ''j'' 0 TTS ''h''], vjs_queue = [], vjs_files = []\<rparr> :: (VoiceJob list, Job list) voiceJobState"
  let ?j = "newVoiceJob ''j'' 0 TTS ''h''"
  obtain n st' where w: "workOff memVoiceJobs int (\<lambda>n. Inl (Error ''disk full'')) ''j'' 3 0 ?st = (n, st')"
    by (cases "workOff memVoiceJobs int (\<lambda>n. Inl (Error ''disk full'')) ''j'' 3 0 ?st")
  have h: "findJob memVoiceJobs ''j'' ?st = Some ?j" "vj_retryCount ?j < vj_maxRetries ?j"
    by (simp_all add: memVoiceJobs_def rGet_def memFindOne_def memFind_def newVoiceJob_def)
  note t = tts_attempts [OF memVoiceJobs_repository h _ _ w]
  have "n = 3" "\<exists>j'. findJob memVoiceJobs ''j'' st' = Some j' \<and> vj_status j' = VFAILED"
    using t by (auto simp: newVoiceJob_def)
  with w show ?thesis by blast
qed

text \<open>
  A completed job answers every later request for the same text, with no new row and no new work; a job that is still
  pending does not, so that the same text sent twice is spoken twice.
\<close>

lemma tts_deduplicated:
  assumes "repository (vje_repo env) vj_id" and "findJob env i st = Some j" and "vj_audioHash j = Some (vje_sha256 env txt')"
    and "vj_type j = TTS" and "handleTTS env now (Inr ()) i st = (res, st1)"
  shows "\<exists>k. processTTS env uuid now' txt' st1 = (Inr k, st1)"
proof -
  let ?s = "updateJobStatus env now i VPROCESSING (\<lambda>j. j) st"
  let ?path = "vje_cwd env @ ''/uploads/tts/'' @ showInt now @ ''-speech.mp3''"
  let ?s2 = "?s\<lparr>vjs_files := vjs_files ?s @ [?path]\<rparr>"
  have g: "findJob env i ?s2 = Some (j\<lparr>vj_status := VPROCESSING, vj_updatedAt := now\<rparr>)"
    using updateJobStatus_get [OF assms(1,2), of "\<lambda>j. j" i now VPROCESSING] by simp
  have st1: "st1 = updateJobStatus env now i VCOMPLETED (\<lambda>j. j\<lparr>vj_generatedAudioUrl := Some ?path\<rparr>) ?s2"
    using assms(2,5) by (simp add: handleTTS_def generateSpeech_def Let_def)
  let ?P = "\<lambda>j. vj_audioHash j = Some (vje_sha256 env txt') \<and> vj_type j = TTS \<and> vj_status j = VCOMPLETED"
  have f: "findJob env i st1 = Some (j\<lparr>vj_status := VCOMPLETED, vj_updatedAt := now, vj_generatedAudioUrl := Some ?path\<rparr>)"
    unfolding st1 by (subst updateJobStatus_get [OF assms(1) g]) simp_all
  obtain r where "rFindOne (vje_repo env) ?P (vjs_table st1) = Some r"
    by (rule repository.findOne_exists [OF assms(1) f, of ?P]) (simp_all add: assms(3,4))
  then have "completedJob env (vje_sha256 env txt') TTS st1 = Some r" by (simp add: completedJob_def)
  then show ?thesis by (simp add: processTTS_def)
qed

lemma tts_pending_repeated:
  assumes "repository (vje_repo env) vj_id" and "bull_queue (vje_bull env) jobs"
    and "\<forall>n d opts q. \<exists>j q'. bqAdd (vje_bull env) n d opts q = (Inr j, q')"
    and "completedJob env (vje_sha256 env txt') TTS st = None" and "i \<noteq> k"
    and "processTTS env i now txt' st = (res1, st1)" and "processTTS env k now' txt' st1 = (res2, st2)"
  shows "res1 = Inr i \<and> res2 = Inr k \<and> length (jobs (vjs_queue st2)) = length (jobs (vjs_queue st)) + 2"
proof -
  let ?h = "vje_sha256 env txt'"
  obtain q1 j1 where a1: "bqAdd (vje_bull env) ''process-tts'' (JObj [(''jobId'', JStr i)]) noJobOptions (vjs_queue st) = (Inr j1, q1)"
    using assms(3) by metis
  obtain q2 j2 where a2: "bqAdd (vje_bull env) ''process-tts'' (JObj [(''jobId'', JStr k)]) noJobOptions q1 = (Inr j2, q2)"
    using assms(3) by metis
  let ?row = "(newVoiceJob i now TTS ?h)\<lparr>vj_inputText := Some txt'\<rparr>"
  have s1: "res1 = Inr i" "st1 = st\<lparr>vjs_table := rSave (vje_repo env) ?row (vjs_table st), vjs_queue := q1\<rparr>"
    using assms(4,6) a1 by (simp_all add: processTTS_def saveAndQueue_def newVoiceJob_def Let_def)
  have "completedJob env ?h TTS st1 = None"
  proof (cases "completedJob env ?h TTS st1")
    case (Some r)
    note r0 = repository.findOne_get [OF assms(1) Some [unfolded completedJob_def]]
    then have r: "rGet (vje_repo env) vj_id (vj_id r) (vjs_table st1) = Some r" "vj_status r = VCOMPLETED" by simp_all
    have "vj_status ?row = VPENDING" by (simp add: newVoiceJob_def)
    with r(2) have "r \<noteq> ?row" by auto
    with r(1) have "rGet (vje_repo env) vj_id (vj_id r) (vjs_table st) = Some r"
      by (simp add: s1(2) repository.get_save [OF assms(1)] split: if_splits)
    with repository.findOne_NoneD [OF assms(1) assms(4) [unfolded completedJob_def]] r0 show ?thesis by blast
  qed
  then have "res2 = Inr k" "vjs_queue st2 = q2"
    using assms(7) a2 by (auto simp: s1(2) processTTS_def saveAndQueue_def newVoiceJob_def Let_def)
  then show ?thesis
    using s1(1) bull_queue.add_job [OF assms(2) a1] bull_queue.add_job [OF assms(2) a2] by simp
qed

end
