(* ===== verification/Workflow_Admin.thy ===== *)
theory Workflow_Admin
  imports Workflow_Service Monitoring
begin

text \<open>
  The admin controller of the workflow engine (\<^verbatim>\<open>workflow/controllers/workflow-admin.controller.ts\<close>): its handlers over the
  services, and the table of its routes in the order in which they are declared, of which the first that
  matches a request is taken.
\<close>

section \<open>Lists of workflows\<close>

record 'a paged =
  pg_rows :: "'a list"
  pg_page :: int
  pg_limit :: nat
  pg_total :: nat
  pg_totalPages :: "nat option"

text \<open>\<^verbatim>\<open>Math.ceil(total / limit)\<close>; with a limit of zero it is no number, which JSON prints as \<^verbatim>\<open>null\<close>.\<close>

definition totalPages :: "nat \<Rightarrow> nat \<Rightarrow> nat option" where
  "totalPages tot limit = (if limit = 0 then None else Some ((tot + limit - 1) div limit))"

definition adminPage ::
    "('wt, 'st, 'r) wfenv \<Rightarrow> (Workflow \<Rightarrow> bool) \<Rightarrow> int \<Rightarrow> nat \<Rightarrow> ('wt, 'st, 'r) world \<Rightarrow> js_error + (Workflow \<times> WorkflowStep list) paged" where
  "adminPage env P page limit s =
     (case findPage env P page limit s of
        Inl e \<Rightarrow> Inl e
      | Inr (workflows, tot) \<Rightarrow>
          Inr \<lparr>pg_rows = map (\<lambda>w. (w, stepsOf env (w_id w) s)) workflows, pg_page = page, pg_limit = limit, pg_total = tot,
               pg_totalPages = totalPages tot limit\<rparr>)"

text \<open>A filter that is absent or empty is no filter.\<close>

definition adminFilter :: "WorkflowState option \<Rightarrow> string option \<Rightarrow> string option \<Rightarrow> string option \<Rightarrow> Workflow \<Rightarrow> bool" where
  "adminFilter state ty userId walletAddress w \<longleftrightarrow>
     (case state of None \<Rightarrow> True | Some st \<Rightarrow> w_state w = st) \<and>
     (strTruthy ty \<longrightarrow> w_type w = the ty) \<and> (strTruthy userId \<longrightarrow> w_userId w = userId) \<and>
     (strTruthy walletAddress \<longrightarrow> w_walletAddress w = walletAddress)"

definition getWorkflows ::
    "('wt, 'st, 'r) wfenv \<Rightarrow> int option \<Rightarrow> nat option \<Rightarrow> WorkflowState option \<Rightarrow> string option \<Rightarrow> string option \<Rightarrow> string option \<Rightarrow>
     ('wt, 'st, 'r) world \<Rightarrow> js_error + (Workflow \<times> WorkflowStep list) paged" where
  "getWorkflows env page limit state ty userId walletAddress s =
     adminPage env (adminFilter state ty userId walletAddress) (case page of None \<Rightarrow> 1 | Some p \<Rightarrow> p) (case limit of None \<Rightarrow> 20 | Some n \<Rightarrow> n) s"

text \<open>SQL's \<^verbatim>\<open>LIKE\<close>: a percent sign stands for any text, an underscore for one character, a backslash escapes.\<close>

fun sqlLike :: "string \<Rightarrow> string \<Rightarrow> bool" where
  "sqlLike [] s = (s = [])"
| "sqlLike (c # p) s =
     (if c = CHR ''%'' then sqlLike p s \<or> (case s of [] \<Rightarrow> False | x # xs \<Rightarrow> sqlLike (c # p) xs)
      else if c = CHR 0x5C then (case p of [] \<Rightarrow> False | d # p' \<Rightarrow> (case s of [] \<Rightarrow> False | x # xs \<Rightarrow> x = d \<and> sqlLike p' xs))
      else (case s of [] \<Rightarrow> False | x # xs \<Rightarrow> (c = CHR ''_'' \<or> x = c) \<and> sqlLike p xs))"

definition searchMatch :: "string \<Rightarrow> Workflow \<Rightarrow> bool" where
  "searchMatch query w \<longleftrightarrow>
     sqlLike (''%'' @ query @ ''%'') (w_idempotencyKey w) \<or>
     (case w_walletAddress w of None \<Rightarrow> False | Some a \<Rightarrow> sqlLike (''%'' @ query @ ''%'') a)"

definition searchWorkflows ::
    "('wt, 'st, 'r) wfenv \<Rightarrow> string \<Rightarrow> int option \<Rightarrow> nat option \<Rightarrow> ('wt, 'st, 'r) world \<Rightarrow> js_error + (Workflow \<times> WorkflowStep list) paged" where
  "searchWorkflows env query page limit s =
     adminPage env (searchMatch query) (case page of None \<Rightarrow> 1 | Some p \<Rightarrow> p) (case limit of None \<Rightarrow> 20 | Some n \<Rightarrow> n) s"

section \<open>One workflow\<close>

definition adminGetWorkflow ::
    "('wt, 'st, 'r) wfenv \<Rightarrow> string \<Rightarrow> ('wt, 'st, 'r) world \<Rightarrow> js_error + (Workflow \<times> WorkflowStep list)" where
  "adminGetWorkflow env i s =
     (case getWf env s i of
        None \<Rightarrow> Inl (HttpException ''Workflow not found'' 404)
      | Some workflow \<Rightarrow> Inr (workflow, stepsOf env i s))"

record adminEvent =
  av_type :: string
  av_timestamp :: date
  av_state :: string
  av_step :: "(string \<times> nat) option"
  av_failure :: "(string option \<times> nat) option"
  av_message :: string

definition onDay :: "date option \<Rightarrow> (date \<Rightarrow> adminEvent) \<Rightarrow> adminEvent list" where
  "onDay d f = (case d of None \<Rightarrow> [] | Some t \<Rightarrow> [f t])"

definition quoted :: "string \<Rightarrow> string" where
  "quoted n = [CHR 0x22] @ n @ [CHR 0x22]"

definition printed :: "string option \<Rightarrow> string" where
  "printed x = (case x of None \<Rightarrow> ''null'' | Some t \<Rightarrow> t)"

definition adminStepEvents :: "WorkflowStep \<Rightarrow> adminEvent list" where
  "adminStepEvents step =
     (let ev = (\<lambda>ty fl msg t. \<lparr>av_type = ty, av_timestamp = t, av_state = stepStateName (s_state step),
                  av_step = Some (s_stepName step, s_stepIndex step), av_failure = fl, av_message = ''Step '' @ quoted (s_stepName step) @ msg\<rparr>)
      in onDay (s_startedAt step) (ev ''step_started'' None '' started'') @
         onDay (s_completedAt step) (ev ''step_completed'' None '' completed'') @
         onDay (s_failedAt step) (ev ''step_failed'' (Some (s_failureReason step, s_retryCount step))
           ('' failed: '' @ printed (s_failureReason step))) @
         onDay (s_compensatedAt step) (ev ''step_compensated'' None '' compensated''))"

definition adminEvents :: "Workflow \<Rightarrow> WorkflowStep list \<Rightarrow> adminEvent list" where
  "adminEvents w steps =
     (let ev = (\<lambda>ty fl msg t. \<lparr>av_type = ty, av_timestamp = t, av_state = wfStateName (w_state w), av_step = None, av_failure = fl, av_message = msg\<rparr>)
      in [ev ''workflow_created'' None ''Workflow created'' (w_createdAt w)] @
         onDay (w_startedAt w) (ev ''workflow_started'' None ''Workflow execution started'') @
         concat (map adminStepEvents steps) @
         onDay (w_completedAt w) (ev ''workflow_completed'' None ''Workflow completed successfully'') @
         onDay (w_failedAt w) (ev ''workflow_failed'' (Some (w_failureReason w, w_retryCount w)) (''Workflow failed: '' @ printed (w_failureReason w))))"

definition adminTimeline :: "('wt, 'st, 'r) wfenv \<Rightarrow> string \<Rightarrow> ('wt, 'st, 'r) world \<Rightarrow> js_error + adminEvent list" where
  "adminTimeline env i s =
     (case getWf env s i of
        None \<Rightarrow> Inl (HttpException ''Workflow not found'' 404)
      | Some workflow \<Rightarrow>
          Inr (sortBy (\<lambda>a b. av_timestamp a \<le> av_timestamp b) (adminEvents workflow (stepsOf env i s))))"

text \<open>The handlers that wrap a service call and turn its error into a status.\<close>

definition orStatus :: "nat \<Rightarrow> string \<Rightarrow> ('s, unit) action \<Rightarrow> ('s, string) action" where
  "orStatus status msg m s = (case m s of (Inl e, s') \<Rightarrow> (Inl (HttpException (message e) status), s') | (Inr _, s') \<Rightarrow> (Inr msg, s'))"

definition retryRoute :: "('wt, 'st, 'r) wfenv \<Rightarrow> string \<Rightarrow> (('wt, 'st, 'r) world, string) action" where
  "retryRoute env i = orStatus 400 ''Workflow retry initiated'' (retryWorkflow env i)"

definition cancelRoute :: "('wt, 'st, 'r) wfenv \<Rightarrow> string \<Rightarrow> (('wt, 'st, 'r) world, string) action" where
  "cancelRoute env i = orStatus 400 ''Workflow cancelled'' (cancelWorkflow env i)"

definition compensateRoute :: "('wt, 'st, 'r) wfenv \<Rightarrow> string \<Rightarrow> (('wt, 'st, 'r) world, string) action" where
  "compensateRoute env i = orStatus 400 ''Workflow compensation initiated'' (compensateWorkflow env i)"

definition forceCompensateRoute :: "('wt, 'st, 'r) wfenv \<Rightarrow> string \<Rightarrow> (('wt, 'st, 'r) world, string) action" where
  "forceCompensateRoute env i = orStatus 400 ''Force compensation completed'' (forceCompensateWorkflow env i)"

section \<open>Steps\<close>

definition getWorkflowStep :: "('wt, 'st, 'r) wfenv \<Rightarrow> string \<Rightarrow> string \<Rightarrow> ('wt, 'st, 'r) world \<Rightarrow> js_error + WorkflowStep" where
  "getWorkflowStep env workflowId stepId s =
     (case rFindOne (stRepo env) (\<lambda>p. s_id p = stepId \<and> s_workflowId p = workflowId) (stTab s) of
        None \<Rightarrow> Inl (HttpException ''Step not found'' 404)
      | Some step \<Rightarrow> Inr step)"

text \<open>As in \<open>retryWorkflow\<close>, the properties that are set to \<^verbatim>\<open>undefined\<close> keep their columns.\<close>

definition retryWorkflowStep :: "('wt, 'st, 'r) wfenv \<Rightarrow> string \<Rightarrow> string \<Rightarrow> (('wt, 'st, 'r) world, string) action" where
  "retryWorkflowStep env workflowId stepId s =
     (case getWorkflowStep env workflowId stepId s of
        Inl e \<Rightarrow> (Inl e, s)
      | Inr step \<Rightarrow>
          if s_state step \<noteq> SFAILED then (Inl (HttpException ''Step is not in a failed state'' 400), s)
          else let s1 = saveStep env (step\<lparr>s_state := SPENDING, s_retryCount := s_retryCount step + 1\<rparr>) s
               in case retryWorkflow env workflowId s1 of
                    (Inl e, s2) \<Rightarrow> (Inl e, s2)
                  | (Inr _, s2) \<Rightarrow> (Inr ''Step retry initiated'', s2))"

section \<open>Statistics\<close>

definition allWorkflowStates :: "WorkflowState list" where
  "allWorkflowStates = [PENDING, RUNNING, COMPLETED, FAILED, CANCELLED, COMPENSATING, COMPENSATED]"

definition allStepStates :: "StepState list" where
  "allStepStates = [SPENDING, SRUNNING, SCOMPLETED, SFAILED, SSKIPPED, SCOMPENSATING, SCOMPENSATED]"

text \<open>\<^verbatim>\<open>GROUP BY state\<close>: the states that occur, with their numbers.\<close>

definition groupCounts :: "('row \<Rightarrow> 'k) \<Rightarrow> 'k list \<Rightarrow> 'row list \<Rightarrow> ('k \<times> nat) list" where
  "groupCounts k ks rows = filter (\<lambda>(_, n). 0 < n) (map (\<lambda>x. (x, length (filter (\<lambda>r. k r = x) rows))) ks)"

definition getWorkflowStats ::
    "('wt, 'st, 'r) wfenv \<Rightarrow> ('wt, 'st, 'r) world \<Rightarrow> (nat \<times> (WorkflowState \<times> nat) list) \<times> (nat \<times> (StepState \<times> nat) list)" where
  "getWorkflowStats env s =
     (let stats = groupCounts w_state allWorkflowStates (rFind (wfRepo env) (\<lambda>_. True) (wfTab s));
          stepStats = groupCounts s_state allStepStates (rFind (stRepo env) (\<lambda>_. True) (stTab s))
      in ((sum_list (map snd stats), stats), (sum_list (map snd stepStats), stepStats)))"

definition triggerRecovery :: "('wt, 'st, 'r) wfenv \<Rightarrow> ('wt, 'st, 'r) world \<Rightarrow> recoveryResults \<times> ('wt, 'st, 'r) world" where
  "triggerRecovery env s = triggerManualRecovery env s"

definition getMetrics ::
    "('wt, 'st, 'r) wfenv \<Rightarrow> bool \<Rightarrow> int option \<Rightarrow> ('wt, 'st, 'r) world \<Rightarrow> workflowMetrics \<times> stepMetrics \<times> systemHealth" where
  "getMetrics env dbOk hours s =
     (let h = (case hours of None \<Rightarrow> 24 | Some h \<Rightarrow> h)
      in (getWorkflowMetrics env h s, getStepMetrics env h s, getSystemHealth env dbOk s))"

section \<open>Routes\<close>

datatype segment = Lit string | Param

datatype httpMethod = GET | POST

datatype adminHandler =
    HGetWorkflows | HGetWorkflow | HTimeline | HRetry | HCancel | HCompensate | HGetStep | HRetryStep | HStats | HSearch
  | HTriggerRecovery | HMetrics | HHealth | HCompensatable | HForceCompensate

definition adminRoutes :: "(httpMethod \<times> segment list \<times> adminHandler) list" where
  "adminRoutes =
     [(GET, [], HGetWorkflows),
      (GET, [Param], HGetWorkflow),
      (GET, [Param, Lit ''timeline''], HTimeline),
      (POST, [Param, Lit ''retry''], HRetry),
      (POST, [Param, Lit ''cancel''], HCancel),
      (POST, [Param, Lit ''compensate''], HCompensate),
      (GET, [Param, Lit ''steps'', Param], HGetStep),
      (POST, [Param, Lit ''steps'', Param, Lit ''retry''], HRetryStep),
      (GET, [Lit ''stats'', Lit ''overview''], HStats),
      (GET, [Lit ''search''], HSearch),
      (POST, [Lit ''recovery'', Lit ''trigger''], HTriggerRecovery),
      (GET, [Lit ''metrics''], HMetrics),
      (GET, [Lit ''health''], HHealth),
      (GET, [Lit ''compensatable''], HCompensatable),
      (POST, [Param, Lit ''force-compensate''], HForceCompensate)]"

fun segmentMatches :: "segment \<Rightarrow> string \<Rightarrow> bool" where
  "segmentMatches (Lit l) x = (x = l)"
| "segmentMatches Param x = (x \<noteq> [])"

definition dispatch :: "httpMethod \<Rightarrow> string list \<Rightarrow> adminHandler option" where
  "dispatch m path =
     map_option (\<lambda>(_, _, h). h) (find (\<lambda>(m', pattern, _). m' = m \<and> list_all2 segmentMatches pattern path) adminRoutes)"

section \<open>Paging and searching\<close>

lemma concat_chunks: "concat (map (\<lambda>i. take l (drop (i * l) xs)) [0..<n]) = take (n * l) xs"
proof (induction n)
  case (Suc n)
  have "take (n * l + l) xs = take (n * l) xs @ take l (drop (n * l) xs)" by (rule take_add)
  with Suc show ?case by (simp add: add.commute)
qed simp

lemma totalPages_enough: "totalPages tot limit = Some n \<Longrightarrow> tot \<le> n * limit"
proof -
  assume "totalPages tot limit = Some n"
  then have l: "0 < limit" and n: "n = (tot + limit - 1) div limit" by (auto simp: totalPages_def split: if_splits)
  have "tot + limit - 1 < limit + limit * n" unfolding n by (rule dividend_less_times_div [OF l])
  with l show "tot \<le> n * limit" by (simp add: mult.commute)
qed

context wf_tables
begin

lemma findPage_rows:
  assumes "0 < p"
  shows "findPage env P (int p) limit s =
    (let rows = rFindOrd (wfRepo env) P (\<lambda>a b. w_createdAt b \<le> w_createdAt a) (wfTab s); rest = drop ((p - 1) * limit) rows
     in Inr (if limit = 0 then rest else take limit rest, length rows))"
proof -
  have "rCount (wfRepo env) P (wfTab s) = length (rFindOrd (wfRepo env) P (\<lambda>a b. w_createdAt b \<le> w_createdAt a) (wfTab s))"
    using W.findOrd_mset by (metis W.count_find size_mset)
  moreover have "(int p - 1) * int limit = int ((p - 1) * limit)" using assms by (simp add: of_nat_diff)
  ultimately show ?thesis by (simp add: findPage_def Let_def del: of_nat_mult)
qed

lemma pages_complete:
  assumes "rows = rFindOrd (wfRepo env) P (\<lambda>a b. w_createdAt b \<le> w_createdAt a) (wfTab s)"
    and "totalPages (length rows) limit = Some n"
  shows "\<exists>pages. map (\<lambda>p. adminPage env P (int p) limit s) [1..<Suc n] = map Inr pages \<and>
    concat (map pg_rows pages) = map (\<lambda>w. (w, stepsOf env (w_id w) s)) rows \<and>
    (\<forall>pg \<in> set pages. length (pg_rows pg) \<le> limit \<and> pg_total pg = length rows \<and> pg_totalPages pg = Some n)"
proof -
  have l: "0 < limit" using assms(2) by (simp add: totalPages_def split: if_splits)
  define page where "page i = \<lparr>pg_rows = map (\<lambda>w. (w, stepsOf env (w_id w) s)) (take limit (drop (i * limit) rows)),
      pg_page = int (Suc i), pg_limit = limit, pg_total = length rows, pg_totalPages = Some n\<rparr>" for i
  have "adminPage env P (int (Suc i)) limit s = Inr (page i)" for i
    using findPage_rows [of "Suc i" P limit s] l assms by (simp add: adminPage_def Let_def page_def)
  then have pages: "map (\<lambda>p. adminPage env P (int p) limit s) [1..<Suc n] = map Inr (map page [0..<n])"
    by (simp add: map_Suc_upt [symmetric] comp_def del: upt_Suc)
  have "concat (map pg_rows (map page [0..<n])) = map (\<lambda>w. (w, stepsOf env (w_id w) s)) (concat (map (\<lambda>i. take limit (drop (i * limit) rows)) [0..<n]))"
    by (simp add: page_def map_concat comp_def)
  also have "\<dots> = map (\<lambda>w. (w, stepsOf env (w_id w) s)) rows"
    using totalPages_enough [OF assms(2)] by (simp add: concat_chunks)
  finally show ?thesis using pages by (intro exI [of _ "map page [0..<n]"]) (auto simp: page_def)
qed

end

text \<open>
  Paging misses nothing. For every filter and every limit but zero, the pages from the first to the last that the
  reply announces hold, one after the other, every matching workflow once, newest first, and none holds more than the limit.
\<close>

theorem admin_pages_complete:
  assumes "wf_tables env" and "P = adminFilter state ty userId walletAddress \<or> P = searchMatch query"
    and "rows = rFindOrd (wfRepo env) P (\<lambda>a b. w_createdAt b \<le> w_createdAt a) (wfTab s)"
    and "totalPages (length rows) limit = Some n"
  shows "mset rows = mset (rFind (wfRepo env) P (wfTab s)) \<and> sorted_wrt (\<lambda>a b. w_createdAt b \<le> w_createdAt a) rows \<and>
    (\<exists>pages. map (\<lambda>p. adminPage env P (int p) limit s) [1..<Suc n] = map Inr pages \<and>
      concat (map pg_rows pages) = map (\<lambda>w. (w, stepsOf env (w_id w) s)) rows \<and>
      (\<forall>pg \<in> set pages. length (pg_rows pg) \<le> limit \<and> pg_total pg = length rows \<and> pg_totalPages pg = Some n))"
proof -
  have "repository (wfRepo env) w_id" using assms(1) by (simp add: wf_tables_def)
  note r = repository.findOrd_mset [OF this] repository.findOrd_sorted [OF this]
  show ?thesis using wf_tables.pages_complete [OF assms(1,3,4)] r by (simp add: assms(3))
qed

theorem admin_pages_complete_witness:
  "let env = memEnv int (\<lambda>_. None); s = memWorld [sampleWorkflow FAILED] []
   in \<exists>pages. map (\<lambda>p. adminPage env (adminFilter (Some FAILED) None None None) (int p) 20 s) [1..<Suc 1] = map Inr pages \<and>
        concat (map pg_rows pages) = [(sampleWorkflow FAILED, [])]"
proof -
  let ?env = "memEnv int (\<lambda>_. None)" and ?s = "memWorld [sampleWorkflow FAILED] []" and ?P = "adminFilter (Some FAILED) None None None"
  have rows: "rFindOrd (wfRepo ?env) ?P (\<lambda>a b. w_createdAt b \<le> w_createdAt a) (wfTab ?s) = [sampleWorkflow FAILED]"
    by (simp add: memEnv_def memWorld_def memFind_def adminFilter_def strTruthy_def sampleWorkflow_def)
  have n: "totalPages (length [sampleWorkflow FAILED]) 20 = Some 1" by (simp add: totalPages_def)
  have st: "stepsOf ?env i ?s = []" for i by (simp add: stepsOf_def memEnv_def memWorld_def memFind_def)
  note c = admin_pages_complete [OF memt.wf_tables_axioms disjI1 [OF refl] rows [symmetric] n, unfolded st list.map]
  from c [THEN conjunct2, THEN conjunct2] show ?thesis unfolding Let_def by (elim exE conjE) (intro exI conjI)
qed

text \<open>A search text without wildcards is looked for literally; a percent sign or an underscore in it is not.\<close>

definition plainQuery :: "string \<Rightarrow> bool" where
  "plainQuery q \<longleftrightarrow> CHR ''%'' \<notin> set q \<and> CHR ''_'' \<notin> set q \<and> CHR 0x5C \<notin> set q"

lemma like_any: "sqlLike ''%'' s"
  by (induction s) simp_all

lemma like_prefix: "plainQuery q \<Longrightarrow> sqlLike (q @ ''%'') s \<longleftrightarrow> take (length q) s = q"
proof (induction q arbitrary: s)
  case Nil
  show ?case using like_any by simp
next
  case (Cons c q)
  then have "plainQuery q" "c \<noteq> CHR ''%''" "c \<noteq> CHR ''_''" "c \<noteq> CHR 0x5C" by (auto simp: plainQuery_def)
  with Cons.IH show ?case by (cases s) (auto split: list.split)
qed

lemma search_literal: "plainQuery q \<Longrightarrow> sqlLike (''%'' @ q @ ''%'') s \<longleftrightarrow> strIncludes q s"
  by (induction s) (auto simp: like_prefix)

section \<open>Retrying a step\<close>

context wf_tables
begin

lemma retryWorkflow_steps:
  assumes "getWf env s i = Some w" and "w_state w = FAILED" and "workflowDefinitions env (w_type w) = Some def"
    and "getSt env s k = Some p" and "s_state p \<noteq> SFAILED"
  shows "getSt env (snd (retryWorkflow env i s)) k = Some p"
proof -
  let ?w1 = "w\<lparr>w_state := RUNNING, w_retryCount := Suc (w_retryCount w),
      w_startedAt := Some (nowOf env s)\<rparr>"
  let ?s1 = "saveWorkflow env ?w1 (tick s)"
  define s2 where "s2 = (case find (\<lambda>p. s_state p = SFAILED) (stepsOf env i s) of None \<Rightarrow> ?s1
      | Some f \<Rightarrow> saveStep env (f\<lparr>s_state := SPENDING\<rparr>) ?s1)"
  have "retryWorkflow env i s = executeWorkflow env ?w1 s2"
    using assms by (simp add: retryWorkflow_def rGet_def sm_defs Let_def s2_def)
  also have "snd (executeWorkflow env ?w1 s2) = s2" using assms(3) by (simp add: executeWorkflow_def no_rerun)
  finally have r: "snd (retryWorkflow env i s) = s2" .
  show ?thesis
  proof (cases "find (\<lambda>p. s_state p = SFAILED) (stepsOf env i s)")
    case None
    then show ?thesis using assms(4) by (simp add: r s2_def getSt_saveWorkflow)
  next
    case (Some f)
    then have "f \<in> set (stepsOf env i s)" "s_state f = SFAILED" by (auto simp: find_Some_iff)
    with assms(4,5) have "s_id f \<noteq> k" by (auto simp: stepsOf_iff)
    then show ?thesis using Some assms(4) by (simp add: r s2_def getSt_saveStep getSt_saveWorkflow)
  qed
qed

lemma getWorkflowStep_get:
  assumes "getSt env s i = Some p" and "s_workflowId p = wid"
  shows "getWorkflowStep env wid i s = Inr p"
proof -
  let ?P = "\<lambda>q. s_id q = i \<and> s_workflowId q = wid"
  obtain q where q: "rFindOne (stRepo env) ?P (stTab s) = Some q"
    by (rule S.findOne_exists [OF assms(1), of ?P]) (simp_all add: assms(2) getSt_id [OF assms(1)])
  from S.findOne_get [OF q] have "getSt env s (s_id q) = Some q" "s_id q = i" by blast+
  then have "q = p" using assms(1) by (metis option.inject)
  with q show ?thesis by (simp add: getWorkflowStep_def)
qed

end

text \<open>
  Retrying a step retries nothing and can be tried only once. For a failed step of a failed workflow the handler makes the
  step pending, with the date and the reason of its failure still in the row, and counts a retry; the retry of the workflow is
  then refused, no operation runs, the workflow is left running, and the next call is told that the step has not failed.
\<close>

theorem admin_step_retry_strands:
  assumes "wf_tables env" and "getSt env s stepId = Some p" and "s_workflowId p = wid" and "s_state p = SFAILED"
    and "getWf env s wid = Some w" and "w_state w = FAILED" and "workflowDefinitions env (w_type w) = Some def"
    and "retryWorkflowStep env wid stepId s = (r, s')"
  shows "r = Inl (Error ''Cannot start workflow: Invalid workflow state transition from running to running'') \<and> calls s' = calls s \<and>
    (\<exists>p'. getSt env s' stepId = Some p' \<and> s_state p' = SPENDING \<and> s_failedAt p' = s_failedAt p \<and> s_failureReason p' = s_failureReason p \<and>
       s_retryCount p' = s_retryCount p + 1) \<and>
    (\<exists>w'. getWf env s' wid = Some w' \<and> w_state w' = RUNNING) \<and>
    retryWorkflowStep env wid stepId s' = (Inl (HttpException ''Step is not in a failed state'' 400), s')"
proof -
  let ?p1 = "p\<lparr>s_state := SPENDING, s_retryCount := s_retryCount p + 1\<rparr>"
  let ?s1 = "saveStep env ?p1 s"
  have id: "s_id p = stepId" by (rule wf_tables.getSt_id [OF assms(1,2)])
  have g: "getWf env ?s1 wid = Some w" using assms(5) by (simp add: wf_tables.getWf_saveStep [OF assms(1)])
  obtain s2 w' where s2: "retryWorkflow env wid ?s1 =
      (Inl (Error ''Cannot start workflow: Invalid workflow state transition from running to running''), s2)"
    "calls s2 = calls ?s1" "getWf env s2 wid = Some w'" "w_state w' = RUNNING"
    using wf_tables.retryWorkflow_run [OF assms(1) g assms(6,7)] by metis
  have st: "getSt env ?s1 stepId = Some (?p1\<lparr>s_updatedAt := nowOf env s\<rparr>)"
    using id by (simp add: wf_tables.getSt_saveStep [OF assms(1)])
  have p2: "getSt env s2 stepId = Some (?p1\<lparr>s_updatedAt := nowOf env s\<rparr>)"
    using wf_tables.retryWorkflow_steps [OF assms(1) g assms(6,7) st] s2(1) by simp
  have r: "r = Inl (Error ''Cannot start workflow: Invalid workflow state transition from running to running'')" "s' = s2"
    using assms(8) s2(1) assms(4) wf_tables.getWorkflowStep_get [OF assms(1,2,3)] by (simp_all add: retryWorkflowStep_def)
  have "retryWorkflowStep env wid stepId s2 = (Inl (HttpException ''Step is not in a failed state'' 400), s2)"
    using wf_tables.getWorkflowStep_get [OF assms(1) p2] assms(3) by (simp add: retryWorkflowStep_def)
  then show ?thesis using r p2 s2(2-4) by simp
qed

theorem admin_step_retry_strands_witness:
  "let env = memEnv int (oneDef okSd); s = memWorld [sampleWorkflow FAILED] [sampleStep ''a'' 0 SFAILED]
   in \<exists>r s'. retryWorkflowStep env ''w1'' ''a'' s = (r, s') \<and>
      r = Inl (Error ''Cannot start workflow: Invalid workflow state transition from running to running'') \<and> calls s' = calls s"
proof -
  let ?env = "memEnv int (oneDef okSd)" and ?w = "sampleWorkflow FAILED" and ?p = "sampleStep ''a'' 0 SFAILED"
  let ?s = "memWorld [?w] [?p]"
  obtain r s' where run: "retryWorkflowStep ?env ''w1'' ''a'' ?s = (r, s')" by (cases "retryWorkflowStep ?env ''w1'' ''a'' ?s")
  have h: "getSt ?env ?s ''a'' = Some ?p" "s_workflowId ?p = ''w1''" "s_state ?p = SFAILED" "getWf ?env ?s ''w1'' = Some ?w"
    "w_state ?w = FAILED" "workflowDefinitions ?env (w_type ?w) = Some (sampleDef [okSd])"
    by (simp_all add: run_simps)
  from admin_step_retry_strands [OF memt.wf_tables_axioms h run] run show ?thesis unfolding Let_def by blast
qed

section \<open>Routes that are never taken\<close>

text \<open>
  A path of one segment is the id of a workflow, as that route is declared before the four that are a single word: none of
  their handlers is ever reached, while every other route of the controller is.
\<close>

lemma shadowed_routes:
  "dispatch GET path \<notin> {Some HSearch, Some HMetrics, Some HHealth, Some HCompensatable}"
  by (cases path; cases "tl path"; cases "tl (tl path)"; cases "tl (tl (tl path))") (auto simp: dispatch_def adminRoutes_def)

lemma reachable_routes:
  "dispatch GET [''search''] = Some HGetWorkflow" "dispatch GET [''stats'', ''overview''] = Some HStats"
  "dispatch POST [''recovery'', ''trigger''] = Some HTriggerRecovery" "dispatch GET [''w1'', ''timeline''] = Some HTimeline"
  "dispatch POST [''w1'', ''steps'', ''a'', ''retry''] = Some HRetryStep" "dispatch POST [''w1'', ''force-compensate''] = Some HForceCompensate"
  by (simp_all add: dispatch_def adminRoutes_def)

end
