(* ===== verification/Workflow_Builtin.thy ===== *)
theory Workflow_Builtin
  imports Complex_Main Execution_Start
begin

text \<open>
  The workflow definitions that the service registers when it starts (\<^verbatim>\<open>workflow/examples/*.workflow.ts\<close> and
  \<^verbatim>\<open>onModuleInit\<close> of \<^verbatim>\<open>workflow.service.ts\<close>): deployment of a contract, execution of a trade and the chain of speech
  recognition, language model and speech synthesis, with the simulated work the code has. The compensation functions of
  the steps only log. Random numbers, the texts of numbers and the times of an invocation are observed values (\<open>simulation\<close>);
  a date in an output is the text it is stored as, and the arrows in a description are written in ASCII.
\<close>

section \<open>What an invocation observes\<close>

text \<open>
  The functions of the invocation's number: the \<open>k\<close>-th time it reads, the \<open>k\<close>-th random number, and the text of that number to
  base 16 and 36. Numbers in JSON are integers here, so the value of a number and the number of a value (\<open>None\<close> is
  \<^verbatim>\<open>NaN\<close>) are functions of their own, like the text of a value.
\<close>

record simulation =
  sm_now :: "nat \<Rightarrow> nat \<Rightarrow> date"
  sm_random :: "nat \<Rightarrow> nat \<Rightarrow> rat"
  sm_base16 :: "nat \<Rightarrow> nat \<Rightarrow> string"
  sm_base36 :: "nat \<Rightarrow> nat \<Rightarrow> string"
  sm_number :: "rat \<Rightarrow> json"
  sm_toNumber :: "json \<Rightarrow> rat option"
  sm_show :: "json \<Rightarrow> string"

text \<open>\<^verbatim>\<open>x?.p\<close>, and the property of an input: a promise has no property of its own.\<close>

definition propOf :: "json option \<Rightarrow> string \<Rightarrow> json option" where
  "propOf x p = (case x of Some (JObj kvs) \<Rightarrow> map_of kvs p | _ \<Rightarrow> None)"

fun inputProp :: "stepInput \<Rightarrow> string \<Rightarrow> json option" where
  "inputProp (Plain j) p = propOf (Some j) p"
| "inputProp (PromiseOf _) p = None"

definition present :: "json option \<Rightarrow> bool" where
  "present x = (case x of None \<Rightarrow> False | Some j \<Rightarrow> truthy j)"

definition orJson :: "json option \<Rightarrow> json \<Rightarrow> json" where
  "orJson x d = (if present x then the x else d)"

definition optJson :: "string \<Rightarrow> json option \<Rightarrow> (string \<times> json) list" where
  "optJson k x = (case x of None \<Rightarrow> [] | Some j \<Rightarrow> [(k, j)])"

definition substr2 :: "nat \<Rightarrow> string \<Rightarrow> string" where
  "substr2 n s = take n (drop 2 s)"

definition numberOf :: "simulation \<Rightarrow> json option \<Rightarrow> rat option" where
  "numberOf sm x = (case x of None \<Rightarrow> None | Some j \<Rightarrow> sm_toNumber sm j)"

text \<open>\<^verbatim>\<open>NaN\<close> is stored as \<^verbatim>\<open>null\<close>.\<close>

definition numJson :: "simulation \<Rightarrow> rat option \<Rightarrow> json" where
  "numJson sm r = (case r of None \<Rightarrow> JNull | Some q \<Rightarrow> sm_number sm q)"

definition dateJson :: "simulation \<Rightarrow> nat \<Rightarrow> nat \<Rightarrow> json" where
  "dateJson sm n k = JStr (toISOString (sm_now sm n k))"

definition stepDef :: "string \<Rightarrow> nat \<Rightarrow> (stepInput \<Rightarrow> WorkflowContext \<Rightarrow> nat \<Rightarrow> settled) \<Rightarrow> StepDefinition" where
  "stepDef name maxRetries execute =
     \<lparr>sd_name = name, sd_execute = execute, sd_hasCompensate = True, sd_isIdempotent = True, sd_maxRetries = Some maxRetries,
      sd_timeout = None, sd_config = None\<rparr>"

section \<open>Deployment of a contract\<close>

definition validate_contract_code :: "simulation \<Rightarrow> stepInput \<Rightarrow> WorkflowContext \<Rightarrow> nat \<Rightarrow> settled" where
  "validate_contract_code sm input ctx n =
     (if \<not> present (inputProp input ''contractCode'') \<or> \<not> present (inputProp input ''contractName'')
      then Settled 0 (Inl (Error ''Contract code and name are required''))
      else Settled 1000 (Inr (JObj [(''isValid'', JBool True), (''validatedAt'', dateJson sm n 0),
             (''contractName'', the (inputProp input ''contractName'')), (''bytecode'', JStr ''0x1234567890abcdef'')])))"

definition deploy_contract :: "simulation \<Rightarrow> stepInput \<Rightarrow> WorkflowContext \<Rightarrow> nat \<Rightarrow> settled" where
  "deploy_contract sm input ctx n =
     (if \<not> present (propOf (propOf (x_metadata ctx) ''validate_contract_code'') ''isValid'')
      then Settled 0 (Inl (Error ''Contract validation failed''))
      else Settled 2000 (Inr (JObj [(''contractAddress'', JStr (''0x'' @ substr2 40 (sm_base16 sm n 0))),
             (''deploymentHash'', JStr (''0x'' @ substr2 64 (sm_base16 sm n 1))), (''deployedAt'', dateJson sm n 0),
             (''gasUsed'', JNum 1500000)])))"

definition verify_contract :: "simulation \<Rightarrow> stepInput \<Rightarrow> WorkflowContext \<Rightarrow> nat \<Rightarrow> settled" where
  "verify_contract sm input ctx n =
     (let address = propOf (propOf (x_metadata ctx) ''deploy_contract'') ''contractAddress''
      in if \<not> present address then Settled 0 (Inl (Error ''Contract deployment failed''))
         else Settled 1500 (Inr (JObj [(''contractAddress'', the address), (''verificationStatus'', JStr ''verified''),
                (''verifiedAt'', dateJson sm n 0),
                (''explorerUrl'', JStr (''https://etherscan.io/address/'' @ sm_show sm (the address)))])))"

definition index_contract :: "simulation \<Rightarrow> stepInput \<Rightarrow> WorkflowContext \<Rightarrow> nat \<Rightarrow> settled" where
  "index_contract sm input ctx n =
     (let address = propOf (propOf (x_metadata ctx) ''verify_contract'') ''contractAddress''
      in if \<not> present address then Settled 0 (Inl (Error ''Contract verification failed''))
         else Settled 1000 (Inr (JObj [(''contractAddress'', the address), (''indexedAt'', dateJson sm n 0),
                (''indexingStatus'', JStr ''completed''), (''abiHash'', JStr ''0xabcdef1234567890'')])))"

definition contractDeploymentWorkflow :: "simulation \<Rightarrow> WorkflowDefinition" where
  "contractDeploymentWorkflow sm =
     \<lparr>d_type = wfTypeName CONTRACT_DEPLOYMENT, d_name = ''Smart Contract Deployment'',
      d_description = ''Deploy a smart contract and verify it on the blockchain'',
      d_steps = [stepDef ''validate_contract_code'' 2 (validate_contract_code sm), stepDef ''deploy_contract'' 3 (deploy_contract sm),
                 stepDef ''verify_contract'' 3 (verify_contract sm), stepDef ''index_contract'' 2 (index_contract sm)],
      d_maxRetries = Some 3, d_timeout = None, d_requiresCompensation = Some True, d_metadata = None\<rparr>"

section \<open>Execution of a trade\<close>

definition validate_trade_params :: "simulation \<Rightarrow> stepInput \<Rightarrow> WorkflowContext \<Rightarrow> nat \<Rightarrow> settled" where
  "validate_trade_params sm input ctx n =
     (let amount = inputProp input ''amount''; number = numberOf sm amount
      in if \<not> present (inputProp input ''tokenA'') \<or> \<not> present (inputProp input ''tokenB'') \<or> \<not> present amount
         then Settled 0 (Inl (Error ''Missing required trade parameters''))
         else if (case number of None \<Rightarrow> False | Some a \<Rightarrow> a \<le> 0)
         then Settled 0 (Inl (Error ''Trade amount must be positive''))
         else Settled 500 (Inr (JObj [(''isValid'', JBool True), (''validatedAt'', dateJson sm n 0),
                (''expectedOutput'', numJson sm (map_option (\<lambda>a. a * 99 / 100) number)), (''gasEstimate'', JNum 150000)])))"

definition check_balance :: "simulation \<Rightarrow> stepInput \<Rightarrow> WorkflowContext \<Rightarrow> nat \<Rightarrow> settled" where
  "check_balance sm input ctx n =
     (let amount = inputProp input ''amount''; userBalance = sm_random sm n 0 * 1000
      in if (case numberOf sm amount of None \<Rightarrow> False | Some a \<Rightarrow> userBalance < a)
         then Settled 800 (Inl (Error (''Insufficient balance. Required: '' @ sm_show sm (the amount) @ '', Available: '' @
                sm_show sm (sm_number sm userBalance))))
         else Settled 800 (Inr (JObj [(''balance'', sm_number sm userBalance), (''sufficient'', JBool True),
                (''checkedAt'', dateJson sm n 0)])))"

definition execute_trade :: "simulation \<Rightarrow> stepInput \<Rightarrow> WorkflowContext \<Rightarrow> nat \<Rightarrow> settled" where
  "execute_trade sm input ctx n =
     (let slippage = inputProp input ''slippage'';
          rate = (if present slippage then numberOf sm slippage else Some (1 / 100));
          executedAmount = (case (numberOf sm (inputProp input ''amount''), rate) of
                (Some a, Some r) \<Rightarrow> Some (a * (1 - r * sm_random sm n 1)) | _ \<Rightarrow> None)
      in Settled 2000 (Inr (JObj [(''tradeHash'', JStr (''0x'' @ substr2 64 (sm_base16 sm n 0))),
            (''executedAmount'', numJson sm executedAmount),
            (''receivedAmount'', numJson sm (map_option (\<lambda>a. a * 98 / 100) executedAmount)), (''executedAt'', dateJson sm n 0),
            (''gasUsed'', JNum 120000), (''priceImpact'', sm_number sm (2 / 100))])))"

definition confirm_transaction :: "simulation \<Rightarrow> stepInput \<Rightarrow> WorkflowContext \<Rightarrow> nat \<Rightarrow> settled" where
  "confirm_transaction sm input ctx n =
     (let hash = propOf (propOf (x_metadata ctx) ''execute_trade'') ''tradeHash''
      in if \<not> present hash then Settled 0 (Inl (Error ''Trade execution failed''))
         else Settled 1500 (Inr (JObj [(''tradeHash'', the hash),
                (''blockNumber'', JNum (\<lfloor>sm_random sm n 0 * 1000000\<rfloor> + 18000000)),
                (''blockHash'', JStr (''0x'' @ substr2 64 (sm_base16 sm n 1))), (''confirmedAt'', dateJson sm n 0),
                (''confirmations'', JNum 1)])))"

definition update_portfolio :: "simulation \<Rightarrow> stepInput \<Rightarrow> WorkflowContext \<Rightarrow> nat \<Rightarrow> settled" where
  "update_portfolio sm input ctx n =
     (let trade = propOf (x_metadata ctx) ''execute_trade''; confirmation = propOf (x_metadata ctx) ''confirm_transaction''
      in if \<not> present (propOf trade ''tradeHash'') \<or> \<not> present (propOf confirmation ''blockNumber'')
         then Settled 0 (Inl (Error ''Trade not confirmed''))
         else Settled 1000 (Inr (JObj ([(''portfolioId'', JStr (''portfolio_'' @ strOr (x_userId ctx) ''anonymous'')),
                (''updatedAt'', dateJson sm n 0),
                (''tokenABalance'', numJson sm (map_option uminus (numberOf sm (propOf trade ''executedAmount''))))] @
                optJson ''tokenBBalance'' (propOf trade ''receivedAmount'') @ [(''lastTradeHash'', the (propOf trade ''tradeHash''))]))))"

definition tradeExecutionWorkflow :: "simulation \<Rightarrow> WorkflowDefinition" where
  "tradeExecutionWorkflow sm =
     \<lparr>d_type = wfTypeName TRADE_EXECUTION, d_name = ''Trade Execution'', d_description = ''Execute a trade and update portfolio'',
      d_steps = [stepDef ''validate_trade_params'' 2 (validate_trade_params sm), stepDef ''check_balance'' 2 (check_balance sm),
                 stepDef ''execute_trade'' 3 (execute_trade sm), stepDef ''confirm_transaction'' 3 (confirm_transaction sm),
                 stepDef ''update_portfolio'' 2 (update_portfolio sm)],
      d_maxRetries = Some 3, d_timeout = None, d_requiresCompensation = Some True, d_metadata = None\<rparr>"

section \<open>Speech to speech\<close>

text \<open>The polling loop: the attempt at which the job is seen to be complete, if one of those left is.\<close>

fun poll :: "(nat \<Rightarrow> rat) \<Rightarrow> rat \<Rightarrow> nat \<Rightarrow> nat \<Rightarrow> nat option" where
  "poll random threshold attempts 0 = None"
| "poll random threshold attempts (Suc left) =
     (if threshold < random attempts then Some attempts else poll random threshold (Suc attempts) left)"

definition awaitJob :: "simulation \<Rightarrow> nat \<Rightarrow> rat \<Rightarrow> nat \<Rightarrow> string \<Rightarrow> (string \<times> json) list \<Rightarrow> settled" where
  "awaitJob sm n threshold maxAttempts err result =
     (case poll (sm_random sm n) threshold 0 maxAttempts of
        Some k \<Rightarrow> Settled (10000 * (k + 1)) (Inr (JObj result))
      | None \<Rightarrow> Settled (10000 * maxAttempts) (Inl (Error err)))"

definition jobName :: "simulation \<Rightarrow> string \<Rightarrow> nat \<Rightarrow> json" where
  "jobName sm prefix n = JStr (prefix @ showInt (sm_now sm n 0) @ ''_'' @ substr2 9 (sm_base36 sm n 0))"

definition process_stt :: "simulation \<Rightarrow> stepInput \<Rightarrow> WorkflowContext \<Rightarrow> nat \<Rightarrow> settled" where
  "process_stt sm input ctx n =
     (let audioUrl = inputProp input ''audioUrl''
      in if \<not> present audioUrl then Settled 0 (Inl (Error ''Audio URL is required for STT processing''))
         else Settled 2000 (Inr (JObj [(''jobId'', jobName sm ''stt_'' n), (''audioUrl'', the audioUrl),
                (''language'', orJson (inputProp input ''language'') (JStr ''en-US'')), (''status'', JStr ''processing''),
                (''queuedAt'', dateJson sm n 1)])))"

definition await_stt_completion :: "simulation \<Rightarrow> stepInput \<Rightarrow> WorkflowContext \<Rightarrow> nat \<Rightarrow> settled" where
  "await_stt_completion sm input ctx n =
     (let jobId = propOf (propOf (x_metadata ctx) ''process_stt'') ''jobId''
      in if \<not> present jobId then Settled 0 (Inl (Error ''STT job not found''))
         else awaitJob sm n (3 / 10) 30 ''STT processing timed out''
                [(''jobId'', the jobId), (''transcribedText'', JStr ''This is the transcribed text from the audio input.''),
                 (''confidence'', sm_number sm (95 / 100)), (''completedAt'', dateJson sm n 0), (''wordCount'', JNum 8)])"

definition process_llm :: "simulation \<Rightarrow> stepInput \<Rightarrow> WorkflowContext \<Rightarrow> nat \<Rightarrow> settled" where
  "process_llm sm input ctx n =
     (let heard = propOf (propOf (x_metadata ctx) ''await_stt_completion'') ''transcribedText''
      in if \<not> present heard then Settled 0 (Inl (Error ''Transcribed text not available''))
         else Settled 3000 (Inr (JObj [(''jobId'', jobName sm ''llm_'' n), (''inputText'', the heard),
                (''promptTemplate'', orJson (inputProp input ''promptTemplate'') (JStr ''You are a helpful assistant.'')),
                (''model'', orJson (inputProp input ''model'') (JStr ''gpt-4'')), (''status'', JStr ''processing''),
                (''queuedAt'', dateJson sm n 1)])))"

definition await_llm_completion :: "simulation \<Rightarrow> stepInput \<Rightarrow> WorkflowContext \<Rightarrow> nat \<Rightarrow> settled" where
  "await_llm_completion sm input ctx n =
     (let job = propOf (x_metadata ctx) ''process_llm''; jobId = propOf job ''jobId''
      in if \<not> present jobId then Settled 0 (Inl (Error ''LLM job not found''))
         else awaitJob sm n (2 / 10) 60 ''LLM processing timed out''
                ([(''jobId'', the jobId), (''responseText'', JStr ''This is the AI-generated response to your query.''),
                  (''tokensUsed'', JNum 42), (''completedAt'', dateJson sm n 0)] @ optJson ''model'' (propOf job ''model'')))"

definition process_tts :: "simulation \<Rightarrow> stepInput \<Rightarrow> WorkflowContext \<Rightarrow> nat \<Rightarrow> settled" where
  "process_tts sm input ctx n =
     (let answer = propOf (propOf (x_metadata ctx) ''await_llm_completion'') ''responseText''
      in if \<not> present answer then Settled 0 (Inl (Error ''Response text not available for TTS''))
         else Settled 2500 (Inr (JObj [(''jobId'', jobName sm ''tts_'' n), (''inputText'', the answer),
                (''voice'', orJson (inputProp input ''voice'') (JStr ''alloy'')), (''speed'', orJson (inputProp input ''speed'') (JNum 1)),
                (''status'', JStr ''processing''), (''queuedAt'', dateJson sm n 1)])))"

definition await_tts_completion :: "simulation \<Rightarrow> stepInput \<Rightarrow> WorkflowContext \<Rightarrow> nat \<Rightarrow> settled" where
  "await_tts_completion sm input ctx n =
     (let job = propOf (x_metadata ctx) ''process_tts''; jobId = propOf job ''jobId''
      in if \<not> present jobId then Settled 0 (Inl (Error ''TTS job not found''))
         else awaitJob sm n (25 / 100) 30 ''TTS processing timed out''
                ([(''jobId'', the jobId), (''audioUrl'', JStr (''/uploads/tts/response_'' @ showInt (sm_now sm n 0) @ ''.mp3'')),
                  (''duration'', sm_number sm (35 / 10)), (''fileSize'', JNum 56789), (''completedAt'', dateJson sm n 1)] @
                 optJson ''voice'' (propOf job ''voice'')))"

definition deliver_final_result :: "simulation \<Rightarrow> stepInput \<Rightarrow> WorkflowContext \<Rightarrow> nat \<Rightarrow> settled" where
  "deliver_final_result sm input ctx n =
     (let speech = propOf (x_metadata ctx) ''await_tts_completion''; audioUrl = propOf speech ''audioUrl''
      in if \<not> present audioUrl then Settled 0 (Inl (Error ''Final audio result not available''))
         else Settled 500 (Inr (JObj ([(''audioUrl'', the audioUrl)] @ optJson ''duration'' (propOf speech ''duration'') @
                [(''deliveredAt'', dateJson sm n 0), (''deliveryMethod'', JStr ''websocket'')] @
                optJson ''userId'' (map_option JStr (x_userId ctx))))))"

definition aiJobChainWorkflow :: "simulation \<Rightarrow> WorkflowDefinition" where
  "aiJobChainWorkflow sm =
     \<lparr>d_type = wfTypeName AI_JOB_CHAIN, d_name = ''AI Job Chain Pipeline'',
      d_description = ''Execute STT -> LLM -> TTS pipeline for voice processing'',
      d_steps = [stepDef ''process_stt'' 2 (process_stt sm), stepDef ''await_stt_completion'' 5 (await_stt_completion sm),
                 stepDef ''process_llm'' 3 (process_llm sm), stepDef ''await_llm_completion'' 5 (await_llm_completion sm),
                 stepDef ''process_tts'' 2 (process_tts sm), stepDef ''await_tts_completion'' 5 (await_tts_completion sm),
                 stepDef ''deliver_final_result'' 1 (deliver_final_result sm)],
      d_maxRetries = Some 3, d_timeout = None, d_requiresCompensation = Some True, d_metadata = None\<rparr>"

section \<open>Registration\<close>

definition registerWorkflowDefinition ::
    "WorkflowDefinition \<Rightarrow> (string \<Rightarrow> WorkflowDefinition option) \<Rightarrow> string \<Rightarrow> WorkflowDefinition option" where
  "registerWorkflowDefinition d defs = defs(d_type d \<mapsto> d)"

definition onModuleInitBuiltins :: "simulation \<Rightarrow> (string \<Rightarrow> WorkflowDefinition option) \<Rightarrow> string \<Rightarrow> WorkflowDefinition option" where
  "onModuleInitBuiltins sm defs =
     registerWorkflowDefinition (aiJobChainWorkflow sm)
       (registerWorkflowDefinition (tradeExecutionWorkflow sm) (registerWorkflowDefinition (contractDeploymentWorkflow sm) defs))"

section \<open>A first step that refuses what the engine hands it\<close>

context wf_tables
begin

lemma executeWorkflow_refused:
  assumes "d_steps def = sd # sds" and "d_timeout def = None" and "sd_timeout sd = None"
    and "\<And>input ctx n. sd_execute sd (PromiseOf input) ctx n = Settled d (Inl (Error reason))"
    and "workflowDefinitions env (w_type w) = Some def" and "w_state w = PENDING"
    and "stepRows env (w_id w) s = p # ps" and "s_stepIndex p = 0" and "s_state p = SPENDING"
    and "s_retryCount p = 0" and "0 < s_maxRetries p"
  shows "\<exists>s'. executeWorkflow env w s =
      (Inl (Error (''Step '' @ s_stepName p @ '' failed after '' @ showNat (s_maxRetries p) @ '' retries: '' @ reason)), s') \<and>
    calls s' = calls s + s_maxRetries p"
proof -
  let ?w1 = "w\<lparr>w_state := RUNNING, w_startedAt := Some (nowOf env s)\<rparr>"
  let ?s1 = "saveWorkflow env ?w1 (tick s)"
  let ?w2 = "?w1\<lparr>w_currentStepIndex := 0\<rparr>"
  let ?s2 = "saveWorkflow env ?w2 ?s1"
  have rows: "rFindOrd (stRepo env) (\<lambda>p. s_workflowId p = w_id ?w1) (\<lambda>a b. s_stepIndex a \<le> s_stepIndex b) (stTab ?s1) = p # ps"
    using assms(7) by (simp add: stepRows_def)
  have m: "max 1 (s_maxRetries p - s_retryCount p) = s_maxRetries p" "s_retryCount p + s_maxRetries p = s_maxRetries p"
    "s_state p \<in> {SPENDING, SFAILED}" "\<not> is_timeout (Error reason)" using assms(9-11) by simp_all
  obtain s' where step: "executeStep env ?w2 p (Some sd) None ?s2 =
      (Inl (Error (''Step '' @ s_stepName p @ '' failed after '' @ showNat (s_maxRetries p) @ '' retries: '' @ reason)), s')"
    "calls s' = calls ?s2 + s_maxRetries p"
    using executeStep_exhausts_run [OF assms(4) m(4) assms(3) refl m(3), of ?w2 ?s2] unfolding m(1,2) message.simps by metis
  have "transitionWorkflow (w_state w) RUNNING = None" using assms(6) by (simp add: sm_defs)
  then show ?thesis using assms(1,2,5,8) step rows
    by (simp add: executeWorkflow_def executeSteps_def Let_def nthOpt_def)
qed

end

context wf_engine
begin

lemma newSteps_rows:
  assumes "\<forall>i p. getSt env s i = Some p \<longrightarrow> s_workflowId p \<noteq> newId" and "inj stepIds" and "d_steps def = sd # sds"
  shows "\<exists>p ps. stepRows env newId (fold (saveStep env) (newSteps def newId stepIds t) s) = p # ps \<and>
    s_stepIndex p = 0 \<and> s_state p = SPENDING \<and> s_retryCount p = 0 \<and> s_maxRetries p = numOr (sd_maxRetries sd) 3 \<and>
    s_stepName p = sd_name sd"
proof -
  let ?new = "newSteps def newId stepIds t"
  let ?s = "fold (saveStep env) ?new s"
  have dist: "distinct (map s_id ?new)"
    unfolding newSteps_ids using assms(2) by (simp add: distinct_map inj_on_def inj_def)
  have from_new: "\<exists>q \<in> set ?new. \<exists>u. r = q\<lparr>s_updatedAt := u\<rparr>" if "r \<in> set (stepRows env newId ?s)" for r
  proof -
    have g: "getSt env ?s (s_id r) = Some r" "s_workflowId r = newId" using that by (simp_all add: stepRows_iff)
    show ?thesis
    proof (cases "s_id r \<in> s_id ` set ?new")
      case True
      then obtain q where q: "q \<in> set ?new" "s_id q = s_id r" by auto
      obtain u where u: "getSt env ?s (s_id r) = Some (q\<lparr>s_updatedAt := u\<rparr>)"
        using fold_saveStep_in [OF dist q(1), of s, unfolded q(2)] by blast
      have "r = q\<lparr>s_updatedAt := u\<rparr>" by (rule option.inject [THEN iffD1, OF trans [OF sym [OF g(1)] u]])
      with q(1) show ?thesis by blast
    next
      case False
      then have "getSt env s (s_id r) = Some r" using fold_saveStep_out [OF False, of s] g(1) by simp
      with assms(1) g(2) show ?thesis by blast
    qed
  qed
  let ?p0 = "newStep newId (stepIds 0) 0 sd t"
  have p0: "?p0 \<in> set ?new" by (simp add: newSteps_def assms(3))
  obtain u where "getSt env ?s (s_id ?p0) = Some (?p0\<lparr>s_updatedAt := u\<rparr>)" using fold_saveStep_in [OF dist p0] by blast
  then have in0: "?p0\<lparr>s_updatedAt := u\<rparr> \<in> set (stepRows env newId ?s)" by (simp add: stepRows_iff newStep_def)
  then obtain p ps where rows: "stepRows env newId ?s = p # ps" by (cases "stepRows env newId ?s") auto
  have "sorted_wrt (\<lambda>a b. s_stepIndex a \<le> s_stepIndex b) (stepRows env newId ?s)"
    unfolding stepRows_def by (rule S.findOrd_sorted) (rule total_preorder_key)
  with in0 rows have "s_stepIndex p \<le> s_stepIndex (?p0\<lparr>s_updatedAt := u\<rparr>)" by (auto simp: newStep_def)
  then have i: "s_stepIndex p = 0" by (simp add: newStep_def)
  obtain q v where q: "q \<in> set ?new" "p = q\<lparr>s_updatedAt := v\<rparr>" using from_new rows by fastforce
  with i have "q = ?p0" by (auto simp: newSteps_def newStep_def in_set_enumerate_eq assms(3))
  with q(2) rows i show ?thesis by (auto simp: newStep_def)
qed

lemma startWorkflow_refused:
  fixes s :: "('wt, 'st, 'r) world"
  assumes "workflowDefinitions env ty = Some def"
    and none: "rFindOne (wfRepo env) (\<lambda>w. w_idempotencyKey w = startKey env ty input userId context s) (wfTab s) = None"
    and free: "look (rstore s) (getWorkflowLockKey (startKey env ty input userId context s)) = None"
    and ids: "inj stepIds" "\<forall>i p. getSt env s i = Some p \<longrightarrow> s_workflowId p \<noteq> newId"
    and d: "d_steps def = sd # sds" "d_timeout def = None" "sd_timeout sd = None" "numOr (sd_maxRetries sd) 3 = m" "0 < m"
    and refuses: "\<And>j ctx n. sd_execute sd (PromiseOf j) ctx n = Settled dur (Inl (Error reason))"
  shows "\<exists>s'. startWorkflow env newId stepIds token obs ty input userId walletAddress context s =
      Some (Inl (Error (''Step '' @ sd_name sd @ '' failed after '' @ showNat m @ '' retries: '' @ reason)), s') \<and>
    calls s' = calls s + m"
proof -
  let ?key = "startKey env ty input userId context s"
  let ?lk = "getWorkflowLockKey ?key"
  have "look (rstore (tick s)) ?lk = None" using free by simp
  then obtain r1 where acq: "acquireWorkflowLock env ?lk token 3600 (tick s) = (True, (tick s)\<lparr>rstore := r1\<rparr>)"
    using lock_free by blast
  define s1 where "s1 = (tick s)\<lparr>rstore := r1\<rparr>"
  define wn where "wn = newWorkflow def newId ?key ty input userId walletAddress context (nowOf env s1)"
  define s2 where "s2 = saveWorkflow env wn s1"
  define ps where "ps = newSteps def newId stepIds (nowOf env s2)"
  define s3 where "s3 = fold (saveStep env) ps s2"
  have wn: "w_id wn = newId" "w_type wn = ty" "w_state wn = PENDING" by (simp_all add: wn_def newWorkflow_def)
  have s2: "\<forall>i p. getSt env s2 i = Some p \<longrightarrow> s_workflowId p \<noteq> newId" using ids(2) by (simp add: s2_def s1_def)
  obtain p qs where rows: "stepRows env (w_id wn) s3 = p # qs" and p: "s_stepIndex p = 0" "s_state p = SPENDING" "s_retryCount p = 0"
      "s_maxRetries p = m" "s_stepName p = sd_name sd"
    using newSteps_rows [OF s2 ids(1) d(1), where t = "nowOf env s2"] unfolding s3_def ps_def wn(1) d(4) by blast
  have def: "workflowDefinitions env (w_type wn) = Some def" using assms(1) wn(2) by simp
  have m: "0 < s_maxRetries p" using d(5) p(4) by simp
  obtain s4 where run: "executeWorkflow env wn s3 =
      (Inl (Error (''Step '' @ sd_name sd @ '' failed after '' @ showNat m @ '' retries: '' @ reason)), s4)" "calls s4 = calls s3 + m"
    using executeWorkflow_refused [OF d(1-3) refuses def wn(3) rows p(1-3) m] unfolding p(4,5) by blast
  have c: "calls s3 = calls s" unfolding s3_def s2_def s1_def by (induction ps arbitrary: s rule: rev_induct) simp_all
  have "startWorkflow env newId stepIds token obs ty input userId walletAddress context s =
      Some (Inl (Error (''Step '' @ sd_name sd @ '' failed after '' @ showNat m @ '' retries: '' @ reason)), releaseWorkflowLock env ?lk token s4)"
    using assms(1) none acq run(1)
    by (simp add: startWorkflow_def startKey_def [symmetric] Let_def s1_def [symmetric] wn_def [symmetric]
        s2_def [symmetric] newSteps_def [symmetric] ps_def [symmetric] s3_def [symmetric])
  moreover have "calls (releaseWorkflowLock env ?lk token s4) = calls s4" by (simp add: releaseWorkflowLock_def)
  ultimately show ?thesis using run(2) c by simp
qed

end

section \<open>The operations\<close>

text \<open>
  The later steps look for what the steps before them returned in the context of the workflow, where the engine puts
  nothing: unless the caller of the start has supplied it, they fail on every input.
\<close>

lemma later_steps_refuse:
  assumes "x_metadata ctx = None"
  shows "\<exists>e. deploy_contract sm input ctx n = Settled 0 (Inl e)" "\<exists>e. verify_contract sm input ctx n = Settled 0 (Inl e)"
    "\<exists>e. index_contract sm input ctx n = Settled 0 (Inl e)" "\<exists>e. confirm_transaction sm input ctx n = Settled 0 (Inl e)"
    "\<exists>e. update_portfolio sm input ctx n = Settled 0 (Inl e)" "\<exists>e. await_stt_completion sm input ctx n = Settled 0 (Inl e)"
    "\<exists>e. process_llm sm input ctx n = Settled 0 (Inl e)" "\<exists>e. await_llm_completion sm input ctx n = Settled 0 (Inl e)"
    "\<exists>e. process_tts sm input ctx n = Settled 0 (Inl e)" "\<exists>e. await_tts_completion sm input ctx n = Settled 0 (Inl e)"
    "\<exists>e. deliver_final_result sm input ctx n = Settled 0 (Inl e)"
  using assms by (simp_all add: deploy_contract_def verify_contract_def index_contract_def confirm_transaction_def update_portfolio_def
      await_stt_completion_def process_llm_def await_llm_completion_def process_tts_def await_tts_completion_def
      deliver_final_result_def propOf_def present_def)

text \<open>Polling ends: a job is awaited for at most ten seconds an attempt.\<close>

lemma poll_bounds: "poll random threshold k left = Some i \<Longrightarrow> k \<le> i \<and> i < k + left \<and> threshold < random i"
  by (induction random threshold k left rule: poll.induct) (auto split: if_splits)

lemma awaitJob_bounds:
  assumes "awaitJob sm n threshold maxAttempts err result = Settled d r"
  shows "d \<le> 10000 * maxAttempts \<and> (r = Inr (JObj result) \<or> r = Inl (Error err))"
  using assms poll_bounds [of "sm_random sm n" threshold 0 maxAttempts]
  by (auto simp: awaitJob_def split: option.splits)

section \<open>The built-in workflows\<close>

lemmas builtin_defs = onModuleInitBuiltins_def registerWorkflowDefinition_def contractDeploymentWorkflow_def tradeExecutionWorkflow_def
  aiJobChainWorkflow_def stepDef_def validate_contract_code_def validate_trade_params_def process_stt_def present_def numOr_def

lemma builtin_first:
  assumes "(ty, step, reason) \<in> {(''contract_deployment'', ''validate_contract_code'', ''Contract code and name are required''),
           (''trade_execution'', ''validate_trade_params'', ''Missing required trade parameters''),
           (''ai_job_chain'', ''process_stt'', ''Audio URL is required for STT processing'')}"
  shows "\<exists>def sd sds. onModuleInitBuiltins sm defs ty = Some def \<and> d_steps def = sd # sds \<and> d_timeout def = None \<and> sd_timeout sd = None \<and>
    numOr (sd_maxRetries sd) 3 = 2 \<and> sd_name sd = step \<and>
    (\<forall>j ctx n. sd_execute sd (PromiseOf j) ctx n = Settled 0 (Inl (Error reason)))"
  using assms by (auto simp: builtin_defs)


definition sampleSim :: simulation where
  "sampleSim = \<lparr>sm_now = (\<lambda>n k. int k), sm_random = (\<lambda>n k. 1 / 2), sm_base16 = (\<lambda>n k. ''0.8''), sm_base36 = (\<lambda>n k. ''0.i''),
     sm_number = (\<lambda>r. JNum \<lfloor>r\<rfloor>), sm_toNumber = (\<lambda>j. case j of JNum i \<Rightarrow> Some (of_int i) | _ \<Rightarrow> None), sm_show = stringify None\<rparr>"


end
