(* ===== verification/Stellar_Controller.thy ===== *)
theory Stellar_Controller
  imports Stellar_Monitor Redis
begin

text \<open>
  The HTTP interface of the Stellar monitor, \<^verbatim>\<open>stellar-monitor/controllers/stellar-monitor.controller.ts\<close>, over the
  consumer, event, delivery and monitor services, with the simulated offers and the status of the monitor. The
  interface keeps the tables (\<open>mon\<close>) and the monitor's own state (\<open>monitorSvc\<close>). The properties are about
  sequences of requests between which the services go on working.
\<close>

section \<open>Monitor\<close>

text \<open>The price is the text of a floating-point quotient; \<open>priceText\<close> computes it.\<close>

definition simulateOfferEvent ::
    "('et, 'ct) menv \<Rightarrow> (string \<Rightarrow> string \<Rightarrow> string) \<Rightarrow> string \<Rightarrow> string \<Rightarrow> monitorSvc \<Rightarrow> string \<Rightarrow> string \<Rightarrow> string \<Rightarrow>
     (('et, 'ct) mon, StellarEvent) action" where
  "simulateOfferEvent env priceText uuid1 uuid2 m seller sellingAmount buyingAmount s =
     storeAndQueue env
       \<lparr>v_id = uuid1, v_eventType = OFFER, v_ledgerSequence = lastLedgerSequence m + 1, v_timestamp = mnow env s,
        v_transactionHash = ''simulated-'' @ uuid2, v_sourceAccount = seller,
        v_payload = JObj [(''offerId'', JStr (''simulated-'' @ showInt (mnow env (mtick s)))), (''seller'', JStr seller),
           (''sellingAssetType'', JStr ''credit_alphanum4''), (''sellingAssetCode'', JStr ''USD''),
           (''sellingAssetIssuer'', JStr ''GAIH3ULLFQ4DGSECF2AR555KZ4KNDGEKN4AFI4SU2M7B43MGK3QJZNSR''),
           (''buyingAssetType'', JStr ''native''), (''amount'', JStr sellingAmount),
           (''price'', JStr (priceText buyingAmount sellingAmount)), (''type'', JStr ''create''), (''simulated'', JBool True)]\<rparr>
       (mtick (mtick s))"

record monitorStatus =
  mo_isMonitoring :: bool
  mo_lastLedgerSequence :: int
  mo_horizonUrl :: string

definition getStatus :: "string \<Rightarrow> monitorSvc \<Rightarrow> monitorStatus" where
  "getStatus url m =
     \<lparr>mo_isMonitoring = isMonitoring m, mo_lastLedgerSequence = lastLedgerSequence m, mo_horizonUrl = url\<rparr>"

section \<open>Answers\<close>

fun isHttpException :: "js_error \<Rightarrow> bool" where
  "isHttpException (Error _) = False"
| "isHttpException (WorkflowTimeoutError _) = False"
| "isHttpException _ = True"

text \<open>The status a request is answered with when its handler throws.\<close>

fun statusOf :: "js_error \<Rightarrow> nat" where
  "statusOf (Error _) = 500"
| "statusOf (WorkflowTimeoutError _) = 500"
| "statusOf (UnauthorizedException _) = 401"
| "statusOf (NotFoundException _) = 404"
| "statusOf (BadRequestException _) = 400"
| "statusOf (ConflictException _) = 409"
| "statusOf (ForbiddenException _) = 403"
| "statusOf (HttpException _ n) = n"

definition answerWith :: "nat \<Rightarrow> js_error + 'a \<Rightarrow> js_error + 'a" where
  "answerWith n r = (case r of Inl e \<Rightarrow> Inl (HttpException (message e) n) | Inr x \<Rightarrow> Inr x)"

definition rethrow :: "nat \<Rightarrow> ('s, 'a) action \<Rightarrow> ('s, 'a) action" where
  "rethrow n f s = (case f s of (r, s') \<Rightarrow> (answerWith n r, s'))"

section \<open>Consumers\<close>

definition createConsumerRoute ::
    "('et, 'ct) menv \<Rightarrow> string \<Rightarrow> CreateConsumerDto \<Rightarrow> (('et, 'ct) mon, WebhookConsumer) action" where
  "createConsumerRoute env newId d = rethrow 400 (createConsumer env newId d)"

definition getConsumersRoute :: "('et, 'ct) menv \<Rightarrow> string option \<Rightarrow> ('et, 'ct) mon \<Rightarrow> WebhookConsumer list" where
  "getConsumersRoute env activeOnly s = getAllConsumers env (activeOnly = Some ''true'') s"

definition getConsumerRoute :: "('et, 'ct) menv \<Rightarrow> string \<Rightarrow> ('et, 'ct) mon \<Rightarrow> js_error + WebhookConsumer" where
  "getConsumerRoute env i s = answerWith 404 (getConsumerById env i s)"

definition updateConsumerRoute ::
    "('et, 'ct) menv \<Rightarrow> string \<Rightarrow> UpdateConsumerDto \<Rightarrow> (('et, 'ct) mon, WebhookConsumer) action" where
  "updateConsumerRoute env i d s =
     (case updateConsumer env i d s of
        (Inl e, s1) \<Rightarrow> (Inl (if isHttpException e then e else HttpException (message e) 400), s1)
      | (Inr c, s1) \<Rightarrow> (Inr c, s1))"

definition deleteConsumerRoute :: "('et, 'ct) menv \<Rightarrow> string \<Rightarrow> (('et, 'ct) mon, unit) action" where
  "deleteConsumerRoute env i = rethrow 404 (deleteConsumer env i)"

definition activateRoute :: "('et, 'ct) menv \<Rightarrow> string \<Rightarrow> (('et, 'ct) mon, WebhookConsumer) action" where
  "activateRoute env i = rethrow 404 (activateConsumer env i)"

definition deactivateRoute :: "('et, 'ct) menv \<Rightarrow> string \<Rightarrow> (('et, 'ct) mon, WebhookConsumer) action" where
  "deactivateRoute env i = rethrow 404 (deactivateConsumer env i)"

record testReply =
  tr_consumerId :: string
  tr_success :: bool
  tr_statusCode :: "nat option"
  tr_errorMessage :: "string option"

definition testConsumerRoute :: "('et, 'ct) menv \<Rightarrow> string \<Rightarrow> (('et, 'ct) mon, testReply) action" where
  "testConsumerRoute env i s =
     (case rethrow 404 (deliverTestEvent env i) s of
        (Inl e, s1) \<Rightarrow> (Inl e, s1)
      | (Inr r, s1) \<Rightarrow>
          (Inr \<lparr>tr_consumerId = i, tr_success = r_success r, tr_statusCode = r_statusCode r, tr_errorMessage = r_errorMessage r\<rparr>, s1))"

section \<open>Events\<close>

fun deliveryStatusName :: "DeliveryStatus \<Rightarrow> string" where
  "deliveryStatusName DPENDING = ''pending''"
| "deliveryStatusName DELIVERED = ''delivered''"
| "deliveryStatusName DFAILED = ''failed''"
| "deliveryStatusName RETRYING = ''retrying''"

text \<open>
  The filters are strings that nothing validates: an empty one does not filter and one that names no value of its
  enum selects no row. TypeORM refuses \<^verbatim>\<open>NaN\<close> and the database a negative offset or limit.
\<close>

definition byName :: "('a \<Rightarrow> string) \<Rightarrow> string option \<Rightarrow> 'a \<Rightarrow> bool" where
  "byName name q x = (strTruthy q \<longrightarrow> Some (name x) = q)"

definition getEventsRoute ::
    "('et, 'ct) menv \<Rightarrow> string option \<Rightarrow> string option \<Rightarrow> string option \<Rightarrow> string option \<Rightarrow> ('et, 'ct) mon \<Rightarrow>
     js_error + (StellarEvent list \<times> nat \<times> int \<times> int)" where
  "getEventsRoute env page limit eventType deliveryStatus s =
     (case (parseIntJs (strOr page ''1''), parseIntJs (strOr limit ''50'')) of
        (Some pageNum, Some limitNum) \<Rightarrow>
          (let P = (\<lambda>e. byName eventTypeName eventType (e_eventType e) \<and>
                        byName deliveryStatusName deliveryStatus (e_deliveryStatus e));
               skip = (pageNum - 1) * limitNum;
               rest = drop (nat skip) (rFindOrd (evRepo env) P (\<lambda>a b. e_timestamp b \<le> e_timestamp a) (evTab s))
           in if skip < 0 then Inl (Error ''OFFSET must not be negative'')
              else if limitNum < 0 then Inl (Error ''LIMIT must not be negative'')
              else Inr (if limitNum = 0 then rest else take (nat limitNum) rest, rCount (evRepo env) P (evTab s), pageNum, limitNum))
      | _ \<Rightarrow> Inl (Error ''Provided skip or take value is not a number''))"

definition getEventRoute :: "('et, 'ct) menv \<Rightarrow> string \<Rightarrow> ('et, 'ct) mon \<Rightarrow> js_error + StellarEvent" where
  "getEventRoute env i s =
     (case getEventById env i s of None \<Rightarrow> Inl (HttpException ''Event not found'' 404) | Some e \<Rightarrow> Inr e)"

definition getStatsRoute ::
    "('et, 'ct) menv \<Rightarrow> string \<Rightarrow> monitorSvc \<Rightarrow> ('et, 'ct) mon \<Rightarrow> eventStats \<times> consumerStats \<times> (nat \<times> nat \<times> nat) \<times> monitorStatus" where
  "getStatsRoute env url m s = (getEventStats env s, getConsumerStats env s, getDeliveryStats env s, getStatus url m)"

section \<open>Control and simulation\<close>

definition startRoute :: "string \<Rightarrow> js_error + int \<Rightarrow> (monitorSvc, string \<times> monitorStatus) action" where
  "startRoute url ledger m =
     (case startMonitoring ledger m of
        (Inl e, m1) \<Rightarrow> (Inl e, m1)
      | (Inr _, m1) \<Rightarrow> (Inr (''Monitoring started successfully'', getStatus url m1), m1))"

definition stopRoute :: "monitorSvc \<Rightarrow> string \<times> monitorSvc" where
  "stopRoute m = (''Monitoring stopped successfully'', stopMonitoring m)"

text \<open>A default parameter replaces \<^verbatim>\<open>undefined\<close> only, \<^verbatim>\<open>||\<close> the empty string as well.\<close>

definition simulatePaymentRoute ::
    "('et, 'ct) menv \<Rightarrow> string \<Rightarrow> string \<Rightarrow> monitorSvc \<Rightarrow> string option \<Rightarrow> string option \<Rightarrow> string option \<Rightarrow> string option \<Rightarrow>
     (('et, 'ct) mon, StellarEvent) action" where
  "simulatePaymentRoute env uuid1 uuid2 m sender receiver amount assetType =
     simulatePaymentEvent env uuid1 uuid2 m
       (orKeep sender ''GAIH3ULLFQ4DGSECF2AR555KZ4KNDGEKN4AFI4SU2M7B43MGK3QJZNSR'')
       (orKeep receiver ''GA5ZSEJYB37JRC5AVCIA5MOP4RHTM335X2KGX3IHOJAPP5RE34K4KZVN'')
       (strOr amount ''100'') (strOr assetType ''native'')"

definition simulateOfferRoute ::
    "('et, 'ct) menv \<Rightarrow> (string \<Rightarrow> string \<Rightarrow> string) \<Rightarrow> string \<Rightarrow> string \<Rightarrow> monitorSvc \<Rightarrow> string option \<Rightarrow> string option \<Rightarrow>
     string option \<Rightarrow> (('et, 'ct) mon, StellarEvent) action" where
  "simulateOfferRoute env priceText uuid1 uuid2 m seller sellingAmount buyingAmount =
     simulateOfferEvent env priceText uuid1 uuid2 m
       (orKeep seller ''GAIH3ULLFQ4DGSECF2AR555KZ4KNDGEKN4AFI4SU2M7B43MGK3QJZNSR'')
       (strOr sellingAmount ''1000'') (strOr buyingAmount ''50'')"

section \<open>The interface as a whole\<close>

datatype apiRequest =
    CreateConsumer string CreateConsumerDto
  | GetConsumers "string option"
  | GetConsumer string
  | UpdateConsumer string UpdateConsumerDto
  | DeleteConsumer string
  | ActivateConsumer string
  | DeactivateConsumer string
  | TestConsumer string
  | GetEvents "string option" "string option" "string option" "string option"
  | GetEvent string
  | GetStats
  | StartMonitoring "js_error + int"
  | StopMonitoring
  | GetMonitoringStatus
  | SimulatePayment string string "string option" "string option" "string option" "string option"
  | SimulateOffer string string "string option" "string option" "string option"

text \<open>A handler that returns is answered with 201 for a \<^verbatim>\<open>POST\<close> and with 200 otherwise.\<close>

definition answered :: "nat \<Rightarrow> (js_error + 'a) \<times> 's \<Rightarrow> nat \<times> 's" where
  "answered n p = (case p of (Inl e, s) \<Rightarrow> (statusOf e, s) | (Inr _, s) \<Rightarrow> (n, s))"

definition withSvc :: "monitorSvc \<Rightarrow> nat \<times> ('et, 'ct) mon \<Rightarrow> nat \<times> ('et, 'ct) mon \<times> monitorSvc" where
  "withSvc m p = (fst p, snd p, m)"

fun handleApi ::
    "('et, 'ct) menv \<Rightarrow> string \<Rightarrow> (string \<Rightarrow> string \<Rightarrow> string) \<Rightarrow> apiRequest \<Rightarrow> ('et, 'ct) mon \<times> monitorSvc \<Rightarrow>
     nat \<times> ('et, 'ct) mon \<times> monitorSvc" where
  "handleApi env url pt (CreateConsumer newId d) (s, m) = withSvc m (answered 201 (createConsumerRoute env newId d s))"
| "handleApi env url pt (GetConsumers q) (s, m) = (200, s, m)"
| "handleApi env url pt (GetConsumer i) (s, m) = withSvc m (answered 200 (getConsumerRoute env i s, s))"
| "handleApi env url pt (UpdateConsumer i d) (s, m) = withSvc m (answered 200 (updateConsumerRoute env i d s))"
| "handleApi env url pt (DeleteConsumer i) (s, m) = withSvc m (answered 200 (deleteConsumerRoute env i s))"
| "handleApi env url pt (ActivateConsumer i) (s, m) = withSvc m (answered 201 (activateRoute env i s))"
| "handleApi env url pt (DeactivateConsumer i) (s, m) = withSvc m (answered 201 (deactivateRoute env i s))"
| "handleApi env url pt (TestConsumer i) (s, m) = withSvc m (answered 201 (testConsumerRoute env i s))"
| "handleApi env url pt (GetEvents p l t d) (s, m) = withSvc m (answered 200 (getEventsRoute env p l t d s, s))"
| "handleApi env url pt (GetEvent i) (s, m) = withSvc m (answered 200 (getEventRoute env i s, s))"
| "handleApi env url pt GetStats (s, m) = (200, s, m)"
| "handleApi env url pt (StartMonitoring ledger) (s, m) =
     (case answered 201 (startRoute url ledger m) of (n, m1) \<Rightarrow> (n, s, m1))"
| "handleApi env url pt StopMonitoring (s, m) = (201, s, snd (stopRoute m))"
| "handleApi env url pt GetMonitoringStatus (s, m) = (200, s, m)"
| "handleApi env url pt (SimulatePayment u1 u2 a b c d) (s, m) =
     withSvc m (answered 201 (simulatePaymentRoute env u1 u2 m a b c d s))"
| "handleApi env url pt (SimulateOffer u1 u2 a b c) (s, m) =
     withSvc m (answered 201 (simulateOfferRoute env pt u1 u2 m a b c s))"

text \<open>The consumer a request is about.\<close>

fun consumerOf :: "apiRequest \<Rightarrow> string option" where
  "consumerOf (GetConsumer i) = Some i"
| "consumerOf (UpdateConsumer i _) = Some i"
| "consumerOf (DeleteConsumer i) = Some i"
| "consumerOf (ActivateConsumer i) = Some i"
| "consumerOf (DeactivateConsumer i) = Some i"
| "consumerOf (TestConsumer i) = Some i"
| "consumerOf _ = None"

text \<open>A request whose body has passed the validation of its DTO; the identifier of a new consumer is fresh.\<close>

fun validRequest :: "('et, 'ct) menv \<Rightarrow> ('et, 'ct) mon \<Rightarrow> apiRequest \<Rightarrow> bool" where
  "validRequest env s (CreateConsumer newId d) = (getCo env s newId = None)"
| "validRequest env s (UpdateConsumer i d) = (ud_url d \<noteq> Some [])"
| "validRequest env s _ = True"

text \<open>Requests, the delivery queue and its timers, records from the streams, stream errors and restarts, in any order.\<close>

inductive api_step ::
    "('et, 'ct) menv \<Rightarrow> string \<Rightarrow> (string \<Rightarrow> string \<Rightarrow> string) \<Rightarrow> ('et, 'ct) mon \<times> monitorSvc \<Rightarrow> ('et, 'ct) mon \<times> monitorSvc \<Rightarrow> bool"
  for env url pt where
  request: "validRequest env s req \<Longrightarrow> api_step env url pt (s, m) (snd (handleApi env url pt req (s, m)))"
| queue: "api_step env url pt (s, m) (processQueue env s, m)"
| retry: "api_step env url pt (s, m) (fireRetry env s, m)"
| payment: "api_step env url pt (s, m) (handlePaymentEvent env uuid p s, m)"
| operation: "api_step env url pt (s, m) (onOperation env uuid offer s, m)"
| streams: "monitor_step m m' \<Longrightarrow> api_step env url pt (s, m) (s, m')"

lemmas consumer_routes =
  createConsumerRoute_def getConsumerRoute_def updateConsumerRoute_def deleteConsumerRoute_def activateRoute_def deactivateRoute_def
  testConsumerRoute_def rethrow_def answerWith_def answered_def withSvc_def

lemma updateEventStatus_coTab: "coTab (snd (updateEventStatus env i st c m s)) = coTab s"
  by (simp add: updateEventStatus_def Let_def split: option.splits)

lemma markEventAsProcessed_coTab: "coTab (snd (markEventAsProcessed env i s)) = coTab s"
  by (simp add: markEventAsProcessed_def Let_def split: option.splits)

lemma attemptDelivery_coTab: "coTab (snd (attemptDelivery env e c s)) = coTab s"
  by (simp add: attemptDelivery_def Let_def split: sum.splits prod.splits)

lemma deliverTestEvent_coTab: "coTab (snd (deliverTestEvent env i s)) = coTab s"
  by (auto simp: deliverTestEvent_def Let_def split: sum.splits prod.splits)

lemma saveEvent_coTab: "coTab (snd (saveEvent env d s)) = coTab s"
  by (simp add: saveEvent_def Let_def)

lemma coInv_fields [simp]:
  "coInv env (s\<lparr>deliveryQueue := q\<rparr>) = coInv env s" "coInv env (s\<lparr>retryTimers := r\<rparr>) = coInv env s"
  "coInv env (s\<lparr>isProcessingQueue := b\<rparr>) = coInv env s"
  "coInv env (snd (updateEventStatus env i st c m s)) = coInv env s" "coInv env (snd (markEventAsProcessed env i s)) = coInv env s"
  "coInv env (snd (attemptDelivery env e fc s)) = coInv env s" "coInv env (snd (saveEvent env d s)) = coInv env s"
  by (rule coInv_frame, simp add: updateEventStatus_coTab markEventAsProcessed_coTab attemptDelivery_coTab saveEvent_coTab)+

context mon_tables
begin

lemma coInv_failed:
  assumes "coInv env s"
  shows "coInv env (snd (handleFailedDelivery env e c m s))"
  using coInv_stats [OF assms] by (simp add: handleFailedDelivery_def Let_def split_beta split: sum.split)

lemma coInv_delivered:
  assumes "coInv env s"
  shows "coInv env (snd (handleSuccessfulDelivery env e c s))"
  using assms coInv_stats [of "snd (updateEventStatus env (e_id e) DELIVERED (Some (c_id c)) None s)"]
  by (simp add: handleSuccessfulDelivery_def Let_def split_beta split: sum.split)

lemma coInv_deliver:
  assumes "coInv env s"
  shows "coInv env (snd (deliverEventToConsumer env (e, c) s))"
  using assms coInv_failed [of "snd (attemptDelivery env e fc s)" for fc] coInv_failed [of s]
    coInv_delivered [of "snd (attemptDelivery env e fc s)" for fc]
  by (simp add: deliverEventToConsumer_def Let_def split_beta coInv_failed coInv_delivered split: sum.split)

lemma coInv_queue:
  assumes "coInv env s"
  shows "coInv env (processQueue env s)"
proof -
  let ?s1 = "s\<lparr>isProcessingQueue := True, deliveryQueue := drop 10 (deliveryQueue s)\<rparr>"
  have "coInv env ?s1" using assms by simp
  then have "coInv env (forEachLogged (deliverEventToConsumer env) (take 10 (deliveryQueue s)) ?s1)"
    by (rule forEachLogged_inv) (auto intro: coInv_deliver)
  with assms show ?thesis by (simp add: processQueue_def Let_def)
qed

lemma coInv_store:
  assumes "coInv env s"
  shows "coInv env (snd (storeAndQueue env d s))"
  using assms by (simp add: storeAndQueue_def queueEventForDelivery_def Let_def split_beta coInv_queue split: sum.split)

lemma coInv_retry:
  assumes "coInv env s"
  shows "coInv env (fireRetry env s)"
  using assms by (simp add: fireRetry_def Let_def coInv_queue split: list.split)

end

lemma route_states [simp]:
  "snd (answered n p) = snd p" "snd (rethrow n f s) = snd (f s)"
  "snd (updateConsumerRoute env i d s) = snd (updateConsumer env i d s)" "snd (testConsumerRoute env i s) = snd (deliverTestEvent env i s)"
  "snd (startRoute url ledger m) = snd (startMonitoring ledger m)"
  by (simp_all add: answered_def rethrow_def updateConsumerRoute_def testConsumerRoute_def startRoute_def split_beta split: sum.split)

lemma handleApi_monitor: "monInv m \<Longrightarrow> monInv (snd (snd (handleApi env url pt req (s, m))))"
  by (cases req) (auto simp: withSvc_def stopRoute_def split_beta intro: monInv_step monitor_step.intros)

context mon_tables
begin

lemma handleApi_coInv:
  assumes "coInv env s" and "validRequest env s req"
  shows "coInv env (fst (snd (handleApi env url pt req (s, m))))"
proof (cases req)
  case (TestConsumer i)
  have "coInv env (snd (deliverTestEvent env i s))" using coInv_frame [OF deliverTestEvent_coTab] assms(1) by blast
  then show ?thesis by (simp add: TestConsumer withSvc_def)
qed (use assms in \<open>auto simp: withSvc_def split_beta createConsumerRoute_def deleteConsumerRoute_def activateRoute_def deactivateRoute_def
      activateConsumer_def deactivateConsumer_def simulatePaymentRoute_def simulatePaymentEvent_def simulateOfferRoute_def
      simulateOfferEvent_def intro!: coInv_create coInv_update coInv_delete coInv_change coInv_store\<close>)

lemma api_step_inv:
  assumes "api_step env url pt p q" and "coInv env (fst p)" and "monInv (snd p)"
  shows "coInv env (fst q) \<and> monInv (snd q)"
  using assms
proof cases
  case (request s req m)
  with assms handleApi_coInv [of s req url pt m] handleApi_monitor [of m env url pt req s] show ?thesis by simp
next
  case (payment s m uuid pm)
  with assms show ?thesis by (auto simp: handlePaymentEvent_def coInv_store split: sum.split)
next
  case (operation s m uuid offer)
  with assms show ?thesis by (auto simp: onOperation_def handleOfferEvent_def coInv_store split: sum.split)
qed (auto intro: coInv_queue coInv_retry monInv_step)

lemma consumer_404:
  assumes "consumerOf req = Some i"
  shows "fst (handleApi env url pt req (s, m)) = 404 \<longleftrightarrow> getCo env s i = None"
  using assms
  by (cases req) (auto simp: consumer_routes getConsumerById_get updateConsumer_def deleteConsumer_def activateConsumer_def
      deactivateConsumer_def changeConsumer_def deliverTestEvent_def Let_def split: option.splits sum.splits prod.splits)

end

lemma storeAndQueue_error: "fst (storeAndQueue env d s) = Inl e \<Longrightarrow> statusOf e = 500"
  by (auto simp: storeAndQueue_def queueEventForDelivery_def markEventAsProcessed_def Let_def split_beta
      split: sum.splits option.splits if_splits)

lemma simulated_code:
  "fst (handleApi env url pt (SimulatePayment u1 u2 a b c d) (s, m)) \<in> {201, 500}"
  "fst (handleApi env url pt (SimulateOffer u1 u2 a b c) (s, m)) \<in> {201, 500}"
  by (auto simp: withSvc_def answered_def simulatePaymentRoute_def simulatePaymentEvent_def simulateOfferRoute_def
      simulateOfferEvent_def split_beta dest: storeAndQueue_error split: sum.splits)

lemma deliverTestEvent_found: "getConsumerById env i s = Inr c \<Longrightarrow> \<exists>r. fst (deliverTestEvent env i s) = Inr r"
  by (simp add: deliverTestEvent_def Let_def split: sum.split prod.split)

lemma failed_unchanged:
  "fst (createConsumer env newId d s) = Inl e \<Longrightarrow> snd (createConsumer env newId d s) = s"
  "fst (updateConsumer env i u s) = Inl e \<Longrightarrow> snd (updateConsumer env i u s) = s"
  "fst (deleteConsumer env i s) = Inl e \<Longrightarrow> snd (deleteConsumer env i s) = s"
  "fst (changeConsumer env i f s) = Inl e \<Longrightarrow> snd (changeConsumer env i f s) = s"
  "fst (deliverTestEvent env i s) = Inl e \<Longrightarrow> snd (deliverTestEvent env i s) = s"
      apply (simp add: createConsumer_def Let_def split: option.splits)
     apply (simp add: updateConsumer_def Let_def split: sum.splits if_splits)
    apply (simp add: deleteConsumer_def split: sum.splits)
   apply (simp add: changeConsumer_def split: sum.splits)
  using deliverTestEvent_found [of env i s] by (cases "getConsumerById env i s") (auto simp: deliverTestEvent_def)

lemma refused_code:
  "fst (answered 201 p) = 400 \<Longrightarrow> \<exists>e. fst p = Inl e" "fst (answered 201 p) = 404 \<Longrightarrow> \<exists>e. fst p = Inl e"
  "fst (answered 200 p) = 400 \<Longrightarrow> \<exists>e. fst p = Inl e" "fst (answered 200 p) = 404 \<Longrightarrow> \<exists>e. fst p = Inl e"
  by (auto simp: answered_def split_beta split: sum.splits)

lemma refused_routes:
  "fst (rethrow n f s) = Inl e \<Longrightarrow> \<exists>e'. fst (f s) = Inl e'"
  "fst (updateConsumerRoute env i d s') = Inl e \<Longrightarrow> \<exists>e'. fst (updateConsumer env i d s') = Inl e'"
  "fst (testConsumerRoute env i s') = Inl e \<Longrightarrow> \<exists>e'. fst (deliverTestEvent env i s') = Inl e'"
  by (auto simp: rethrow_def answerWith_def updateConsumerRoute_def testConsumerRoute_def split_beta split: sum.splits)

lemma refused_unchanged:
  assumes "fst (handleApi env url pt req (s, m)) \<in> {400, 404}"
  shows "snd (handleApi env url pt req (s, m)) = (s, m)"
proof (cases req)
  case (SimulatePayment u1 u2 a b c d)
  with assms simulated_code(1) [of env url pt u1 u2 a b c d s m] show ?thesis by auto
next
  case (SimulateOffer u1 u2 a b c)
  with assms simulated_code(2) [of env url pt u1 u2 a b c s m] show ?thesis by auto
next
  case (StartMonitoring ledger)
  with assms show ?thesis by (auto simp: answered_def startRoute_def startMonitoring_def split: sum.splits if_splits)
qed (use assms in \<open>auto simp: withSvc_def createConsumerRoute_def deleteConsumerRoute_def activateRoute_def deactivateRoute_def
      activateConsumer_def deactivateConsumer_def stopRoute_def failed_unchanged dest!: refused_code refused_routes\<close>)



section \<open>Taking a suspended consumer up again\<close>

context mon_tables
begin

lemma active_iff:
  "i \<in> c_id ` set (getActiveConsumers env s) \<longleftrightarrow> (\<exists>c. getCo env s i = Some c \<and> c_isActive c \<and> c_status c = ACTIVE)"
proof -
  have "c \<in> set (getActiveConsumers env s) \<longleftrightarrow> getCo env s (c_id c) = Some c \<and> c_isActive c \<and> c_status c = ACTIVE" for c
    by (simp add: getActiveConsumers_def C.findOrd_set C.find_iff)
  then show ?thesis using getCo_id by (auto simp: image_iff) metis
qed

lemma getCo_change:
  assumes "getCo env s i = Some c" and "c_id (f c) = c_id c"
  shows "getCo env (snd (changeConsumer env i f s)) i = Some ((f c)\<lparr>c_updatedAt := mnow env s\<rparr>)"
  using assms getCo_id [OF assms(1)] by (simp add: changeConsumer_def getConsumerById_get getCo_saveCo)

lemma getCo_failure:
  assumes "getCo env s i = Some c" and "10 \<le> c_failedDeliveries c"
  shows "\<exists>c'. getCo env (snd (updateDeliveryStats env i False t s)) i = Some c' \<and> c_status c' = SUSPENDED"
  using assms getCo_id [OF assms(1)]
  by (simp add: updateDeliveryStats_def getConsumerById_get Let_def getCo_saveCo countDelivery_def)

end

text \<open>
  Activating a suspended consumer does not forget its failures. The consumer receives events again, but the next delivery
  that fails suspends it at once. An update that only sets \<^verbatim>\<open>isActive\<close> does less: the consumer is shown as
  active, and no event is queued for it.
\<close>

theorem reactivation_keeps_failures:
  assumes "mon_tables env" and "getCo env s i = Some c" and "c_status c = SUSPENDED" and "10 < c_failedDeliveries c"
    and "d = \<lparr>ud_name = None, ud_url = None, ud_secret = None, ud_maxRetries = None, ud_timeoutMs = None, ud_isActive = Some True\<rparr>"
  shows "i \<in> c_id ` set (getActiveConsumers env (snd (activateRoute env i s))) \<and>
    i \<notin> c_id ` set (getActiveConsumers env (snd (updateDeliveryStats env i False t (snd (activateRoute env i s))))) \<and>
    (\<exists>c'. getCo env (snd (updateConsumerRoute env i d s)) i = Some c' \<and> c_isActive c') \<and>
    i \<notin> c_id ` set (getActiveConsumers env (snd (updateConsumerRoute env i d s)))"
proof -
  note act = mon_tables.active_iff [OF assms(1)]
  let ?c = "c\<lparr>c_isActive := True, c_status := ACTIVE, c_updatedAt := mnow env s\<rparr>"
  have a: "getCo env (snd (activateRoute env i s)) i = Some ?c"
    using mon_tables.getCo_change [OF assms(1,2), of "\<lambda>c. c\<lparr>c_isActive := True, c_status := ACTIVE\<rparr>"]
    by (simp add: activateRoute_def activateConsumer_def)
  obtain c' where "getCo env (snd (updateDeliveryStats env i False t (snd (activateRoute env i s)))) i = Some c'" "c_status c' = SUSPENDED"
    using mon_tables.getCo_failure [OF assms(1) a] assms(4) by auto
  moreover have "getCo env (snd (updateConsumerRoute env i d s)) i = Some (c\<lparr>c_isActive := True, c_updatedAt := mnow env s\<rparr>)"
    using assms(2) mon_tables.getCo_id [OF assms(1,2)]
    by (simp add: updateConsumer_def getConsumerById_get strTruthy_def assms(5) Let_def mon_tables.getCo_saveCo [OF assms(1)] assignDto_def orKeep_def)
  ultimately show ?thesis using a assms(3) by (simp add: act)
qed

theorem reactivation_keeps_failures_witness:
  "let env = memMenv (\<lambda>_ _. Inr 200); s = memMon [] [(sampleConsumer ''a'' 11)\<lparr>c_status := SUSPENDED, c_isActive := False\<rparr>]
   in ''a'' \<in> c_id ` set (getActiveConsumers env (snd (activateRoute env ''a'' s))) \<and>
      ''a'' \<notin> c_id ` set (getActiveConsumers env (snd (updateDeliveryStats env ''a'' False None (snd (activateRoute env ''a'' s)))))"
proof -
  let ?c = "(sampleConsumer ''a'' 11)\<lparr>c_status := SUSPENDED, c_isActive := False\<rparr>"
  let ?env = "memMenv (\<lambda>_ _. Inr 200)" and ?s = "memMon [] [?c]"
  have g: "getCo ?env ?s ''a'' = Some ?c" by (simp add: mon_simps)
  have c: "c_status ?c = SUSPENDED" "10 < c_failedDeliveries ?c" by (simp_all add: sampleConsumer_def)
  show ?thesis using reactivation_keeps_failures [OF memm.mon_tables_axioms g c refl] unfolding Let_def by blast
qed

end
