(* ===== verification/Metrics.thy ===== *)
theory Metrics
  imports Complex_Main Prelude
begin

text \<open>
  The Prometheus metrics, \<^verbatim>\<open>observability/services/metrics.service.ts\<close>. A method of the service is the list of samples it
  records. The registry of the client library is a parameter: it counts the samples of a metric per list of label
  values, and refuses a sample with a label that its metric has not declared, so the laws in the locale are about declared
  samples. The table of declarations is part of the service.
\<close>

section \<open>Samples and the registry\<close>

type_synonym labels = "(string \<times> string) list"

datatype sample =
    Inc string labels
  | Dec string labels
  | SetTo string labels rat
  | Observe string labels rat

datatype metricKind = Histogram "rat list" | Counter | Gauge

text \<open>The name, the kind with the buckets, and the label names of every metric that \<^verbatim>\<open>initializeMetrics\<close> creates.\<close>

definition metricTable :: "(string \<times> metricKind \<times> string list) list" where
  "metricTable =
     [(''http_request_duration_seconds'', Histogram [1/100, 5/100, 1/10, 5/10, 1, 2, 5], [''method'', ''route'', ''status_code'']),
      (''http_requests_total'', Counter, [''method'', ''route'', ''status_code'']),
      (''http_request_errors_total'', Counter, [''method'', ''route'', ''error_type'']),
      (''http_request_size_bytes'', Histogram [100, 1000, 10000, 100000, 1000000], [''method'', ''route'']),
      (''http_response_size_bytes'', Histogram [100, 1000, 10000, 100000, 1000000], [''method'', ''route'', ''status_code'']),
      (''websocket_connections_active'', Gauge, [''namespace'']),
      (''websocket_connections_total'', Counter, [''namespace'']),
      (''websocket_disconnections_total'', Counter, [''namespace'', ''reason'']),
      (''websocket_messages_total'', Counter, [''namespace'', ''event_type'']),
      (''job_duration_seconds'', Histogram [1, 5, 10, 30, 60, 300], [''job_name'', ''status'']),
      (''jobs_total'', Counter, [''job_name'', ''status'']),
      (''jobs_active'', Gauge, [''job_name'']),
      (''jobs_completed_total'', Counter, [''job_name'']),
      (''jobs_failed_total'', Counter, [''job_name'', ''error_type'']),
      (''job_queue_size'', Gauge, [''queue_name'']),
      (''database_query_duration_seconds'', Histogram [1/1000, 1/100, 1/10, 5/10, 1], [''operation'', ''table'']),
      (''database_query_errors_total'', Counter, [''operation'', ''table'', ''error_type'']),
      (''database_connection_pool_active'', Gauge, []),
      (''database_connection_pool_size'', Gauge, []),
      (''active_users_total'', Gauge, []),
      (''transactions_total'', Counter, [''type'', ''status'']),
      (''transaction_errors_total'', Counter, [''type'', ''error_reason'']),
      (''process_uptime_seconds'', Gauge, []),
      (''process_memory_usage_bytes'', Gauge, [''type''])]"

text \<open>A sample that the library accepts: the metric exists, is of the kind the operation needs, and has the labels.\<close>

definition declaredAs :: "(metricKind \<Rightarrow> bool) \<Rightarrow> string \<Rightarrow> labels \<Rightarrow> bool" where
  "declaredAs K name ls =
     (case map_of metricTable name of None \<Rightarrow> False | Some (k, names) \<Rightarrow> K k \<and> map fst ls = names)"

fun declared :: "sample \<Rightarrow> bool" where
  "declared (Inc name ls) = declaredAs (\<lambda>k. k = Counter \<or> k = Gauge) name ls"
| "declared (Dec name ls) = declaredAs (\<lambda>k. k = Gauge) name ls"
| "declared (SetTo name ls v) = declaredAs (\<lambda>k. k = Gauge) name ls"
| "declared (Observe name ls v) = declaredAs (\<lambda>k. \<exists>bs. k = Histogram bs) name ls"

text \<open>What samples add to the value of a metric, unless they set it.\<close>

fun netChange :: "string \<Rightarrow> labels \<Rightarrow> sample list \<Rightarrow> rat" where
  "netChange n l [] = 0"
| "netChange n l (Inc n' l' # xs) = (if n = n' \<and> l = l' then 1 else 0) + netChange n l xs"
| "netChange n l (Dec n' l' # xs) = (if n = n' \<and> l = l' then -1 else 0) + netChange n l xs"
| "netChange n l (SetTo n' l' v # xs) = netChange n l xs"
| "netChange n l (Observe n' l' v # xs) = (if n = n' \<and> l = l' then 1 else 0) + netChange n l xs"

fun setsMetric :: "string \<Rightarrow> sample \<Rightarrow> bool" where
  "setsMetric n (SetTo n' l v) = (n = n')"
| "setsMetric n _ = False"

text \<open>The value of a counter or a gauge, and the number of observations of a histogram.\<close>

locale metric_registry =
  fixes record_sample :: "sample \<Rightarrow> 'p \<Rightarrow> 'p" and value_of :: "'p \<Rightarrow> string \<Rightarrow> labels \<Rightarrow> rat"
  assumes value_inc: "declared (Inc n l) \<Longrightarrow>
      value_of (record_sample (Inc n l) p) n' l' = value_of p n' l' + (if n' = n \<and> l' = l then 1 else 0)"
    and value_dec: "declared (Dec n l) \<Longrightarrow>
      value_of (record_sample (Dec n l) p) n' l' = value_of p n' l' - (if n' = n \<and> l' = l then 1 else 0)"
    and value_set: "declared (SetTo n l v) \<Longrightarrow>
      value_of (record_sample (SetTo n l v) p) n' l' = (if n' = n \<and> l' = l then v else value_of p n' l')"
    and value_observe: "declared (Observe n l v) \<Longrightarrow>
      value_of (record_sample (Observe n l v) p) n' l' = value_of p n' l' + (if n' = n \<and> l' = l then 1 else 0)"
begin

lemma value_samples:
  assumes "list_all declared xs" and "list_all (\<lambda>x. \<not> setsMetric n x) xs"
  shows "value_of (fold record_sample xs p) n l = value_of p n l + netChange n l xs"
  using assms
proof (induction xs arbitrary: p)
  case (Cons x xs)
  then show ?case by (cases x) (auto simp: value_inc value_dec value_set value_observe)
qed simp

end

section \<open>The service\<close>

definition updateProcessMetrics :: "rat \<Rightarrow> rat \<Rightarrow> rat \<Rightarrow> rat \<Rightarrow> sample list" where
  "updateProcessMetrics uptime heapUsed heapTotal rss =
     [SetTo ''process_uptime_seconds'' [] uptime, SetTo ''process_memory_usage_bytes'' [(''type'', ''heapUsed'')] heapUsed,
      SetTo ''process_memory_usage_bytes'' [(''type'', ''heapTotal'')] heapTotal,
      SetTo ''process_memory_usage_bytes'' [(''type'', ''rss'')] rss]"

text \<open>An absent size, \<^verbatim>\<open>NaN\<close> (\<open>None\<close>) and 0 are not observed.\<close>

definition recordHttpRequest :: "string \<Rightarrow> string \<Rightarrow> nat \<Rightarrow> rat \<Rightarrow> int option \<Rightarrow> int option \<Rightarrow> sample list" where
  "recordHttpRequest meth route statusCode duration requestSize responseSize =
     (let all = [(''method'', meth), (''route'', route), (''status_code'', showNat statusCode)];
          given = (\<lambda>x. case x of None \<Rightarrow> False | Some n \<Rightarrow> n \<noteq> 0)
      in [Observe ''http_request_duration_seconds'' all duration, Inc ''http_requests_total'' all] @
         (if given requestSize
          then [Observe ''http_request_size_bytes'' [(''method'', meth), (''route'', route)] (of_int (the requestSize))] else []) @
         (if given responseSize then [Observe ''http_response_size_bytes'' all (of_int (the responseSize))] else []))"

definition recordHttpError :: "string \<Rightarrow> string \<Rightarrow> string \<Rightarrow> sample list" where
  "recordHttpError meth route errorType =
     [Inc ''http_request_errors_total'' [(''method'', meth), (''route'', route), (''error_type'', errorType)]]"

definition recordWebSocketConnection :: "string \<Rightarrow> sample list" where
  "recordWebSocketConnection namespace =
     [Inc ''websocket_connections_total'' [(''namespace'', namespace)], Inc ''websocket_connections_active'' [(''namespace'', namespace)]]"

definition recordWebSocketDisconnection :: "string \<Rightarrow> string \<Rightarrow> sample list" where
  "recordWebSocketDisconnection namespace reason =
     [Inc ''websocket_disconnections_total'' [(''namespace'', namespace), (''reason'', reason)],
      Dec ''websocket_connections_active'' [(''namespace'', namespace)]]"

definition recordWebSocketMessage :: "string \<Rightarrow> string \<Rightarrow> sample list" where
  "recordWebSocketMessage namespace eventType =
     [Inc ''websocket_messages_total'' [(''namespace'', namespace), (''event_type'', eventType)]]"

definition getActiveWebSocketConnections :: "string \<Rightarrow> nat" where
  "getActiveWebSocketConnections namespace = 0"

definition recordJobStart :: "string \<Rightarrow> sample list" where
  "recordJobStart jobName = [Inc ''jobs_active'' [(''job_name'', jobName)]]"

definition recordJobCompleted :: "string \<Rightarrow> rat \<Rightarrow> sample list" where
  "recordJobCompleted jobName duration =
     [Observe ''job_duration_seconds'' [(''job_name'', jobName), (''status'', ''success'')] duration,
      Inc ''jobs_total'' [(''job_name'', jobName), (''status'', ''success'')],
      Inc ''jobs_completed_total'' [(''job_name'', jobName)], Dec ''jobs_active'' [(''job_name'', jobName)]]"

definition recordJobFailed :: "string \<Rightarrow> rat \<Rightarrow> string \<Rightarrow> sample list" where
  "recordJobFailed jobName duration errorType =
     [Observe ''job_duration_seconds'' [(''job_name'', jobName), (''status'', ''failed'')] duration,
      Inc ''jobs_total'' [(''job_name'', jobName), (''status'', ''failed'')],
      Inc ''jobs_failed_total'' [(''job_name'', jobName), (''error_type'', errorType)], Dec ''jobs_active'' [(''job_name'', jobName)]]"

definition updateJobQueueSize :: "string \<Rightarrow> rat \<Rightarrow> sample list" where
  "updateJobQueueSize queueName size' = [SetTo ''job_queue_size'' [(''queue_name'', queueName)] size']"

definition recordDatabaseQuery :: "string \<Rightarrow> string \<Rightarrow> rat \<Rightarrow> sample list" where
  "recordDatabaseQuery operation table duration =
     [Observe ''database_query_duration_seconds'' [(''operation'', operation), (''table'', table)] duration]"

definition recordDatabaseError :: "string \<Rightarrow> string \<Rightarrow> string \<Rightarrow> sample list" where
  "recordDatabaseError operation table errorType =
     [Inc ''database_query_errors_total'' [(''operation'', operation), (''table'', table), (''error_type'', errorType)]]"

definition updateConnectionPoolStats :: "rat \<Rightarrow> rat \<Rightarrow> sample list" where
  "updateConnectionPoolStats active total' =
     [SetTo ''database_connection_pool_active'' [] active, SetTo ''database_connection_pool_size'' [] total']"

definition updateActiveUsers :: "rat \<Rightarrow> sample list" where
  "updateActiveUsers n = [SetTo ''active_users_total'' [] n]"

definition recordTransaction :: "string \<Rightarrow> string \<Rightarrow> sample list" where
  "recordTransaction ty status = [Inc ''transactions_total'' [(''type'', ty), (''status'', status)]]"

definition recordTransactionError :: "string \<Rightarrow> string \<Rightarrow> sample list" where
  "recordTransactionError ty errorReason = [Inc ''transaction_errors_total'' [(''type'', ty), (''error_reason'', errorReason)]]"

text \<open>Every call of the service.\<close>

inductive metricsCall :: "sample list \<Rightarrow> bool" where
  "metricsCall (updateProcessMetrics a b c d)"
| "metricsCall (recordHttpRequest m r n d i j)"
| "metricsCall (recordHttpError m r e)"
| "metricsCall (recordWebSocketConnection ns)"
| "metricsCall (recordWebSocketDisconnection ns why)"
| "metricsCall (recordWebSocketMessage ns e)"
| "metricsCall (recordJobStart j)"
| "metricsCall (recordJobCompleted j d)"
| "metricsCall (recordJobFailed j d e)"
| "metricsCall (updateJobQueueSize q n)"
| "metricsCall (recordDatabaseQuery op tab d)"
| "metricsCall (recordDatabaseError op tab e)"
| "metricsCall (updateConnectionPoolStats a b)"
| "metricsCall (updateActiveUsers n)"
| "metricsCall (recordTransaction ty st)"
| "metricsCall (recordTransactionError ty why)"

lemmas metric_defs = updateProcessMetrics_def recordHttpRequest_def recordHttpError_def recordWebSocketConnection_def
  recordWebSocketDisconnection_def recordWebSocketMessage_def recordJobStart_def recordJobCompleted_def recordJobFailed_def
  updateJobQueueSize_def recordDatabaseQuery_def recordDatabaseError_def updateConnectionPoolStats_def updateActiveUsers_def
  recordTransaction_def recordTransactionError_def

lemma declared_table:
  "list_all declared (updateProcessMetrics a b c d)" "list_all declared (recordHttpRequest m r n d i j)"
  "list_all declared (recordHttpError m r e)" "list_all declared (recordWebSocketConnection ns)"
  "list_all declared (recordWebSocketDisconnection ns why)" "list_all declared (recordWebSocketMessage ns e)"
  "list_all declared (recordJobStart jn)" "list_all declared (recordJobCompleted jn d)" "list_all declared (recordJobFailed jn d e)"
  "list_all declared (updateJobQueueSize q x)" "list_all declared (recordDatabaseQuery op tab d)"
  "list_all declared (recordDatabaseError op tab e)" "list_all declared (updateConnectionPoolStats a b)"
  "list_all declared (updateActiveUsers x)" "list_all declared (recordTransaction ty st)" "list_all declared (recordTransactionError ty why)"
  by (simp_all add: metric_defs declaredAs_def metricTable_def Let_def)

text \<open>
  The service never asks the registry for something it refuses: whatever the arguments, every sample that a method of the
  service records names a metric that exists, of the kind the operation needs, with exactly the labels that metric was declared with.
\<close>

theorem metrics_declared:
  assumes "metricsCall samples"
  shows "list_all declared samples"
  using assms by cases (simp_all only: declared_table)

theorem metrics_declared_witness:
  "declared (Observe ''job_duration_seconds'' [(''job_name'', ''deploy''), (''status'', ''failed'')] 2)"
  using metrics_declared [OF metricsCall.intros(9) [of "''deploy''" 2 "''Error''"]] by (simp add: recordJobFailed_def)

section \<open>An executable registry\<close>

fun memRecord :: "sample \<Rightarrow> (string \<Rightarrow> labels \<Rightarrow> rat) \<Rightarrow> string \<Rightarrow> labels \<Rightarrow> rat" where
  "memRecord (Inc n l) p = (\<lambda>n' l'. p n' l' + (if n' = n \<and> l' = l then 1 else 0))"
| "memRecord (Dec n l) p = (\<lambda>n' l'. p n' l' - (if n' = n \<and> l' = l then 1 else 0))"
| "memRecord (SetTo n l v) p = (\<lambda>n' l'. if n' = n \<and> l' = l then v else p n' l')"
| "memRecord (Observe n l v) p = (\<lambda>n' l'. p n' l' + (if n' = n \<and> l' = l then 1 else 0))"

interpretation mreg: metric_registry memRecord "\<lambda>p. p"
  by unfold_locales simp_all

end
