(* ===== verification/Tracing.thy ===== *)
theory Tracing
  imports Metrics Json Redis
begin

text \<open>
  Tracing and logging, \<^verbatim>\<open>observability\<close>: the trace contexts of \<^verbatim>\<open>tracing.service.ts\<close>, the log of \<^verbatim>\<open>logging.service.ts\<close>, and the
  three clients that trace and measure the work: \<^verbatim>\<open>tracing.interceptor.ts\<close> for requests, \<^verbatim>\<open>websocket-tracing.adapter.ts\<close> for
  sockets and \<^verbatim>\<open>queue-job-tracing.wrapper.ts\<close> for jobs. A context is an object that several maps refer to and
  \<^verbatim>\<open>addMetadata\<close> changes in place, so contexts live in a store and the maps hold references. Random ids, the random numbers of the
  sampling decision, the clock and the metrics registry are parameters. A request or a job is a beginning and an end, with other work in between.
\<close>

section \<open>State\<close>

record TraceContext =
  traceId :: string
  spanId :: string
  parentSpanId :: "string option"
  sampled :: bool
  userId :: "string option"
  serviceName :: string
  timestamp :: int
  metadata :: "(string \<times> json) list option"

text \<open>A value in the fields of a log line: durations are numbers of seconds.\<close>

datatype logVal = LJson json | LSecs rat

type_synonym logFields = "(string \<times> logVal) list"

record logLine =
  ll_level :: string
  ll_message :: string
  ll_fields :: logFields

record 'p obs =
  o_heap :: "TraceContext list"
  traceContextMap :: "(string \<times> nat) list"
  socketTraceMap :: "(string \<times> nat) list"
  jobTraceMap :: "(string \<times> nat) list"
  requestContextStorage :: "(string \<times> logFields) list"
  o_metrics :: 'p
  o_logs :: "logLine list"
  o_clock :: int
  o_draws :: nat

text \<open>The draws of \<^verbatim>\<open>randomUUID\<close> and \<^verbatim>\<open>Math.random\<close>; \<open>None\<close> is a sampling rate that is not a number.\<close>

record 'p obsEnv =
  oe_uuid :: "nat \<Rightarrow> string"
  oe_random :: "nat \<Rightarrow> rat"
  oe_rate :: "rat option"
  oe_service :: "string option"
  oe_record :: "sample \<Rightarrow> 'p \<Rightarrow> 'p"

definition ctxAt :: "'p obs \<Rightarrow> nat \<Rightarrow> TraceContext" where
  "ctxAt s r = o_heap s ! r"

definition recordSamples :: "'p obsEnv \<Rightarrow> sample list \<Rightarrow> 'p obs \<Rightarrow> 'p obs" where
  "recordSamples env xs s = s\<lparr>o_metrics := fold (oe_record env) xs (o_metrics s)\<rparr>"

section \<open>The log\<close>

definition logAt :: "string \<Rightarrow> string \<Rightarrow> logFields \<Rightarrow> 'p obs \<Rightarrow> 'p obs" where
  "logAt level m fs s = s\<lparr>o_logs := o_logs s @ [\<lparr>ll_level = level, ll_message = m, ll_fields = fs\<rparr>]\<rparr>"

definition logInfo :: "string \<Rightarrow> logFields \<Rightarrow> 'p obs \<Rightarrow> 'p obs" where
  "logInfo = logAt ''info''"

definition logWarn :: "string \<Rightarrow> logFields \<Rightarrow> 'p obs \<Rightarrow> 'p obs" where
  "logWarn = logAt ''warn''"

definition logDebug :: "string \<Rightarrow> logFields \<Rightarrow> 'p obs \<Rightarrow> 'p obs" where
  "logDebug = logAt ''debug''"

text \<open>What a promise rejects with: an \<^verbatim>\<open>Error\<close> with its name, message and stack, or another value.\<close>

datatype thrown = ThrownError string string string | ThrownValue json

definition logError :: "string \<Rightarrow> thrown \<Rightarrow> logFields \<Rightarrow> 'p obs \<Rightarrow> 'p obs" where
  "logError m err fs =
     logAt ''error'' m
       (case err of
          ThrownError nm msg stack \<Rightarrow>
            objSet ''error'' (LJson (JObj [(''message'', JStr msg), (''stack'', JStr stack), (''name'', JStr nm)])) fs
        | ThrownValue v \<Rightarrow> if truthy v then objSet ''error'' (LJson v) fs else fs)"

definition setRequestContext :: "string \<Rightarrow> logFields \<Rightarrow> 'p obs \<Rightarrow> 'p obs" where
  "setRequestContext tid fs s = s\<lparr>requestContextStorage := objSet tid fs (requestContextStorage s)\<rparr>"

definition getRequestContext :: "string \<Rightarrow> 'p obs \<Rightarrow> logFields option" where
  "getRequestContext tid s = map_of (requestContextStorage s) tid"

definition mapDelete :: "string \<Rightarrow> (string \<times> 'v) list \<Rightarrow> (string \<times> 'v) list" where
  "mapDelete k = filter (\<lambda>kv. fst kv \<noteq> k)"

definition clearRequestContext :: "string \<Rightarrow> 'p obs \<Rightarrow> 'p obs" where
  "clearRequestContext tid s = s\<lparr>requestContextStorage := mapDelete tid (requestContextStorage s)\<rparr>"

section \<open>Trace contexts\<close>

definition undashed :: "string \<Rightarrow> string" where
  "undashed = filter (\<lambda>c. c \<noteq> CHR ''-'')"

definition generateTraceId :: "'p obsEnv \<Rightarrow> 'p obs \<Rightarrow> string \<times> 'p obs" where
  "generateTraceId env s = (take 32 (undashed (oe_uuid env (o_draws s))), s\<lparr>o_draws := Suc (o_draws s)\<rparr>)"

definition generateSpanId :: "'p obsEnv \<Rightarrow> 'p obs \<Rightarrow> string \<times> 'p obs" where
  "generateSpanId env s = (take 16 (undashed (oe_uuid env (o_draws s))), s\<lparr>o_draws := Suc (o_draws s)\<rparr>)"

definition shouldSample :: "'p obsEnv \<Rightarrow> 'p obs \<Rightarrow> bool \<times> 'p obs" where
  "shouldSample env s =
     (case oe_rate env of None \<Rightarrow> False | Some rate \<Rightarrow> oe_random env (o_draws s) < rate, s\<lparr>o_draws := Suc (o_draws s)\<rparr>)"

definition createTraceContext ::
    "'p obsEnv \<Rightarrow> string option \<Rightarrow> string option \<Rightarrow> string option \<Rightarrow> (string \<times> json) list option \<Rightarrow> 'p obs \<Rightarrow> nat \<times> 'p obs" where
  "createTraceContext env tid parent uid md s =
     (let (finalTraceId, s1) = (if strTruthy tid then (the tid, s) else generateTraceId env s);
          (sid, s2) = generateSpanId env s1;
          (smp, s3) = shouldSample env s2;
          c = \<lparr>traceId = finalTraceId, spanId = sid, parentSpanId = parent, sampled = smp, userId = uid,
               serviceName = strOr (oe_service env) ''stellara-backend'', timestamp = o_clock s3, metadata = md\<rparr>;
          r = length (o_heap s3)
      in (r, s3\<lparr>o_heap := o_heap s3 @ [c], traceContextMap := objSet finalTraceId r (traceContextMap s3)\<rparr>))"

text \<open>\<^verbatim>\<open>x || y\<close> on optional strings, and \<^verbatim>\<open>headers[k] || headers[k']\<close>.\<close>

definition orElse :: "string option \<Rightarrow> string option \<Rightarrow> string option" where
  [js_defs]: "orElse x y = (if strTruthy x then x else y)"

definition header :: "(string \<times> string) list \<Rightarrow> string \<Rightarrow> string \<Rightarrow> string option" where
  "header hs k k' = orElse (map_of hs k) (map_of hs k')"

definition extractTraceContext :: "'p obsEnv \<Rightarrow> (string \<times> string) list \<Rightarrow> 'p obs \<Rightarrow> nat \<times> 'p obs" where
  "extractTraceContext env hs =
     (let traceparent = header hs ''traceparent'' ''Traceparent'';
          parts = splitOn (CHR ''-'') (strOr traceparent []);
          (tid, parent) = (if strTruthy traceparent \<and> 3 \<le> length parts then (Some (parts ! 1), Some (parts ! 2)) else (None, None));
          tid' = orElse tid (header hs ''x-trace-id'' ''X-Trace-Id'');
          parent' = orElse parent (header hs ''x-span-id'' ''X-Span-Id'');
          correlationId = header hs ''x-correlation-id'' ''X-Correlation-Id''
      in createTraceContext env tid' parent' (header hs ''x-user-id'' ''X-User-Id'')
           (if strTruthy correlationId then Some [(''correlationId'', JStr (the correlationId))] else None))"

definition createChildSpan :: "'p obsEnv \<Rightarrow> string \<Rightarrow> 'p obs \<Rightarrow> (js_error + nat) \<times> 'p obs" where
  "createChildSpan env parentTraceId s =
     (case map_of (traceContextMap s) parentTraceId of
        None \<Rightarrow> (Inl (Error (''Parent trace context not found: '' @ parentTraceId)), s)
      | Some r \<Rightarrow> (let p = ctxAt s r; (r', s') = createTraceContext env (Some parentTraceId) (Some (spanId p)) (userId p) (metadata p) s
                  in (Inr r', s')))"

definition getTraceContext :: "string \<Rightarrow> 'p obs \<Rightarrow> nat option" where
  "getTraceContext tid s = map_of (traceContextMap s) tid"

text \<open>\<^verbatim>\<open>{ ...a, ...b }\<close>.\<close>

definition spread :: "(string \<times> 'v) list \<Rightarrow> (string \<times> 'v) list \<Rightarrow> (string \<times> 'v) list" where
  "spread a b = fold (\<lambda>(k, v). objSet k v) b a"

definition addMetadata :: "string \<Rightarrow> (string \<times> json) list \<Rightarrow> 'p obs \<Rightarrow> 'p obs" where
  "addMetadata tid md s =
     (case map_of (traceContextMap s) tid of
        None \<Rightarrow> s
      | Some r \<Rightarrow> s\<lparr>o_heap := (o_heap s)[r := (ctxAt s r)\<lparr>metadata := Some (spread (case metadata (ctxAt s r) of None \<Rightarrow> [] | Some m \<Rightarrow> m) md)\<rparr>]\<rparr>)"

definition injectTraceContext :: "TraceContext \<Rightarrow> (string \<times> string) list" where
  "injectTraceContext c =
     [(''traceparent'', ''00-'' @ traceId c @ ''-'' @ spanId c @ ''-'' @ (if sampled c then ''01'' else ''00'')),
      (''x-trace-id'', traceId c), (''x-span-id'', spanId c), (''x-request-id'', traceId c)] @
     (if strTruthy (userId c) then [(''x-user-id'', the (userId c))] else [])"

definition removeTraceContext :: "string \<Rightarrow> 'p obs \<Rightarrow> 'p obs" where
  "removeTraceContext tid s = s\<lparr>traceContextMap := mapDelete tid (traceContextMap s)\<rparr>"

definition getActiveTraces :: "'p obs \<Rightarrow> (string \<times> nat) list" where
  "getActiveTraces s = traceContextMap s"

definition tracingDestroy :: "'p obs \<Rightarrow> 'p obs" where
  "tracingDestroy s = s\<lparr>traceContextMap := []\<rparr>"

section \<open>Sockets\<close>

definition strField :: "string \<Rightarrow> string \<Rightarrow> logFields" where
  "strField k v = [(k, LJson (JStr v))]"

definition optField :: "string \<Rightarrow> string option \<Rightarrow> logFields" where
  "optField k v = (case v of None \<Rightarrow> [] | Some x \<Rightarrow> strField k x)"

definition traceFields :: "TraceContext \<Rightarrow> logFields" where
  "traceFields c = strField ''traceId'' (traceId c) @ strField ''spanId'' (spanId c)"

definition initializeConnection :: "'p obsEnv \<Rightarrow> string \<Rightarrow> (string \<times> string) list \<Rightarrow> string \<Rightarrow> string \<Rightarrow> 'p obs \<Rightarrow> nat \<times> 'p obs" where
  "initializeConnection env socketId hs address namespace s =
     (let (r, s1) = extractTraceContext env hs s;
          c = ctxAt s1 r;
          s2 = recordSamples env (recordWebSocketConnection namespace) (s1\<lparr>socketTraceMap := objSet socketId r (socketTraceMap s1)\<rparr>)
      in (r, logInfo ''WebSocket connection established''
               (traceFields c @ strField ''socketId'' socketId @ strField ''namespace'' namespace @ optField ''userId'' (userId c) @
                strField ''remoteAddress'' address @ optField ''userAgent'' (map_of hs ''user-agent'')) s2))"

definition handleDisconnection :: "'p obsEnv \<Rightarrow> string \<Rightarrow> string \<Rightarrow> string \<Rightarrow> 'p obs \<Rightarrow> 'p obs" where
  "handleDisconnection env socketId namespace reason s =
     (case map_of (socketTraceMap s) socketId of
        None \<Rightarrow> s
      | Some r \<Rightarrow>
          (let c = ctxAt s r;
               s1 = logInfo ''WebSocket connection closed''
                      (traceFields c @ strField ''socketId'' socketId @ strField ''namespace'' namespace @ strField ''reason'' reason @
                       optField ''userId'' (userId c)) (recordSamples env (recordWebSocketDisconnection namespace reason) s)
           in s1\<lparr>socketTraceMap := mapDelete socketId (socketTraceMap s1)\<rparr>))"

definition recordMessage :: "'p obsEnv \<Rightarrow> string \<Rightarrow> string \<Rightarrow> string \<Rightarrow> int \<Rightarrow> 'p obs \<Rightarrow> 'p obs" where
  "recordMessage env socketId namespace eventType messageSize s =
     (case map_of (socketTraceMap s) socketId of
        None \<Rightarrow> s
      | Some r \<Rightarrow>
          (let c = ctxAt s r
           in logDebug ''WebSocket message''
                (traceFields c @ strField ''socketId'' socketId @ strField ''namespace'' namespace @ strField ''eventType'' eventType @
                 [(''messageSize'', LJson (JNum messageSize))] @ optField ''userId'' (userId c))
                (recordSamples env (recordWebSocketMessage namespace eventType) s)))"

definition socketInjectTraceContext :: "string \<Rightarrow> 'p obs \<Rightarrow> (string \<times> string) list" where
  "socketInjectTraceContext socketId s =
     (case map_of (socketTraceMap s) socketId of None \<Rightarrow> [] | Some r \<Rightarrow> injectTraceContext (ctxAt s r))"

definition socketTraceContext :: "string \<Rightarrow> 'p obs \<Rightarrow> nat option" where
  "socketTraceContext socketId s = map_of (socketTraceMap s) socketId"

definition updateMetadata :: "string \<Rightarrow> (string \<times> json) list \<Rightarrow> 'p obs \<Rightarrow> 'p obs" where
  "updateMetadata socketId md s =
     (case map_of (socketTraceMap s) socketId of None \<Rightarrow> s | Some r \<Rightarrow> addMetadata (traceId (ctxAt s r)) md s)"

definition getActiveConnections :: "'p obs \<Rightarrow> (string \<times> nat) list" where
  "getActiveConnections s = socketTraceMap s"

definition getActiveConnectionCount :: "'p obs \<Rightarrow> nat" where
  "getActiveConnectionCount s = length (socketTraceMap s)"

section \<open>Jobs\<close>

record tracedJob =
  tj_id :: string
  tj_data :: "json option"

definition jsonProp :: "json option \<Rightarrow> string \<Rightarrow> json option" where
  "jsonProp v k = (case v of Some (JObj kvs) \<Rightarrow> map_of kvs k | _ \<Rightarrow> None)"

definition strProp :: "json option \<Rightarrow> string \<Rightarrow> string option" where
  "strProp v k = (case jsonProp v k of Some (JStr x) \<Rightarrow> Some x | _ \<Rightarrow> None)"

definition sanitizeJobData :: "json option \<Rightarrow> json option" where
  "sanitizeJobData v =
     (case v of
        None \<Rightarrow> None
      | Some d \<Rightarrow>
          if \<not> truthy d then None
          else (case d of
                  JObj kvs \<Rightarrow>
                    Some (JObj (map (\<lambda>(k, x). (k, if k \<in> set [''password'', ''token'', ''secret'', ''apiKey'', ''privateKey''] then JStr ''[REDACTED]'' else x)) kvs))
                | JArr xs \<Rightarrow> Some (JObj (zip (map showNat [0..<length xs]) xs))
                | _ \<Rightarrow> Some d))"

text \<open>The ids in \<^verbatim>\<open>job.data.traceContext\<close> are the strings that \<open>jobInjectTraceContext\<close> put there.\<close>

definition createJobTraceContext :: "'p obsEnv \<Rightarrow> tracedJob \<Rightarrow> string \<Rightarrow> 'p obs \<Rightarrow> nat \<times> 'p obs" where
  "createJobTraceContext env job jobName s =
     (let tc = jsonProp (tj_data job) ''traceContext'';
          (r, s1) = (if (case tc of None \<Rightarrow> False | Some v \<Rightarrow> truthy v)
                     then createTraceContext env (strProp tc ''traceId'') (strProp tc ''spanId'') (strProp tc ''userId'') None s
                     else createTraceContext env None None None (Some [(''jobName'', JStr jobName), (''jobId'', JStr (tj_id job))]) s)
      in (r, s1\<lparr>jobTraceMap := objSet (tj_id job) r (jobTraceMap s1)\<rparr>))"

definition jobInjectTraceContext :: "(string \<times> json) list \<Rightarrow> TraceContext \<Rightarrow> (string \<times> json) list" where
  "jobInjectTraceContext data c =
     objSet ''traceContext''
       (JObj ([(''traceId'', JStr (traceId c)), (''spanId'', JStr (spanId c))] @
              (case userId c of None \<Rightarrow> [] | Some u \<Rightarrow> [(''userId'', JStr u)]))) data"

text \<open>The variables of a call of the wrapped processor that is waiting for the processor.\<close>

record jobCall =
  jc_job :: tracedJob
  jc_name :: string
  jc_trace :: nat
  jc_start :: int

definition jobFields :: "jobCall \<Rightarrow> 'p obs \<Rightarrow> logFields" where
  "jobFields jc s = traceFields (ctxAt s (jc_trace jc)) @ strField ''jobId'' (tj_id (jc_job jc)) @ strField ''jobName'' (jc_name jc)"

definition jsonField :: "string \<Rightarrow> json option \<Rightarrow> logFields" where
  "jsonField k v = (case v of None \<Rightarrow> [] | Some x \<Rightarrow> [(k, LJson x)])"

definition seconds :: "int \<Rightarrow> int \<Rightarrow> rat" where
  "seconds t0 t1 = of_int (t1 - t0) / 1000"

definition wrapProcessorStart :: "'p obsEnv \<Rightarrow> tracedJob \<Rightarrow> string \<Rightarrow> 'p obs \<Rightarrow> jobCall \<times> 'p obs" where
  "wrapProcessorStart env job jobName s =
     (let (r, s1) = createJobTraceContext env job jobName s;
          jc = \<lparr>jc_job = job, jc_name = jobName, jc_trace = r, jc_start = o_clock s1\<rparr>;
          s2 = recordSamples env (recordJobStart jobName) s1
      in (jc, logInfo ''Job processing started'' (jobFields jc s2 @ jsonField ''jobData'' (sanitizeJobData (tj_data job))) s2))"

definition jobDone :: "jobCall \<Rightarrow> 'p obs \<Rightarrow> 'p obs" where
  "jobDone jc s = s\<lparr>jobTraceMap := mapDelete (tj_id (jc_job jc)) (jobTraceMap s)\<rparr>"

text \<open>\<^verbatim>\<open>error?.name || 'UnknownError'\<close>.\<close>

definition errorName :: "thrown \<Rightarrow> string" where
  "errorName e =
     (case e of ThrownError nm msg stack \<Rightarrow> strOr (Some nm) ''UnknownError'' | ThrownValue v \<Rightarrow> strOr (strProp (Some v) ''name'') ''UnknownError'')"

definition wrapProcessorEnd :: "'p obsEnv \<Rightarrow> jobCall \<Rightarrow> thrown + json option \<Rightarrow> 'p obs \<Rightarrow> 'p obs" where
  "wrapProcessorEnd env jc outcome s =
     (let d = seconds (jc_start jc) (o_clock s)
      in jobDone jc
           (case outcome of
              Inr v \<Rightarrow>
                (let s1 = recordSamples env (recordJobCompleted (jc_name jc) d) s
                 in logInfo ''Job processing completed'' (jobFields jc s1 @ [(''duration'', LSecs d)] @ jsonField ''result'' (sanitizeJobData v)) s1)
            | Inl err \<Rightarrow>
                (let s1 = recordSamples env (recordJobFailed (jc_name jc) d (errorName err)) s
                 in logError ''Job processing failed'' err
                      (jobFields jc s1 @ [(''duration'', LSecs d)] @ jsonField ''jobData'' (sanitizeJobData (tj_data (jc_job jc)))) s1)))"

text \<open>The callback that \<^verbatim>\<open>wrapQueueMetrics\<close> installs for the three events of a queue and runs once at the start.\<close>

definition queueSizeCallback :: "'p obsEnv \<Rightarrow> string \<Rightarrow> nat \<Rightarrow> 'p obs \<Rightarrow> 'p obs" where
  "queueSizeCallback env queueName n = recordSamples env (updateJobQueueSize queueName (of_nat n))"

definition getJobTraceContext :: "string \<Rightarrow> 'p obs \<Rightarrow> nat option" where
  "getJobTraceContext jobId s = map_of (jobTraceMap s) jobId"

definition getActiveJobTraces :: "'p obs \<Rightarrow> (string \<times> nat) list" where
  "getActiveJobTraces s = jobTraceMap s"

section \<open>Requests\<close>

record httpReq =
  hr_method :: string
  hr_path :: string
  hr_url :: string
  hr_route :: "string option"
  hr_headers :: "(string \<times> string) list"
  hr_ip :: "string option"

text \<open>The HTTP parser accepts a length of decimal digits only; \<open>None\<close> is a value that is not a number.\<close>

definition getRequestSize :: "httpReq \<Rightarrow> int option" where
  "getRequestSize req =
     (let contentLength = map_of (hr_headers req) ''content-length''
      in if strTruthy contentLength then parseIntJs (the contentLength) else Some 0)"

definition getResponseSize :: "json option \<Rightarrow> int" where
  "getResponseSize data =
     (case data of
        None \<Rightarrow> 0
      | Some d \<Rightarrow> if \<not> truthy d then 0
                 else (case d of JStr x \<Rightarrow> int (length (utf8 x)) | _ \<Rightarrow> int (length (utf8 (stringify None d)))))"

definition getClientIp :: "httpReq \<Rightarrow> string" where
  "getClientIp req =
     strOr (orElse (map_option (\<lambda>x. splitOn (CHR '','') x ! 0) (map_of (hr_headers req) ''x-forwarded-for'')) (hr_ip req)) ''unknown''"

definition getRouteLabel :: "httpReq \<Rightarrow> string" where
  "getRouteLabel req = hr_method req @ '' '' @ strOr (hr_route req) (hr_path req)"

text \<open>The variables of a request that is being handled, with the headers set on its response.\<close>

record httpCall =
  hc_req :: httpReq
  hc_trace :: nat
  hc_start :: int
  hc_size :: "int option"
  hc_headers :: "(string \<times> string) list"

definition interceptStart :: "'p obsEnv \<Rightarrow> httpReq \<Rightarrow> 'p obs \<Rightarrow> httpCall \<times> 'p obs" where
  "interceptStart env req s =
     (let (r, s1) = extractTraceContext env (hr_headers req) s; c = ctxAt s1 r
      in (\<lparr>hc_req = req, hc_trace = r, hc_start = o_clock s1, hc_size = getRequestSize req, hc_headers = injectTraceContext c\<rparr>,
          logInfo ''HTTP request received''
            (traceFields c @ strField ''method'' (hr_method req) @ strField ''path'' (hr_path req) @ strField ''url'' (hr_url req) @
             strField ''ip'' (getClientIp req) @ optField ''userAgent'' (map_of (hr_headers req) ''user-agent'') @
             optField ''userId'' (userId c)) s1))"

text \<open>
  \<^verbatim>\<open>tap\<close> on an answer and \<^verbatim>\<open>catchError\<close> on a rejection; a handler that rejects with \<^verbatim>\<open>null\<close> makes the latter throw at
  \<^verbatim>\<open>error.name\<close>. The status code is what the response holds at that moment.
\<close>

definition errorMessageField :: "thrown \<Rightarrow> logFields" where
  "errorMessageField e =
     (case e of ThrownError nm msg stack \<Rightarrow> strField ''errorMessage'' msg | ThrownValue v \<Rightarrow> jsonField ''errorMessage'' (jsonProp (Some v) ''message''))"

definition interceptEnd :: "'p obsEnv \<Rightarrow> httpCall \<Rightarrow> nat \<Rightarrow> thrown + json option \<Rightarrow> 'p obs \<Rightarrow> (thrown + json option) \<times> 'p obs" where
  "interceptEnd env hc statusCode outcome s =
     (let req = hc_req hc; c = ctxAt s (hc_trace hc); d = seconds (hc_start hc) (o_clock s); route = getRouteLabel req;
          common = traceFields c @ strField ''method'' (hr_method req) @ strField ''path'' (hr_path req) @
                   [(''statusCode'', LJson (JNum (int statusCode))), (''duration'', LSecs d)]
      in case outcome of
           Inr data \<Rightarrow>
             (outcome,
              logInfo ''HTTP request completed''
                (common @ [(''requestSize'', LJson (case hc_size hc of None \<Rightarrow> JNull | Some n \<Rightarrow> JNum n)),
                           (''responseSize'', LJson (JNum (getResponseSize data)))] @ optField ''userId'' (userId c))
                (recordSamples env (recordHttpRequest (hr_method req) route statusCode d (hc_size hc) (Some (getResponseSize data))) s))
         | Inl err \<Rightarrow>
             if err = ThrownValue JNull
             then (Inl (ThrownError ''TypeError'' ''Cannot read properties of null (reading 'name')'' []), s)
             else (outcome,
                   logError ''HTTP request error'' err (common @ optField ''userId'' (userId c) @ errorMessageField err)
                     (recordSamples env (recordHttpError (hr_method req) route (errorName err)) s)))"

section \<open>All the work of a process\<close>

text \<open>
  \<open>observed env ns s0 s js hs names\<close>: from the state \<open>s0\<close> of a new process the work reached \<open>s\<close>, with the jobs \<open>js\<close> and the requests \<open>hs\<close>
  unfinished and \<open>names\<close> the names of all jobs that were started. Every socket has an id of its own and belongs to one namespace.
  Nothing calls \<open>removeTraceContext\<close>.
\<close>

inductive observed ::
    "'p obsEnv \<Rightarrow> (string \<Rightarrow> string) \<Rightarrow> 'p obs \<Rightarrow> 'p obs \<Rightarrow> jobCall list \<Rightarrow> httpCall list \<Rightarrow> string list \<Rightarrow> bool"
  for env :: "'p obsEnv" and ns :: "string \<Rightarrow> string" and s0 :: "'p obs" where
  new: "observed env ns s0 s0 [] [] []"
| tick: "observed env ns s0 s js hs st \<Longrightarrow> 0 \<le> d \<Longrightarrow> observed env ns s0 (s\<lparr>o_clock := o_clock s + d\<rparr>) js hs st"
| connect: "observed env ns s0 s js hs st \<Longrightarrow> map_of (socketTraceMap s) sid = None \<Longrightarrow>
    observed env ns s0 (snd (initializeConnection env sid headers addr (ns sid) s)) js hs st"
| disconnect: "observed env ns s0 s js hs st \<Longrightarrow> observed env ns s0 (handleDisconnection env sid (ns sid) why s) js hs st"
| message: "observed env ns s0 s js hs st \<Longrightarrow> observed env ns s0 (recordMessage env sid (ns sid) e n s) js hs st"
| metadata: "observed env ns s0 s js hs st \<Longrightarrow> observed env ns s0 (updateMetadata sid md s) js hs st"
| jobStart: "observed env ns s0 s js hs st \<Longrightarrow> wrapProcessorStart env job name s = (jc, s') \<Longrightarrow> observed env ns s0 s' (jc # js) hs (name # st)"
| jobEnd: "observed env ns s0 s (js @ jc # js') hs st \<Longrightarrow> observed env ns s0 (wrapProcessorEnd env jc out s) (js @ js') hs st"
| queueSize: "observed env ns s0 s js hs st \<Longrightarrow> observed env ns s0 (queueSizeCallback env q n s) js hs st"
| request: "observed env ns s0 s js hs st \<Longrightarrow> interceptStart env req s = (hc, s') \<Longrightarrow> observed env ns s0 s' js (hc # hs) st"
| answer: "observed env ns s0 s js (hs @ hc # hs') st \<Longrightarrow> observed env ns s0 (snd (interceptEnd env hc code out s)) js (hs @ hs') st"
| processMetrics: "observed env ns s0 s js hs st \<Longrightarrow> observed env ns s0 (recordSamples env (updateProcessMetrics u h t r) s) js hs st"
| child: "observed env ns s0 s js hs st \<Longrightarrow> observed env ns s0 (snd (createChildSpan env tid s)) js hs st"
| requestContext: "observed env ns s0 s js hs st \<Longrightarrow> observed env ns s0 (setRequestContext tid fs s) js hs st"
| clearContext: "observed env ns s0 s js hs st \<Longrightarrow> observed env ns s0 (clearRequestContext tid s) js hs st"

section \<open>Trace contexts and the store\<close>

lemma undashed_no_dash [simp]: "CHR ''-'' \<notin> set (undashed x)"
  by (simp add: undashed_def)

lemma take_no_dash [simp]: "CHR ''-'' \<notin> set (take n (undashed x))"
  by (meson in_set_takeD undashed_no_dash)

text \<open>The new object and what else \<open>createTraceContext\<close> changes.\<close>

definition newContext ::
    "'p obsEnv \<Rightarrow> string option \<Rightarrow> string option \<Rightarrow> string option \<Rightarrow> (string \<times> json) list option \<Rightarrow> 'p obs \<Rightarrow> TraceContext" where
  "newContext env tid parent uid md s = last (o_heap (snd (createTraceContext env tid parent uid md s)))"

lemmas create_defs = createTraceContext_def generateTraceId_def generateSpanId_def shouldSample_def Let_def split_beta

lemma create_frame [simp]:
  "fst (createTraceContext env tid parent uid md s) = length (o_heap s)"
  "o_heap (snd (createTraceContext env tid parent uid md s)) = o_heap s @ [newContext env tid parent uid md s]"
  "traceContextMap (snd (createTraceContext env tid parent uid md s)) =
     objSet (traceId (newContext env tid parent uid md s)) (length (o_heap s)) (traceContextMap s)"
  "socketTraceMap (snd (createTraceContext env tid parent uid md s)) = socketTraceMap s"
  "jobTraceMap (snd (createTraceContext env tid parent uid md s)) = jobTraceMap s"
  "o_metrics (snd (createTraceContext env tid parent uid md s)) = o_metrics s"
  "o_clock (snd (createTraceContext env tid parent uid md s)) = o_clock s"
  by (simp_all add: create_defs newContext_def)

lemma newContext_simps [simp]:
  "parentSpanId (newContext env tid parent uid md s) = parent" "userId (newContext env tid parent uid md s) = uid"
  "metadata (newContext env tid parent uid md s) = md"
  "strTruthy tid \<Longrightarrow> traceId (newContext env tid parent uid md s) = the tid"
  by (simp_all add: create_defs newContext_def)

text \<open>Every id that the service generates is what is left of a UUID without its dashes.\<close>

definition uuidsOk :: "'p obsEnv \<Rightarrow> bool" where
  "uuidsOk env \<longleftrightarrow> (\<forall>n. length (undashed (oe_uuid env n)) = 32)"

definition ctxOk :: "TraceContext \<Rightarrow> bool" where
  "ctxOk c \<longleftrightarrow> length (spanId c) = 16 \<and> CHR ''-'' \<notin> set (spanId c) \<and> traceId c \<noteq> []"

lemma newContext_ok: "uuidsOk env \<Longrightarrow> ctxOk (newContext env tid parent uid md s)"
proof -
  assume u: "uuidsOk env"
  have "undashed (oe_uuid env n) \<noteq> []" for n using u by (metis list.size(3) uuidsOk_def zero_neq_numeral)
  with u show ?thesis
    by (cases tid) (auto simp: create_defs newContext_def ctxOk_def uuidsOk_def strTruthy_def dest: in_set_takeD)
qed

text \<open>
  The objects are well-formed, references are valid, an entry of the map of traces has the id of its object, and no id is ever forgotten.
\<close>

definition storeOk :: "'p obs \<Rightarrow> bool" where
  "storeOk s \<longleftrightarrow> list_all ctxOk (o_heap s) \<and> distinct (map fst (traceContextMap s)) \<and>
     (\<forall>k r. map_of (traceContextMap s) k = Some r \<longrightarrow> r < length (o_heap s) \<and> traceId (o_heap s ! r) = k) \<and>
     (\<forall>k r. map_of (socketTraceMap s) k = Some r \<longrightarrow> r < length (o_heap s)) \<and>
     traceId ` set (o_heap s) = fst ` set (traceContextMap s)"

lemma storeOk_create:
  assumes "storeOk s" and "uuidsOk env"
  shows "storeOk (snd (createTraceContext env tid parent uid md s))"
  using assms newContext_ok [of env tid parent uid md s]
  by (auto simp: storeOk_def keys_objSet distinct_objSet nth_append less_Suc_eq split: if_splits)

lemma storeOk_addMetadata:
  assumes "storeOk s"
  shows "storeOk (addMetadata tid md s)"
proof (cases "map_of (traceContextMap s) tid")
  case (Some r)
  let ?c = "(ctxAt s r)\<lparr>metadata := Some (spread (case metadata (ctxAt s r) of None \<Rightarrow> [] | Some m \<Rightarrow> m) md)\<rparr>"
  have r: "r < length (o_heap s)" using assms Some by (simp add: storeOk_def)
  have "map traceId ((o_heap s)[r := ?c]) = map traceId (o_heap s)"
    using r by (simp add: map_update ctxAt_def list_update_same_conv)
  then have same: "\<And>i. i < length (o_heap s) \<Longrightarrow> traceId ((o_heap s)[r := ?c] ! i) = traceId (o_heap s ! i)"
      "traceId ` set ((o_heap s)[r := ?c]) = traceId ` set (o_heap s)"
    by (metis length_list_update nth_map, metis list.set_map)
  have "list_all ctxOk ((o_heap s)[r := ?c])"
    using assms r by (auto simp: storeOk_def list_all_length nth_list_update ctxAt_def ctxOk_def)
  then show ?thesis using assms Some same by (simp add: storeOk_def addMetadata_def)
qed (use assms in \<open>simp add: addMetadata_def\<close>)

lemma map_of_mapDelete: "map_of (mapDelete k kvs) k' = (if k' = k then None else map_of kvs k')"
  by (induction kvs) (auto simp: mapDelete_def)

lemma distinct_mapDelete: "distinct (map fst kvs) \<Longrightarrow> distinct (map fst (mapDelete k kvs))"
  by (simp add: mapDelete_def distinct_map_filter)

section \<open>The effects of the operations\<close>

lemma recordSamples_frame [simp]:
  "o_heap (recordSamples env xs s) = o_heap s" "traceContextMap (recordSamples env xs s) = traceContextMap s"
  "socketTraceMap (recordSamples env xs s) = socketTraceMap s" "o_clock (recordSamples env xs s) = o_clock s"
  "ctxAt (recordSamples env xs s) r = ctxAt s r"
  by (simp_all add: recordSamples_def ctxAt_def)

lemma logAt_frame [simp]:
  "o_heap (logAt lv m fs s) = o_heap s" "traceContextMap (logAt lv m fs s) = traceContextMap s"
  "socketTraceMap (logAt lv m fs s) = socketTraceMap s" "o_metrics (logAt lv m fs s) = o_metrics s" "o_clock (logAt lv m fs s) = o_clock s"
  by (simp_all add: logAt_def)

lemma addMetadata_frame [simp]:
  "socketTraceMap (addMetadata tid md s) = socketTraceMap s" "o_metrics (addMetadata tid md s) = o_metrics s"
  by (simp_all add: addMetadata_def split: option.split)

lemmas log_defs = logInfo_def logDebug_def logError_def

lemma storeOk_simps [simp]: "storeOk (logAt lv m fs s) = storeOk s" "storeOk (recordSamples env xs s) = storeOk s"
  "storeOk (s\<lparr>jobTraceMap := jm\<rparr>) = storeOk s" "storeOk (s\<lparr>o_clock := x\<rparr>) = storeOk s"
  "storeOk (s\<lparr>requestContextStorage := y\<rparr>) = storeOk s"
  by (simp_all add: storeOk_def)

lemma extract_create: "\<exists>tid parent uid md. extractTraceContext env headers = createTraceContext env tid parent uid md"
  by (auto simp: extractTraceContext_def Let_def split_beta)

lemma extract_frame [simp]:
  "fst (extractTraceContext env headers s) = length (o_heap s)"
  "socketTraceMap (snd (extractTraceContext env headers s)) = socketTraceMap s"
  "o_metrics (snd (extractTraceContext env headers s)) = o_metrics s"
  "length (o_heap (snd (extractTraceContext env headers s))) = Suc (length (o_heap s))"
  using extract_create [of env headers] by auto

lemma storeOk_extract: "storeOk s \<Longrightarrow> uuidsOk env \<Longrightarrow> storeOk (snd (extractTraceContext env headers s))"
  using extract_create [of env headers] storeOk_create [of s env] by auto

lemma storeOk_connect:
  assumes "storeOk s" and "uuidsOk env"
  shows "storeOk (snd (initializeConnection env sid headers addr n s))"
proof -
  have "storeOk (snd (extractTraceContext env headers s))" using assms by (rule storeOk_extract)
  then show ?thesis
    using extract_frame(4) [of env headers s]
    by (auto simp: initializeConnection_def Let_def split_beta log_defs storeOk_def)
qed

lemma storeOk_disconnect: "storeOk s \<Longrightarrow> storeOk (handleDisconnection env sid n why s)"
  by (auto simp: handleDisconnection_def Let_def log_defs storeOk_def map_of_mapDelete split: option.split)

lemma storeOk_job:
  assumes "storeOk s" and "uuidsOk env"
  shows "storeOk (snd (wrapProcessorStart env job name s))"
  using storeOk_create [OF assms]
  by (simp add: wrapProcessorStart_def createJobTraceContext_def Let_def split_beta log_defs)

section \<open>The metrics\<close>

lemma objSet_new: "map_of kvs k = None \<Longrightarrow> objSet k v kvs = kvs @ [(k, v)]"
  by (induction kvs) (auto split: if_splits)

lemma length_filter_mapDelete:
  assumes "distinct (map fst kvs)" and "map_of kvs k = Some v"
  shows "length (filter (\<lambda>kv. P (fst kv)) kvs) = length (filter (\<lambda>kv. P (fst kv)) (mapDelete k kvs)) + (if P k then 1 else 0)"
  using assms
proof (induction kvs)
  case (Cons kv kvs)
  show ?case
  proof (cases "fst kv = k")
    case True
    then have "mapDelete k kvs = kvs" using Cons.prems(1) unfolding mapDelete_def by (intro filter_True ballI) (metis distinct.simps(2) imageI list.map(2) list.set_map)
    then show ?thesis using True by (simp add: mapDelete_def)
  next
    case False
    then show ?thesis using Cons by (auto simp: mapDelete_def)
  qed
qed simp

definition metricsOk ::
    "('p \<Rightarrow> string \<Rightarrow> labels \<Rightarrow> rat) \<Rightarrow> (string \<Rightarrow> string) \<Rightarrow> 'p obs \<Rightarrow> jobCall list \<Rightarrow> string list \<Rightarrow> bool" where
  "metricsOk val ns s js st \<longleftrightarrow>
     (let v = val (o_metrics s) in
      (\<forall>n. v ''jobs_active'' [(''job_name'', n)] = of_nat (length (filter (\<lambda>jc. jc_name jc = n) js))) \<and>
      (\<forall>n. of_nat (length (filter (\<lambda>jc. jc_name jc = n) js)) + v ''jobs_total'' [(''job_name'', n), (''status'', ''success'')] +
           v ''jobs_total'' [(''job_name'', n), (''status'', ''failed'')] = of_nat (length (filter (\<lambda>x. x = n) st))) \<and>
      (\<forall>n. v ''jobs_completed_total'' [(''job_name'', n)] = v ''jobs_total'' [(''job_name'', n), (''status'', ''success'')]) \<and>
      (\<forall>n. v ''websocket_connections_active'' [(''namespace'', n)] = of_nat (length (filter (\<lambda>kv. ns (fst kv) = n) (socketTraceMap s)))) \<and>
      distinct (map fst (socketTraceMap s)))"

lemma val_samples:
  assumes "metric_registry (oe_record env) val" and "list_all declared xs" and "list_all (\<lambda>x. \<not> setsMetric n x) xs"
  shows "val (o_metrics (recordSamples env xs s)) n l = val (o_metrics s) n l + netChange n l xs"
  using metric_registry.value_samples [OF assms] by (simp add: recordSamples_def)

definition quiet :: "sample list \<Rightarrow> bool" where
  "quiet xs \<longleftrightarrow> list_all declared xs \<and>
     (\<forall>n \<in> set [''jobs_active'', ''jobs_total'', ''jobs_completed_total'', ''websocket_connections_active''].
        list_all (\<lambda>x. \<not> setsMetric n x) xs \<and> (\<forall>l. netChange n l xs = 0))"

lemma quiet_table:
  "quiet (recordWebSocketMessage ns e)" "quiet (recordHttpRequest m r c d i j)" "quiet (recordHttpError m r e)"
  "quiet (updateJobQueueSize q x)" "quiet (updateProcessMetrics a b h t)"
  unfolding quiet_def by (simp_all only: declared_table simp_thms) (simp_all add: metric_defs Let_def)

lemma metricsOk_simps [simp]:
  "metricsOk val ns (logAt lv m fs s) js st = metricsOk val ns s js st" "metricsOk val ns (s\<lparr>o_clock := x\<rparr>) js st = metricsOk val ns s js st"
  "metricsOk val ns (s\<lparr>requestContextStorage := y\<rparr>) js st = metricsOk val ns s js st"
  "metricsOk val ns (addMetadata tid md s) js st = metricsOk val ns s js st"
  "metricsOk val ns (snd (createTraceContext env tid' parent uid md' s)) js st = metricsOk val ns s js st"
  "metricsOk val ns (snd (extractTraceContext env headers s)) js st = metricsOk val ns s js st"
  by (simp_all add: metricsOk_def)

lemma metricsOk_quiet:
  assumes "metric_registry (oe_record env) val" and "quiet xs" and "metricsOk val ns s js st"
  shows "metricsOk val ns (recordSamples env xs s) js st"
proof -
  have "val (o_metrics (recordSamples env xs s)) n l = val (o_metrics s) n l"
    if "n \<in> set [''jobs_active'', ''jobs_total'', ''jobs_completed_total'', ''websocket_connections_active'']" for n l
    using val_samples [OF assms(1), of xs n s l] assms(2) that unfolding quiet_def by (metis add_0_right)
  then show ?thesis using assms(3) by (simp add: metricsOk_def Let_def)
qed

text \<open>What the four operations that change a watched metric add to it.\<close>

lemmas watched = declared_table metric_defs

lemma net_connection:
  "netChange ''jobs_active'' l (recordWebSocketConnection n) = 0" "netChange ''jobs_total'' l (recordWebSocketConnection n) = 0"
  "netChange ''jobs_completed_total'' l (recordWebSocketConnection n) = 0"
  "netChange ''websocket_connections_active'' [(''namespace'', n')] (recordWebSocketConnection n) = (if n' = n then 1 else 0)"
  "netChange ''jobs_active'' l (recordWebSocketDisconnection n why) = 0" "netChange ''jobs_total'' l (recordWebSocketDisconnection n why) = 0"
  "netChange ''jobs_completed_total'' l (recordWebSocketDisconnection n why) = 0"
  "netChange ''websocket_connections_active'' [(''namespace'', n')] (recordWebSocketDisconnection n why) = (if n' = n then -1 else 0)"
  by (simp_all add: metric_defs)

lemma net_job:
  "netChange ''jobs_active'' [(''job_name'', n')] (recordJobStart n) = (if n' = n then 1 else 0)"
  "netChange ''jobs_total'' l (recordJobStart n) = 0" "netChange ''jobs_completed_total'' l (recordJobStart n) = 0"
  "netChange ''websocket_connections_active'' l (recordJobStart n) = 0"
  "netChange ''jobs_active'' [(''job_name'', n')] (recordJobCompleted n d) = (if n' = n then -1 else 0)"
  "netChange ''jobs_total'' [(''job_name'', n'), (''status'', ''success'')] (recordJobCompleted n d) = (if n' = n then 1 else 0)"
  "netChange ''jobs_total'' [(''job_name'', n'), (''status'', ''failed'')] (recordJobCompleted n d) = 0"
  "netChange ''jobs_completed_total'' [(''job_name'', n')] (recordJobCompleted n d) = (if n' = n then 1 else 0)"
  "netChange ''websocket_connections_active'' l (recordJobCompleted n d) = 0"
  "netChange ''jobs_active'' [(''job_name'', n')] (recordJobFailed n d e) = (if n' = n then -1 else 0)"
  "netChange ''jobs_total'' [(''job_name'', n'), (''status'', ''success'')] (recordJobFailed n d e) = 0"
  "netChange ''jobs_total'' [(''job_name'', n'), (''status'', ''failed'')] (recordJobFailed n d e) = (if n' = n then 1 else 0)"
  "netChange ''jobs_completed_total'' l (recordJobFailed n d e) = 0"
  "netChange ''websocket_connections_active'' l (recordJobFailed n d e) = 0"
  by (simp_all add: metric_defs)

lemma sets_none:
  "list_all (\<lambda>x. \<not> setsMetric k x) (recordWebSocketConnection n)" "list_all (\<lambda>x. \<not> setsMetric k x) (recordWebSocketDisconnection n why)"
  "list_all (\<lambda>x. \<not> setsMetric k x) (recordJobStart n)" "list_all (\<lambda>x. \<not> setsMetric k x) (recordJobCompleted n d)"
  "list_all (\<lambda>x. \<not> setsMetric k x) (recordJobFailed n d e)"
  by (simp_all add: metric_defs)

lemmas val_op = val_samples [OF _ declared_table(4) sets_none(1)] val_samples [OF _ declared_table(5) sets_none(2)]
  val_samples [OF _ declared_table(7) sets_none(3)] val_samples [OF _ declared_table(8) sets_none(4)]
  val_samples [OF _ declared_table(9) sets_none(5)]

lemma metricsOk_connect:
  assumes reg: "metric_registry (oe_record env) val" and ok: "metricsOk val ns s js st" and new: "map_of (socketTraceMap s) sid = None"
  shows "metricsOk val ns (snd (initializeConnection env sid headers addr (ns sid) s)) js st"
proof -
  let ?t = "snd (extractTraceContext env headers s)"
  have t: "metricsOk val ns ?t js st" using ok by simp
  have "sid \<notin> fst ` set (socketTraceMap s)" using new by (simp add: map_of_eq_None_iff)
  with t show ?thesis
    unfolding metricsOk_def initializeConnection_def Let_def split_beta log_defs
    by (simp add: val_op [OF reg] net_connection objSet_new [OF new])
qed

lemma metricsOk_disconnect:
  assumes reg: "metric_registry (oe_record env) val" and ok: "metricsOk val ns s js st"
  shows "metricsOk val ns (handleDisconnection env sid (ns sid) why s) js st"
proof (cases "map_of (socketTraceMap s) sid")
  case (Some r)
  have d: "distinct (map fst (socketTraceMap s))" using ok by (simp add: metricsOk_def Let_def)
  have l: "rat_of_nat (length (filter (\<lambda>kv. ns (fst kv) = n) (mapDelete sid (socketTraceMap s)))) =
      rat_of_nat (length (filter (\<lambda>kv. ns (fst kv) = n) (socketTraceMap s))) - (if ns sid = n then 1 else 0)" for n
    using length_filter_mapDelete [OF d Some, of "\<lambda>k. ns k = n"] by simp
  show ?thesis
    using ok d Some unfolding metricsOk_def handleDisconnection_def Let_def log_defs
    by (simp add: val_op [OF reg] net_connection l distinct_mapDelete)
qed (use ok in \<open>simp add: handleDisconnection_def\<close>)

lemma createJob_frame [simp]:
  "socketTraceMap (snd (createJobTraceContext env job name s)) = socketTraceMap s"
  "o_metrics (snd (createJobTraceContext env job name s)) = o_metrics s"
  by (simp_all add: createJobTraceContext_def Let_def split_beta)

lemma metricsOk_jobStart:
  assumes reg: "metric_registry (oe_record env) val" and ok: "metricsOk val ns s js st" and start: "wrapProcessorStart env job name s = (jc, s')"
  shows "metricsOk val ns s' (jc # js) (name # st)"
proof -
  have "jc_name jc = name" using start by (auto simp: wrapProcessorStart_def Let_def split_beta)
  moreover have "s' = snd (wrapProcessorStart env job name s)" using start by simp
  ultimately show ?thesis
    using ok unfolding metricsOk_def wrapProcessorStart_def Let_def split_beta log_defs
    by (simp add: val_op [OF reg] net_job add.assoc)
qed

lemma metricsOk_jobEnd:
  assumes reg: "metric_registry (oe_record env) val" and ok: "metricsOk val ns s (js @ jc # js') st"
  shows "metricsOk val ns (wrapProcessorEnd env jc out s) (js @ js') st"
proof -
  have len: "rat_of_nat (length (filter (\<lambda>x. jc_name x = n) (js @ jc # js'))) =
      rat_of_nat (length (filter (\<lambda>x. jc_name x = n) (js @ js'))) + (if n = jc_name jc then 1 else 0)" for n
    by simp
  note ok' = ok [unfolded metricsOk_def Let_def len]
  show ?thesis
    using ok' unfolding metricsOk_def wrapProcessorEnd_def Let_def log_defs jobDone_def
    by (cases out) (simp_all add: val_op [OF reg] net_job algebra_simps del: filter_append length_append)
qed

lemma answer_cases:
  "(\<exists>xs lv m fs. quiet xs \<and> snd (interceptEnd env hc code out s) = logAt lv m fs (recordSamples env xs s)) \<or>
   snd (interceptEnd env hc code out s) = s"
proof (cases out)
  case (Inl e)
  then show ?thesis
    unfolding interceptEnd_def Let_def logError_def
    by (cases "e = ThrownValue JNull") (simp, simp only: sum.case if_False snd_conv, use quiet_table(3) in blast)
next
  case (Inr d)
  then show ?thesis
    unfolding interceptEnd_def Let_def logInfo_def by (simp only: sum.case snd_conv) (use quiet_table(2) in blast)
qed

lemma observed_metrics:
  assumes "observed env ns s0 s js hs st" and reg: "metric_registry (oe_record env) val"
    and "metricsOk val ns s0 [] []"
  shows "metricsOk val ns s js st"
  using assms(1)
proof induction
  case new
  show ?case by (fact assms(3))
next
  case (connect s js hs st sid headers addr)
  then show ?case by (blast intro: metricsOk_connect [OF reg])
next
  case (disconnect s js hs st sid why)
  then show ?case by (blast intro: metricsOk_disconnect [OF reg])
next
  case (message s js hs st sid e n)
  then show ?case
    using metricsOk_quiet [OF reg quiet_table(1)]
    by (auto simp: recordMessage_def Let_def log_defs split: option.split)
next
  case (jobStart s js hs st job name jc s')
  then show ?case by (blast intro: metricsOk_jobStart [OF reg])
next
  case (jobEnd s js jc js' hs st out)
  then show ?case by (blast intro: metricsOk_jobEnd [OF reg])
next
  case (queueSize s js hs st q n)
  then show ?case unfolding queueSizeCallback_def by (blast intro: metricsOk_quiet [OF reg quiet_table(4)])
next
  case (request s js hs st req hc s')
  then have "s' = snd (interceptStart env req s)" by simp
  then show ?case using request.IH by (auto simp: interceptStart_def Let_def split_beta log_defs)
next
  case (answer s js hs hc hs' st code out)
  show ?case
    using answer_cases [of env hc code out s] metricsOk_quiet [OF reg _ answer.IH] answer.IH by auto
next
  case (processMetrics s js hs st u h t r)
  then show ?case by (blast intro: metricsOk_quiet [OF reg quiet_table(5)])
qed (auto simp: updateMetadata_def createChildSpan_def Let_def split_beta setRequestContext_def clearRequestContext_def
    split: option.split)

lemma observed_store:
  assumes "observed env ns s0 s js hs st" and u: "uuidsOk env" and "storeOk s0"
  shows "storeOk s"
  using assms(1)
proof induction
  case new
  show ?case by (fact assms(3))
next
  case (connect s js hs st sid headers addr)
  then show ?case by (blast intro: storeOk_connect u)
next
  case (disconnect s js hs st sid why)
  then show ?case by (blast intro: storeOk_disconnect)
next
  case (metadata s js hs st sid md)
  then show ?case by (auto simp: updateMetadata_def intro: storeOk_addMetadata split: option.split)
next
  case (jobStart s js hs st job name jc s')
  then show ?case using storeOk_job [OF jobStart.IH u, of job name] by simp
next
  case (jobEnd s js jc js' hs st out)
  then show ?case by (auto simp: wrapProcessorEnd_def Let_def jobDone_def log_defs split: sum.split)
next
  case (request s js hs st req hc s')
  then have "s' = snd (interceptStart env req s)" by simp
  then show ?case
    using storeOk_extract [OF request.IH u] by (auto simp: interceptStart_def Let_def split_beta log_defs)
next
  case (answer s js hs hc hs' st code out)
  show ?case
    using answer_cases [of env hc code out s] answer.IH by auto
next
  case (child s js hs st tid)
  then show ?case by (auto simp: createChildSpan_def Let_def split_beta intro: storeOk_create u split: option.split)
qed (auto simp: recordMessage_def Let_def log_defs queueSizeCallback_def setRequestContext_def clearRequestContext_def
    split: option.split)

section \<open>Exact metrics\<close>

definition newObs :: "'p \<Rightarrow> int \<Rightarrow> 'p obs" where
  "newObs p t = \<lparr>o_heap = [], traceContextMap = [], socketTraceMap = [], jobTraceMap = [], requestContextStorage = [], o_metrics = p,
     o_logs = [], o_clock = t, o_draws = 0\<rparr>"

lemma newObs_ok: "storeOk (newObs p t)" "(\<forall>n l. val p n l = 0) \<Longrightarrow> metricsOk val ns (newObs p t) [] []"
  by (simp_all add: newObs_def storeOk_def metricsOk_def)


section \<open>Propagation\<close>

lemma splitOn_append: "splitOn c (xs @ c # ys) = splitOn c xs @ splitOn c ys"
  by (induction xs) (auto split: list.split)

lemma hd_splitOn: "splitOn c xs ! 0 = takeWhile (\<lambda>x. x \<noteq> c) xs"
  by (induction xs) (auto split: list.split simp: nth_Cons')

lemma takeWhile_absent: "c \<notin> set xs \<Longrightarrow> takeWhile (\<lambda>x. x \<noteq> c) xs = xs"
  by (auto simp: takeWhile_eq_all_conv)

text \<open>The parts of the header that another service splits.\<close>

lemma traceparent_parts:
  assumes "CHR ''-'' \<notin> set sid"
  shows "let parts = splitOn (CHR ''-'') (''00-'' @ tid @ ''-'' @ sid @ ''-'' @ fl)
         in 3 \<le> length parts \<and> parts ! 1 = takeWhile (\<lambda>x. x \<noteq> CHR ''-'') tid \<and> (CHR ''-'' \<notin> set tid \<longrightarrow> parts ! 2 = sid)"
proof -
  let ?d = "CHR ''-''"
  have "splitOn ?d (''00-'' @ tid @ ''-'' @ sid @ ''-'' @ fl) = ''00'' # splitOn ?d tid @ sid # splitOn ?d fl"
    using splitOn_append [of ?d "''00''" "tid @ ''-'' @ sid @ ''-'' @ fl"] splitOn_append [of ?d tid "sid @ ''-'' @ fl"]
      splitOn_append [of ?d sid fl] splitOn_no_sep [OF assms] splitOn_no_sep [of ?d "''00''"] by simp
  moreover obtain x xs where "splitOn ?d tid = x # xs" using splitOn_neq_Nil by (meson neq_Nil_conv)
  moreover have "x = takeWhile (\<lambda>x. x \<noteq> ?d) tid" using hd_splitOn [of ?d tid] calculation(2) by simp
  ultimately show ?thesis using splitOn_no_sep [of ?d tid] by (auto simp: nth_append Let_def)
qed

lemma truthy_Some: "strTruthy (Some x) = (x \<noteq> [])"
  by (simp add: strTruthy_def)

lemma header_inject:
  "header (injectTraceContext c) ''x-trace-id'' ''X-Trace-Id'' = orElse (Some (traceId c)) None"
  "header (injectTraceContext c) ''x-user-id'' ''X-User-Id'' = (if strTruthy (userId c) then userId c else None)"
  "header (injectTraceContext c) ''x-correlation-id'' ''X-Correlation-Id'' = None"
  "header (injectTraceContext c) ''x-span-id'' ''X-Span-Id'' = orElse (Some (spanId c)) None"
  "header (injectTraceContext c) ''traceparent'' ''Traceparent'' =
     Some (''00-'' @ traceId c @ ''-'' @ spanId c @ ''-'' @ (if sampled c then ''01'' else ''00''))"
  by (cases "userId c"; simp add: header_def injectTraceContext_def orElse_def strTruthy_def)+

lemma ctx_created: "createTraceContext env tid parent uid md s = (r, s') \<Longrightarrow> ctxAt s' r = newContext env tid parent uid md s"
  using create_frame(1,2) [of env tid parent uid md s] by (simp add: ctxAt_def)

text \<open>
  C39. A trace crosses a process boundary: when another service reads the headers of a context of this one, it continues the trace under the
  sender's span and for the same user, provided the trace id has no dash. The ids that the service generates have none, but an id that a client
  chose, such as a UUID in its usual form, is cut at its first dash (unless it starts with one). The correlation id is
  not passed on. A job that carries the context in its data continues the trace whatever the id.
\<close>

theorem trace_propagates:
  assumes "observed env ns (newObs p t) s js hs st" and "uuidsOk env" and "r < length (o_heap s)"
    and sent: "extractTraceContext env' (injectTraceContext (ctxAt s r)) s1 = (r1, s1')"
    and queued: "createJobTraceContext env' \<lparr>tj_id = i, tj_data = Some (JObj (jobInjectTraceContext data (ctxAt s r)))\<rparr> name s2 = (r2, s2')"
  shows "let c = ctxAt s r; c1 = ctxAt s1' r1; c2 = ctxAt s2' r2; cut = takeWhile (\<lambda>x. x \<noteq> CHR ''-'') (traceId c)
    in traceId c1 = (if cut = [] then traceId c else cut) \<and>
       (CHR ''-'' \<notin> set (traceId c) \<longrightarrow> traceId c1 = traceId c \<and> parentSpanId c1 = Some (spanId c)) \<and>
       userId c1 = (if strTruthy (userId c) then userId c else None) \<and> metadata c1 = None \<and>
       traceId c2 = traceId c \<and> parentSpanId c2 = Some (spanId c) \<and> userId c2 = userId c"
proof -
  let ?c = "ctxAt s r" and ?cut = "takeWhile (\<lambda>x. x \<noteq> CHR ''-'') (traceId (ctxAt s r))"
  have "storeOk s" by (rule observed_store [OF assms(1,2) newObs_ok(1)])
  then have c: "ctxOk ?c" using assms(3) by (simp add: storeOk_def list_all_length ctxAt_def)
  then have ne: "traceId ?c \<noteq> []" "spanId ?c \<noteq> []" "CHR ''-'' \<notin> set (spanId ?c)" by (auto simp: ctxOk_def)
  define tp where "tp = ''00-'' @ traceId ?c @ ''-'' @ spanId ?c @ ''-'' @ (if sampled ?c then ''01'' else ''00'')"
  define parts where "parts = splitOn (CHR ''-'') tp"
  have parts: "3 \<le> length parts" "parts ! 1 = ?cut" "CHR ''-'' \<notin> set (traceId ?c) \<Longrightarrow> parts ! 2 = spanId ?c"
    using traceparent_parts [OF ne(3), of "traceId ?c" "if sampled ?c then ''01'' else ''00''"]
    unfolding tp_def [symmetric] parts_def [symmetric] Let_def by blast+
  have tp: "tp \<noteq> []" "strOr (Some tp) [] = tp" by (simp_all add: tp_def strOr_def)
  have "extractTraceContext env' (injectTraceContext ?c) s1 =
      createTraceContext env' (orElse (Some (parts ! 1)) (Some (traceId ?c))) (orElse (Some (parts ! 2)) (Some (spanId ?c)))
        (if strTruthy (userId ?c) then userId ?c else None) None s1"
    using ne parts(1) unfolding extractTraceContext_def Let_def header_inject tp_def [symmetric] tp(2) parts_def [symmetric]
    by (simp add: tp(1) truthy_Some orElse_def [of "Some (traceId ?c)"] orElse_def [of "Some (spanId ?c)"] strTruthy_def [of None])
  then have c1: "ctxAt s1' r1 = newContext env' (orElse (Some (parts ! 1)) (Some (traceId ?c))) (orElse (Some (parts ! 2)) (Some (spanId ?c)))
        (if strTruthy (userId ?c) then userId ?c else None) None s1"
    using ctx_created sent by metis
  have "ctxAt s2' r2 = newContext env' (Some (traceId ?c)) (Some (spanId ?c)) (userId ?c) None s2"
    using queued by (auto simp: createJobTraceContext_def jobInjectTraceContext_def jsonProp_def strProp_def ctxAt_def Let_def split_beta
        split: option.splits)
  moreover have "CHR ''-'' \<notin> set (traceId ?c) \<Longrightarrow> ?cut = traceId ?c" by (rule takeWhile_absent)
  ultimately show ?thesis
    using c1 parts(2,3) ne by (auto simp: Let_def orElse_def strTruthy_def)
qed

text \<open>
  A trace is never released: in every reachable state the map still has an entry for every trace id that was ever seen, also for the requests,
  sockets and jobs that are finished, so that it grows for as long as the process runs.
\<close>

theorem traces_never_released:
  assumes "observed env ns (newObs p t) s js hs st" and "uuidsOk env"
  shows "length (getActiveTraces s) = card (traceId ` set (o_heap s))"
  using observed_store [OF assms newObs_ok(1)] by (auto simp: storeOk_def getActiveTraces_def) (metis distinct_card length_map list.set_map)

text \<open>
  The metadata of a socket follow its trace id and not the socket: once another request, job or socket has arrived with the same trace id, they
  go to the context of that one and the context of the socket stays as it is.
\<close>

theorem metadata_goes_to_latest:
  assumes "map_of (socketTraceMap s) sid = Some r" and "getTraceContext (traceId (ctxAt s r)) s = Some r'" and "r' \<noteq> r" and "r' < length (o_heap s)"
  shows "ctxAt (updateMetadata sid md s) r = ctxAt s r"
    and "metadata (ctxAt (updateMetadata sid md s) r') = Some (spread (case metadata (ctxAt s r') of None \<Rightarrow> [] | Some m \<Rightarrow> m) md)"
  using assms by (simp_all add: updateMetadata_def addMetadata_def getTraceContext_def ctxAt_def)

text \<open>The log hides the five secret properties of a job's data at the top level only.\<close>

theorem sanitize_top_level:
  assumes "kvs \<noteq> []"
  shows "sanitizeJobData (Some (JObj kvs)) = Some (JObj (map (\<lambda>(k, x). (k, if k \<in> {''password'', ''token'', ''secret'', ''apiKey'', ''privateKey''} then JStr ''[REDACTED]'' else x)) kvs))"
    and "sanitizeJobData (Some (JObj [(''user'', JObj kvs)])) = Some (JObj [(''user'', JObj kvs)])"
  by (simp_all add: sanitizeJobData_def)

section \<open>Witnesses\<close>

text \<open>One socket stays open and another one is closed twice; of three jobs one is running, one has succeeded and one has failed.\<close>

definition memObsEnv :: "(string \<Rightarrow> labels \<Rightarrow> rat) obsEnv" where
  "memObsEnv = \<lparr>oe_uuid = (\<lambda>n. replicate 8 (digitChar (n mod 10)) @ ''-4a4a-'' @ replicate 20 (CHR ''b'')), oe_random = (\<lambda>_. 1/2), oe_rate = Some 1,
     oe_service = None, oe_record = memRecord\<rparr>"

definition dayJob :: "string \<Rightarrow> tracedJob" where
  "dayJob i = \<lparr>tj_id = i, tj_data = None\<rparr>"

lemma memObs_uuids: "uuidsOk memObsEnv"
proof -
  have "digitChar (n mod 10) \<noteq> CHR ''-''" for n
    using isDigit_digitChar [of "n mod 10"] by (auto simp: isDigit_def)
  then show ?thesis by (simp add: uuidsOk_def memObsEnv_def undashed_def)
qed

lemma wrap_simps [simp]:
  "jc_name (fst (wrapProcessorStart env job name s)) = name"
  "socketTraceMap (snd (wrapProcessorStart env job name s)) = socketTraceMap s"
  "socketTraceMap (wrapProcessorEnd env jc out s) = socketTraceMap s"
  by (simp_all add: wrapProcessorStart_def wrapProcessorEnd_def jobDone_def log_defs Let_def split_beta split: sum.split)

lemma mem_registry: "metric_registry (oe_record memObsEnv) (\<lambda>p. p)"
  unfolding memObsEnv_def by simp (rule mreg.metric_registry_axioms)


text \<open>A client names its trace \<^verbatim>\<open>4f-7\<close>: the next service sees \<^verbatim>\<open>4f\<close>, a job sees the whole name.\<close>

definition dashedReq :: httpReq where
  "dashedReq = \<lparr>hr_method = ''GET'', hr_path = ''/'', hr_url = ''/'', hr_route = None, hr_headers = [(''x-trace-id'', ''4f-7'')], hr_ip = None\<rparr>"

theorem trace_propagates_witness:
  "let e = memObsEnv; s0 = newObs (\<lambda>_ _. 0) 0; c = ctxAt (snd (interceptStart e dashedReq s0)) 0;
       sent = extractTraceContext e (injectTraceContext c) s0;
       queued = createJobTraceContext e \<lparr>tj_id = ''1'', tj_data = Some (JObj (jobInjectTraceContext [] c))\<rparr> ''deploy'' s0
   in traceId (ctxAt (snd sent) (fst sent)) = ''4f'' \<and> traceId (ctxAt (snd queued) (fst queued)) = ''4f-7''"
proof -
  let ?e = memObsEnv and ?s0 = "newObs (\<lambda>_ _. 0) 0 :: (string \<Rightarrow> labels \<Rightarrow> rat) obs"
  let ?r = "interceptStart ?e dashedReq ?s0"
  have ob: "observed ?e id ?s0 (snd ?r) [] [fst ?r] []" by (rule observed.request [OF observed.new]) simp
  have h: "extractTraceContext ?e (hr_headers dashedReq) = createTraceContext ?e (Some ''4f-7'') None None None"
    unfolding extractTraceContext_def Let_def by (simp add: dashedReq_def header_def orElse_def strTruthy_def)
  have c: "o_heap (snd ?r) = [newContext ?e (Some ''4f-7'') None None None ?s0]"
    unfolding interceptStart_def Let_def split_beta h log_defs by (simp add: newObs_def)
  then have tid: "traceId (ctxAt (snd ?r) 0) = ''4f-7''" by (simp add: ctxAt_def truthy_Some)
  show ?thesis
    using trace_propagates [OF ob memObs_uuids, of 0 ?e ?s0 _ _ "''1''" "[]" "''deploy''" ?s0, OF _ surjective_pairing surjective_pairing] c tid
    unfolding Let_def by simp
qed

end
