(* ===== verification/Presence.thy ===== *)
theory Presence
  imports Prelude "HOL-Library.AList"
begin

text \<open>
  The chat gateway and the presence of its users: \<^verbatim>\<open>websocket/presence.service.ts\<close>, \<^verbatim>\<open>websocket/websocket.gateway.ts\<close> and
  \<^verbatim>\<open>websocket/redis-io.adapter.ts\<close>. The Redis client is a parameter with the laws of the locale \<open>presence_store\<close>. The socket library puts
  a socket into rooms, takes a closed socket out of them and sends a room's message to the sockets that are in it at that moment.
  A user id is what the client wrote into its handshake.
\<close>

section \<open>The store\<close>

datatype pval = PText string | PSet "string set"

record 'r predis =
  prSet :: "string \<Rightarrow> string \<Rightarrow> 'r \<Rightarrow> 'r"
  prDel :: "string \<Rightarrow> 'r \<Rightarrow> 'r"
  prSAdd :: "string \<Rightarrow> string \<Rightarrow> 'r \<Rightarrow> 'r"
  prSRem :: "string \<Rightarrow> string \<Rightarrow> 'r \<Rightarrow> 'r"
  prSMembers :: "string \<Rightarrow> 'r \<Rightarrow> string list"

definition psetAt :: "(string \<rightharpoonup> pval) \<Rightarrow> string \<Rightarrow> string set" where
  "psetAt m k = (case m k of Some (PSet v) \<Rightarrow> v | _ \<Rightarrow> {})"

definition ptextAt :: "(string \<rightharpoonup> pval) \<Rightarrow> string \<Rightarrow> string option" where
  "ptextAt m k = (case m k of Some (PText v) \<Rightarrow> Some v | _ \<Rightarrow> None)"

locale presence_store =
  fixes D :: "'r predis" and look :: "'r \<Rightarrow> string \<rightharpoonup> pval"
  assumes pset_look: "look (prSet D k v r) = (look r)(k \<mapsto> PText v)"
    and pdel_look: "look (prDel D k r) = (look r)(k := None)"
    and psAdd_look: "look (prSAdd D k x r) = (look r)(k \<mapsto> PSet (insert x (psetAt (look r) k)))"
    and psRem_look: "look (prSRem D k x r) =
          (if psetAt (look r) k \<subseteq> {x} \<and> x \<in> psetAt (look r) k then (look r)(k := None)
           else if x \<in> psetAt (look r) k then (look r)(k \<mapsto> PSet (psetAt (look r) k - {x})) else look r)"
    and pmembers_look: "set (prSMembers D k r) = psetAt (look r) k \<and> distinct (prSMembers D k r)"

section \<open>The service\<close>

definition onlineKey :: string where
  "onlineKey = ''presence:online''"

definition socketKey :: "string \<Rightarrow> string" where
  "socketKey userId = ''user:'' @ userId @ '':socket''"

definition roomKey :: "string \<Rightarrow> string" where
  "roomKey roomId = ''room:'' @ roomId @ '':users''"

definition userConnected :: "'r predis \<Rightarrow> string \<Rightarrow> string \<Rightarrow> 'r \<Rightarrow> 'r" where
  "userConnected D userId socketId r = prSet D (socketKey userId) socketId (prSAdd D onlineKey userId r)"

definition userDisconnected :: "'r predis \<Rightarrow> string \<Rightarrow> 'r \<Rightarrow> 'r" where
  "userDisconnected D userId r = prDel D (socketKey userId) (prSRem D onlineKey userId r)"

definition presenceJoinRoom :: "'r predis \<Rightarrow> string \<Rightarrow> string \<Rightarrow> 'r \<Rightarrow> 'r" where
  "presenceJoinRoom D userId roomId r = prSAdd D (roomKey roomId) userId r"

definition getRoomUsers :: "'r predis \<Rightarrow> string \<Rightarrow> 'r \<Rightarrow> string list" where
  "getRoomUsers D roomId r = prSMembers D (roomKey roomId) r"

section \<open>The gateway\<close>

record chatClient =
  cc_id :: string
  cc_userId :: string

datatype chatEvent = PresenceUpdate string "string list" | ChatMessage string string

record 'r chat =
  ch_redis :: 'r
  ch_open :: "chatClient list"
  ch_rooms :: "(string \<times> string) list"
  ch_sent :: "(string list \<times> chatEvent) list"

text \<open>\<^verbatim>\<open>server.to(roomId).emit\<close> reaches the sockets of the room.\<close>

definition emitTo :: "string \<Rightarrow> chatEvent \<Rightarrow> 'r chat \<Rightarrow> 'r chat" where
  "emitTo roomId e s = s\<lparr>ch_sent := ch_sent s @ [(remdups (map fst (filter (\<lambda>x. snd x = roomId) (ch_rooms s))), e)]\<rparr>"

definition gatewayConnection :: "'r predis \<Rightarrow> chatClient \<Rightarrow> 'r chat \<Rightarrow> 'r chat" where
  "gatewayConnection D c s = s\<lparr>ch_open := c # ch_open s, ch_redis := userConnected D (cc_userId c) (cc_id c) (ch_redis s)\<rparr>"

definition gatewayDisconnect :: "'r predis \<Rightarrow> chatClient \<Rightarrow> 'r chat \<Rightarrow> 'r chat" where
  "gatewayDisconnect D c s =
     s\<lparr>ch_open := filter (\<lambda>x. cc_id x \<noteq> cc_id c) (ch_open s), ch_rooms := filter (\<lambda>x. fst x \<noteq> cc_id c) (ch_rooms s),
       ch_redis := userDisconnected D (cc_userId c) (ch_redis s)\<rparr>"

definition gatewayJoinRoom :: "'r predis \<Rightarrow> chatClient \<Rightarrow> string \<Rightarrow> 'r chat \<Rightarrow> 'r chat" where
  "gatewayJoinRoom D c roomId s =
     (let s1 = s\<lparr>ch_redis := presenceJoinRoom D (cc_userId c) roomId (ch_redis s), ch_rooms := (cc_id c, roomId) # ch_rooms s\<rparr>
      in emitTo roomId (PresenceUpdate roomId (getRoomUsers D roomId (ch_redis s1))) s1)"

definition gatewayMessage :: "chatClient \<Rightarrow> string \<Rightarrow> string \<Rightarrow> 'r chat \<Rightarrow> 'r chat" where
  "gatewayMessage c roomId m = emitTo roomId (ChatMessage roomId m)"

datatype chatStep = Connect chatClient | Disconnect chatClient | Join chatClient string | Message chatClient string string

fun chatRun :: "'r predis \<Rightarrow> chatStep list \<Rightarrow> 'r chat \<Rightarrow> 'r chat" where
  "chatRun D [] s = s"
| "chatRun D (Connect c # es) s = chatRun D es (gatewayConnection D c s)"
| "chatRun D (Disconnect c # es) s = chatRun D es (gatewayDisconnect D c s)"
| "chatRun D (Join c roomId # es) s = chatRun D es (gatewayJoinRoom D c roomId s)"
| "chatRun D (Message c roomId m # es) s = chatRun D es (gatewayMessage c roomId m s)"

section \<open>What the presence data mean\<close>

text \<open>The socket of the last connection of a user, unless a disconnection of the user came after it.\<close>

fun latest :: "string \<Rightarrow> chatStep list \<Rightarrow> string option \<Rightarrow> string option" where
  "latest u [] x = x"
| "latest u (Connect c # es) x = latest u es (if cc_userId c = u then Some (cc_id c) else x)"
| "latest u (Disconnect c # es) x = latest u es (if cc_userId c = u then None else x)"
| "latest u (_ # es) x = latest u es x"

definition joined :: "string \<Rightarrow> chatStep list \<Rightarrow> string set" where
  "joined roomId es = {u. \<exists>c. Join c roomId \<in> set es \<and> cc_userId c = u}"

lemma presence_keys_differ [simp]:
  "socketKey u \<noteq> onlineKey" "onlineKey \<noteq> socketKey u" "socketKey u \<noteq> roomKey x" "roomKey x \<noteq> socketKey u"
  "roomKey x \<noteq> onlineKey" "onlineKey \<noteq> roomKey x" "(socketKey u = socketKey u') = (u = u')" "(roomKey x = roomKey y) = (x = y)"
  by (auto simp: socketKey_def onlineKey_def roomKey_def)

lemma psetAt_upd [simp]:
  "psetAt (m(k \<mapsto> PSet v)) k' = (if k' = k then v else psetAt m k')" "psetAt (m(k \<mapsto> PText t)) k' = (if k' = k then {} else psetAt m k')"
  "psetAt (m(k := None)) k' = (if k' = k then {} else psetAt m k')"
  "ptextAt (m(k \<mapsto> PSet v)) k' = (if k' = k then None else ptextAt m k')" "ptextAt (m(k \<mapsto> PText t)) k' = (if k' = k then Some t else ptextAt m k')"
  "ptextAt (m(k := None)) k' = (if k' = k then None else ptextAt m k')"
  by (auto simp: psetAt_def ptextAt_def)

lemmas chat_defs = gatewayConnection_def gatewayDisconnect_def gatewayJoinRoom_def gatewayMessage_def emitTo_def Let_def

context presence_store
begin

lemma service_look:
  "psetAt (look (userConnected D u i r)) k = (if k = onlineKey then insert u (psetAt (look r) k) else if k = socketKey u then {} else psetAt (look r) k)"
  "psetAt (look (userDisconnected D u r)) k = (if k = onlineKey then psetAt (look r) k - {u} else if k = socketKey u then {} else psetAt (look r) k)"
  "psetAt (look (presenceJoinRoom D u x r)) k = (if k = roomKey x then insert u (psetAt (look r) k) else psetAt (look r) k)"
  "ptextAt (look (userConnected D u i r)) (socketKey v) = (if v = u then Some i else ptextAt (look r) (socketKey v))"
  "ptextAt (look (userDisconnected D u r)) (socketKey v) = (if v = u then None else ptextAt (look r) (socketKey v))"
  "ptextAt (look (presenceJoinRoom D u x r)) (socketKey v) = ptextAt (look r) (socketKey v)"
  by (auto simp: userConnected_def userDisconnected_def presenceJoinRoom_def pset_look pdel_look psAdd_look psRem_look)

lemma run_socket:
  "ptextAt (look (ch_redis (chatRun D es s))) (socketKey u) = latest u es (ptextAt (look (ch_redis s)) (socketKey u))"
proof (induction es arbitrary: s)
  case (Cons e es)
  then show ?case
    by (cases e) (auto simp: chat_defs service_look)
qed simp

lemma run_online:
  assumes "\<forall>u. u \<in> psetAt (look (ch_redis s)) onlineKey \<longleftrightarrow> ptextAt (look (ch_redis s)) (socketKey u) \<noteq> None"
  shows "u \<in> psetAt (look (ch_redis (chatRun D es s))) onlineKey \<longleftrightarrow> ptextAt (look (ch_redis (chatRun D es s))) (socketKey u) \<noteq> None"
  using assms
proof (induction es arbitrary: s)
  case (Cons e es)
  show ?case
  proof (cases e)
    case (Connect c)
    then show ?thesis using Cons.IH [of "gatewayConnection D c s"] Cons.prems by (simp add: chat_defs service_look)
  next
    case (Disconnect c)
    then show ?thesis using Cons.IH [of "gatewayDisconnect D c s"] Cons.prems by (simp add: chat_defs service_look)
  next
    case (Join c x)
    then show ?thesis using Cons.IH [of "gatewayJoinRoom D c x s"] Cons.prems by (simp add: chat_defs service_look)
  next
    case (Message c x m)
    then show ?thesis using Cons.IH [of "gatewayMessage c x m s"] Cons.prems by (simp add: chat_defs)
  qed
qed simp

lemma run_rooms:
  "psetAt (look (ch_redis (chatRun D es s))) (roomKey x) = psetAt (look (ch_redis s)) (roomKey x) \<union> joined x es"
proof (induction es arbitrary: s)
  case (Cons e es)
  then show ?case
    by (cases e) (auto simp: chat_defs service_look joined_def)
qed (simp add: joined_def)

end

section \<open>The store in memory\<close>

definition memPresence :: "(string \<rightharpoonup> string list + string) predis" where
  "memPresence =
     (let mem = (\<lambda>k m. case m k of Some (Inl xs) \<Rightarrow> xs | _ \<Rightarrow> []) in
      \<lparr>prSet = (\<lambda>k v m. m(k \<mapsto> Inr v)), prDel = (\<lambda>k m. m(k := None)), prSAdd = (\<lambda>k x m. m(k \<mapsto> Inl (List.insert x (mem k m)))),
       prSRem = (\<lambda>k x m. if x \<in> set (mem k m)
                        then (if removeAll x (mem k m) = [] then m(k := None) else m(k \<mapsto> Inl (removeAll x (mem k m)))) else m),
       prSMembers = (\<lambda>k m. remdups (mem k m))\<rparr>)"

definition memPresenceLook :: "(string \<rightharpoonup> string list + string) \<Rightarrow> string \<rightharpoonup> pval" where
  "memPresenceLook m = (\<lambda>k. map_option (\<lambda>v. case v of Inl xs \<Rightarrow> PSet (set xs) | Inr t \<Rightarrow> PText t) (m k))"

lemma removeAll_Nil_iff: "removeAll x xs = [] \<longleftrightarrow> set xs \<subseteq> {x}"
  by (induction xs) auto

lemma mem_set: "psetAt (memPresenceLook m) k = set (case m k of Some (Inl xs) \<Rightarrow> xs | _ \<Rightarrow> [])"
  by (simp add: psetAt_def memPresenceLook_def split: option.split sum.split)

interpretation mpres: presence_store memPresence memPresenceLook
proof unfold_locales
  fix k x and r :: "string \<rightharpoonup> string list + string" and v
  show "memPresenceLook (prSet memPresence k v r) = (memPresenceLook r)(k \<mapsto> PText v)"
    "memPresenceLook (prDel memPresence k r) = (memPresenceLook r)(k := None)"
    "memPresenceLook (prSAdd memPresence k x r) = (memPresenceLook r)(k \<mapsto> PSet (insert x (psetAt (memPresenceLook r) k)))"
    by (auto simp: memPresence_def mem_set fun_eq_iff) (auto simp: memPresenceLook_def)
  show "memPresenceLook (prSRem memPresence k x r) =
          (if psetAt (memPresenceLook r) k \<subseteq> {x} \<and> x \<in> psetAt (memPresenceLook r) k then (memPresenceLook r)(k := None)
           else if x \<in> psetAt (memPresenceLook r) k then (memPresenceLook r)(k \<mapsto> PSet (psetAt (memPresenceLook r) k - {x})) else memPresenceLook r)"
    unfolding mem_set by (auto simp: memPresence_def removeAll_Nil_iff memPresenceLook_def fun_eq_iff Let_def)
  show "set (prSMembers memPresence k r) = psetAt (memPresenceLook r) k \<and> distinct (prSMembers memPresence k r)"
    unfolding mem_set by (simp add: memPresence_def Let_def)
qed

section \<open>Properties\<close>

definition newChat :: "'r \<Rightarrow> 'r chat" where
  "newChat r = \<lparr>ch_redis = r, ch_open = [], ch_rooms = [], ch_sent = []\<rparr>"

text \<open>
  C40. What the presence data say after any sequence of connections, disconnections and joins: a user is online, with the socket of the last
  connection as the socket to reach them, exactly if no disconnection of \<^emph>\<open>any\<close> of their sockets came after their last connection;
  so a user who closes one of two sockets is offline. The users of a room are all who ever joined it, gone or not.
\<close>

theorem presence_meaning:
  assumes "presence_store D look" and "\<forall>k. look r k = None"
  shows "ptextAt (look (ch_redis (chatRun D es (newChat r)))) (socketKey u) = latest u es None \<and>
    (u \<in> psetAt (look (ch_redis (chatRun D es (newChat r)))) onlineKey \<longleftrightarrow> latest u es None \<noteq> None) \<and>
    set (getRoomUsers D x (ch_redis (chatRun D es (newChat r)))) = joined x es"
proof -
  have new: "ptextAt (look (ch_redis (newChat r))) k = None" "psetAt (look (ch_redis (newChat r))) k = {}" for k
    using assms(2) by (simp_all add: newChat_def ptextAt_def psetAt_def)
  show ?thesis
    using presence_store.run_socket [OF assms(1), of es "newChat r" u] presence_store.run_online [OF assms(1), of "newChat r" u es]
      presence_store.run_rooms [OF assms(1), of es "newChat r" x] presence_store.pmembers_look [OF assms(1)] new
    by (simp add: getRoomUsers_def)
qed

theorem presence_meaning_witness:
  "let phone = \<lparr>cc_id = ''s1'', cc_userId = ''alice''\<rparr>; laptop = \<lparr>cc_id = ''s2'', cc_userId = ''alice''\<rparr>;
       s = chatRun memPresence [Connect phone, Connect laptop, Join laptop ''r'', Disconnect phone] (newChat (\<lambda>_. None))
   in ''alice'' \<notin> psetAt (memPresenceLook (ch_redis s)) onlineKey \<and> set (getRoomUsers memPresence ''r'' (ch_redis s)) = {''alice''}"
  using presence_meaning [OF mpres.presence_store_axioms, of "\<lambda>_. None"
      "[Connect \<lparr>cc_id = ''s1'', cc_userId = ''alice''\<rparr>, Connect \<lparr>cc_id = ''s2'', cc_userId = ''alice''\<rparr>,
        Join \<lparr>cc_id = ''s2'', cc_userId = ''alice''\<rparr> ''r'', Disconnect \<lparr>cc_id = ''s1'', cc_userId = ''alice''\<rparr>]" "''alice''" "''r''"]
  unfolding Let_def by (auto simp: memPresenceLook_def joined_def)

text \<open>A message reaches everyone in the room whoever sends it: a client that never joined the room, under any name, can write to it.\<close>

theorem message_without_joining:
  "ch_sent (gatewayMessage c x m s) = ch_sent s @ [(remdups (map fst (filter (\<lambda>j. snd j = x) (ch_rooms s))), ChatMessage x m)]"
  by (simp add: gatewayMessage_def emitTo_def)

section \<open>The adapter\<close>

text \<open>\<^verbatim>\<open>reconnectStrategy\<close>: a delay in milliseconds or the error that ends the attempts.\<close>

definition reconnectStrategy :: "nat \<Rightarrow> js_error + nat" where
  "reconnectStrategy retries =
     (if 5 \<le> retries then Inl (Error ''Redis connection max retries reached'') else Inr (min (1000 * 2 ^ retries) 30000))"

definition redisUrl :: "string option \<Rightarrow> string option \<Rightarrow> string option \<Rightarrow> string" where
  "redisUrl url host port = strOr url (''redis://'' @ strOr host ''localhost'' @ '':'' @ strOr port ''6379'')"

text \<open>The adapter is kept if both clients connect; without it the server works alone, in memory.\<close>

definition connectToRedis :: "js_error + unit \<Rightarrow> js_error + unit \<Rightarrow> bool" where
  "connectToRedis pub sub = (case (pub, sub) of (Inr _, Inr _) \<Rightarrow> True | _ \<Rightarrow> False)"

definition createIOServer :: "bool \<Rightarrow> string" where
  "createIOServer adapter = (if adapter then ''redis'' else ''memory'')"

text \<open>The attempts wait 1, 2, 4, 8 and 16 seconds and then end; the bound of 30 seconds is never reached.\<close>

lemma reconnect_delays: "map reconnectStrategy [0..<6] = map Inr [1000, 2000, 4000, 8000, 16000] @ [Inl (Error ''Redis connection max retries reached'')]"
  by (simp add: reconnectStrategy_def upt_rec)

lemma reconnect_bounded:
  assumes "reconnectStrategy n = Inr d"
  shows "n < 5 \<and> 1000 \<le> d \<and> d \<le> 16000"
proof -
  have "n < 5" using assms by (auto simp: reconnectStrategy_def not_le split: if_splits)
  then consider "n = 0" | "n = 1" | "n = 2" | "n = 3" | "n = 4" by linarith
  then show ?thesis using assms by cases (simp_all add: reconnectStrategy_def)
qed

end
