(* ===== verification/Platform.thy ===== *)
theory Platform
  imports Stellar_Controller
begin

text \<open>
  What a process checks before and while it serves: the environment (\<^verbatim>\<open>main.ts\<close>, \<^verbatim>\<open>config/config-validation.service.ts\<close>, and
  \<^verbatim>\<open>lib/stellar.ts\<close> of the frontend), the readiness probe (\<^verbatim>\<open>health/health.controller.ts\<close>), and the two commands that
  \<^verbatim>\<open>redis/redis.service.ts\<close> adds to the Redis client. The validation library, the client and the constants of the Stellar SDK are parameters.
\<close>

section \<open>The environment\<close>

type_synonym environ = "string \<Rightarrow> string option"

fun joinStr :: "string \<Rightarrow> string list \<Rightarrow> string" where
  "joinStr sep [] = []"
| "joinStr sep [x] = x"
| "joinStr sep (x # y # xs) = x @ sep @ joinStr sep (y # xs)"

definition REQUIRED_ENV_VARS :: "string list" where
  "REQUIRED_ENV_VARS = [''JWT_SECRET'', ''DB_HOST'', ''REDIS_URL'']"

definition validateRequiredEnv :: "environ \<Rightarrow> js_error + unit" where
  "validateRequiredEnv e =
     (let missing = filter (\<lambda>k. \<not> strTruthy (e k)) REQUIRED_ENV_VARS
      in if 0 < length missing
         then Inl (Error (''Missing required environment variables: '' @ joinStr '', '' missing @ ''.'' @ [CHR 0x0A] @
                ''Set them in your .env file or export them before starting the server.'' @ [CHR 0x0A] @
                ''Required: JWT_SECRET, DB_HOST, REDIS_URL (or REDIS_HOST + REDIS_PORT)''))
         else Inr ())"

definition configKeys :: "string list" where
  "configKeys = [''JWT_SECRET'', ''JWT_ACCESS_EXPIRATION'', ''DB_HOST'', ''DB_PORT'', ''DB_USERNAME'', ''DB_PASSWORD'', ''DB_DATABASE'', ''NODE_ENV'', ''PORT'']"

definition validateProductionSecrets :: "string option \<Rightarrow> string option \<Rightarrow> js_error + unit" where
  "validateProductionSecrets jwtSecret dbPassword =
     (if jwtSecret \<in> Some ` set [''default-secret-change-in-production'', ''secret'', ''password'', ''changeme''] \<or>
         dbPassword \<in> Some ` set [''password'', ''secret'', ''changeme'']
      then Inl (Error ''Production environment detected with weak or default secrets. Please set strong, unique secrets for JWT_SECRET and DB_PASSWORD.'')
      else if strTruthy jwtSecret \<and> length (the jwtSecret) < 32 then Inl (Error ''JWT_SECRET must be at least 32 characters long in production'')
      else if strTruthy dbPassword \<and> length (the dbPassword) < 16 then Inl (Error ''DB_PASSWORD must be at least 16 characters long in production'')
      else Inr ())"

text \<open>
  \<open>validateSync\<close> stands for the validation of the DTO by its decorators: for every property that fails, the messages of its constraints.
\<close>

definition configValidate :: "((string \<times> string option) list \<Rightarrow> string list list) \<Rightarrow> environ \<Rightarrow> js_error + unit" where
  "configValidate validateSync e =
     (let errors = validateSync (map (\<lambda>k. (k, e k)) configKeys)
      in if 0 < length errors
         then Inl (Error (''Configuration validation failed: '' @ joinStr ''; '' (map (joinStr '', '') errors) @
                ''. Please check your environment variables.''))
         else if e ''NODE_ENV'' = Some ''production'' then validateProductionSecrets (e ''JWT_SECRET'') (e ''DB_PASSWORD'')
         else Inr ())"

text \<open>The checks of \<^verbatim>\<open>bootstrap\<close>, in their order.\<close>

definition bootstrapChecks :: "((string \<times> string option) list \<Rightarrow> string list list) \<Rightarrow> environ \<Rightarrow> js_error + unit" where
  "bootstrapChecks validateSync e = (case validateRequiredEnv e of Inl err \<Rightarrow> Inl err | Inr _ \<Rightarrow> configValidate validateSync e)"

text \<open>What the decorators \<^verbatim>\<open>IsString\<close> and \<^verbatim>\<open>IsNotEmpty\<close> on the two secrets promise.\<close>

definition refusesEmptySecrets :: "((string \<times> string option) list \<Rightarrow> string list list) \<Rightarrow> bool" where
  "refusesEmptySecrets validateSync \<longleftrightarrow>
     (\<forall>vars k. k \<in> set [''JWT_SECRET'', ''DB_PASSWORD''] \<longrightarrow> (k, None) \<in> set vars \<or> (k, Some []) \<in> set vars \<longrightarrow> validateSync vars \<noteq> [])"

text \<open>
  A process that starts in production has real secrets: the key that signs the tokens has at least 32 characters and is not the default
  of the code, the database password has at least 16, and the database host and the Redis address are set.
\<close>

theorem production_secrets:
  assumes "refusesEmptySecrets validateSync" and "bootstrapChecks validateSync e = Inr ()" and "e ''NODE_ENV'' = Some ''production''"
  shows "\<exists>jwt pw. e ''JWT_SECRET'' = Some jwt \<and> 32 \<le> length jwt \<and> jwt \<noteq> ''default-secret-change-in-production'' \<and>
    e ''DB_PASSWORD'' = Some pw \<and> 16 \<le> length pw \<and> strTruthy (e ''DB_HOST'') \<and> strTruthy (e ''REDIS_URL'')"
proof -
  have ok: "validateRequiredEnv e = Inr ()" "configValidate validateSync e = Inr ()"
    using assms(2) by (auto simp: bootstrapChecks_def split: sum.splits)
  define vars where "vars = map (\<lambda>k. (k, e k)) configKeys"
  have valid: "validateSync vars = []" using ok(2) by (auto simp: configValidate_def vars_def Let_def split: if_splits)
  have ne: "strTruthy (e k)" if k: "k \<in> set [''JWT_SECRET'', ''DB_PASSWORD'']" for k
  proof (rule ccontr)
    assume "\<not> strTruthy (e k)"
    then have "e k = None \<or> e k = Some []" by (cases "e k") (auto simp: strTruthy_def)
    moreover have "(k, e k) \<in> set vars" using k unfolding vars_def configKeys_def by auto
    ultimately have "(k, None) \<in> set vars \<or> (k, Some []) \<in> set vars" by auto
    then show False using assms(1) k valid unfolding refusesEmptySecrets_def by blast
  qed
  obtain jwt where jwt: "e ''JWT_SECRET'' = Some jwt" "jwt \<noteq> []"
    using ne [of "''JWT_SECRET''"] by (cases "e ''JWT_SECRET''") (auto simp: strTruthy_def)
  obtain pw where pw: "e ''DB_PASSWORD'' = Some pw" "pw \<noteq> []"
    using ne [of "''DB_PASSWORD''"] by (cases "e ''DB_PASSWORD''") (auto simp: strTruthy_def)
  have "validateProductionSecrets (Some jwt) (Some pw) = Inr ()"
    using ok(2) assms(3) jwt pw by (auto simp: configValidate_def Let_def split: if_splits)
  then have "32 \<le> length jwt \<and> jwt \<noteq> ''default-secret-change-in-production'' \<and> 16 \<le> length pw"
    using jwt pw by (auto simp: validateProductionSecrets_def strTruthy_def not_less split: if_splits)
  moreover have "strTruthy (e ''DB_HOST'') \<and> strTruthy (e ''REDIS_URL'')"
    using ok(1) by (auto simp: validateRequiredEnv_def REQUIRED_ENV_VARS_def Let_def split: if_splits)
  ultimately show ?thesis using jwt pw by blast
qed

definition sampleEnviron :: environ where
  "sampleEnviron = map_of [(''JWT_SECRET'', replicate 40 (CHR ''k'')), (''DB_PASSWORD'', replicate 20 (CHR ''p'')), (''DB_HOST'', ''db''),
     (''REDIS_URL'', ''redis://r''), (''NODE_ENV'', ''production'')]"

definition sampleValidate :: "(string \<times> string option) list \<Rightarrow> string list list" where
  "sampleValidate vars =
     (if list_all (\<lambda>(k, v). k \<in> set [''JWT_SECRET'', ''DB_PASSWORD''] \<longrightarrow> strTruthy v) vars then [] else [[''should not be empty'']])"

theorem production_secrets_witness:
  "bootstrapChecks sampleValidate sampleEnviron = Inr () \<and> strTruthy (sampleEnviron ''DB_HOST'')"
proof -
  have "refusesEmptySecrets sampleValidate"
    unfolding refusesEmptySecrets_def sampleValidate_def list_all_iff by (auto simp: strTruthy_def)
  moreover have "bootstrapChecks sampleValidate sampleEnviron = Inr ()" by code_simp
  moreover have "sampleEnviron ''NODE_ENV'' = Some ''production''" by code_simp
  ultimately show ?thesis using production_secrets [of sampleValidate sampleEnviron] by blast
qed

text \<open>
  The message of the check offers \<^verbatim>\<open>REDIS_HOST\<close> and \<^verbatim>\<open>REDIS_PORT\<close> in place of \<^verbatim>\<open>REDIS_URL\<close>, but the check refuses every
  environment without \<^verbatim>\<open>REDIS_URL\<close>.
\<close>

theorem redis_host_not_enough: "\<not> strTruthy (e ''REDIS_URL'') \<Longrightarrow> validateRequiredEnv e \<noteq> Inr ()"
  by (auto simp: validateRequiredEnv_def REQUIRED_ENV_VARS_def Let_def split: if_splits)

subsection \<open>The frontend\<close>

record stellarConfig =
  sc_network :: string
  sc_rpcUrl :: string
  sc_passphrase :: string
  sc_allowHttp :: bool

definition getNetworkPassphrase :: "string \<Rightarrow> string \<Rightarrow> string \<Rightarrow> string" where
  "getNetworkPassphrase PUBLIC TESTNET network = (if network = ''mainnet'' then PUBLIC else TESTNET)"

definition loadStellarConfig :: "string \<Rightarrow> string \<Rightarrow> environ \<Rightarrow> js_error + stellarConfig" where
  "loadStellarConfig PUBLIC TESTNET e =
     (let network = e ''NEXT_PUBLIC_STELLAR_NETWORK''; url = e ''NEXT_PUBLIC_SOROBAN_RPC_URL''
      in if \<not> strTruthy network
         then Inl (Error (''Missing required environment variable: NEXT_PUBLIC_STELLAR_NETWORK. Set it to '' @ [CHR 0x22] @ ''testnet'' @ [CHR 0x22] @
                '' or '' @ [CHR 0x22] @ ''mainnet'' @ [CHR 0x22] @ ''.''))
         else if \<not> strTruthy url
         then Inl (Error ''Missing required environment variable: NEXT_PUBLIC_SOROBAN_RPC_URL. Set it to your Soroban RPC endpoint URL.'')
         else if the network \<noteq> ''testnet'' \<and> the network \<noteq> ''mainnet''
         then Inl (Error (''Invalid NEXT_PUBLIC_STELLAR_NETWORK value. Must be '' @ [CHR 0x22] @ ''testnet'' @ [CHR 0x22] @
                '' or '' @ [CHR 0x22] @ ''mainnet'' @ [CHR 0x22] @ ''.''))
         else Inr \<lparr>sc_network = the network, sc_rpcUrl = the url, sc_passphrase = getNetworkPassphrase PUBLIC TESTNET (the network),
                   sc_allowHttp = (the network = ''testnet'')\<rparr>)"

text \<open>The passphrase and the permission of plain HTTP follow the network.\<close>

lemma stellar_config: "loadStellarConfig PUBLIC TESTNET e = Inr c \<Longrightarrow>
    (sc_network c = ''mainnet'' \<and> sc_passphrase c = PUBLIC \<and> \<not> sc_allowHttp c) \<or> (sc_network c = ''testnet'' \<and> sc_passphrase c = TESTNET \<and> sc_allowHttp c)"
  by (auto simp: loadStellarConfig_def getNetworkPassphrase_def Let_def split: if_splits)

section \<open>Readiness\<close>

record healthCheck =
  hk_status :: string
  hk_message :: "string option"
  hk_monitor :: "monitorStatus option"

record readiness =
  re_status :: string
  re_timestamp :: int
  re_database :: healthCheck
  re_redis :: healthCheck
  re_stellarMonitor :: healthCheck

definition getLiveness :: "int \<Rightarrow> string \<times> int" where
  "getLiveness now = (''ok'', now)"

definition pingCheck :: "js_error + unit \<Rightarrow> healthCheck" where
  "pingCheck reply =
     (case reply of Inr _ \<Rightarrow> \<lparr>hk_status = ''ok'', hk_message = None, hk_monitor = None\<rparr>
      | Inl e \<Rightarrow> \<lparr>hk_status = ''error'', hk_message = Some (message e), hk_monitor = None\<rparr>)"

text \<open>\<open>Inl\<close> is the body of a \<^verbatim>\<open>ServiceUnavailableException\<close>, status 503.\<close>

definition getReadiness :: "js_error + unit \<Rightarrow> js_error + unit \<Rightarrow> string \<Rightarrow> monitorSvc \<Rightarrow> int \<Rightarrow> readiness + readiness" where
  "getReadiness db redis url m now =
     (let mo = getStatus url m; allHealthy = (\<not> isl db \<and> \<not> isl redis);
          r = \<lparr>re_status = (if allHealthy then ''ok'' else ''error''), re_timestamp = now, re_database = pingCheck db, re_redis = pingCheck redis,
               re_stellarMonitor = \<lparr>hk_status = (if mo_isMonitoring mo then ''ok'' else ''degraded''), hk_message = None, hk_monitor = Some mo\<rparr>\<rparr>
      in if allHealthy then Inr r else Inl r)"

text \<open>
  The probe answers 503 exactly if the database or Redis does not answer, and then says which. A monitor that has stopped shows
  as degraded but never makes the process unready.
\<close>

theorem readiness_exact:
  "(isl (getReadiness db redis url m now) \<longleftrightarrow> isl db \<or> isl redis) \<and>
   (let r = (case getReadiness db redis url m now of Inl x \<Rightarrow> x | Inr x \<Rightarrow> x)
    in (hk_status (re_database r) = ''error'' \<longleftrightarrow> isl db) \<and> (hk_status (re_redis r) = ''error'' \<longleftrightarrow> isl redis) \<and>
       (hk_status (re_stellarMonitor r) = ''degraded'' \<longleftrightarrow> \<not> isMonitoring m))"
  by (auto simp: getReadiness_def pingCheck_def getStatus_def Let_def split: sum.splits)

section \<open>Commands of the Redis service\<close>

text \<open>
  \<open>scan i cursor pattern\<close> is the answer to the \<open>i\<close>-th command of the loop, a new cursor and some keys; the data may change between two commands.
  The loop ends when the cursor is 0 again.
\<close>

partial_function (option) scanLoop :: "(nat \<Rightarrow> string \<Rightarrow> string \<Rightarrow> string \<times> string list) \<Rightarrow> string \<Rightarrow> nat \<Rightarrow> string \<Rightarrow> string list \<Rightarrow> string list option" where
  "scanLoop scan pattern i cursor keys =
     (let reply = scan i cursor pattern; keys' = keys @ snd reply
      in if fst reply = ''0'' then Some keys' else scanLoop scan pattern (Suc i) (fst reply) keys')"

definition scanKeys :: "(nat \<Rightarrow> string \<Rightarrow> string \<Rightarrow> string \<times> string list) \<Rightarrow> string \<Rightarrow> string list option" where
  "scanKeys scan pattern = scanLoop scan pattern 0 ''0'' []"

definition refreshTTL :: "(string \<Rightarrow> nat \<Rightarrow> 'r \<Rightarrow> nat \<times> 'r) \<Rightarrow> string \<Rightarrow> nat \<Rightarrow> 'r \<Rightarrow> bool \<times> 'r" where
  "refreshTTL expire key ttlSeconds r = (let (n, r') = expire key ttlSeconds r in (n = 1, r'))"

fun cursorAt :: "(nat \<Rightarrow> string \<Rightarrow> string \<Rightarrow> string \<times> string list) \<Rightarrow> string \<Rightarrow> nat \<Rightarrow> string" where
  "cursorAt scan pattern 0 = ''0''"
| "cursorAt scan pattern (Suc i) = fst (scan i (cursorAt scan pattern i) pattern)"

declare cursorAt.simps(2) [simp del]

definition replyKeys :: "(nat \<Rightarrow> string \<Rightarrow> string \<Rightarrow> string \<times> string list) \<Rightarrow> string \<Rightarrow> nat \<Rightarrow> string list" where
  "replyKeys scan pattern i = snd (scan i (cursorAt scan pattern i) pattern)"

lemma scanLoop_run:
  assumes "cursorAt scan pattern (Suc n) = ''0''" and "\<forall>i. 0 < i \<and> i \<le> n \<longrightarrow> cursorAt scan pattern i \<noteq> ''0''" and "j \<le> n"
  shows "scanLoop scan pattern j (cursorAt scan pattern j) ks = Some (ks @ concat (map (replyKeys scan pattern) [j..<Suc n]))"
  using assms(3)
proof (induction "n - j" arbitrary: j ks)
  case 0
  then have "j = n" by simp
  then show ?case using assms(1) by (subst scanLoop.simps) (simp add: replyKeys_def cursorAt.simps(2) Let_def)
next
  case (Suc x)
  then have j: "j < n" by simp
  then have "cursorAt scan pattern (Suc j) \<noteq> ''0''" using assms(2) by auto
  moreover have "[j..<Suc n] = j # [Suc j..<Suc n]" using j by (simp add: upt_conv_Cons)
  ultimately show ?case
    using Suc.hyps(1) [of "Suc j" "ks @ replyKeys scan pattern j"] Suc.hyps(2) j
    by (subst scanLoop.simps) (simp add: replyKeys_def cursorAt.simps(2) [of _ _ j, symmetric] Let_def)
qed

lemma scanLoop_returns:
  assumes "scanLoop scan pattern j c ks = Some ys"
  shows "c = cursorAt scan pattern j \<longrightarrow> (\<exists>n\<ge>j. cursorAt scan pattern (Suc n) = ''0'')"
  using assms
proof (induction rule: scanLoop.raw_induct [rotated 1, consumes 1])
  case (1 loop scan pattern j c ks ys)
  show ?case
  proof
    assume c: "c = cursorAt scan pattern j"
    show "\<exists>n\<ge>j. cursorAt scan pattern (Suc n) = ''0''"
    proof (cases "cursorAt scan pattern (Suc j) = ''0''")
      case False
      then have "loop scan pattern (Suc j) (cursorAt scan pattern (Suc j)) (ks @ snd (scan j c pattern)) = Some ys"
        using 1(2) c by (simp add: Let_def cursorAt.simps(2))
      from 1(1) [OF this] obtain n where "Suc j \<le> n" "cursorAt scan pattern (Suc n) = ''0''" by blast
      then show ?thesis using Suc_leD by blast
    qed auto
  qed
qed

text \<open>
  The scan returns exactly if the server ever answers with the cursor 0, and then it has the keys of all answers up to the first such
  one, in order, a key as often as the server sent it.
\<close>

theorem scanKeys_exact:
  "scanKeys scan pattern =
     (if \<exists>n. cursorAt scan pattern (Suc n) = ''0''
      then Some (concat (map (replyKeys scan pattern) [0..<Suc (LEAST n. cursorAt scan pattern (Suc n) = ''0'')])) else None)"
proof (cases "\<exists>n. cursorAt scan pattern (Suc n) = ''0''")
  case True
  let ?n = "LEAST n. cursorAt scan pattern (Suc n) = ''0''"
  have "cursorAt scan pattern i \<noteq> ''0''" if "0 < i \<and> i \<le> ?n" for i
    using not_less_Least [of "i - 1" "\<lambda>n. cursorAt scan pattern (Suc n) = ''0''"] that by (cases i) simp_all
  then have "\<forall>i. 0 < i \<and> i \<le> ?n \<longrightarrow> cursorAt scan pattern i \<noteq> ''0''" by blast
  from scanLoop_run [OF LeastI_ex [OF True] this le0, of "[]"] show ?thesis
    unfolding scanKeys_def if_P [OF True] cursorAt.simps(1) append_Nil .
next
  case False
  then have "scanKeys scan pattern \<noteq> Some ys" for ys
    using scanLoop_returns [of scan pattern 0 "''0''" "[]" ys] by (auto simp: scanKeys_def)
  then show ?thesis unfolding if_not_P [OF False] by (meson not_None_eq)
qed

end
