(* ===== verification/Audit_Migration.thy ===== *)
theory Audit_Migration
  imports Audit_Chain
begin

text \<open>
  The migration that introduces the chained audit log, \<^verbatim>\<open>database/migrations/1781827200000-AddAuditIntegrityChain.ts\<close>. It computes the hashes and
  signatures of the rows that exist already with code of its own and a key of its own, read from the environment of the process
  that migrates. A column that \<^verbatim>\<open>down\<close> drops has its default, the empty string, when \<^verbatim>\<open>up\<close> adds it again. The other statements create tables and indices.
\<close>

definition migrationHmacKey :: "string option \<Rightarrow> string" where
  "migrationHmacKey k = (case k of None \<Rightarrow> ''change-this-audit-log-hmac-key'' | Some x \<Rightarrow> x)"

text \<open>The body of the loop over the rows: what the row becomes.\<close>

definition sealRow :: "('lt, 'at) aenv \<Rightarrow> string option \<Rightarrow> string \<Rightarrow> AuditLogEntry \<Rightarrow> AuditLogEntry" where
  "sealRow env key previousHash row =
     (let ts = toISOString (a_timestamp row);
          hash = asha256 env (previousHash @ a_action_type row @ a_actor_id row @ ts);
          signature = ahmac env (migrationHmacKey key)
            (stringify None
              (JObj [(''action_type'', JStr (a_action_type row)), (''actor_id'', JStr (a_actor_id row)),
                     (''entity_id'', case a_entity_id row of None \<Rightarrow> JNull | Some i \<Rightarrow> JStr i),
                     (''metadata'', jsonOf (sortObject (case a_metadata row of None \<Rightarrow> VNull | Some m \<Rightarrow> m))),
                     (''timestamp'', JStr ts), (''previousHash'', JStr previousHash), (''hash'', JStr hash)]))
      in row\<lparr>a_previousHash := previousHash, a_hash := hash, a_signature := signature\<rparr>)"

fun backfill :: "('lt, 'at) aenv \<Rightarrow> string option \<Rightarrow> string \<Rightarrow> AuditLogEntry list \<Rightarrow> 'lt \<Rightarrow> 'lt" where
  "backfill env key previousHash [] t = t"
| "backfill env key previousHash (row # rs) t =
     (let new = sealRow env key previousHash row
      in backfill env key (a_hash new) rs
           (rUpdate (logRepo env) (\<lambda>e. a_id e = a_id row)
             (\<lambda>e. e\<lparr>a_previousHash := a_previousHash new, a_hash := a_hash new, a_signature := a_signature new\<rparr>) t))"

definition migrationUp :: "('lt, 'at) aenv \<Rightarrow> string option \<Rightarrow> ('lt, 'at) auditDb \<Rightarrow> ('lt, 'at) auditDb" where
  "migrationUp env key s = s\<lparr>logTab := backfill env key [] (rFindOrd (logRepo env) (\<lambda>_. True) dbLe (logTab s)) (logTab s)\<rparr>"

definition migrationDown :: "('lt, 'at) aenv \<Rightarrow> ('lt, 'at) auditDb \<Rightarrow> ('lt, 'at) auditDb" where
  "migrationDown env s =
     s\<lparr>archTab := rDelete (archRepo env) (\<lambda>_. True) (archTab s),
       logTab := rUpdate (logRepo env) (\<lambda>_. True) (\<lambda>e. e\<lparr>a_previousHash := [], a_hash := [], a_signature := []\<rparr>) (logTab s)\<rparr>"

section \<open>The rows after the migration\<close>

fun rechain :: "('lt, 'at) aenv \<Rightarrow> string option \<Rightarrow> string \<Rightarrow> AuditLogEntry list \<Rightarrow> AuditLogEntry list" where
  "rechain env key p [] = []"
| "rechain env key p (r # rs) = sealRow env key p r # rechain env key (a_hash (sealRow env key p r)) rs"

lemma sealRow_simps [simp]:
  "a_id (sealRow env key p r) = a_id r" "a_timestamp (sealRow env key p r) = a_timestamp r"
  by (simp_all add: sealRow_def Let_def)

lemma sealRow_fields:
  "r\<lparr>a_previousHash := a_previousHash (sealRow env key p r), a_hash := a_hash (sealRow env key p r),
     a_signature := a_signature (sealRow env key p r)\<rparr> = sealRow env key p r"
  by (simp add: sealRow_def Let_def)

lemma rechain_maps:
  "map a_id (rechain env key p rs) = map a_id rs" "map a_timestamp (rechain env key p rs) = map a_timestamp rs"
  "length (rechain env key p rs) = length rs"
  by (induction rs arbitrary: p) simp_all

text \<open>The migration computes what the service would have computed, if both have the same key.\<close>

lemma sealRow_verifies: "key = aHmacKey env \<Longrightarrow> entryFailures env p (sealRow env key p r) = []"
  by (simp add: entryFailures_def sealRow_def computeHash_def computeSignature_def signedText_def getHmacKey_def migrationHmacKey_def Let_def)

lemma rechain_verifies: "key = aHmacKey env \<Longrightarrow> chainFailures env p (rechain env key p rs) = []"
  by (induction rs arbitrary: p) (simp_all add: sealRow_verifies)

definition content :: "AuditLogEntry \<Rightarrow> string \<times> string \<times> string \<times> string option \<times> jsValue option \<times> date" where
  "content e = (a_id e, a_action_type e, a_actor_id e, a_entity_id e, a_metadata e, a_timestamp e)"

lemma rechain_content: "map content (rechain env key p rs) = map content rs"
  by (induction rs arbitrary: p) (simp_all add: sealRow_def Let_def content_def)

lemma find_no_id: "k \<notin> set (map a_id xs) \<longleftrightarrow> find (\<lambda>r. a_id r = k) xs = None"
  by (auto simp: find_None_iff)

context audit_tables
begin

lemma log_mset: "mset (rFindOrd (logRepo env) P le t) = mset (rFind (logRepo env) P t)"
  by (rule L.findOrd_mset)

lemma arch_cleared: "rFind (archRepo env) P (rDelete (archRepo env) (\<lambda>_. True) t) = []"
proof (rule ccontr)
  assume "rFind (archRepo env) P (rDelete (archRepo env) (\<lambda>_. True) t) \<noteq> []"
  then obtain x where "x \<in> set (rFind (archRepo env) P (rDelete (archRepo env) (\<lambda>_. True) t))" by (meson last_in_set)
  then have "rGet (archRepo env) a_id (a_id x) (rDelete (archRepo env) (\<lambda>_. True) t) = Some x" unfolding A.find_iff by blast
  then show False by (simp add: A.get_delete split: option.splits)
qed

lemma backfill_get:
  assumes "distinct (map a_id rs)" and "\<forall>r \<in> set rs. rGet (logRepo env) a_id (a_id r) t = Some r"
  shows "rGet (logRepo env) a_id k (backfill env key p rs t) =
    (case find (\<lambda>r. a_id r = k) (rechain env key p rs) of Some r \<Rightarrow> Some r | None \<Rightarrow> rGet (logRepo env) a_id k t)"
  using assms
proof (induction rs arbitrary: p t)
  case (Cons r rs)
  let ?new = "sealRow env key p r"
  let ?t = "rUpdate (logRepo env) (\<lambda>e. a_id e = a_id r)
     (\<lambda>e. e\<lparr>a_previousHash := a_previousHash ?new, a_hash := a_hash ?new, a_signature := a_signature ?new\<rparr>) t"
  have r: "rGet (logRepo env) a_id (a_id r) t = Some r" using Cons.prems(2) by simp
  have upd: "rGet (logRepo env) a_id k ?t = (if k = a_id r then Some ?new else rGet (logRepo env) a_id k t)" for k
  proof -
    have u: "rGet (logRepo env) a_id k ?t = map_option (\<lambda>e. if a_id e = a_id r then e\<lparr>a_previousHash := a_previousHash ?new,
        a_hash := a_hash ?new, a_signature := a_signature ?new\<rparr> else e) (rGet (logRepo env) a_id k t)"
      by (rule L.get_update) simp
    show ?thesis
    proof (cases "k = a_id r")
      case True
      show ?thesis using u unfolding True r by (simp add: sealRow_fields del: sealRow_simps)
    next
      case False
      then show ?thesis unfolding u using L.get_key by (cases "rGet (logRepo env) a_id k t") fastforce+
    qed
  qed
  have "\<forall>x \<in> set rs. rGet (logRepo env) a_id (a_id x) ?t = Some x"
  proof
    fix x assume x: "x \<in> set rs"
    have "a_id r \<notin> a_id ` set rs" using Cons.prems(1) by simp
    then have ne: "a_id x \<noteq> a_id r" using x by (metis imageI)
    have "rGet (logRepo env) a_id (a_id x) t = Some x" using Cons.prems(2) x by (meson list.set_intros(2))
    then show "rGet (logRepo env) a_id (a_id x) ?t = Some x" unfolding upd if_not_P [OF ne] .
  qed
  then have IH: "rGet (logRepo env) a_id k (backfill env key (a_hash ?new) rs ?t) =
      (case find (\<lambda>r. a_id r = k) (rechain env key (a_hash ?new) rs) of Some r \<Rightarrow> Some r | None \<Rightarrow> rGet (logRepo env) a_id k ?t)"
    using Cons.prems(1) by (intro Cons.IH) simp_all
  have "find (\<lambda>x. a_id x = a_id r) (rechain env key (a_hash ?new) rs) = None"
    using Cons.prems(1) unfolding find_no_id [symmetric] rechain_maps by simp
  then show ?case using IH by (auto simp: upd Let_def split: option.split)
qed simp

lemma up_represents:
  assumes "rFind (archRepo env) (\<lambda>_. True) (archTab s) = []"
    and "distinct (map a_timestamp (rFind (logRepo env) (\<lambda>_. True) (logTab s)))"
  shows "represents env (migrationUp env key s) (rechain env key [] (rFindOrd (logRepo env) (\<lambda>_. True) dbLe (logTab s)))"
proof -
  let ?rs = "rFindOrd (logRepo env) (\<lambda>_. True) dbLe (logTab s)"
  let ?t = "backfill env key [] ?rs (logTab s)"
  have d: "distinct (map a_id ?rs)" by (rule L.findOrd_distinct)
  have in_rs: "rGet (logRepo env) a_id (a_id r) (logTab s) = Some r \<longleftrightarrow> r \<in> set ?rs" for r
    unfolding L.findOrd_set L.find_iff by simp
  have dr: "distinct (map a_id (rechain env key [] ?rs))" using d by (simp add: rechain_maps)
  have "x \<in> set (rFind (logRepo env) (\<lambda>_. True) ?t) \<longleftrightarrow> x \<in> set (rechain env key [] ?rs)" for x
  proof -
    have get: "rGet (logRepo env) a_id (a_id x) ?t =
        (case find (\<lambda>r. a_id r = a_id x) (rechain env key [] ?rs) of Some r \<Rightarrow> Some r | None \<Rightarrow> rGet (logRepo env) a_id (a_id x) (logTab s))"
      using d in_rs by (intro backfill_get) auto
    show ?thesis
    proof (cases "find (\<lambda>r. a_id r = a_id x) (rechain env key [] ?rs)")
      case None
      then have "a_id x \<notin> set (map a_id (rechain env key [] ?rs))" by (simp only: find_no_id)
      then have "x \<notin> set (rechain env key [] ?rs)" "x \<notin> set ?rs" unfolding rechain_maps by (metis image_eqI list.set_map rechain_maps(1))+
      then show ?thesis using get None in_rs [of x] unfolding L.find_iff by simp
    next
      case (Some y)
      then have "y \<in> set (rechain env key [] ?rs)" "a_id y = a_id x" by (auto simp: find_Some_iff)
      then show ?thesis using get Some dr unfolding L.find_iff by (auto simp: distinct_map inj_on_def)
    qed
  qed
  then have "mset (rechain env key [] ?rs) = mset (rFind (logRepo env) (\<lambda>_. True) ?t)"
    using dr L.find_distinct [of "\<lambda>_. True" ?t] by (intro set_eq_iff_mset_eq_distinct [THEN iffD1]) (auto simp: distinct_map)
  moreover have "sorted_wrt (<) (map a_timestamp ?rs)"
  proof -
    have "distinct (map a_timestamp ?rs)" using assms(2) L.findOrd_mset by (metis mset_map mset_eq_imp_distinct_iff)
    moreover have "sorted_wrt dbLe ?rs" by (simp add: L.findOrd_sorted)
    then have "sorted (map a_timestamp ?rs)" by (auto simp: sorted_map dbLe_def elim!: sorted_wrt_mono_rel [rotated])
    ultimately show ?thesis by (simp add: strict_sorted_iff)
  qed
  ultimately show ?thesis
    using assms(1) dr by (simp add: represents_def rows_def migrationUp_def rechain_maps)
qed

end

lemma up_valid:
  assumes "audit_tables env" and "key = aHmacKey env" and "rFind (archRepo env) (\<lambda>_. True) (archTab s) = []"
    and "distinct (map a_timestamp (rFind (logRepo env) (\<lambda>_. True) (logTab s)))"
  shows "verifyAuditChain env (migrationUp env key s) =
      \<lparr>v_valid = True, v_checkedEntries = length (rFind (logRepo env) (\<lambda>_. True) (logTab s)), v_failures = []\<rparr> \<and>
    map content (getOrderedEntries env (migrationUp env key s)) = map content (rFindOrd (logRepo env) (\<lambda>_. True) dbLe (logTab s))"
proof -
  let ?rs = "rFindOrd (logRepo env) (\<lambda>_. True) dbLe (logTab s)"
  have o: "getOrderedEntries env (migrationUp env key s) = rechain env key [] ?rs"
    by (rule audit_tables.ordered_represents [OF assms(1) audit_tables.up_represents [OF assms(1,3,4)]])
  have "mset ?rs = mset (rFind (logRepo env) (\<lambda>_. True) (logTab s))"
    by (rule audit_tables.log_mset [OF assms(1)])
  then have "length ?rs = length (rFind (logRepo env) (\<lambda>_. True) (logTab s))" by (metis size_mset)
  then show ?thesis
    using rechain_verifies [OF assms(2), of "[]" ?rs] o by (simp add: verifyAuditChain_def rechain_maps rechain_content)
qed

text \<open>
  C17. The migration turns any existing log into a valid chain. If it runs with the key of the service, no two rows have the same
  timestamp and nothing is archived yet, then the verification of the service accepts every row and finds
  no failure, and no row has been lost or has other content. What was changed before the migration is therefore signed as it is.
\<close>

theorem migrated_log_valid:
  assumes "audit_tables env" and "key = aHmacKey env" and "rFind (archRepo env) (\<lambda>_. True) (archTab s) = []"
    and "distinct (map a_timestamp (rFind (logRepo env) (\<lambda>_. True) (logTab s)))"
  shows "verifyAuditChain env (migrationUp env key s) =
      \<lparr>v_valid = True, v_checkedEntries = length (rFind (logRepo env) (\<lambda>_. True) (logTab s)), v_failures = []\<rparr> \<and>
    map content (getOrderedEntries env (migrationUp env key s)) = map content (rFindOrd (logRepo env) (\<lambda>_. True) dbLe (logTab s))"
  using up_valid [OF assms] .

text \<open>
  Undoing the migration deletes the archive, and doing it again chains what is left: the log without the archived
  entries verifies as if they had never been there.
\<close>

theorem redone_migration_hides_loss:
  assumes "audit_tables env" and "key = aHmacKey env" and "distinct (map a_timestamp (rFind (logRepo env) (\<lambda>_. True) (logTab (migrationDown env s))))"
  shows "v_valid (verifyAuditChain env (migrationUp env key (migrationDown env s)))"
    and "rFind (archRepo env) (\<lambda>_. True) (archTab (migrationUp env key (migrationDown env s))) = []"
proof -
  have none: "rFind (archRepo env) (\<lambda>_. True) (archTab (migrationDown env s)) = []"
    by (simp add: migrationDown_def audit_tables.arch_cleared [OF assms(1)])
  then show "rFind (archRepo env) (\<lambda>_. True) (archTab (migrationUp env key (migrationDown env s))) = []" by (simp add: migrationUp_def)
  show "v_valid (verifyAuditChain env (migrationUp env key (migrationDown env s)))"
    using up_valid [OF assms(1,2) none assms(3)] by simp
qed

text \<open>Two rows from before the migration.\<close>

definition oldRow :: "string \<Rightarrow> date \<Rightarrow> AuditLogEntry" where
  "oldRow i t = \<lparr>a_id = i, a_action_type = ''LOGIN'', a_actor_id = ''u'', a_entity_id = None, a_metadata = None, a_timestamp = t,
     a_previousHash = [], a_hash = [], a_signature = []\<rparr>"

theorem migrated_log_valid_witness:
  "let env = memAenv int; s = memAudit\<lparr>logTab := [oldRow ''b'' 5, oldRow ''a'' 3]\<rparr>
   in v_checkedEntries (verifyAuditChain env (migrationUp env (Some ''k'') s)) = 2 \<and> v_valid (verifyAuditChain env (migrationUp env (Some ''k'') s))"
proof -
  let ?s = "memAudit\<lparr>logTab := [oldRow ''b'' 5, oldRow ''a'' 3]\<rparr>"
  have "rFind (logRepo (memAenv int)) (\<lambda>_. True) (logTab ?s) = [oldRow ''b'' 5, oldRow ''a'' 3]"
    by (simp add: memAenv_def memRepo_simps memFind_def oldRow_def)
  then show ?thesis
    using migrated_log_valid [OF mema.audit_tables_axioms [of int], of "Some ''k''" ?s] memAudit_empty [of int]
    unfolding Let_def by (simp add: memAenv_def emptyAudit_def memAudit_def oldRow_def)
qed

end
