(* ===== verification/Spec2Isabelle.thy ===== *)
theory Spec2Isabelle
  imports Workflow_Service Monitoring Stellar_Monitor Throttle Auth_Audit RateLimit
    Voice_Limits Voice_Llm_Props Voice_Gateway_Props Market_Props Ai Job_Queue_Props Job_Processors
    Voice_Jobs Workflow_Admin Workflow_Builtin Stellar_Controller
    Tracing Presence Platform Audit_Migration
begin

text \<open>
  A verification development of the XLM-Pay backend (\<^verbatim>\<open>src/Backend/src\<close>, a NestJS application).

  \<^bold>\<open>The program and its parts.\<close> The backend runs workflows of steps with retries, compensation and
  recovery; follows a Stellar network through Horizon and delivers the events to webhook consumers;
  authenticates users by wallet signatures and hands out tokens; writes a tamper-evident audit log of
  what they do; limits and bans clients that send too much; holds voice conversations over a socket whose answers
  come from a language model behind quotas and a cache; answers prompts through a provider with a circuit breaker;
  serves market data and news from a cache; works off jobs from Bull queues; relays chat messages; and measures and traces what it does. Requests come through guards to controllers,
  which call services; services keep their state in SQL tables, in Redis and in a few fields of their own.

  \<^bold>\<open>Conventions.\<close> A class with columns is a record, an enum a datatype, a method a function of the
  same name that takes the parameters it depends on first and the state last, and returns its result with
  the new state. A thrown exception is an \<open>Inl\<close> of \<open>js_error\<close>; what was written before it stays written.
  Code that is not in the repository is a parameter with its documented laws in a locale, and every locale
  is interpreted on an executable instance, which the witnesses run:
  \<^item> the database: \<open>repository\<close> (\<^verbatim>\<open>Repository\<close>), and the tables of a component: \<open>wf_tables\<close>, \<open>mon_tables\<close>,
    \<open>audit_tables\<close>, \<open>auth_tables\<close>;
  \<^item> Redis: \<open>redis_kv\<close> (\<^verbatim>\<open>Redis\<close>) for strings and counters, \<open>redis_keys\<close> (\<^verbatim>\<open>Redis_Keys\<close>) with the patterns of
    \<^verbatim>\<open>KEYS\<close>, \<open>sorted_sets\<close> (\<^verbatim>\<open>RateLimit\<close>), \<open>redis_lists\<close> (\<^verbatim>\<open>Job_Queue\<close>), \<open>voice_store\<close> (\<^verbatim>\<open>Voice_Store\<close>) for sets
    and sessions, \<open>presence_store\<close> (\<^verbatim>\<open>Presence\<close>). The store is seen through \<open>look\<close>, time passes through \<open>adv\<close>;
  \<^item> Bull: \<open>bull_queue\<close> (\<^verbatim>\<open>Job_Queue\<close>), joined with the lists to \<open>job_service\<close> (\<^verbatim>\<open>Job_Queue_Props\<close>); the metrics library: \<open>metric_registry\<close> (\<^verbatim>\<open>Metrics\<close>);
  \<^item> the clock, random ids, SHA-256, HMAC, bcrypt, signature checks, the JWT library, the HTTP client and
    Horizon are functions or observed values.
  Dates are integers of milliseconds, quotients are rational numbers, JSON numbers are integers, and strings
  consist of characters up to 255. Methods run one after another; where the code can be interleaved the
  theorem says so and models the parts.

  \<^bold>\<open>Workflows\<close> (\<^verbatim>\<open>workflow/\<close>).
  \<^item> \<^verbatim>\<open>Workflow_StateMachine\<close>: the transition tables of \<^verbatim>\<open>workflow-state-machine.service.ts\<close>, checked transitions,
    retry decision and backoff; the runs of checked transitions.
  \<^item> \<^verbatim>\<open>Idempotency\<close> (on \<^verbatim>\<open>Json\<close>): keys and the execute-once wrapper of \<^verbatim>\<open>idempotency.service.ts\<close>; keys are
    stable under reordering and parse back, and nested input is ignored.
  \<^item> \<^verbatim>\<open>Workflow_Entities\<close>: the tables and definition records. \<^verbatim>\<open>Compensation\<close>: \<^verbatim>\<open>compensation.service.ts\<close>;
    exactly the completed steps that need it are rolled back, last first.
  \<^item> \<^verbatim>\<open>Execution\<close>: \<^verbatim>\<open>workflow-execution.service.ts\<close>. \<^verbatim>\<open>Execution_Props\<close>: a run settles its workflow, attempts are
    bounded and exhausted, and two paths that never work (timeout compensation, retry). \<^verbatim>\<open>Execution_Start\<close>: a
    start runs once per key under the lock.
  \<^item> \<^verbatim>\<open>Recovery\<close>: \<^verbatim>\<open>recovery.service.ts\<close>; \<^verbatim>\<open>Workflow_Service\<close>: \<^verbatim>\<open>workflow.service.ts\<close> and the row invariant over all
    engine operations; \<^verbatim>\<open>Monitoring\<close>: \<^verbatim>\<open>monitoring.service.ts\<close>; \<^verbatim>\<open>Workflow_Admin\<close>: \<^verbatim>\<open>workflow-admin.controller.ts\<close>,
    whose pages are complete, whose step retry retries nothing, and four of whose routes are never taken. \<^verbatim>\<open>Workflow_Builtin\<close>: the three workflow definitions that the
    module registers (\<^verbatim>\<open>workflow/examples\<close>), none of which can succeed.

  \<^bold>\<open>Stellar monitor\<close> (\<^verbatim>\<open>stellar-monitor/\<close>). \<^verbatim>\<open>Stellar_Storage\<close>: events and consumers, with the consumer
  invariant and the suspension after repeated failures. \<^verbatim>\<open>Stellar_Delivery\<close>: the delivery queue, signed requests
  and retries. \<^verbatim>\<open>Stellar_Monitor\<close>: the streams and the event handlers. \<^verbatim>\<open>Stellar_Controller\<close>: the routes, with the
  invariants over all sequences of requests and background work.

  \<^bold>\<open>Audit and authentication\<close> (\<^verbatim>\<open>audit/\<close>, \<^verbatim>\<open>auth/\<close>, \<^verbatim>\<open>guards/\<close>). \<^verbatim>\<open>Audit_Chain\<close>: the log refines an append-only list, and
  tampering is detected up to collisions (\<^verbatim>\<open>Json_Injective\<close> shows that the signed text determines the entry). \<^verbatim>\<open>Audit_Migration\<close>: the migration that introduces the chain
  makes any existing log verify.
  \<^verbatim>\<open>Auth\<close> and \<^verbatim>\<open>Auth_Handlers\<close>: services, handlers and guards. \<^verbatim>\<open>Auth_Nonces\<close>: runs of the service and the one-time
  use of nonces; \<^verbatim>\<open>Auth_Wallets\<close>: one primary wallet per account, and the race of two logins; \<^verbatim>\<open>Auth_Tokens\<close>:
  rotation of refresh tokens; \<^verbatim>\<open>Auth_Audit\<close>: API tokens, and what a login does to the audit log.

  \<^bold>\<open>Limits\<close>. \<^verbatim>\<open>Throttle\<close> (\<^verbatim>\<open>throttle/\<close>): the counter, the violations and the ban. \<^verbatim>\<open>RateLimit\<close>
  (\<^verbatim>\<open>auth/services/rate-limit.service.ts\<close>): the sliding window agrees with a list of times.

  \<^bold>\<open>Voice\<close> (\<^verbatim>\<open>voice/\<close>). \<^verbatim>\<open>Voice_Store\<close> and \<^verbatim>\<open>Voice_Session\<close>: sessions in Redis, the conversation states and the
  cleanup; \<^verbatim>\<open>Voice_Session_Props\<close> and \<^verbatim>\<open>Voice_Limits\<close>: their invariant over all runs, the limit per user and how it
  is lost, the exact cleanup. \<^verbatim>\<open>Voice_Llm\<close> and \<^verbatim>\<open>Voice_Llm_Props\<close>: quotas, answer cache and pipeline.
  \<^verbatim>\<open>Voice_Gateway\<close> and \<^verbatim>\<open>Voice_Gateway_Props\<close>: the socket handlers and the streamed answers as steps that interleave; an
  answer reaches its user in full and in order, and what goes wrong when a quota refuses or a stranger takes over.
  \<^verbatim>\<open>Voice_Jobs\<close>: speech jobs, their table, service and processors, with the number of attempts.

  \<^bold>\<open>AI\<close> (\<^verbatim>\<open>ai/\<close>). \<^verbatim>\<open>Ai\<close>: circuit breaker, fallback, cache and quota; the breaker under interleaved requests, and what
  an outage does.

  \<^bold>\<open>Market data\<close> (\<^verbatim>\<open>market-data/\<close>). \<^verbatim>\<open>Market_Data\<close>: cache, snapshots, prices, news, invalidation and statistics.
  \<^verbatim>\<open>Market_Props\<close>: how old an answer can be, and which invalidations find nothing.

  \<^bold>\<open>Job queues\<close> (\<^verbatim>\<open>queue/\<close>). \<^verbatim>\<open>Job_Queue\<close>: \<^verbatim>\<open>queue.service.ts\<close> and its admin controller; \<^verbatim>\<open>Job_Queue_Props\<close>: what the
  dead-letter list keeps and gives back; \<^verbatim>\<open>Job_Processors\<close>: the three processors.

  \<^bold>\<open>Observability\<close> (\<^verbatim>\<open>observability/\<close>). \<^verbatim>\<open>Metrics\<close>: the table of metrics and the samples that every method records, all of them declared.
  \<^verbatim>\<open>Tracing\<close>: trace contexts in a store of objects, the log, and the interceptor, socket adapter and job wrapper as steps that interleave; the
  metrics are exact, a trace crosses process boundaries, and no trace is ever released.

  \<^bold>\<open>Chat\<close> (\<^verbatim>\<open>websocket/\<close>). \<^verbatim>\<open>Presence\<close>: presence data, gateway and adapter, with what the data mean after any sequence of events.

  \<^bold>\<open>Platform\<close> (\<^verbatim>\<open>main.ts\<close>, \<^verbatim>\<open>config/\<close>, \<^verbatim>\<open>health/\<close>, \<^verbatim>\<open>redis/\<close>, \<^verbatim>\<open>lib/stellar.ts\<close> of the frontend). \<^verbatim>\<open>Platform\<close>: the checks at the start of
  a process, the probes and the scan of the Redis keys, which returns exactly if the server ends it.

  \<^bold>\<open>Fuel and bounds.\<close> Loops over lists are structural. The polling loop of \<^verbatim>\<open>waitForWorkflow\<close> is a
  \<^theory_text>\<open>partial_function\<close>, proved to return, and so is the scan of keys, with the exact condition under which it returns; the retries of a step recurse on the retries left. The search for the
  first day of the next month tries 31 days, which every month allows.

  \<^bold>\<open>Not modelled.\<close> The pages of the frontend (rendering and fetches) and the contracts; modules that only wire classes together, DTO decorators,
  Swagger annotations, log lines other than those of \<^verbatim>\<open>observability/\<close>, and the formats of the logging library; the opening of connections;
  the creation of the database schema and the example services that nothing calls. Failures of the database and of
  Redis are modelled only where a method handles them on its own.
\<close>

end
